(* ===== verification/Prelude.thy ===== *)
theory Prelude
  imports Main "HOL-Library.Sublist" "HOL-Library.Multiset" "HOL-Library.Code_Target_Nat"
begin

text \<open>
  Shared vocabulary of the development.

  A Go function that may fail and that works on some state is modelled as a procedure: it
  takes the state and returns either an error or a value, together with the new state. The
  new state is returned on the error path too, because Go does not undo what happened
  before an early return. \<open>andThen\<close> is the idiom \<open>x, err := f(); if err != nil { return err }\<close>.

  \<open>keeps P m\<close> says that the procedure \<open>m\<close> preserves \<open>P\<close> on every path, success or error.

  A table of the SQL database is a list of rows. \<open>db\<close> wraps the tables with a schedule of
  faults: every statement consumes one flag, and a raised flag makes the statement fail
  without any effect. A theorem about all \<open>db\<close> values therefore covers every pattern of
  driver failures.

  Points in time are integers counting nanoseconds since the Unix epoch, and durations are
  integers counting nanoseconds, as in Go's \<open>time\<close> package; the saturation of \<open>Time.Sub\<close> at
  about 292 years is out of range of every clock the program reads.
\<close>

section \<open>Time\<close>

type_synonym time = int
type_synonym duration = int

definition Second :: duration where "Second = 1000000000"
definition Minute :: duration where "Minute = 60 * Second"
definition Hour :: duration where "Hour = 60 * Minute"

lemmas duration_defs = Second_def Minute_def Hour_def

text \<open>\<open>Time.Unix\<close>: whole seconds, rounded towards minus infinity.\<close>

definition unix :: "time \<Rightarrow> int" where
  "unix t = t div Second"

lemma unix_mono: "s \<le> t \<Longrightarrow> unix s \<le> unix t"
  by (simp add: unix_def Second_def zdiv_mono1)

text \<open>\<open>int64(d.Seconds())\<close> for a non-negative duration: whole seconds.\<close>

definition seconds :: "duration \<Rightarrow> int" where
  "seconds d = d div Second"

lemma seconds_mono: "c \<le> d \<Longrightarrow> seconds c \<le> seconds d"
  by (simp add: seconds_def Second_def zdiv_mono1)

lemma seconds_nonneg: "0 \<le> d \<Longrightarrow> 0 \<le> seconds d"
  by (simp add: seconds_def Second_def)

section \<open>Procedures\<close>

type_synonym ('w, 'e, 'a) proc = "'w \<Rightarrow> ('e + 'a) \<times> 'w"

definition ret :: "'a \<Rightarrow> ('w, 'e, 'a) proc" where
  "ret a w = (Inr a, w)"

definition throw :: "'e \<Rightarrow> ('w, 'e, 'a) proc" where
  "throw e w = (Inl e, w)"

definition andThen :: "('w, 'e, 'a) proc \<Rightarrow> ('a \<Rightarrow> ('w, 'e, 'b) proc) \<Rightarrow> ('w, 'e, 'b) proc" where
  "andThen m f w = (case m w of (Inl e, w') \<Rightarrow> (Inl e, w') | (Inr a, w') \<Rightarrow> f a w')"

text \<open>A pure check inside a procedure.\<close>

definition check :: "'e + 'a \<Rightarrow> ('w, 'e, 'a) proc" where
  "check r w = (r, w)"

text \<open>Replace the error of a procedure, as \<open>fmt.Errorf("...: %w", err)\<close> does.\<close>

definition wrap :: "('e \<Rightarrow> 'f) \<Rightarrow> ('w, 'e, 'a) proc \<Rightarrow> ('w, 'f, 'a) proc" where
  "wrap g m w = (case m w of (Inl e, w') \<Rightarrow> (Inl (g e), w') | (Inr a, w') \<Rightarrow> (Inr a, w'))"

lemmas proc_defs = ret_def throw_def andThen_def check_def wrap_def

lemma ret_iff [simp]: "ret a w = (r, w') \<longleftrightarrow> r = Inr a \<and> w' = w"
  by (auto simp: ret_def)

lemma throw_iff [simp]: "throw e w = (r, w') \<longleftrightarrow> r = Inl e \<and> w' = w"
  by (auto simp: throw_def)

lemma check_iff [simp]: "check c w = (r, w') \<longleftrightarrow> c = r \<and> w' = w"
  by (auto simp: check_def)

lemma andThen_Inr_iff:
  "andThen m f w = (Inr b, w'') \<longleftrightarrow> (\<exists>a w'. m w = (Inr a, w') \<and> f a w' = (Inr b, w''))"
  by (auto simp: andThen_def split: prod.splits sum.splits)

lemma andThen_Inl_iff:
  "andThen m f w = (Inl e, w'') \<longleftrightarrow>
     m w = (Inl e, w'') \<or> (\<exists>a w'. m w = (Inr a, w') \<and> f a w' = (Inl e, w''))"
  by (auto simp: andThen_def split: prod.splits sum.splits)

lemma wrap_Inr_iff [simp]: "wrap g m w = (Inr a, w') \<longleftrightarrow> m w = (Inr a, w')"
  by (auto simp: wrap_def split: prod.splits sum.splits)

lemma wrap_Inl_iff: "wrap g m w = (Inl f, w') \<longleftrightarrow> (\<exists>e. f = g e \<and> m w = (Inl e, w'))"
  by (auto simp: wrap_def split: prod.splits sum.splits)

lemma andThenE:
  assumes "andThen m f w = (r, w'')"
  obtains (failed) e where "m w = (Inl e, w'')" "r = Inl e"
    | (succeeded) a w' where "m w = (Inr a, w')" "f a w' = (r, w'')"
  using assms by (auto simp: andThen_def split: prod.splits sum.splits)

lemma andThen_ret [simp]: "andThen (ret a) f = f a"
  by (rule ext) (simp add: andThen_def ret_def)

lemma andThen_throw [simp]: "andThen (throw e) f = throw e"
  by (rule ext) (simp add: andThen_def throw_def)

lemma andThen_assoc: "andThen (andThen m f) g = andThen m (\<lambda>a. andThen (f a) g)"
  by (rule ext) (simp add: andThen_def split: prod.split sum.split)

section \<open>Invariants of procedures\<close>

named_theorems keeps_intros "rules showing that a procedure preserves a state property"

definition keeps :: "('w \<Rightarrow> bool) \<Rightarrow> ('w, 'e, 'a) proc \<Rightarrow> bool" where
  "keeps P m \<longleftrightarrow> (\<forall>w. P w \<longrightarrow> P (snd (m w)))"

lemma keepsI: "(\<And>w r w'. P w \<Longrightarrow> m w = (r, w') \<Longrightarrow> P w') \<Longrightarrow> keeps P m"
  unfolding keeps_def by (metis prod.collapse)

lemma keepsD: "keeps P m \<Longrightarrow> P w \<Longrightarrow> m w = (r, w') \<Longrightarrow> P w'"
  unfolding keeps_def by (metis snd_conv)

lemma keeps_ret [keeps_intros]: "keeps P (ret a)"
  by (simp add: keeps_def ret_def)

lemma keeps_throw [keeps_intros]: "keeps P (throw e)"
  by (simp add: keeps_def throw_def)

lemma keeps_check [keeps_intros]: "keeps P (check c)"
  by (simp add: keeps_def check_def)

lemma keeps_andThen [keeps_intros]:
  "keeps P m \<Longrightarrow> (\<And>a. keeps P (f a)) \<Longrightarrow> keeps P (andThen m f)"
  by (auto simp: keeps_def andThen_def split: prod.split sum.split)

lemma keeps_wrap [keeps_intros]: "keeps P m \<Longrightarrow> keeps P (wrap g m)"
  by (auto simp: keeps_def wrap_def split: prod.split sum.split)

lemma keeps_if [keeps_intros]:
  "(b \<Longrightarrow> keeps P m) \<Longrightarrow> (\<not> b \<Longrightarrow> keeps P m') \<Longrightarrow> keeps P (if b then m else m')"
  by simp

lemma keeps_option [keeps_intros]:
  "(x = None \<Longrightarrow> keeps P m) \<Longrightarrow> (\<And>a. x = Some a \<Longrightarrow> keeps P (f a)) \<Longrightarrow>
   keeps P (case x of None \<Rightarrow> m | Some a \<Rightarrow> f a)"
  by (cases x) auto

section \<open>The database\<close>

datatype db_error = DriverError

record 't db =
  tables :: 't
  faults :: "bool list"

text \<open>One SQL statement: a function of the tables that also computes the result.\<close>

definition stmt :: "('t \<Rightarrow> 'a \<times> 't) \<Rightarrow> ('t db, db_error, 'a) proc" where
  "stmt f d = (case faults d of
      True # fs \<Rightarrow> (Inl DriverError, d\<lparr>faults := fs\<rparr>)
    | _ \<Rightarrow> (Inr (fst (f (tables d))),
            d\<lparr>tables := snd (f (tables d)), faults := tl (faults d)\<rparr>))"

lemma stmt_Inr_iff:
  "stmt f d = (Inr a, d') \<longleftrightarrow>
     (\<forall>fs. faults d \<noteq> True # fs) \<and> a = fst (f (tables d)) \<and>
     d' = d\<lparr>tables := snd (f (tables d)), faults := tl (faults d)\<rparr>"
  by (auto simp: stmt_def split: list.splits bool.splits)

lemma stmt_Inl_iff:
  "stmt f d = (Inl e, d') \<longleftrightarrow>
     (\<exists>fs. faults d = True # fs \<and> d' = d\<lparr>faults := fs\<rparr>)"
  by (cases e) (auto simp: stmt_def split: list.splits bool.splits)

lemma stmt_ok: "faults d = [] \<Longrightarrow>
  stmt f d = (Inr (fst (f (tables d))), d\<lparr>tables := snd (f (tables d)), faults := []\<rparr>)"
  by (simp add: stmt_def)

lemma stmt_tablesD:
  "stmt f d = (r, d') \<Longrightarrow> tables d' = tables d \<or> tables d' = snd (f (tables d))"
  by (auto simp: stmt_def split: list.splits bool.splits)

lemma stmt_Inl_tables: "stmt f d = (Inl e, d') \<Longrightarrow> tables d' = tables d"
  by (auto simp: stmt_Inl_iff)

lemma stmt_Inr_tables:
  "stmt f d = (Inr a, d') \<Longrightarrow> a = fst (f (tables d)) \<and> tables d' = snd (f (tables d))"
  by (auto simp: stmt_Inr_iff)

lemma keeps_stmt: "(\<And>t. P t \<Longrightarrow> P (snd (f t))) \<Longrightarrow> keeps (\<lambda>d. P (tables d)) (stmt f)"
  by (rule keepsI) (auto dest: stmt_tablesD)

lemma keeps_no_faults_stmt: "keeps (\<lambda>d. faults d = []) (stmt f)"
  by (rule keepsI) (simp add: stmt_ok)

section \<open>Rows\<close>

text \<open>
  \<open>SELECT ... WHERE\<close> returning at most one row, \<open>UPDATE ... WHERE\<close>, \<open>DELETE ... WHERE\<close>.
\<close>

definition select1 :: "('r \<Rightarrow> bool) \<Rightarrow> 'r list \<Rightarrow> 'r option" where
  "select1 p rows = List.find p rows"

definition update_where :: "('r \<Rightarrow> bool) \<Rightarrow> ('r \<Rightarrow> 'r) \<Rightarrow> 'r list \<Rightarrow> 'r list" where
  "update_where p f rows = map (\<lambda>r. if p r then f r else r) rows"

definition delete_where :: "('r \<Rightarrow> bool) \<Rightarrow> 'r list \<Rightarrow> 'r list" where
  "delete_where p rows = filter (\<lambda>r. \<not> p r) rows"

definition count_where :: "('r \<Rightarrow> bool) \<Rightarrow> 'r list \<Rightarrow> nat" where
  "count_where p rows = length (filter p rows)"

lemma select1_Some_iff_unique:
  assumes "distinct (map k rows)"
  shows "select1 (\<lambda>r. k r = x) rows = Some r \<longleftrightarrow> r \<in> set rows \<and> k r = x"
  using assms by (induction rows) (auto simp: select1_def image_iff)

lemma select1_SomeD: "select1 p rows = Some r \<Longrightarrow> r \<in> set rows \<and> p r"
  by (induction rows) (auto simp: select1_def split: if_splits)

lemma select1_None_iff: "select1 p rows = None \<longleftrightarrow> (\<forall>r \<in> set rows. \<not> p r)"
  by (auto simp: select1_def find_None_iff)

lemma set_update_where:
  "r \<in> set (update_where p f rows) \<longleftrightarrow>
     (\<exists>q \<in> set rows. r = (if p q then f q else q))"
  by (auto simp: update_where_def)

lemma set_delete_where [simp]: "set (delete_where p rows) = {r \<in> set rows. \<not> p r}"
  by (auto simp: delete_where_def)

lemma map_key_update_where: "(\<And>r. k (f r) = k r) \<Longrightarrow> map k (update_where p f rows) = map k rows"
  by (simp add: update_where_def)

lemma distinct_key_delete_where:
  "distinct (map k rows) \<Longrightarrow> distinct (map k (delete_where p rows))"
  by (simp add: delete_where_def distinct_map_filter)

lemma select1_update_where_key:
  assumes "\<And>r. k (f r) = k r"
  shows "select1 (\<lambda>r. k r = x) (update_where p f rows) =
         map_option (\<lambda>r. if p r then f r else r) (select1 (\<lambda>r. k r = x) rows)"
  using assms by (induction rows) (auto simp: select1_def update_where_def)

lemma select1_delete_where:
  "(\<And>r. q r \<Longrightarrow> \<not> p r) \<Longrightarrow> select1 q (delete_where p rows) = select1 q rows"
  by (induction rows) (auto simp: select1_def delete_where_def)

lemma count_where_0_iff: "count_where p rows = 0 \<longleftrightarrow> (\<forall>r \<in> set rows. \<not> p r)"
  by (auto simp: count_where_def filter_empty_conv)

section \<open>Maps with a default, as Go indexes a map\<close>

definition mget :: "('k \<rightharpoonup> 'v) \<Rightarrow> 'k \<Rightarrow> 'v \<Rightarrow> 'v" where
  "mget m k d = (case m k of None \<Rightarrow> d | Some v \<Rightarrow> v)"

lemma mget_None [simp]: "m k = None \<Longrightarrow> mget m k d = d"
  by (simp add: mget_def)

lemma mget_Some [simp]: "m k = Some v \<Longrightarrow> mget m k d = v"
  by (simp add: mget_def)

lemma mget_upd [simp]: "mget (m(k \<mapsto> v)) j d = (if j = k then v else mget m j d)"
  by (simp add: mget_def)

text \<open>Remove every key whose value fails a test: a Go loop over the map with \<open>delete\<close>.\<close>

definition mfilter :: "('k \<Rightarrow> 'v \<Rightarrow> bool) \<Rightarrow> ('k \<rightharpoonup> 'v) \<Rightarrow> ('k \<rightharpoonup> 'v)" where
  "mfilter p m = (\<lambda>k. case m k of None \<Rightarrow> None | Some v \<Rightarrow> if p k v then Some v else None)"

lemma mfilter_Some_iff [simp]: "mfilter p m k = Some v \<longleftrightarrow> m k = Some v \<and> p k v"
  by (auto simp: mfilter_def split: option.splits)

lemma mfilter_None_iff: "mfilter p m k = None \<longleftrightarrow> (\<forall>v. m k = Some v \<longrightarrow> \<not> p k v)"
  by (auto simp: mfilter_def split: option.splits)

lemma dom_mfilter: "dom (mfilter p m) \<subseteq> dom m"
  by (auto simp: dom_def)

section \<open>First occurrences\<close>

text \<open>
  The Go loop with a \<open>seen\<close> map: keep the first occurrence of each element, in order.
\<close>

fun keep_first :: "'a set \<Rightarrow> 'a list \<Rightarrow> 'a list" where
  "keep_first seen [] = []"
| "keep_first seen (x # xs) =
     (if x \<in> seen then keep_first seen xs else x # keep_first (insert x seen) xs)"

lemma set_keep_first: "set (keep_first seen xs) = set xs - seen"
  by (induction seen xs rule: keep_first.induct) auto

lemma distinct_keep_first: "distinct (keep_first seen xs)"
  by (induction seen xs rule: keep_first.induct) (auto simp: set_keep_first)

lemma subseq_keep_first: "subseq (keep_first seen xs) xs"
  by (induction seen xs rule: keep_first.induct) auto

lemma keep_first_distinct:
  "distinct xs \<Longrightarrow> set xs \<inter> seen = {} \<Longrightarrow> keep_first seen xs = xs"
  by (induction seen xs rule: keep_first.induct) auto

section \<open>Lists\<close>

lemma filter_single:
  assumes "distinct xs" "x \<in> set xs" "\<And>y. y \<in> set xs \<Longrightarrow> P y \<longleftrightarrow> y = x"
  shows "filter P xs = [x]"
  using assms
proof (induction xs)
  case (Cons a xs)
  show ?case
  proof (cases "a = x")
    case True
    then have "filter P xs = []" using Cons.prems by (auto simp: filter_empty_conv)
    with True Cons.prems show ?thesis by simp
  next
    case False
    with Cons show ?thesis by simp
  qed
qed simp

text \<open>A stable sort by one bit is a stable partition.\<close>

lemma sort_key_bit: "sort_key (\<lambda>x. \<not> p x) xs = filter p xs @ filter (\<lambda>x. \<not> p x) xs"
proof (rule properties_for_sort_key)
  show "filter (\<lambda>y. (\<not> p x) = (\<not> p y)) (filter p xs @ filter (\<lambda>y. \<not> p y) xs) =
        filter (\<lambda>y. (\<not> p x) = (\<not> p y)) xs" for x
    by (cases "p x") (simp_all add: filter_empty_conv)
  have "sorted (map (\<lambda>y. \<not> p y) (filter p xs))" "sorted (map (\<lambda>y. \<not> p y) (filter (\<lambda>y. \<not> p y) xs))"
    by (induction xs) auto
  then show "sorted (map (\<lambda>y. \<not> p y) (filter p xs @ filter (\<lambda>y. \<not> p y) xs))"
    by (auto simp: sorted_append)
qed (induction xs, auto)

text \<open>In an append of all-\<open>p\<close> and none-\<open>p\<close> parts, what precedes a \<open>p\<close> is a \<open>p\<close>.\<close>

lemma nth_partition:
  assumes "i < j" "j < length (xs @ ys)" "p ((xs @ ys) ! j)"
    and "\<forall>x \<in> set xs. p x" "\<forall>y \<in> set ys. \<not> p y"
  shows "p ((xs @ ys) ! i)"
proof -
  have "j < length xs"
  proof (rule ccontr)
    assume "\<not> j < length xs"
    then have "(xs @ ys) ! j \<in> set ys" using assms(2) by (simp add: nth_append)
    with assms(3,5) show False by blast
  qed
  with assms(1,4) show ?thesis by (simp add: nth_append)
qed

end
