(* ===== verification/GoText.thy ===== *)
theory GoText
  imports Prelude
begin

text \<open>
  The parts of Go's standard library on strings and byte encodings that the program uses:
  \<open>strings\<close>, \<open>strconv\<close>, \<open>encoding/hex\<close> and the unpadded alphabets of \<open>encoding/base64\<close>.

  A Go string is a list of bytes, here a HOL \<open>string\<close>. \<open>TrimSpace\<close> and \<open>Fields\<close> know every
  Unicode space by its UTF-8 bytes. \<open>ToLower\<close> is modelled on ASCII letters, which is all the
  program feeds it: schemes, hosts, roles, header values and status words.
\<close>

section \<open>Characters\<close>

definition byte :: "nat \<Rightarrow> char" where "byte n = char_of n"

definition in_range :: "char \<Rightarrow> char \<Rightarrow> char \<Rightarrow> bool" where
  "in_range lo hi c \<longleftrightarrow> (of_char lo :: nat) \<le> of_char c \<and> of_char c \<le> (of_char hi :: nat)"

definition is_digit :: "char \<Rightarrow> bool" where "is_digit c = in_range CHR ''0'' CHR ''9'' c"
definition is_lower :: "char \<Rightarrow> bool" where "is_lower c = in_range CHR ''a'' CHR ''z'' c"
definition is_upper :: "char \<Rightarrow> bool" where "is_upper c = in_range CHR ''A'' CHR ''Z'' c"
definition is_letter :: "char \<Rightarrow> bool" where "is_letter c \<longleftrightarrow> is_lower c \<or> is_upper c"

lemmas char_class_defs = in_range_def is_digit_def is_lower_def is_upper_def is_letter_def

definition lower_char :: "char \<Rightarrow> char" where
  "lower_char c = (if is_upper c then byte (of_char c + 32) else c)"

definition ToLower :: "string \<Rightarrow> string" where "ToLower s = map lower_char s"

lemma lower_char_idem [simp]: "lower_char (lower_char c) = lower_char c"
proof (cases "is_upper c")
  case True
  then have "(of_char c :: nat) \<le> 90" "65 \<le> (of_char c :: nat)"
    by (simp_all add: char_class_defs)
  then show ?thesis by (simp add: lower_char_def byte_def char_class_defs)
qed (simp add: lower_char_def)

lemma ToLower_idem [simp]: "ToLower (ToLower s) = ToLower s"
  by (simp add: ToLower_def)

lemma length_ToLower [simp]: "length (ToLower s) = length s"
  by (simp add: ToLower_def)

section \<open>Spaces\<close>

text \<open>The UTF-8 encodings of the runes of \<open>unicode.IsSpace\<close>.\<close>

definition space_seqs :: "string list" where
  "space_seqs = map (map byte)
     ([[9], [10], [11], [12], [13], [32], [0xC2, 0x85], [0xC2, 0xA0], [0xE1, 0x9A, 0x80]] @
      map (\<lambda>n. [0xE2, 0x80, n]) [0x80..<0x8B] @
      [[0xE2, 0x80, 0xA8], [0xE2, 0x80, 0xA9], [0xE2, 0x80, 0xAF], [0xE2, 0x81, 0x9F],
       [0xE3, 0x80, 0x80]])"

definition leading :: "string list \<Rightarrow> string \<Rightarrow> string option" where
  "leading seqs s = List.find (\<lambda>p. p \<noteq> [] \<and> prefix p s) seqs"

lemma leading_SomeD: "leading seqs s = Some p \<Longrightarrow> p \<noteq> [] \<and> prefix p s \<and> p \<in> set seqs"
  unfolding leading_def by (induction seqs) (auto split: if_splits)

function strip_left :: "string list \<Rightarrow> string \<Rightarrow> string" where
  "strip_left seqs s =
    (case leading seqs s of None \<Rightarrow> s | Some p \<Rightarrow> strip_left seqs (drop (length p) s))"
  by auto
termination
  by (relation "measure (\<lambda>(_, s). length s)")
    (auto dest!: leading_SomeD simp: prefix_def)

declare strip_left.simps [simp del]

definition strip_right :: "string list \<Rightarrow> string \<Rightarrow> string" where
  "strip_right seqs s = rev (strip_left (map rev seqs) (rev s))"

definition TrimSpace :: "string \<Rightarrow> string" where
  "TrimSpace s = strip_right space_seqs (strip_left space_seqs s)"

text \<open>\<open>strings.TrimRight(s, "/")\<close> and the like: one ASCII character as cutset.\<close>

definition TrimRightChar :: "char \<Rightarrow> string \<Rightarrow> string" where
  "TrimRightChar c s = rev (dropWhile (\<lambda>x. x = c) (rev s))"

lemma strip_left_suffix: "suffix (strip_left seqs s) s"
proof (induction seqs s rule: strip_left.induct)
  case (1 seqs s)
  then show ?case
    by (subst strip_left.simps) (auto split: option.split intro: suffix_order.order_trans suffix_drop)
qed

lemma strip_left_done: "leading seqs (strip_left seqs s) = None"
proof (induction seqs s rule: strip_left.induct)
  case (1 seqs s)
  then show ?case
    by (subst strip_left.simps) (auto split: option.split)
qed

lemma strip_left_fix: "leading seqs s = None \<Longrightarrow> strip_left seqs s = s"
  by (subst strip_left.simps) simp

lemma strip_left_idem [simp]: "strip_left seqs (strip_left seqs s) = strip_left seqs s"
  by (intro strip_left_fix strip_left_done)

lemma strip_right_idem [simp]: "strip_right seqs (strip_right seqs s) = strip_right seqs s"
  by (simp add: strip_right_def)

lemma strip_right_prefix: "prefix (strip_right seqs s) s"
  using strip_left_suffix [of "map rev seqs" "rev s"] unfolding strip_right_def
  by (simp add: suffix_to_prefix)

lemma leading_None_prefix: "leading seqs s = None \<Longrightarrow> prefix t s \<Longrightarrow> leading seqs t = None"
  unfolding leading_def find_None_iff by (auto intro: prefix_order.order_trans)

lemma TrimSpace_idem [simp]: "TrimSpace (TrimSpace s) = TrimSpace s"
proof -
  have "leading space_seqs (strip_right space_seqs (strip_left space_seqs s)) = None"
    using strip_left_done strip_right_prefix by (rule leading_None_prefix)
  then show ?thesis unfolding TrimSpace_def by (simp add: strip_left_fix)
qed

lemma set_TrimSpace: "set (TrimSpace s) \<subseteq> set s"
  unfolding TrimSpace_def
  using set_mono_prefix [OF strip_right_prefix [of space_seqs "strip_left space_seqs s"]]
    set_mono_suffix [OF strip_left_suffix [of space_seqs s]] by blast

lemma length_TrimSpace: "length (TrimSpace s) \<le> length s"
  unfolding TrimSpace_def
  using prefix_length_le [OF strip_right_prefix [of space_seqs "strip_left space_seqs s"]]
    suffix_length_le [OF strip_left_suffix [of space_seqs s]] by linarith

lemma TrimSpace_Nil [simp]: "TrimSpace [] = []"
  using length_TrimSpace [of "[]"] by simp

text \<open>\<open>strings.Fields\<close>: the maximal runs between spaces.\<close>

function fields_from :: "string \<Rightarrow> string \<Rightarrow> string list" where
  "fields_from w s =
    (case s of
       [] \<Rightarrow> if w = [] then [] else [rev w]
     | c # cs \<Rightarrow>
        (case leading space_seqs s of
           Some p \<Rightarrow> (if w = [] then [] else [rev w]) @ fields_from [] (drop (length p) s)
         | None \<Rightarrow> fields_from (c # w) cs))"
  by auto
termination
  by (relation "measure (\<lambda>(_, s). length s)") (auto dest!: leading_SomeD)

declare fields_from.simps [simp del]

definition Fields :: "string \<Rightarrow> string list" where "Fields s = fields_from [] s"

section \<open>Searching and splitting\<close>

definition HasPrefix :: "string \<Rightarrow> string \<Rightarrow> bool" where "HasPrefix s p = prefix p s"
definition HasSuffix :: "string \<Rightarrow> string \<Rightarrow> bool" where "HasSuffix s p = suffix p s"
definition Contains :: "string \<Rightarrow> string \<Rightarrow> bool" where "Contains s p = sublist p s"
definition ContainsAny :: "string \<Rightarrow> string \<Rightarrow> bool" where
  "ContainsAny s cs = list_ex (\<lambda>c. c \<in> set cs) s"

definition TrimPrefix :: "string \<Rightarrow> string \<Rightarrow> string" where
  "TrimPrefix s p = (if prefix p s then drop (length p) s else s)"

definition EqualFold :: "string \<Rightarrow> string \<Rightarrow> bool" where
  "EqualFold s t \<longleftrightarrow> ToLower s = ToLower t"

text \<open>\<open>strings.Split\<close> with a one-byte separator, and \<open>strings.Cut\<close>.\<close>

fun Split :: "char \<Rightarrow> string \<Rightarrow> string list" where
  "Split c [] = [[]]"
| "Split c (x # xs) = (if x = c then [] # Split c xs
     else (case Split c xs of [] \<Rightarrow> [[x]] | y # ys \<Rightarrow> (x # y) # ys))"

definition Cut :: "char \<Rightarrow> string \<Rightarrow> (string \<times> string) option" where
  "Cut c s = (if c \<in> set s
     then Some (takeWhile (\<lambda>x. x \<noteq> c) s, tl (dropWhile (\<lambda>x. x \<noteq> c) s)) else None)"

fun Join :: "string list \<Rightarrow> string \<Rightarrow> string" where
  "Join [] sep = []"
| "Join [x] sep = x"
| "Join (x # y # xs) sep = x @ sep @ Join (y # xs) sep"

lemma Split_not_Nil [simp]: "Split c s \<noteq> []"
  by (induction c s rule: Split.induct) (auto split: list.split)

lemma Split_no_sep [simp]: "c \<notin> set s \<Longrightarrow> Split c s = [s]"
  by (induction c s rule: Split.induct) (auto split: list.split)

lemma Split_append: "c \<notin> set s \<Longrightarrow> Split c (s @ c # t) = s # Split c t"
  by (induction s) auto

lemma Split_sep: "c \<notin> set x" if "x \<in> set (Split c s)" for x
  using that by (induction c s arbitrary: x rule: Split.induct)
    (auto split: list.splits if_splits)

lemma Join_Split: "Join (Split c s) [c] = s"
proof (induction c s rule: Split.induct)
  case (2 c x xs)
  then show ?case
    by (cases "Split c xs"; cases "tl (Split c xs)") (auto split: list.splits)
qed simp

lemma Cut_append: "c \<notin> set s \<Longrightarrow> Cut c (s @ c # t) = Some (s, t)"
  unfolding Cut_def by (induction s) auto

lemma Cut_SomeD: "Cut c s = Some (a, b) \<Longrightarrow> s = a @ c # b \<and> c \<notin> set a"
proof -
  assume *: "Cut c s = Some (a, b)"
  then have c: "c \<in> set s" by (auto simp: Cut_def split: if_splits)
  then obtain ys zs where "s = ys @ c # zs" "c \<notin> set ys" by (meson split_list_first)
  with * show ?thesis by (simp add: Cut_append)
qed

section \<open>Numbers\<close>

definition digit_char :: "nat \<Rightarrow> char" where "digit_char n = byte (48 + n)"
definition digit_val :: "char \<Rightarrow> nat" where "digit_val c = of_char c - 48"

text \<open>\<open>%d\<close> of a non-negative number.\<close>

fun itoa :: "nat \<Rightarrow> string" where
  "itoa n = (if n < 10 then [digit_char n] else itoa (n div 10) @ [digit_char (n mod 10)])"

declare itoa.simps [simp del]

definition digits_val :: "string \<Rightarrow> nat" where
  "digits_val s = foldl (\<lambda>n c. 10 * n + digit_val c) 0 s"

text \<open>\<open>strconv.ParseUint(s, 10, bits)\<close>.\<close>

definition ParseUint :: "string \<Rightarrow> nat \<Rightarrow> nat option" where
  "ParseUint s bits = (if s \<noteq> [] \<and> list_all is_digit s \<and> digits_val s < 2 ^ bits
     then Some (digits_val s) else None)"

lemma digit_char_props:
  assumes "n < 10"
  shows "is_digit (digit_char n)" "digit_val (digit_char n) = n"
  using assms by (auto simp: digit_char_def digit_val_def char_class_defs byte_def)

lemma digits_val_snoc: "digits_val (s @ [c]) = 10 * digits_val s + digit_val c"
  by (simp add: digits_val_def)

lemma itoa_props: "itoa n \<noteq> [] \<and> list_all is_digit (itoa n) \<and> digits_val (itoa n) = n"
proof (induction n rule: itoa.induct)
  case (1 n)
  show ?case
  proof (cases "n < 10")
    case True
    then show ?thesis
      by (subst (1 2 3) itoa.simps) (simp add: digit_char_props digits_val_def)
  next
    case False
    with 1 show ?thesis
      by (subst (1 2 3) itoa.simps) (simp add: digit_char_props digits_val_snoc)
  qed
qed

lemma ParseUint_itoa: "n < 2 ^ bits \<Longrightarrow> ParseUint (itoa n) bits = Some n"
  by (simp add: ParseUint_def itoa_props)

lemma itoa_not_in: "\<not> is_digit c \<Longrightarrow> c \<notin> set (itoa n)"
  using itoa_props [of n] by (auto simp: list_all_iff)

lemma inj_itoa: "itoa m = itoa n \<Longrightarrow> m = n"
  by (metis itoa_props)

end
