(* ===== verification/Encoding.thy ===== *)
theory Encoding
  imports GoText
begin

text \<open>
  \<open>encoding/hex\<close> and the unpadded \<open>encoding/base64\<close> of Go, on bytes. The base64 alphabet is a
  parameter: \<open>RawURLEncoding\<close> writes session tokens, OAuth codes and token segments,
  \<open>RawStdEncoding\<close> the salt and key of a password hash. The locale \<open>base64_alphabet\<close> states what
  an alphabet must satisfy, and both alphabets are shown to satisfy it.
\<close>

section \<open>Hexadecimal\<close>

definition hex_digit :: "nat \<Rightarrow> char" where
  "hex_digit n = byte (if n < 10 then 48 + n else 87 + n)"

definition HexEncode :: "string \<Rightarrow> string" where
  "HexEncode bs = concat (map (\<lambda>b. [hex_digit (of_char b div 16), hex_digit (of_char b mod 16)]) bs)"

definition is_lower_hex_digit :: "char \<Rightarrow> bool" where
  "is_lower_hex_digit c \<longleftrightarrow> is_digit c \<or> in_range CHR ''a'' CHR ''f'' c"

lemma hex_digit_lower: "n < 16 \<Longrightarrow> is_lower_hex_digit (hex_digit n)"
  by (auto simp: is_lower_hex_digit_def hex_digit_def byte_def char_class_defs)

lemma HexEncode_lower: "list_all is_lower_hex_digit (HexEncode bs)"
proof -
  have "(of_char b :: nat) div 16 < 16" for b :: char
    using nat_of_char_less_256 [of b] by linarith
  then show ?thesis by (auto simp: HexEncode_def list_all_iff hex_digit_lower)
qed

lemma length_HexEncode: "length (HexEncode bs) = 2 * length bs"
  by (induction bs) (auto simp: HexEncode_def)

lemma hex_digit_inj: "m < 16 \<Longrightarrow> n < 16 \<Longrightarrow> hex_digit m = hex_digit n \<Longrightarrow> m = n"
  unfolding hex_digit_def byte_def by (auto split: if_splits)

lemma HexEncode_inj: "HexEncode a = HexEncode b \<Longrightarrow> a = b"
proof (induction a arbitrary: b)
  case Nil
  then show ?case by (cases b) (auto simp: HexEncode_def)
next
  case (Cons x a)
  then obtain y c where b: "b = y # c" by (cases b) (auto simp: HexEncode_def)
  have lt: "(of_char z :: nat) div 16 < 16" for z :: char
    using nat_of_char_less_256 [of z] by linarith
  from Cons.prems b have "hex_digit (of_char x div 16) = hex_digit (of_char y div 16)"
    "hex_digit (of_char x mod 16) = hex_digit (of_char y mod 16)" "HexEncode a = HexEncode c"
    by (auto simp: HexEncode_def)
  then have "of_char x div 16 = (of_char y div 16 :: nat)" "of_char x mod 16 = (of_char y mod 16 :: nat)"
    using hex_digit_inj lt by auto
  then have "(of_char x :: nat) = of_char y" by (metis div_mult_mod_eq)
  then show ?case using Cons.IH [OF \<open>HexEncode a = HexEncode c\<close>] b by simp
qed

section \<open>Base64\<close>

definition std_alphabet :: string where
  "std_alphabet = ''ABCDEFGHIJKLMNOPQRSTUVWXYZabcdefghijklmnopqrstuvwxyz0123456789+/''"

definition url_alphabet :: string where
  "url_alphabet = ''ABCDEFGHIJKLMNOPQRSTUVWXYZabcdefghijklmnopqrstuvwxyz0123456789-_''"

fun sextets :: "nat list \<Rightarrow> nat list" where
  "sextets [] = []"
| "sextets [a] = [a div 4, (a mod 4) * 16]"
| "sextets [a, b] = [a div 4, (a mod 4) * 16 + b div 16, (b mod 16) * 4]"
| "sextets (a # b # c # xs) =
     (a div 4) # ((a mod 4) * 16 + b div 16) # ((b mod 16) * 4 + c div 64) # (c mod 64) # sextets xs"

fun unsextets :: "nat list \<Rightarrow> nat list option" where
  "unsextets [] = Some []"
| "unsextets [w] = None"
| "unsextets [w, x] = Some [w * 4 + x div 16]"
| "unsextets [w, x, y] = Some [w * 4 + x div 16, (x mod 16) * 16 + y div 4]"
| "unsextets (w # x # y # z # ds) =
     map_option (\<lambda>r. (w * 4 + x div 16) # ((x mod 16) * 16 + y div 4) # ((y mod 4) * 64 + z) # r)
       (unsextets ds)"

fun index_of :: "char \<Rightarrow> string \<Rightarrow> nat option" where
  "index_of c [] = None"
| "index_of c (x # xs) = (if x = c then Some 0 else map_option Suc (index_of c xs))"

definition B64Encode :: "string \<Rightarrow> string \<Rightarrow> string" where
  "B64Encode alphabet bs = map (\<lambda>d. alphabet ! d) (sextets (map of_char bs))"

text \<open>\<open>DecodeString\<close> skips line breaks, and refuses any other byte outside the alphabet.\<close>

definition B64Decode :: "string \<Rightarrow> string \<Rightarrow> string option" where
  "B64Decode alphabet s =
    (let body = filter (\<lambda>c. c \<noteq> byte 10 \<and> c \<noteq> byte 13) s;
         digits = map (\<lambda>c. index_of c alphabet) body
     in if None \<in> set digits then None
        else map_option (map byte) (unsextets (map the digits)))"

lemma unsextets_sextets: "list_all (\<lambda>b. b < 256) bs \<Longrightarrow> unsextets (sextets bs) = Some bs"
proof (induction bs rule: sextets.induct)
  case (4 a b c xs)
  then have "b div 16 < 16" "c div 64 < 4" by auto
  then show ?case using 4 by simp
qed auto

lemma sextets_less: "list_all (\<lambda>b. b < 256) bs \<Longrightarrow> list_all (\<lambda>d. d < 64) (sextets bs)"
  by (induction bs rule: sextets.induct) auto

lemma bytes_less: "list_all (\<lambda>b. b < 256) (map of_char (bs :: string) :: nat list)"
  using nat_of_char_less_256 by (auto simp: list_all_iff)

lemma index_of_nth: "distinct al \<Longrightarrow> d < length al \<Longrightarrow> index_of (al ! d) al = Some d"
proof (induction al arbitrary: d)
  case (Cons x xs)
  then show ?case by (cases d) auto
qed simp

locale base64_alphabet =
  fixes alphabet :: string
  assumes distinct_alphabet: "distinct alphabet"
    and length_alphabet: "length alphabet = 64"
    and no_line_break: "byte 10 \<notin> set alphabet" "byte 13 \<notin> set alphabet"
begin

lemma encode_in_alphabet: "set (B64Encode alphabet bs) \<subseteq> set alphabet"
  using sextets_less [OF bytes_less [of bs]]
  by (auto simp: B64Encode_def list_all_iff length_alphabet)

lemma decode_encode: "B64Decode alphabet (B64Encode alphabet bs) = Some bs"
proof -
  let ?ds = "sextets (map of_char bs)"
  have less: "\<forall>d \<in> set ?ds. d < length alphabet"
    using sextets_less [OF bytes_less [of bs]] by (simp add: list_all_iff length_alphabet)
  have body: "filter (\<lambda>c. c \<noteq> byte 10 \<and> c \<noteq> byte 13) (B64Encode alphabet bs) = B64Encode alphabet bs"
    using encode_in_alphabet [of bs] no_line_break by (intro filter_True) auto
  have digits: "map (\<lambda>c. index_of c alphabet) (B64Encode alphabet bs) = map Some ?ds"
    using less by (auto simp: B64Encode_def index_of_nth [OF distinct_alphabet])
  have "unsextets ?ds = Some (map of_char bs)" by (rule unsextets_sextets [OF bytes_less])
  then show ?thesis unfolding B64Decode_def Let_def body digits
    by (simp add: comp_def image_iff byte_def)
qed

lemma encode_inj: "B64Encode alphabet a = B64Encode alphabet b \<Longrightarrow> a = b"
  by (metis decode_encode option.inject)

lemma encode_Nil_iff: "B64Encode alphabet bs = [] \<longleftrightarrow> bs = []"
  using decode_encode [of bs] decode_encode [of "[]"] by (auto simp: B64Encode_def)

end

interpretation b64std: base64_alphabet std_alphabet
  by unfold_locales code_simp+

interpretation b64url: base64_alphabet url_alphabet
  by unfold_locales code_simp+

lemma b64url_no_dot: "CHR ''.'' \<notin> set (B64Encode url_alphabet bs)"
  using b64url.encode_in_alphabet [of bs] by (auto simp: url_alphabet_def)

lemma b64std_no_dollar: "CHR ''$'' \<notin> set (B64Encode std_alphabet bs)"
  using b64std.encode_in_alphabet [of bs] by (auto simp: std_alphabet_def)

end
