(* ===== verification/AuthStore.thy ===== *)
theory AuthStore
  imports Encoding "HOL-Library.Char_ord" "HOL-Library.List_Lexorder" "HOL-Library.Product_Lexorder"
begin

text \<open>
  The credential, session and audit tables of \<open>src/internal/auth/store.go\<close>: one definition per
  method of \<open>Store\<close>, each built from one \<open>stmt\<close> per SQL statement. Two things depend on the
  database engine, and are modelled for both engines the program supports: \<open>LIKE\<close> folds ASCII
  case on SQLite only, and knows the escape character on PostgreSQL only.

  \<open>EnsureSchema\<close> creates the tables and keeps no state; the keys it declares (\<open>id = 1\<close> for the
  credential, \<open>id\<close> for a session) are the conflicts of the inserts below.
\<close>

section \<open>Tables\<close>

record Session =
  ses_id :: string
  ses_created :: int
  ses_expires :: int
  ses_last_seen :: int
  ses_ip :: string
  ses_ua :: string

record credential =
  cred_hash :: string
  cred_created :: int
  cred_updated :: int

record AuthEvent =
  ev_ts :: int
  ev_event :: string
  ev_ip :: string
  ev_ua :: string
  ev_detail :: string

record auth_tables =
  auth_credentials :: "credential option"
  auth_sessions :: "Session list"
  auth_events :: "AuthEvent list"

type_synonym 'a auth_sql = "(auth_tables db, db_error, 'a) proc"

section \<open>LIKE\<close>

datatype dialect = Sqlite | Postgres

definition like_char :: "dialect \<Rightarrow> char \<Rightarrow> char \<Rightarrow> bool" where
  "like_char d p c = (case d of Sqlite \<Rightarrow> lower_char p = lower_char c | Postgres \<Rightarrow> p = c)"

fun like :: "dialect \<Rightarrow> string \<Rightarrow> string \<Rightarrow> bool" where
  "like d [] s = (s = [])"
| "like d (p # ps) s =
    (if p = CHR ''%'' then
       like d ps s \<or> (case s of [] \<Rightarrow> False | c # cs \<Rightarrow> like d (p # ps) cs)
     else if d = Postgres \<and> p = byte 92 then
       (case ps of [] \<Rightarrow> False
        | q # qs \<Rightarrow> (case s of [] \<Rightarrow> False | c # cs \<Rightarrow> q = c \<and> like d qs cs))
     else if p = CHR ''_'' then (case s of [] \<Rightarrow> False | c # cs \<Rightarrow> like d ps cs)
     else (case s of [] \<Rightarrow> False | c # cs \<Rightarrow> like_char d p c \<and> like d ps cs))"

section \<open>Statements\<close>

definition CredentialHash :: "string auth_sql" where
  "CredentialHash = stmt (\<lambda>t.
     ((case auth_credentials t of None \<Rightarrow> [] | Some c \<Rightarrow> cred_hash c), t))"

definition InsertCredentialIfAbsent :: "string \<Rightarrow> time \<Rightarrow> bool auth_sql" where
  "InsertCredentialIfAbsent hash now = stmt (\<lambda>t.
     case auth_credentials t of
       None \<Rightarrow> (True, t\<lparr>auth_credentials :=
          Some \<lparr>cred_hash = hash, cred_created = unix now, cred_updated = unix now\<rparr>\<rparr>)
     | Some _ \<Rightarrow> (False, t))"

definition UpdateCredentialHash :: "string \<Rightarrow> time \<Rightarrow> unit auth_sql" where
  "UpdateCredentialHash hash now = stmt (\<lambda>t. ((), t\<lparr>auth_credentials :=
     map_option (\<lambda>c. c\<lparr>cred_hash := hash, cred_updated := unix now\<rparr>) (auth_credentials t)\<rparr>))"

text \<open>The primary key makes a second insert of an id fail.\<close>

definition CreateSession :: "Session \<Rightarrow> unit auth_sql" where
  "CreateSession s = andThen
     (stmt (\<lambda>t. if select1 (\<lambda>r. ses_id r = ses_id s) (auth_sessions t) = None
        then (True, t\<lparr>auth_sessions := auth_sessions t @ [s]\<rparr>) else (False, t)))
     (\<lambda>inserted. if inserted then ret () else throw DriverError)"

definition SessionByID :: "string \<Rightarrow> Session option auth_sql" where
  "SessionByID sid = stmt (\<lambda>t. (select1 (\<lambda>r. ses_id r = sid) (auth_sessions t), t))"

definition TouchSession :: "string \<Rightarrow> int \<Rightarrow> int \<Rightarrow> unit auth_sql" where
  "TouchSession sid lastSeenAt expiresAt = stmt (\<lambda>t. ((), t\<lparr>auth_sessions :=
     update_where (\<lambda>r. ses_id r = sid)
       (\<lambda>r. r\<lparr>ses_last_seen := lastSeenAt, ses_expires := expiresAt\<rparr>) (auth_sessions t)\<rparr>))"

definition DeleteSession :: "string \<Rightarrow> unit auth_sql" where
  "DeleteSession sid = stmt (\<lambda>t. ((), t\<lparr>auth_sessions :=
     delete_where (\<lambda>r. ses_id r = sid) (auth_sessions t)\<rparr>))"

definition DeleteSessionByPrefix :: "dialect \<Rightarrow> string \<Rightarrow> nat auth_sql" where
  "DeleteSessionByPrefix d pre = stmt (\<lambda>t.
     (count_where (\<lambda>r. like d (pre @ ''%'') (ses_id r)) (auth_sessions t),
      t\<lparr>auth_sessions := delete_where (\<lambda>r. like d (pre @ ''%'') (ses_id r)) (auth_sessions t)\<rparr>))"

definition DeleteOtherSessions :: "string \<Rightarrow> unit auth_sql" where
  "DeleteOtherSessions keepID = stmt (\<lambda>t. ((), t\<lparr>auth_sessions :=
     delete_where (\<lambda>r. ses_id r \<noteq> keepID) (auth_sessions t)\<rparr>))"

definition sessionListLimit :: nat where "sessionListLimit = 200"

record SessionPage =
  page_sessions :: "Session list"
  page_total :: nat
  page_truncated :: bool

definition newest_sessions :: "Session list \<Rightarrow> Session list" where
  "newest_sessions rows = rev (sort_key (\<lambda>r. (ses_last_seen r, ses_id r)) rows)"

definition store_ListSessions :: "SessionPage auth_sql" where
  "store_ListSessions = andThen (stmt (\<lambda>t. (length (auth_sessions t), t)))
     (\<lambda>total. andThen (stmt (\<lambda>t. (take sessionListLimit (newest_sessions (auth_sessions t)), t)))
       (\<lambda>out. ret \<lparr>page_sessions = out, page_total = total,
                   page_truncated = (length out < total)\<rparr>))"

definition DeleteExpiredSessions :: "time \<Rightarrow> nat auth_sql" where
  "DeleteExpiredSessions now = stmt (\<lambda>t.
     (count_where (\<lambda>r. ses_expires r < unix now) (auth_sessions t),
      t\<lparr>auth_sessions := delete_where (\<lambda>r. ses_expires r < unix now) (auth_sessions t)\<rparr>))"

definition InsertAuthEvent :: "string \<Rightarrow> string \<Rightarrow> string \<Rightarrow> string \<Rightarrow> int \<Rightarrow> unit auth_sql" where
  "InsertAuthEvent event ip userAgent detail ts = stmt (\<lambda>t. ((), t\<lparr>auth_events :=
     auth_events t @ [\<lparr>ev_ts = ts, ev_event = event, ev_ip = ip, ev_ua = userAgent,
       ev_detail = detail\<rparr>]\<rparr>))"

text \<open>The rows are stored in the order of their ids.\<close>

definition store_ListAuthEvents :: "int \<Rightarrow> AuthEvent list auth_sql" where
  "store_ListAuthEvents limit =
     (if limit \<le> 0 then ret []
      else (let limit' = (if limit > 500 then 500 else limit) in
        stmt (\<lambda>t. (take (nat limit') (rev (sort_key ev_ts (auth_events t))), t))))"

definition store_SweepAuthEvents :: "int \<Rightarrow> nat auth_sql" where
  "store_SweepAuthEvents cutoffEpoch = stmt (\<lambda>t.
     (count_where (\<lambda>e. ev_ts e < cutoffEpoch) (auth_events t),
      t\<lparr>auth_events := delete_where (\<lambda>e. ev_ts e < cutoffEpoch) (auth_events t)\<rparr>))"

lemmas auth_sql_defs = CredentialHash_def InsertCredentialIfAbsent_def UpdateCredentialHash_def
  CreateSession_def SessionByID_def TouchSession_def DeleteSession_def DeleteSessionByPrefix_def
  DeleteOtherSessions_def store_ListSessions_def DeleteExpiredSessions_def InsertAuthEvent_def
  store_ListAuthEvents_def store_SweepAuthEvents_def

section \<open>Lemmas\<close>

lemma lower_hex_char:
  assumes "is_lower_hex_digit c"
  shows "c \<noteq> CHR ''%''" "c \<noteq> CHR ''_''" "c \<noteq> byte 92" "lower_char c = c"
  using assms by (auto simp: is_lower_hex_digit_def char_class_defs lower_char_def byte_def)

lemma like_percent: "like d ''%'' s"
  by (induction s) auto

text \<open>On hexadecimal text \<open>LIKE\<close> with a trailing percent sign is exactly the prefix test.\<close>

lemma like_prefix:
  assumes "list_all is_lower_hex_digit p" "list_all is_lower_hex_digit s"
  shows "like d (p @ ''%'') s \<longleftrightarrow> prefix p s"
  using assms
proof (induction p arbitrary: s)
  case Nil
  then show ?case using like_percent [of d s] by simp
next
  case (Cons c p)
  note c = lower_hex_char [of c]
  show ?case
  proof (cases s)
    case (Cons x xs)
    with Cons.prems c lower_hex_char(4) [of x] have "like_char d c x \<longleftrightarrow> c = x"
      by (cases d) (auto simp: like_char_def)
    with Cons Cons.prems Cons.IH [of xs] c show ?thesis by simp
  qed (use Cons.prems c in auto)
qed

text \<open>What each statement that the service follows up on has done when it succeeded.\<close>

lemma CredentialHash_D: "CredentialHash d = (r, d') \<Longrightarrow> tables d' = tables d"
  unfolding CredentialHash_def by (drule stmt_tablesD) simp

lemma SessionByID_D: "SessionByID sid d = (r, d') \<Longrightarrow> tables d' = tables d"
  unfolding SessionByID_def by (drule stmt_tablesD) simp

lemma SessionByID_Inr:
  "SessionByID sid d = (Inr x, d') \<Longrightarrow>
   select1 (\<lambda>r. ses_id r = sid) (auth_sessions (tables d)) = x \<and> tables d' = tables d"
  unfolding SessionByID_def by (drule stmt_Inr_tables) simp

lemma TouchSession_D:
  "TouchSession sid a e d = (r, d') \<Longrightarrow> tables d' = tables d \<or>
   tables d' = (tables d)\<lparr>auth_sessions := update_where (\<lambda>r. ses_id r = sid)
       (\<lambda>r. r\<lparr>ses_last_seen := a, ses_expires := e\<rparr>) (auth_sessions (tables d))\<rparr>"
  unfolding TouchSession_def by (drule stmt_tablesD) simp

lemma CreateSession_D:
  assumes "CreateSession s d = (r, d')"
  shows "(\<exists>e. r = Inl e \<and> tables d' = tables d) \<or>
    (r = Inr () \<and> (\<forall>q \<in> set (auth_sessions (tables d)). ses_id q \<noteq> ses_id s) \<and>
     tables d' = (tables d)\<lparr>auth_sessions := auth_sessions (tables d) @ [s]\<rparr>)"
  using assms unfolding CreateSession_def
  by (elim andThenE) (auto dest!: stmt_Inl_tables stmt_Inr_tables simp: select1_None_iff
      split: if_splits)

lemma InsertCredential_D:
  assumes "InsertCredentialIfAbsent hash t d = (r, d')"
  shows "auth_sessions (tables d') = auth_sessions (tables d) \<and>
    (auth_credentials (tables d) \<noteq> None \<longrightarrow> auth_credentials (tables d') \<noteq> None) \<and>
    (r = Inr True \<longrightarrow> auth_credentials (tables d) = None \<and> auth_credentials (tables d') \<noteq> None)"
  using assms unfolding InsertCredentialIfAbsent_def
  by (cases r) (auto dest!: stmt_Inl_tables stmt_Inr_tables split: option.splits)

lemma UpdateCredential_D:
  assumes "UpdateCredentialHash hash t d = (r, d')"
  shows "auth_sessions (tables d') = auth_sessions (tables d) \<and>
    (auth_credentials (tables d) \<noteq> None \<longrightarrow> auth_credentials (tables d') \<noteq> None)"
  using assms unfolding UpdateCredentialHash_def by (auto dest!: stmt_tablesD)

end
