(* ===== verification/Password.thy ===== *)
theory Password
  imports Encoding
begin

text \<open>
  Password hashing, \<open>src/internal/auth/password.go\<close>, and the password policy of
  \<open>src/internal/auth/service.go\<close>.

  Argon2id itself is a third-party package: \<open>IDKey password salt time memory threads keyLen\<close> is
  an argument of the definitions. The 16 random bytes of the salt are an argument too, \<open>None\<close>
  when the random source fails. \<open>fmt.Sscanf\<close> with the format \<open>v=%d\<close> is modelled in full: the
  literal, optional spaces, an optional sign, digits that fit an \<open>int\<close>, and anything after them.
\<close>

section \<open>The code\<close>

datatype weak_reason = TooShort | TooLong | NoLetterOrDigit

datatype auth_error =
    ErrInvalidCredentials | ErrAlreadyInitialized | ErrNotInitialized | ErrEnvManaged
  | ErrWeakPassword weak_reason | ErrSessionNotFound | ErrRateLimited
  | ErrMalformedPHC | ErrRandom | ErrStore

type_synonym kdf = "string \<Rightarrow> string \<Rightarrow> nat \<Rightarrow> nat \<Rightarrow> nat \<Rightarrow> nat \<Rightarrow> string"

definition argonTime :: nat where "argonTime = 3"
definition argonMemory :: nat where "argonMemory = 64 * 1024"
definition argonThreads :: nat where "argonThreads = 2"
definition argonKeyLen :: nat where "argonKeyLen = 32"
definition saltLen :: nat where "saltLen = 16"
definition argonMaxTime :: nat where "argonMaxTime = 10"
definition argonMaxMemory :: nat where "argonMaxMemory = 2 ^ 20"
definition argonMaxThreads :: nat where "argonMaxThreads = 8"
definition argonVersion :: nat where "argonVersion = 19"
definition MinPasswordLen :: nat where "MinPasswordLen = 12"
definition MaxPasswordLen :: nat where "MaxPasswordLen = 256"

lemmas argon_consts = argonTime_def argonMemory_def argonThreads_def argonKeyLen_def saltLen_def
  argonMaxTime_def argonMaxMemory_def argonMaxThreads_def argonVersion_def

definition phc_string :: "string \<Rightarrow> string \<Rightarrow> string" where
  "phc_string salt key =
     CHR ''$'' # ''argon2id'' @ CHR ''$'' # (''v='' @ itoa argonVersion) @ CHR ''$'' #
     (''m='' @ itoa argonMemory @ '',t='' @ itoa argonTime @ '',p='' @ itoa argonThreads) @
     CHR ''$'' # B64Encode std_alphabet salt @ CHR ''$'' # B64Encode std_alphabet key"

definition HashPassword :: "kdf \<Rightarrow> string option \<Rightarrow> string \<Rightarrow> auth_error + string" where
  "HashPassword IDKey salt password =
    (case salt of None \<Rightarrow> Inl ErrRandom
     | Some s \<Rightarrow> Inr (phc_string s
         (IDKey password s argonTime argonMemory argonThreads argonKeyLen)))"

text \<open>\<open>fmt.Sscanf(s, "v=%d", &version)\<close>; blanks before the number are skipped.\<close>

definition scan_version :: "string \<Rightarrow> int option" where
  "scan_version s =
    (if \<not> prefix ''v='' s then None
     else
       (let r = dropWhile (\<lambda>c. c \<in> {CHR '' '', byte 9, byte 11, byte 12}) (drop 2 s);
            (neg, body) = (case r of [] \<Rightarrow> (False, [])
              | c # cs \<Rightarrow> if c = CHR ''-'' then (True, cs)
                          else if c = CHR ''+'' then (False, cs) else (False, c # cs));
            ds = takeWhile is_digit body;
            v = (if neg then - int (digits_val ds) else int (digits_val ds))
        in if ds = [] \<or> v < - (2 ^ 63) \<or> 2 ^ 63 \<le> v then None else Some v))"

record phc_params =
  par_m :: nat
  par_t :: nat
  par_p :: nat

text \<open>The loop over the comma-separated parameters; a later one overwrites an earlier one.\<close>

fun phc_loop :: "string list \<Rightarrow> phc_params \<Rightarrow> phc_params option" where
  "phc_loop [] a = Some a"
| "phc_loop (kv # kvs) a =
    (case Cut CHR ''='' kv of None \<Rightarrow> None
     | Some (k, v) \<Rightarrow>
        (case ParseUint v 32 of None \<Rightarrow> None
         | Some n \<Rightarrow>
            (if k = ''m'' then phc_loop kvs (a\<lparr>par_m := n\<rparr>)
             else if k = ''t'' then phc_loop kvs (a\<lparr>par_t := n\<rparr>)
             else if k = ''p'' then phc_loop kvs (a\<lparr>par_p := n\<rparr>)
             else None)))"

record phc =
  phc_salt :: string
  phc_key :: string
  phc_time :: nat
  phc_memory :: nat
  phc_threads :: nat

definition decodePHC :: "string \<Rightarrow> auth_error + phc" where
  "decodePHC s =
    (let parts = Split CHR ''$'' s in
     if length parts \<noteq> 6 \<or> parts ! 1 \<noteq> ''argon2id'' then Inl ErrMalformedPHC
     else if scan_version (parts ! 2) \<noteq> Some (int argonVersion) then Inl ErrMalformedPHC
     else
       (let params = Split CHR '','' (parts ! 3) in
        if length params \<noteq> 3 then Inl ErrMalformedPHC
        else
          (case phc_loop params \<lparr>par_m = 0, par_t = 0, par_p = 0\<rparr> of
             None \<Rightarrow> Inl ErrMalformedPHC
           | Some a \<Rightarrow>
              if par_m a = 0 \<or> par_t a = 0 \<or> par_p a = 0 \<or> par_p a > argonMaxThreads
              then Inl ErrMalformedPHC
              else if par_m a > argonMaxMemory \<or> par_t a > argonMaxTime then Inl ErrMalformedPHC
              else
                (case B64Decode std_alphabet (parts ! 4) of
                   None \<Rightarrow> Inl ErrMalformedPHC
                 | Some salt \<Rightarrow>
                    if salt = [] then Inl ErrMalformedPHC
                    else
                      (case B64Decode std_alphabet (parts ! 5) of
                         None \<Rightarrow> Inl ErrMalformedPHC
                       | Some key \<Rightarrow>
                          if key = [] then Inl ErrMalformedPHC
                          else Inr \<lparr>phc_salt = salt, phc_key = key, phc_time = par_t a,
                                    phc_memory = par_m a, phc_threads = par_p a\<rparr>)))))"

definition VerifyPassword :: "kdf \<Rightarrow> string \<Rightarrow> string \<Rightarrow> auth_error + bool" where
  "VerifyPassword IDKey password s =
    (case decodePHC s of Inl e \<Rightarrow> Inl e
     | Inr h \<Rightarrow>
        (let candidate = IDKey password (phc_salt h) (phc_time h) (phc_memory h) (phc_threads h)
           (length (phc_key h))
         in Inr (phc_key h = candidate)))"

text \<open>The policy; the loop stops early, which does not change its value.\<close>

fun letter_digit_loop :: "string \<Rightarrow> bool \<Rightarrow> bool \<Rightarrow> bool" where
  "letter_digit_loop [] l d = False"
| "letter_digit_loop (c # cs) l d =
    (let (l', d') = (if is_letter c then (True, d) else if is_digit c then (l, True) else (l, d))
     in if l' \<and> d' then True else letter_digit_loop cs l' d')"

definition passwordHasLetterAndDigit :: "string \<Rightarrow> bool" where
  "passwordHasLetterAndDigit password = letter_digit_loop password False False"

definition validatePassword :: "string \<Rightarrow> auth_error + unit" where
  "validatePassword password =
    (if length password < MinPasswordLen then Inl (ErrWeakPassword TooShort)
     else if length password > MaxPasswordLen then Inl (ErrWeakPassword TooLong)
     else if \<not> passwordHasLetterAndDigit password then Inl (ErrWeakPassword NoLetterOrDigit)
     else Inr ())"

section \<open>Lemmas\<close>

lemma letter_not_digit: "is_letter c \<Longrightarrow> \<not> is_digit c"
  by (auto simp: char_class_defs)

lemma letter_digit_loop_iff:
  "\<not> (l \<and> d) \<Longrightarrow> letter_digit_loop cs l d \<longleftrightarrow>
     (l \<or> (\<exists>c \<in> set cs. is_letter c)) \<and> (d \<or> (\<exists>c \<in> set cs. is_digit c))"
  by (induction cs l d rule: letter_digit_loop.induct)
    (auto simp: Let_def letter_not_digit split: if_splits)

lemma passwordHasLetterAndDigit_iff:
  "passwordHasLetterAndDigit p \<longleftrightarrow> (\<exists>c \<in> set p. is_letter c) \<and> (\<exists>c \<in> set p. is_digit c)"
  by (simp add: passwordHasLetterAndDigit_def letter_digit_loop_iff)

lemma Split_phc_string:
  "Split CHR ''$'' (phc_string salt key) =
     [[], ''argon2id'', ''v='' @ itoa argonVersion,
      ''m='' @ itoa argonMemory @ '',t='' @ itoa argonTime @ '',p='' @ itoa argonThreads,
      B64Encode std_alphabet salt, B64Encode std_alphabet key]"
proof -
  have d: "CHR ''$'' \<notin> set (itoa n)" for n by (rule itoa_not_in) (simp add: char_class_defs)
  have 1: "CHR ''$'' \<notin> set (''argon2id'')" by simp
  have 2: "CHR ''$'' \<notin> set (''v='' @ itoa argonVersion)" using d by simp
  have 3: "CHR ''$'' \<notin> set (''m='' @ itoa argonMemory @ '',t='' @ itoa argonTime @ '',p='' @ itoa argonThreads)"
    using d by simp
  show ?thesis unfolding phc_string_def
    by (simp only: Split.simps if_True simp_thms Split_append [OF 1] Split_append [OF 2] Split_append [OF 3]
        Split_append [OF b64std_no_dollar] Split_no_sep [OF b64std_no_dollar])
qed

lemma scan_version_itoa: "n < 2 ^ 63 \<Longrightarrow> scan_version (''v='' @ itoa n) = Some (int n)"
proof -
  assume n: "n < 2 ^ 63"
  obtain c cs where c: "itoa n = c # cs" "is_digit c"
    using itoa_props [of n] by (cases "itoa n") auto
  have "takeWhile is_digit (itoa n) = itoa n"
    using itoa_props [of n] by (simp add: takeWhile_eq_all_conv list_all_iff)
  moreover have "c \<notin> {CHR '' '', byte 9, byte 11, byte 12, CHR ''-'', CHR ''+''}"
    using c(2) by (auto simp: char_class_defs byte_def)
  ultimately show ?thesis using c itoa_props [of n] n
    by (simp add: scan_version_def Let_def takeWhile_eq_all_conv [THEN iffD2])
qed

lemma phc_loop_itoa:
  "phc_loop [''m='' @ itoa m, ''t='' @ itoa t, ''p='' @ itoa p] a =
     (if m < 2 ^ 32 \<and> t < 2 ^ 32 \<and> p < 2 ^ 32
      then Some (a\<lparr>par_m := m, par_t := t, par_p := p\<rparr>) else None)"
proof -
  have cut: "Cut CHR ''='' ([c] @ CHR ''='' # s) = Some ([c], s)" if "c \<noteq> CHR ''=''" for c s
    using that by (intro Cut_append) auto
  have "ParseUint (itoa n) 32 = (if n < 2 ^ 32 then Some n else None)" for n
    by (simp add: ParseUint_def itoa_props)
  with cut [of "CHR ''m''" "itoa m"] cut [of "CHR ''t''" "itoa t"] cut [of "CHR ''p''" "itoa p"]
  show ?thesis by simp
qed

lemma decodePHC_parts:
  assumes "Split CHR ''$'' s = [x, ''argon2id'', v, ps, salt64, key64]"
    and "scan_version v = Some (int argonVersion)"
    and "Split CHR '','' ps = params" "length params = 3"
    and "phc_loop params \<lparr>par_m = 0, par_t = 0, par_p = 0\<rparr> = Some a"
    and "par_m a \<noteq> 0" "par_t a \<noteq> 0" "par_p a \<noteq> 0"
    and "par_m a \<le> argonMaxMemory" "par_t a \<le> argonMaxTime" "par_p a \<le> argonMaxThreads"
    and "B64Decode std_alphabet salt64 = Some salt" "salt \<noteq> []"
    and "B64Decode std_alphabet key64 = Some key" "key \<noteq> []"
  shows "decodePHC s = Inr \<lparr>phc_salt = salt, phc_key = key, phc_time = par_t a,
           phc_memory = par_m a, phc_threads = par_p a\<rparr>"
  using assms by (simp add: decodePHC_def Let_def)

lemma decodePHC_phc_string:
  assumes "salt \<noteq> []" "key \<noteq> []"
  shows "decodePHC (phc_string salt key) =
     Inr \<lparr>phc_salt = salt, phc_key = key, phc_time = argonTime, phc_memory = argonMemory,
          phc_threads = argonThreads\<rparr>"
proof -
  have d: "CHR '','' \<notin> set (itoa n)" for n by (rule itoa_not_in) (simp add: char_class_defs)
  have "Split CHR '','' ((''m='' @ itoa argonMemory) @ CHR '','' # (''t='' @ itoa argonTime) @
          CHR '','' # ''p='' @ itoa argonThreads) =
        [''m='' @ itoa argonMemory, ''t='' @ itoa argonTime, ''p='' @ itoa argonThreads]"
    using d by (subst Split_append, simp)+ simp
  then have params: "Split CHR '','' (''m='' @ itoa argonMemory @ '',t='' @ itoa argonTime @
          '',p='' @ itoa argonThreads) =
        [''m='' @ itoa argonMemory, ''t='' @ itoa argonTime, ''p='' @ itoa argonThreads]"
    by simp
  have version: "scan_version (''v='' @ itoa argonVersion) = Some (int argonVersion)"
    by (rule scan_version_itoa) (simp add: argonVersion_def)
  have loop: "phc_loop [''m='' @ itoa argonMemory, ''t='' @ itoa argonTime, ''p='' @ itoa argonThreads]
      \<lparr>par_m = 0, par_t = 0, par_p = 0\<rparr> =
      Some \<lparr>par_m = argonMemory, par_t = argonTime, par_p = argonThreads\<rparr>"
    unfolding phc_loop_itoa by (simp add: argon_consts)
  show ?thesis
    using decodePHC_parts [OF Split_phc_string version params _ loop _ _ _ _ _ _
        b64std.decode_encode assms(1) b64std.decode_encode assms(2)]
    by (simp add: argon_consts)
qed

lemma decodePHC_InrD:
  assumes "decodePHC s = Inr h"
  shows "1 \<le> phc_time h \<and> phc_time h \<le> argonMaxTime \<and>
         1 \<le> phc_memory h \<and> phc_memory h \<le> argonMaxMemory \<and>
         1 \<le> phc_threads h \<and> phc_threads h \<le> argonMaxThreads \<and>
         phc_salt h \<noteq> [] \<and> phc_key h \<noteq> []"
  using assms unfolding decodePHC_def Let_def
  by (auto split: if_splits option.splits)

text \<open>
  Stored hashes verify: the string \<open>HashPassword\<close> stores is accepted by the parser, and
  \<open>VerifyPassword\<close> answers true exactly for the passwords that Argon2id maps to the same key
  under the stored salt - in particular for the password itself. Argon2id is only assumed to
  return as many bytes as it is asked for.
\<close>

theorem verify_hash_roundtrip:
  assumes "\<And>pw s t m p n. length (IDKey pw s t m p n) = n"
    and "length salt = saltLen"
  shows "\<exists>phc. HashPassword IDKey (Some salt) password = Inr phc \<and>
    (\<forall>q. VerifyPassword IDKey q phc = Inr
       (IDKey password salt argonTime argonMemory argonThreads argonKeyLen =
        IDKey q salt argonTime argonMemory argonThreads argonKeyLen))"
proof -
  let ?key = "IDKey password salt argonTime argonMemory argonThreads argonKeyLen"
  have "salt \<noteq> []" "?key \<noteq> []"
    using assms(2) assms(1) [of password salt argonTime argonMemory argonThreads argonKeyLen]
    by (auto simp: argon_consts)
  then show ?thesis
    by (simp add: HashPassword_def VerifyPassword_def decodePHC_phc_string assms(1))
qed

theorem verify_hash_roundtrip_witness:
  "\<exists>phc. HashPassword (\<lambda>pw s t m p n. take n (pw @ s @ replicate n CHR ''0''))
      (Some ''0123456789abcdef'') ''password'' = Inr phc \<and>
    (\<forall>q. VerifyPassword (\<lambda>pw s t m p n. take n (pw @ s @ replicate n CHR ''0'')) q phc = Inr
       (take argonKeyLen (''password'' @ ''0123456789abcdef'' @ replicate argonKeyLen CHR ''0'') =
        take argonKeyLen (q @ ''0123456789abcdef'' @ replicate argonKeyLen CHR ''0'')))"
  by (rule verify_hash_roundtrip) (simp_all add: saltLen_def)

text \<open>
  Whatever string is stored or configured, a login never runs Argon2id with parameters
  out of bounds: if any part of a stored hash is off, \<open>VerifyPassword\<close> fails before it, and
  its answer depends on Argon2id only at a time cost in 1..10, a memory cost in 1..2^20 KiB
  and 1..8 threads, with a non-empty salt and key.
\<close>

theorem verify_bounded_cost:
  assumes "\<And>pw s t m p n. 1 \<le> t \<and> t \<le> 10 \<and> 1 \<le> m \<and> m \<le> 2 ^ 20 \<and> 1 \<le> p \<and> p \<le> 8 \<and>
             s \<noteq> [] \<and> n \<noteq> 0 \<Longrightarrow> IDKey pw s t m p n = IDKey' pw s t m p n"
  shows "VerifyPassword IDKey q phc = VerifyPassword IDKey' q phc"
proof (cases "decodePHC phc")
  case (Inr h)
  from decodePHC_InrD [OF Inr] have "IDKey q (phc_salt h) (phc_time h) (phc_memory h)
      (phc_threads h) (length (phc_key h)) = IDKey' q (phc_salt h) (phc_time h) (phc_memory h)
      (phc_threads h) (length (phc_key h))"
    by (intro assms) (simp add: argon_consts)
  with Inr show ?thesis by (simp add: VerifyPassword_def)
qed (simp add: VerifyPassword_def)

theorem verify_bounded_cost_witness:
  "VerifyPassword (\<lambda>pw s t m p n. if t \<le> 10 \<and> m \<le> 2 ^ 20 \<and> p \<le> 8 then pw else undefined) ''x'' ''y'' =
   VerifyPassword (\<lambda>pw s t m p n. pw) ''x'' ''y''"
  by (rule verify_bounded_cost) auto

end
