(* ===== verification/SingleUse.thy ===== *)
theory SingleUse
  imports Prelude
begin

text \<open>
  Runs of a component as a list of calls, and the interface \<open>single_use\<close> of everything in the
  program that must be consumed at most once: the first-run setup, a confirmation, an
  authorization code, a consent ticket. The provider says when a key is \<open>spent\<close> and promises
  that no call ever unspends it; the client gets: at most one call of any run wins the key.
\<close>

fun run_steps :: "('e \<Rightarrow> 's \<Rightarrow> 'r \<times> 's) \<Rightarrow> 'e list \<Rightarrow> 's \<Rightarrow> 'r list \<times> 's" where
  "run_steps step [] s = ([], s)"
| "run_steps step (e # es) s =
    (let (r, s1) = step e s; (rs, s2) = run_steps step es s1 in (r # rs, s2))"

lemma run_steps_Cons:
  assumes "run_steps step (e # es) s = (rs, s2)"
  obtains r s1 rs1 where "step e s = (r, s1)" "run_steps step es s1 = (rs1, s2)" "rs = r # rs1"
  using assms by (auto split: prod.splits)

lemma length_run_steps: "run_steps step es s = (rs, s') \<Longrightarrow> length rs = length es"
  by (induction es arbitrary: s rs) (auto split: prod.splits)

lemma run_steps_invariant:
  assumes "\<And>e s r s'. e \<in> set es \<Longrightarrow> P s \<Longrightarrow> step e s = (r, s') \<Longrightarrow> P s'"
    and "run_steps step es s = (rs, s')" "P s"
  shows "P s'"
  using assms
proof (induction es arbitrary: s rs)
  case (Cons e es)
  from Cons.prems(2) obtain r s1 rs1 where "step e s = (r, s1)" "run_steps step es s1 = (rs1, s')"
    by (rule run_steps_Cons)
  then show ?case using Cons.IH [of s1 rs1] Cons.prems(1) [of e s r s1] Cons.prems(1,3) by auto
qed simp

text \<open>
  The general form: a key is \<open>live\<close> or not, a call may grant it, and a call that wins it needs it
  live and takes it away - unless the same call grants it again. Then the wins of a run of
  admissible calls are at most the grants, plus one if the key was live at the start.
\<close>

locale counted_use =
  fixes step :: "'e \<Rightarrow> 's \<Rightarrow> 'r \<times> 's"
    and adm :: "'e \<Rightarrow> bool"
    and ok :: "'s \<Rightarrow> bool"
    and wins :: "'k \<Rightarrow> 'e \<Rightarrow> 'r \<Rightarrow> bool"
    and grants :: "'k \<Rightarrow> 'e \<Rightarrow> 'r \<Rightarrow> bool"
    and live :: "'k \<Rightarrow> 's \<Rightarrow> bool"
  assumes ok_step: "ok s \<Longrightarrow> adm e \<Longrightarrow> step e s = (r, s') \<Longrightarrow> ok s'"
    and live_granted: "ok s \<Longrightarrow> adm e \<Longrightarrow> \<not> live k s \<Longrightarrow> step e s = (r, s') \<Longrightarrow> live k s' \<Longrightarrow> grants k e r"
    and win_consumes: "ok s \<Longrightarrow> adm e \<Longrightarrow> step e s = (r, s') \<Longrightarrow> wins k e r \<Longrightarrow>
      live k s \<and> (live k s' \<longrightarrow> grants k e r)"
begin

lemma ok_run: "ok s \<Longrightarrow> list_all adm es \<Longrightarrow> run_steps step es s = (rs, s') \<Longrightarrow> ok s'"
proof -
  assume "ok s" "list_all adm es" "run_steps step es s = (rs, s')"
  then show "ok s'"
    by (intro run_steps_invariant [of es ok step s rs s']) (auto simp: list_all_iff intro: ok_step)
qed

lemma wins_bounded:
  assumes "run_steps step es s = (rs, s')" "ok s" "list_all adm es"
  shows "length (filter (\<lambda>(e, r). wins k e r) (zip es rs)) \<le>
     length (filter (\<lambda>(e, r). grants k e r) (zip es rs)) + (if live k s then 1 else 0)"
  using assms
proof (induction es arbitrary: s rs)
  case (Cons e es)
  from Cons.prems(1) obtain r s1 rs1 where step: "step e s = (r, s1)"
    and run: "run_steps step es s1 = (rs1, s')" and rs: "rs = r # rs1" by (rule run_steps_Cons)
  from Cons.prems(3) have adm: "adm e" "list_all adm es" by simp_all
  note IH = Cons.IH [OF run ok_step [OF Cons.prems(2) adm(1) step] adm(2)]
  show ?case
  proof (cases "wins k e r")
    case True
    from win_consumes [OF Cons.prems(2) adm(1) step True] True IH show ?thesis by (auto simp: rs split: if_splits)
  next
    case False
    with IH live_granted [OF Cons.prems(2) adm(1) _ step, of k] show ?thesis by (auto simp: rs split: if_splits)
  qed
qed simp

end

text \<open>The special case of a key that is never granted again.\<close>

locale single_use =
  fixes step :: "'e \<Rightarrow> 's \<Rightarrow> 'r \<times> 's"
    and ok :: "'s \<Rightarrow> bool"
    and wins :: "'k \<Rightarrow> 'e \<Rightarrow> 'r \<Rightarrow> bool"
    and spent :: "'k \<Rightarrow> 's \<Rightarrow> bool"
  assumes ok_step: "ok s \<Longrightarrow> step e s = (r, s') \<Longrightarrow> ok s'"
    and spent_stays: "ok s \<Longrightarrow> spent k s \<Longrightarrow> step e s = (r, s') \<Longrightarrow> spent k s'"
    and win_spends: "ok s \<Longrightarrow> step e s = (r, s') \<Longrightarrow> wins k e r \<Longrightarrow> \<not> spent k s \<and> spent k s'"

sublocale single_use \<subseteq> counted: counted_use step "\<lambda>_. True" ok wins "\<lambda>_ _ _. False" "\<lambda>k s. \<not> spent k s"
proof (unfold_locales, goal_cases)
  case (1 s e r s')
  then show ?case using ok_step by blast
next
  case (2 s k e r s')
  then show ?case using spent_stays by blast
next
  case (3 s e r s' k)
  then show ?case using win_spends by blast
qed

context single_use
begin

lemma at_most_once:
  assumes "run_steps step es s = (rs, s')" "ok s"
  shows "length (filter (\<lambda>(e, r). wins k e r) (zip es rs)) \<le> (if spent k s then 0 else 1)"
proof -
  have none: "filter (\<lambda>(e, r). False) xs = []" for xs :: "('e \<times> 'r) list" by (induction xs) auto
  from counted.wins_bounded [OF assms, of k] show ?thesis by (simp add: none list_all_iff split: if_splits)
qed

lemma spent_never_wins:
  assumes "run_steps step es s = (rs, s')" "ok s" "spent k s" "(e, r) \<in> set (zip es rs)"
  shows "\<not> wins k e r"
proof -
  have "filter (\<lambda>(e, r). wins k e r) (zip es rs) = []"
    using at_most_once [OF assms(1,2), of k] assms(3) by simp
  with assms(4) show ?thesis by (auto simp: filter_empty_conv)
qed

text \<open>Once a call has won, no call after it wins.\<close>

lemma after_win_never:
  assumes "ok s" "step e s = (r, s1)" "wins k e r" "run_steps step es s1 = (rs, s2)"
    "(e', r') \<in> set (zip es rs)"
  shows "\<not> wins k e' r'"
  using spent_never_wins [OF assms(4) ok_step [OF assms(1,2)] _ assms(5)] win_spends [OF assms(1-3)]
  by blast

end

end
