(* ===== verification/AuthService.thy ===== *)
theory AuthService
  imports AuthStore Password SingleUse
begin

text \<open>
  The single-tenant authentication service, \<open>src/internal/auth/service.go\<close>: setup, login,
  session authentication with sliding renewal, revocation, password change and the sweeps.

  Arguments stand for what the code takes from outside: the digest \<open>H\<close> (\<open>sha256.Sum256\<close>), the
  key derivation \<open>IDKey\<close>, the random bytes (\<open>None\<close> when the source fails) and every reading of
  the clock, in the order in which the method makes them. The limiter is called by the HTTP
  handlers, not by these methods, and has its own theory. \<open>int64(d.Seconds())\<close> is \<open>seconds d\<close>:
  the configured durations are far below the range where \<open>float64\<close> rounds.
\<close>

section \<open>The code\<close>

record Options =
  opt_EnvHash :: string
  opt_TTL :: duration
  opt_MaxAge :: duration

record Service =
  envHash :: string
  ttl :: duration
  maxAge :: duration

definition NewService :: "Options \<Rightarrow> Service" where
  "NewService opts =
    (let t = (if opt_TTL opts \<le> 0 then 720 * Hour else opt_TTL opts);
         m = (if opt_MaxAge opts \<le> 0 then 2160 * Hour else opt_MaxAge opts);
         t' = (if t > m then m else t)
     in \<lparr>envHash = TrimSpace (opt_EnvHash opts), ttl = t', maxAge = m\<rparr>)"

type_synonym 'a auth_proc = "(auth_tables db, auth_error, 'a) proc"

definition sql :: "'a auth_sql \<Rightarrow> 'a auth_proc" where
  "sql m = wrap (\<lambda>_. ErrStore) m"

definition tokenID :: "(string \<Rightarrow> string) \<Rightarrow> string \<Rightarrow> string" where
  "tokenID H token = HexEncode (H token)"

definition generateToken :: "string option \<Rightarrow> auth_error + string" where
  "generateToken rnd = (case rnd of None \<Rightarrow> Inl ErrRandom
     | Some buf \<Rightarrow> Inr (B64Encode url_alphabet buf))"

record Status =
  Initialized :: bool
  EnvManaged :: bool

definition GetStatus :: "Service \<Rightarrow> Status auth_proc" where
  "GetStatus s =
    (if envHash s \<noteq> [] then ret \<lparr>Initialized = True, EnvManaged = True\<rparr>
     else andThen (sql CredentialHash)
       (\<lambda>hash. ret \<lparr>Initialized = hash \<noteq> [], EnvManaged = False\<rparr>))"

definition newSession :: "(string \<Rightarrow> string) \<Rightarrow> Service \<Rightarrow> string option \<Rightarrow> time \<Rightarrow> string \<Rightarrow> string
    \<Rightarrow> string auth_proc" where
  "newSession H s rnd at ip userAgent =
    andThen (check (generateToken rnd)) (\<lambda>token.
      let now = unix at in
      andThen (sql (CreateSession \<lparr>ses_id = tokenID H token, ses_created = now,
          ses_expires = now + seconds (ttl s), ses_last_seen = now, ses_ip = ip,
          ses_ua = userAgent\<rparr>))
        (\<lambda>_. ret token))"

definition Setup :: "(string \<Rightarrow> string) \<Rightarrow> kdf \<Rightarrow> Service \<Rightarrow> string option \<Rightarrow> string option
    \<Rightarrow> time \<Rightarrow> time \<Rightarrow> string \<Rightarrow> string \<Rightarrow> string \<Rightarrow> string auth_proc" where
  "Setup H IDKey s salt rnd t1 t2 password ip userAgent =
    (if envHash s \<noteq> [] then throw ErrEnvManaged
     else andThen (check (validatePassword password)) (\<lambda>_.
       andThen (check (HashPassword IDKey salt password)) (\<lambda>hash.
       andThen (sql (InsertCredentialIfAbsent hash t1)) (\<lambda>inserted.
       if \<not> inserted then throw ErrAlreadyInitialized
       else newSession H s rnd t2 ip userAgent))))"

definition activeHash :: "Service \<Rightarrow> string auth_proc" where
  "activeHash s = (if envHash s \<noteq> [] then ret (envHash s) else sql CredentialHash)"

definition Login :: "(string \<Rightarrow> string) \<Rightarrow> kdf \<Rightarrow> Service \<Rightarrow> string option \<Rightarrow> time
    \<Rightarrow> string \<Rightarrow> string \<Rightarrow> string \<Rightarrow> string auth_proc" where
  "Login H IDKey s rnd t password ip userAgent =
    andThen (activeHash s) (\<lambda>hash.
      if hash = [] then throw ErrNotInitialized
      else andThen (check (VerifyPassword IDKey password hash)) (\<lambda>ok.
        if \<not> ok then throw ErrInvalidCredentials
        else newSession H s rnd t ip userAgent))"

definition renewal :: "Service \<Rightarrow> Session \<Rightarrow> int \<Rightarrow> int option" where
  "renewal s r now =
    (let halfLife = ses_last_seen r + seconds (ttl s) div 2 in
     if now > halfLife then
       (let e = now + seconds (ttl s);
            cap = ses_created r + seconds (maxAge s);
            e' = (if e > cap then cap else e)
        in if e' > ses_expires r then Some e' else None)
     else None)"

definition Authenticate :: "(string \<Rightarrow> string) \<Rightarrow> Service \<Rightarrow> time \<Rightarrow> string \<Rightarrow> Session option auth_proc" where
  "Authenticate H s t token =
    andThen (sql (SessionByID (tokenID H token))) (\<lambda>found.
      case found of None \<Rightarrow> ret None
      | Some r \<Rightarrow>
         (let now = unix t in
          if ses_expires r \<le> now then ret None
          else
            (case renewal s r now of
               None \<Rightarrow> ret (Some r)
             | Some e \<Rightarrow>
                andThen (sql (TouchSession (tokenID H token) now e))
                  (\<lambda>_. ret (Some (r\<lparr>ses_last_seen := now, ses_expires := e\<rparr>))))))"

definition Revoke :: "(string \<Rightarrow> string) \<Rightarrow> string \<Rightarrow> unit auth_proc" where
  "Revoke H token = (if token = [] then ret () else sql (DeleteSession (tokenID H token)))"

definition ChangePassword :: "(string \<Rightarrow> string) \<Rightarrow> kdf \<Rightarrow> Service \<Rightarrow> string option \<Rightarrow> time
    \<Rightarrow> string \<Rightarrow> string \<Rightarrow> string \<Rightarrow> unit auth_proc" where
  "ChangePassword H IDKey s salt t currentToken oldPassword newPassword =
    (if envHash s \<noteq> [] then throw ErrEnvManaged
     else andThen (check (validatePassword newPassword)) (\<lambda>_.
       andThen (sql CredentialHash) (\<lambda>hash.
       if hash = [] then throw ErrNotInitialized
       else andThen (check (VerifyPassword IDKey oldPassword hash)) (\<lambda>ok.
         if \<not> ok then throw ErrInvalidCredentials
         else andThen (check (HashPassword IDKey salt newPassword)) (\<lambda>newHash.
           andThen (sql (UpdateCredentialHash newHash t)) (\<lambda>_.
           sql (DeleteOtherSessions (tokenID H currentToken))))))))"

record SessionInfo =
  IDPrefix :: string
  inf_created :: int
  inf_expires :: int
  inf_last_seen :: int
  inf_ip :: string
  inf_ua :: string
  Current :: bool

record SessionList =
  Items :: "SessionInfo list"
  Total :: nat
  Truncated :: bool

definition session_info :: "string \<Rightarrow> Session \<Rightarrow> SessionInfo" where
  "session_info currentID r =
    \<lparr>IDPrefix = (if length (ses_id r) > 8 then take 8 (ses_id r) else ses_id r),
     inf_created = ses_created r, inf_expires = ses_expires r, inf_last_seen = ses_last_seen r,
     inf_ip = ses_ip r,
     inf_ua = (if length (ses_ua r) > 120 then take 120 (ses_ua r) else ses_ua r),
     Current = (ses_id r = currentID)\<rparr>"

text \<open>\<open>sort.SliceStable\<close> with "current before not current": a stable sort by one bit.\<close>

definition ListSessions :: "(string \<Rightarrow> string) \<Rightarrow> string \<Rightarrow> SessionList auth_proc" where
  "ListSessions H currentToken =
    andThen (sql store_ListSessions) (\<lambda>listed.
      let out = map (session_info (tokenID H currentToken)) (page_sessions listed)
      in ret \<lparr>Items = sort_key (\<lambda>i. \<not> Current i) out, Total = page_total listed,
              Truncated = page_truncated listed\<rparr>)"

definition isLowerHex :: "string \<Rightarrow> bool" where
  "isLowerHex s = list_all is_lower_hex_digit s"

definition RevokeByIDPrefix :: "dialect \<Rightarrow> string \<Rightarrow> unit auth_proc" where
  "RevokeByIDPrefix d pre =
    (if length pre < 8 \<or> \<not> isLowerHex pre then throw ErrSessionNotFound
     else andThen (sql (DeleteSessionByPrefix d pre)) (\<lambda>deleted.
       if deleted = 0 then throw ErrSessionNotFound else ret ()))"

definition SweepExpired :: "time \<Rightarrow> nat auth_proc" where
  "SweepExpired t = sql (DeleteExpiredSessions t)"

text \<open>The audit write is best effort: an error is logged and dropped.\<close>

definition RecordAuthEvent :: "time \<Rightarrow> string \<Rightarrow> string \<Rightarrow> string \<Rightarrow> string \<Rightarrow> unit auth_proc" where
  "RecordAuthEvent t event ip userAgent detail d =
    (Inr (), snd (InsertAuthEvent event ip userAgent detail (unix t) d))"

definition ListAuthEvents :: "int \<Rightarrow> AuthEvent list auth_proc" where
  "ListAuthEvents limit = sql (store_ListAuthEvents limit)"

definition SweepAuthEvents :: "int \<Rightarrow> nat auth_proc" where
  "SweepAuthEvents cutoffEpoch = sql (store_SweepAuthEvents cutoffEpoch)"

section \<open>Runs\<close>

text \<open>The environment of a run, and one call of the service with what it reads from outside.\<close>

record auth_env =
  env_H :: "string \<Rightarrow> string"
  env_IDKey :: kdf
  env_svc :: Service
  env_dialect :: dialect

datatype auth_call =
    CSetup "string option" "string option" time time string string string
  | CLogin "string option" time string string string
  | CAuthenticate time string
  | CRevoke string
  | CChangePassword "string option" time string string string
  | CListSessions string
  | CRevokeByIDPrefix string
  | CSweepExpired time
  | CRecordAuthEvent time string string string string
  | CSweepAuthEvents int

datatype auth_result =
    RError auth_error | RToken string | RSession "Session option" | ROk
  | RCount nat | RList SessionList

definition as_result :: "('a \<Rightarrow> auth_result) \<Rightarrow> (auth_error + 'a) \<times> auth_tables db
    \<Rightarrow> auth_result \<times> auth_tables db" where
  "as_result f p = (case p of (Inl e, d) \<Rightarrow> (RError e, d) | (Inr a, d) \<Rightarrow> (f a, d))"

fun auth_step :: "auth_env \<Rightarrow> auth_call \<Rightarrow> auth_tables db \<Rightarrow> auth_result \<times> auth_tables db" where
  "auth_step E (CSetup salt rnd t1 t2 pw ip ua) d =
     as_result RToken (Setup (env_H E) (env_IDKey E) (env_svc E) salt rnd t1 t2 pw ip ua d)"
| "auth_step E (CLogin rnd t pw ip ua) d =
     as_result RToken (Login (env_H E) (env_IDKey E) (env_svc E) rnd t pw ip ua d)"
| "auth_step E (CAuthenticate t token) d =
     as_result RSession (Authenticate (env_H E) (env_svc E) t token d)"
| "auth_step E (CRevoke token) d = as_result (\<lambda>_. ROk) (Revoke (env_H E) token d)"
| "auth_step E (CChangePassword salt t cur old new) d =
     as_result (\<lambda>_. ROk) (ChangePassword (env_H E) (env_IDKey E) (env_svc E) salt t cur old new d)"
| "auth_step E (CListSessions cur) d = as_result RList (ListSessions (env_H E) cur d)"
| "auth_step E (CRevokeByIDPrefix pre) d =
     as_result (\<lambda>_. ROk) (RevokeByIDPrefix (env_dialect E) pre d)"
| "auth_step E (CSweepExpired t) d = as_result RCount (SweepExpired t d)"
| "auth_step E (CRecordAuthEvent t ev ip ua det) d =
     as_result (\<lambda>_. ROk) (RecordAuthEvent t ev ip ua det d)"
| "auth_step E (CSweepAuthEvents c) d = as_result RCount (SweepAuthEvents c d)"

definition auth_run :: "auth_env \<Rightarrow> auth_call list \<Rightarrow> auth_tables db
    \<Rightarrow> auth_result list \<times> auth_tables db" where
  "auth_run E = run_steps (auth_step E)"

lemma auth_run_simps [simp]:
  "auth_run E [] d = ([], d)"
  "auth_run E (c # cs) d =
    (let (r, d1) = auth_step E c d; (rs, d2) = auth_run E cs d1 in (r # rs, d2))"
  by (simp_all add: auth_run_def)

text \<open>The token and the creation time of the session that a call opened.\<close>

fun issued :: "auth_call \<Rightarrow> auth_result \<Rightarrow> (string \<times> int) set" where
  "issued (CSetup _ _ _ t2 _ _ _) (RToken tok) = {(tok, unix t2)}"
| "issued (CLogin _ t _ _ _) (RToken tok) = {(tok, unix t)}"
| "issued _ _ = {}"

fun all_issued :: "auth_call list \<Rightarrow> auth_result list \<Rightarrow> (string \<times> int) set" where
  "all_issued (c # cs) (r # rs) = issued c r \<union> all_issued cs rs"
| "all_issued _ _ = {}"

section \<open>Statements keep what they do not touch\<close>

lemma sql_Inr_iff [simp]: "sql m d = (Inr a, d') \<longleftrightarrow> m d = (Inr a, d')"
  by (simp add: sql_def)

lemma sql_Inl_iff: "sql m d = (Inl e, d') \<longleftrightarrow> e = ErrStore \<and> (\<exists>e'. m d = (Inl e', d'))"
  by (auto simp: sql_def wrap_Inl_iff)

lemma keeps_sql [keeps_intros]: "keeps P m \<Longrightarrow> keeps P (sql m)"
  unfolding sql_def by (rule keeps_wrap)

text \<open>A property of the table of sessions, kept by every statement that does not insert.\<close>

definition anti :: "(Session list \<Rightarrow> bool) \<Rightarrow> bool" where
  "anti P \<longleftrightarrow> (\<forall>rows p. P rows \<longrightarrow> P (delete_where p rows))"

abbreviation on_sessions :: "(Session list \<Rightarrow> bool) \<Rightarrow> auth_tables db \<Rightarrow> bool" where
  "on_sessions P \<equiv> (\<lambda>d. P (auth_sessions (tables d)))"

lemma keeps_stmt_sessions:
  "(\<And>t. auth_sessions (snd (f t)) = auth_sessions t) \<Longrightarrow> keeps (on_sessions P) (stmt f)"
  by (rule keeps_stmt) simp

lemma keeps_sql_sessions [keeps_intros]:
  "keeps (on_sessions P) CredentialHash"
  "keeps (on_sessions P) (InsertCredentialIfAbsent hash t)"
  "keeps (on_sessions P) (UpdateCredentialHash hash t)"
  "keeps (on_sessions P) (SessionByID sid)"
  "keeps (on_sessions P) store_ListSessions"
  "keeps (on_sessions P) (InsertAuthEvent ev ip ua det ts)"
  "keeps (on_sessions P) (store_SweepAuthEvents c)"
  unfolding auth_sql_defs
  by ((intro keeps_intros keeps_stmt_sessions; simp split: option.split)+)

lemma keeps_sql_delete [keeps_intros]:
  assumes "anti P"
  shows "keeps (on_sessions P) (DeleteSession sid)"
    and "keeps (on_sessions P) (DeleteSessionByPrefix dl pre)"
    and "keeps (on_sessions P) (DeleteOtherSessions sid)"
    and "keeps (on_sessions P) (DeleteExpiredSessions t)"
  using assms unfolding auth_sql_defs anti_def
  by (intro keeps_stmt, simp)+

lemma keeps_as_result: "keeps P m \<Longrightarrow> P d \<Longrightarrow> P (snd (as_result f (m d)))"
  by (auto simp: keeps_def as_result_def split: prod.split sum.split)

lemma keeps_record [keeps_intros]: "keeps (on_sessions P) (RecordAuthEvent t ev ip ua det)"
  using keeps_sql_sessions(6) [of P ev ip ua det "unix t"]
  by (simp add: keeps_def RecordAuthEvent_def)

text \<open>What opening a session does: nothing, or one more row with a fresh id.\<close>

definition opened :: "(string \<Rightarrow> string) \<Rightarrow> Service \<Rightarrow> time \<Rightarrow> auth_error + string
    \<Rightarrow> Session list \<Rightarrow> Session list \<Rightarrow> bool" where
  "opened H s t r rows rows' \<longleftrightarrow> (\<exists>e. r = Inl e \<and> rows' = rows) \<or>
    (\<exists>tok row. r = Inr tok \<and> rows' = rows @ [row] \<and> ses_id row = tokenID H tok \<and>
       ses_created row = unix t \<and> ses_expires row = unix t + seconds (ttl s) \<and>
       (\<forall>q \<in> set rows. ses_id q \<noteq> ses_id row))"

lemma newSession_opened:
  assumes "newSession H s rnd t ip ua d = (r, d')"
  shows "opened H s t r (auth_sessions (tables d)) (auth_sessions (tables d'))
    \<and> auth_credentials (tables d') = auth_credentials (tables d)"
  using assms unfolding newSession_def Let_def
proof (elim andThenE)
  fix tok d1 u d2
  assume "check (generateToken rnd) d = (Inr tok, d1)"
    and c: "sql (CreateSession \<lparr>ses_id = tokenID H tok, ses_created = unix t,
          ses_expires = unix t + seconds (ttl s), ses_last_seen = unix t, ses_ip = ip,
          ses_ua = ua\<rparr>) d1 = (Inr u, d2)"
    and "ret tok d2 = (r, d')"
  then show ?thesis using CreateSession_D [OF c [unfolded sql_Inr_iff]]
    by (auto simp: opened_def)
qed (auto simp: opened_def sql_Inl_iff dest!: CreateSession_D)

lemma Setup_opened:
  assumes "Setup H K s salt rnd t1 t2 pw ip ua d = (r, d')"
  shows "opened H s t2 r (auth_sessions (tables d)) (auth_sessions (tables d')) \<and>
    (auth_credentials (tables d) \<noteq> None \<longrightarrow> auth_credentials (tables d') \<noteq> None) \<and>
    ((\<exists>tok. r = Inr tok) \<longrightarrow> auth_credentials (tables d) = None \<and> auth_credentials (tables d') \<noteq> None)"
proof -
  have failed: "opened H s t2 (Inl e) rows rows" for e rows by (simp add: opened_def)
  show ?thesis using assms unfolding Setup_def
    by (auto elim!: andThenE split: if_splits simp: sql_Inl_iff failed
        dest!: InsertCredential_D newSession_opened)
qed

lemma activeHash_D: "activeHash s d = (q, d1) \<Longrightarrow> tables d1 = tables d"
  by (cases q) (auto simp: activeHash_def sql_Inl_iff dest: CredentialHash_D split: if_splits)

lemma Login_opened:
  assumes "Login H K s rnd t pw ip ua d = (r, d')"
  shows "opened H s t r (auth_sessions (tables d)) (auth_sessions (tables d')) \<and>
    auth_credentials (tables d') = auth_credentials (tables d)"
proof -
  have failed: "opened H s t (Inl e) rows rows" for e rows by (simp add: opened_def)
  show ?thesis using assms unfolding Login_def
    by (auto elim!: andThenE split: if_splits simp: failed dest!: activeHash_D newSession_opened)
qed

section \<open>Sessions: provenance and lifetime\<close>

text \<open>Every row was opened by a call that issued its token, and expires in time.\<close>

definition row_ok :: "(string \<Rightarrow> string) \<Rightarrow> duration \<Rightarrow> (string \<times> int) set \<Rightarrow> Session \<Rightarrow> bool" where
  "row_ok H m I r \<longleftrightarrow> ses_expires r \<le> ses_created r + seconds m \<and>
     (\<exists>tok. (tok, ses_created r) \<in> I \<and> ses_id r = tokenID H tok)"

definition rows_ok :: "(string \<Rightarrow> string) \<Rightarrow> duration \<Rightarrow> (string \<times> int) set \<Rightarrow> Session list \<Rightarrow> bool" where
  "rows_ok H m I rows \<longleftrightarrow> distinct (map ses_id rows) \<and> (\<forall>r \<in> set rows. row_ok H m I r)"

lemma anti_rows_ok: "anti (rows_ok H m I)"
  by (simp add: anti_def rows_ok_def distinct_key_delete_where)

lemma rows_ok_mono: "rows_ok H m I rows \<Longrightarrow> I \<subseteq> J \<Longrightarrow> rows_ok H m J rows"
  unfolding rows_ok_def row_ok_def by blast

lemma rows_ok_opened:
  assumes "opened H s t r rows rows'" "rows_ok H (maxAge s) I rows" "ttl s \<le> maxAge s"
    and "\<And>tok. r = Inr tok \<Longrightarrow> (tok, unix t) \<in> J" "I \<subseteq> J"
  shows "rows_ok H (maxAge s) J rows'"
proof (cases r)
  case (Inl e)
  then show ?thesis using assms(1) rows_ok_mono [OF assms(2,5)] by (simp add: opened_def)
next
  case (Inr tok)
  then obtain row where row: "rows' = rows @ [row]" "ses_id row = tokenID H tok"
      "ses_created row = unix t" "ses_expires row = unix t + seconds (ttl s)"
      "\<forall>q \<in> set rows. ses_id q \<noteq> ses_id row"
    using assms(1) by (auto simp: opened_def)
  have "row_ok H (maxAge s) J row"
    using row assms(4) [OF Inr] seconds_mono [OF assms(3)] unfolding row_ok_def by auto
  moreover have "ses_id row \<notin> ses_id ` set rows" using row(5) by force
  ultimately show ?thesis using rows_ok_mono [OF assms(2,5)] row(1)
    by (simp add: rows_ok_def)
qed

lemma renewal_SomeD:
  "renewal s r now = Some e \<Longrightarrow> ses_expires r < e \<and> e \<le> ses_created r + seconds (maxAge s)"
  by (auto simp: renewal_def Let_def split: if_splits)

text \<open>\<open>Authenticate\<close> changes nothing or renews the one row that it found.\<close>

lemma Authenticate_cases:
  assumes "Authenticate H s t token d = (r, d')"
  shows "tables d' = tables d \<or>
    (\<exists>row e. select1 (\<lambda>r. ses_id r = tokenID H token) (auth_sessions (tables d)) = Some row \<and>
       renewal s row (unix t) = Some e \<and>
       tables d' = (tables d)\<lparr>auth_sessions := update_where (\<lambda>r. ses_id r = tokenID H token)
         (\<lambda>r. r\<lparr>ses_last_seen := unix t, ses_expires := e\<rparr>) (auth_sessions (tables d))\<rparr>)"
  using assms unfolding Authenticate_def Let_def
  by (auto elim!: andThenE split: option.splits if_splits simp: sql_Inl_iff
      dest!: SessionByID_Inr TouchSession_D dest: SessionByID_D)

text \<open>What a successful \<open>Authenticate\<close> answers.\<close>

lemma Authenticate_SomeD:
  assumes "Authenticate H s t token d = (Inr (Some r), d')"
  shows "\<exists>row. select1 (\<lambda>r. ses_id r = tokenID H token) (auth_sessions (tables d)) = Some row \<and>
    unix t < ses_expires row \<and>
    (renewal s row (unix t) = None \<and> r = row \<or>
     (\<exists>e. renewal s row (unix t) = Some e \<and> r = row\<lparr>ses_last_seen := unix t, ses_expires := e\<rparr>))"
  using assms unfolding Authenticate_def Let_def
  by (auto elim!: andThenE split: option.splits if_splits simp: sql_Inl_iff
      dest!: SessionByID_Inr)

lemma rows_ok_touch:
  assumes "rows_ok H m I rows" "select1 (\<lambda>r. ses_id r = sid) rows = Some row"
    and "e \<le> ses_created row + seconds m"
  shows "rows_ok H m I (update_where (\<lambda>r. ses_id r = sid)
           (\<lambda>r. r\<lparr>ses_last_seen := a, ses_expires := e\<rparr>) rows)"
proof -
  have d: "distinct (map ses_id rows)" using assms(1) by (simp add: rows_ok_def)
  have "q = row" if "q \<in> set rows" "ses_id q = sid" for q
    using select1_Some_iff_unique [OF d, of sid] assms(2) that by (metis option.inject)
  with assms show ?thesis
    by (auto simp: rows_ok_def set_update_where map_key_update_where row_ok_def)
qed

lemma keeps_Authenticate_rows:
  "keeps (on_sessions (rows_ok H (maxAge s) I)) (Authenticate H s t token)"
  by (rule keepsI) (auto dest!: Authenticate_cases renewal_SomeD intro: rows_ok_touch)

lemmas auth_simple_defs = Revoke_def ChangePassword_def ListSessions_def RevokeByIDPrefix_def
  SweepExpired_def SweepAuthEvents_def Let_def

lemma keeps_auth_simple:
  assumes "anti P"
  shows "keeps (on_sessions P) (Revoke H token)"
    "keeps (on_sessions P) (ChangePassword H K s salt t cur old new)"
    "keeps (on_sessions P) (ListSessions H cur)"
    "keeps (on_sessions P) (RevokeByIDPrefix dl pre)"
    "keeps (on_sessions P) (SweepExpired t)"
    "keeps (on_sessions P) (SweepAuthEvents c)"
  unfolding auth_simple_defs by (intro keeps_intros assms)+

lemma NewService_ttl: "ttl (NewService opts) \<le> maxAge (NewService opts)"
  by (simp add: NewService_def Let_def duration_defs)

lemma as_result_D:
  "as_result f p = (q, d') \<Longrightarrow> snd p = d' \<and>
     q = (case fst p of Inl e \<Rightarrow> RError e | Inr a \<Rightarrow> f a)"
  by (auto simp: as_result_def split: prod.splits sum.splits)

fun opens_session :: "auth_call \<Rightarrow> bool" where
  "opens_session (CSetup _ _ _ _ _ _ _) = True"
| "opens_session (CLogin _ _ _ _ _) = True"
| "opens_session _ = False"

text \<open>A call that opens no session keeps whatever its method keeps.\<close>

lemma auth_step_keeps_any:
  assumes "\<And>t token. keeps P (Authenticate (env_H E) (env_svc E) t token)"
    "\<And>token. keeps P (Revoke (env_H E) token)"
    "\<And>salt t cur old new. keeps P (ChangePassword (env_H E) (env_IDKey E) (env_svc E) salt t cur old new)"
    "\<And>cur. keeps P (ListSessions (env_H E) cur)"
    "\<And>pre. keeps P (RevokeByIDPrefix (env_dialect E) pre)"
    "\<And>t. keeps P (SweepExpired t)"
    "\<And>t ev ip ua det. keeps P (RecordAuthEvent t ev ip ua det)"
    "\<And>c. keeps P (SweepAuthEvents c)"
    and "\<not> opens_session c" "auth_step E c d = (r, d')" "P d"
  shows "P d'"
proof -
  have step: "P (snd (as_result f (m d)))"
    if "keeps P m" for f :: "'a \<Rightarrow> auth_result" and m
    using keeps_as_result [where P = P, OF that assms(11)] .
  have "P (snd (auth_step E c d))" using assms(9) by (cases c) (simp_all add: step assms(1-8))
  then show ?thesis using assms(10) by simp
qed

lemma auth_step_keeps:
  assumes "anti P" "\<And>t token. keeps (on_sessions P) (Authenticate (env_H E) (env_svc E) t token)"
    and "\<not> opens_session c" "auth_step E c d = (r, d')" "on_sessions P d"
  shows "on_sessions P d'"
  by (rule auth_step_keeps_any [where P = "on_sessions P" and E = E, OF _ _ _ _ _ _ _ _ assms(3-5)])
    (intro assms(2) keeps_auth_simple assms(1) keeps_record)+

lemma auth_step_rows_ok:
  assumes "ttl (env_svc E) \<le> maxAge (env_svc E)"
    and "auth_step E c d = (r, d')"
    and "rows_ok (env_H E) (maxAge (env_svc E)) I (auth_sessions (tables d))"
  shows "rows_ok (env_H E) (maxAge (env_svc E)) (I \<union> issued c r) (auth_sessions (tables d'))"
proof -
  let ?ok = "rows_ok (env_H E) (maxAge (env_svc E))"
  have opened: "?ok (I \<union> J) rows'" if "opened (env_H E) (env_svc E) t q (auth_sessions (tables d)) rows'"
    "\<And>tok. q = Inr tok \<Longrightarrow> (tok, unix t) \<in> J" for J t q rows'
    using that(2) by (intro rows_ok_opened [OF that(1) assms(3) assms(1)]) auto
  show ?thesis
  proof (cases c)
    case (CSetup salt rnd t1 t2 pw ip ua)
    then show ?thesis using assms(2) by (auto dest!: as_result_D
        intro!: opened [OF conjunct1 [OF Setup_opened [OF surjective_pairing]]] split: sum.splits)
  next
    case (CLogin rnd t pw ip ua)
    then show ?thesis using assms(2) by (auto dest!: as_result_D
        intro!: opened [OF conjunct1 [OF Login_opened [OF surjective_pairing]]] split: sum.splits)
  qed (rule rows_ok_mono [OF auth_step_keeps [OF anti_rows_ok keeps_Authenticate_rows _ assms(2,3)]];
      simp)+
qed

lemma auth_run_rows_ok:
  assumes "ttl (env_svc E) \<le> maxAge (env_svc E)"
    and "auth_run E cs d = (rs, d')"
    and "rows_ok (env_H E) (maxAge (env_svc E)) I (auth_sessions (tables d))"
  shows "rows_ok (env_H E) (maxAge (env_svc E)) (I \<union> all_issued cs rs) (auth_sessions (tables d'))"
  using assms(2,3)
proof (induction cs arbitrary: d rs I)
  case (Cons c cs)
  obtain r d1 where step: "auth_step E c d = (r, d1)" by (metis surj_pair)
  obtain rs1 where run: "auth_run E cs d1 = (rs1, d')" and rs: "rs = r # rs1"
    using Cons.prems(1) step by (auto split: prod.splits)
  from Cons.IH [OF run auth_step_rows_ok [OF assms(1) step Cons.prems(2)]]
  show ?case by (simp add: rs Un_assoc)
qed simp

definition empty_auth :: "bool list \<Rightarrow> auth_tables db" where
  "empty_auth fs = \<lparr>tables = \<lparr>auth_credentials = None, auth_sessions = [], auth_events = []\<rparr>,
     faults = fs\<rparr>"

lemma rows_ok_empty: "rows_ok H m {} (auth_sessions (tables (empty_auth fs)))"
  by (simp add: rows_ok_def empty_auth_def)

text \<open>
  C1. Who is logged in: in every run of the service on an empty database, whatever the clock
  reads and whichever statements fail, a token that \<open>Authenticate\<close> accepts has the digest of a
  token that some earlier \<open>Setup\<close> or \<open>Login\<close> handed out at a moment \<open>t0\<close>, the session is that
  one's, and it has neither expired nor outlived \<open>t0\<close> plus the absolute cap \<open>MaxAge\<close>, however
  often it was renewed.
\<close>

theorem session_lifetime:
  assumes "env_svc E = NewService opts"
    and "auth_run E cs (empty_auth fs) = (rs, d)"
    and "Authenticate (env_H E) (env_svc E) t token d = (Inr (Some r), d')"
  shows "\<exists>tok t0. (tok, t0) \<in> all_issued cs rs \<and> tokenID (env_H E) token = tokenID (env_H E) tok \<and>
    ses_id r = tokenID (env_H E) tok \<and> ses_created r = t0 \<and>
    unix t < ses_expires r \<and> ses_expires r \<le> t0 + seconds (maxAge (env_svc E))"
proof -
  let ?H = "env_H E" and ?s = "env_svc E"
  have le: "ttl ?s \<le> maxAge ?s" by (simp add: assms(1) NewService_ttl)
  have ok: "rows_ok ?H (maxAge ?s) (all_issued cs rs) (auth_sessions (tables d))"
    using auth_run_rows_ok [OF le assms(2) rows_ok_empty] by simp
  obtain row where row: "select1 (\<lambda>r. ses_id r = tokenID ?H token) (auth_sessions (tables d)) = Some row"
    "unix t < ses_expires row"
    and r: "renewal ?s row (unix t) = None \<and> r = row \<or> (\<exists>e. renewal ?s row (unix t) = Some e \<and>
       r = row\<lparr>ses_last_seen := unix t, ses_expires := e\<rparr>)"
    using Authenticate_SomeD [OF assms(3)] by blast
  from select1_SomeD [OF row(1)] ok have "row_ok ?H (maxAge ?s) (all_issued cs rs) row"
    "ses_id row = tokenID ?H token" by (auto simp: rows_ok_def)
  with row(2) r show ?thesis
    by (auto simp: row_ok_def dest!: renewal_SomeD)
qed

section \<open>Revocation\<close>

definition absent :: "string \<Rightarrow> Session list \<Rightarrow> bool" where
  "absent sid rows \<longleftrightarrow> (\<forall>r \<in> set rows. ses_id r \<noteq> sid)"

lemma anti_absent: "anti (absent sid)"
  by (simp add: anti_def absent_def)

lemma keeps_Authenticate_absent:
  "keeps (on_sessions (absent sid)) (Authenticate H s t token)"
  by (rule keepsI) (auto dest!: Authenticate_cases simp: absent_def set_update_where split: if_splits)

lemma absent_opened:
  "opened H s t r rows rows' \<Longrightarrow> absent sid rows \<Longrightarrow>
   (\<And>tok. r = Inr tok \<Longrightarrow> tokenID H tok \<noteq> sid) \<Longrightarrow> absent sid rows'"
  by (auto simp: opened_def absent_def)

lemma auth_step_absent:
  assumes "auth_step E c d = (r, d')" "absent sid (auth_sessions (tables d))"
    and "\<forall>(tok, t0) \<in> issued c r. tokenID (env_H E) tok \<noteq> sid"
  shows "absent sid (auth_sessions (tables d'))"
proof (cases c)
  case (CSetup salt rnd t1 t2 pw ip ua)
  then show ?thesis using assms by (auto dest!: as_result_D
      intro!: absent_opened [OF conjunct1 [OF Setup_opened [OF surjective_pairing]]] split: sum.splits)
next
  case (CLogin rnd t pw ip ua)
  then show ?thesis using assms by (auto dest!: as_result_D
      intro!: absent_opened [OF conjunct1 [OF Login_opened [OF surjective_pairing]]] split: sum.splits)
qed (rule auth_step_keeps [OF anti_absent keeps_Authenticate_absent _ assms(1,2)]; simp)+

lemma auth_run_absent:
  assumes "auth_run E cs d = (rs, d')" "absent sid (auth_sessions (tables d))"
    and "\<forall>(tok, t0) \<in> all_issued cs rs. tokenID (env_H E) tok \<noteq> sid"
  shows "absent sid (auth_sessions (tables d'))"
  using assms
proof (induction cs arbitrary: d rs)
  case (Cons c cs)
  obtain r d1 where step: "auth_step E c d = (r, d1)" by (metis surj_pair)
  obtain rs1 where run: "auth_run E cs d1 = (rs1, d')" and rs: "rs = r # rs1"
    using Cons.prems(1) step by (auto split: prod.splits)
  have "absent sid (auth_sessions (tables d1))"
    using Cons.prems(3) by (intro auth_step_absent [OF step Cons.prems(2)]) (auto simp: rs)
  then show ?case using Cons.prems(3) by (intro Cons.IH [OF run]) (auto simp: rs)
qed simp

lemma absent_Authenticate:
  assumes "absent (tokenID H token) (auth_sessions (tables d))"
  shows "fst (Authenticate H s t token d) \<in> {Inr None, Inl ErrStore}"
proof -
  obtain r d' where r: "Authenticate H s t token d = (r, d')" by (metis surj_pair)
  have none: "select1 (\<lambda>r. ses_id r = tokenID H token) (auth_sessions (tables d)) = None"
    using assms by (simp add: absent_def select1_None_iff)
  have "r = Inr None \<or> r = Inl ErrStore" using r none unfolding Authenticate_def Let_def
    by (auto elim!: andThenE simp: sql_Inl_iff dest!: SessionByID_Inr)
  with r show ?thesis by auto
qed

lemma ChangePassword_InrD:
  assumes "ChangePassword H K s salt t cur old new d = (Inr u, d')"
  shows "auth_sessions (tables d') = filter (\<lambda>r. ses_id r = tokenID H cur) (auth_sessions (tables d))"
  using assms unfolding ChangePassword_def
  by (auto elim!: andThenE split: if_splits dest!: CredentialHash_D UpdateCredential_D
      simp: DeleteOtherSessions_def delete_where_def dest!: stmt_Inr_tables)

text \<open>
  C12. A password change logs everybody else out: after a successful \<open>ChangePassword\<close>, a token
  other than the caller's own (by digest) never authenticates again, whatever calls follow,
  unless a later setup or login issues that digest anew.
\<close>

theorem password_change_revokes:
  assumes "ChangePassword (env_H E) (env_IDKey E) (env_svc E) salt t cur old new d = (Inr u, d1)"
    and "tokenID (env_H E) token \<noteq> tokenID (env_H E) cur"
    and "auth_run E cs d1 = (rs, d2)"
    and "\<forall>(tok, t0) \<in> all_issued cs rs. tokenID (env_H E) tok \<noteq> tokenID (env_H E) token"
  shows "fst (Authenticate (env_H E) (env_svc E) t' token d2) \<in> {Inr None, Inl ErrStore}"
proof (rule absent_Authenticate, rule auth_run_absent [OF assms(3) _ assms(4)])
  show "absent (tokenID (env_H E) token) (auth_sessions (tables d1))"
    using assms(2) by (simp add: ChangePassword_InrD [OF assms(1)] absent_def)
qed

text \<open>
  Revoking by prefix hits exactly the sessions whose id starts with the prefix, on SQLite
  and on PostgreSQL alike: the wildcard query cannot be widened by its argument. The call
  succeeds exactly when a session was removed, and on any error nothing changes.
\<close>

theorem revoke_prefix_exact:
  assumes "env_svc E = NewService opts" "auth_run E cs (empty_auth fs) = (rs, d)"
    and "RevokeByIDPrefix dl pre d = (r, d')"
  shows "(r = Inr () \<and> 8 \<le> length pre \<and> (\<exists>q \<in> set (auth_sessions (tables d)). prefix pre (ses_id q)) \<and>
           tables d' = (tables d)\<lparr>auth_sessions :=
             filter (\<lambda>q. \<not> prefix pre (ses_id q)) (auth_sessions (tables d))\<rparr>) \<or>
         (r = Inl ErrStore \<and> tables d' = tables d) \<or>
         (r = Inl ErrSessionNotFound \<and> tables d' = tables d \<and>
           (length pre < 8 \<or> \<not> isLowerHex pre \<or>
            (\<forall>q \<in> set (auth_sessions (tables d)). \<not> prefix pre (ses_id q))))"
proof (cases "length pre < 8 \<or> \<not> isLowerHex pre")
  case True
  then show ?thesis using assms(3) by (auto simp: RevokeByIDPrefix_def)
next
  case False
  let ?rows = "auth_sessions (tables d)"
  have "rows_ok (env_H E) (maxAge (env_svc E)) (all_issued cs rs) ?rows"
    using auth_run_rows_ok [OF _ assms(2) rows_ok_empty] by (simp add: assms(1) NewService_ttl)
  then have "\<forall>q \<in> set ?rows. list_all is_lower_hex_digit (ses_id q)"
    by (auto simp: rows_ok_def row_ok_def tokenID_def HexEncode_lower)
  then have like: "\<forall>q \<in> set ?rows. like dl (pre @ ''%'') (ses_id q) = prefix pre (ses_id q)"
    using False like_prefix by (auto simp: isLowerHex_def)
  have del: "delete_where (\<lambda>q. like dl (pre @ ''%'') (ses_id q)) ?rows =
      filter (\<lambda>q. \<not> prefix pre (ses_id q)) ?rows"
    using like unfolding delete_where_def by (intro filter_cong) auto
  have same: "filter (\<lambda>q. \<not> prefix pre (ses_id q)) ?rows = ?rows"
    if "\<forall>q \<in> set ?rows. \<not> prefix pre (ses_id q)" using that by (simp add: filter_id_conv)
  have cnt: "count_where (\<lambda>q. like dl (pre @ ''%'') (ses_id q)) ?rows = 0 \<longleftrightarrow>
      (\<forall>q \<in> set ?rows. \<not> prefix pre (ses_id q))"
    using like by (simp add: count_where_0_iff)
  have some: "0 < count_where (\<lambda>q. like dl (pre @ ''%'') (ses_id q)) ?rows \<longleftrightarrow>
      (\<exists>q \<in> set ?rows. prefix pre (ses_id q))"
    using cnt by auto
  show ?thesis using assms(3) False unfolding RevokeByIDPrefix_def
    by (auto elim!: andThenE split: if_splits simp: sql_Inl_iff DeleteSessionByPrefix_def del cnt some same
        dest!: stmt_Inl_tables stmt_Inr_tables)
qed

section \<open>First-run setup\<close>

fun is_setup_win :: "unit \<Rightarrow> auth_call \<Rightarrow> auth_result \<Rightarrow> bool" where
  "is_setup_win _ (CSetup _ _ _ _ _ _ _) (RToken _) = True"
| "is_setup_win _ _ _ = False"

abbreviation has_cred :: "auth_tables db \<Rightarrow> bool" where
  "has_cred \<equiv> (\<lambda>d. auth_credentials (tables d) \<noteq> None)"

lemma keeps_cred_simple:
  "keeps has_cred (Authenticate H s t token)"
  "keeps has_cred (Revoke H token)"
  "keeps has_cred (ChangePassword H K s salt t cur old new)"
  "keeps has_cred (ListSessions H cur)"
  "keeps has_cred (RevokeByIDPrefix dl pre)"
  "keeps has_cred (SweepExpired t)"
  "keeps has_cred (SweepAuthEvents c)"
  unfolding auth_simple_defs Authenticate_def auth_sql_defs
  by ((intro keeps_intros keeps_stmt; simp split: option.split)+)

lemma keeps_cred_record: "keeps has_cred (RecordAuthEvent t ev ip ua det)"
  by (auto simp: keeps_def RecordAuthEvent_def InsertAuthEvent_def stmt_def
      split: list.splits bool.splits)

lemma auth_step_cred:
  assumes "auth_step E c d = (r, d')"
  shows "(has_cred d \<longrightarrow> has_cred d') \<and> (is_setup_win u c r \<longrightarrow> \<not> has_cred d \<and> has_cred d')"
proof -
  have keep: "has_cred d'" if "\<not> opens_session c" "has_cred d"
    by (rule auth_step_keeps_any [where P = has_cred, OF keeps_cred_simple(1-6) keeps_cred_record
       keeps_cred_simple(7) that(1) assms that(2)])
  show ?thesis
proof (cases c)
  case (CSetup salt rnd t1 t2 pw ip ua)
  obtain q d1 where q: "Setup (env_H E) (env_IDKey E) (env_svc E) salt rnd t1 t2 pw ip ua d = (q, d1)"
    by (metis surj_pair)
  from Setup_opened [OF q] q assms CSetup show ?thesis by (cases q) (auto simp: as_result_def)
next
  case (CLogin rnd t pw ip ua)
  obtain q d1 where q: "Login (env_H E) (env_IDKey E) (env_svc E) rnd t pw ip ua d = (q, d1)"
    by (metis surj_pair)
  from Login_opened [OF q] q assms CLogin show ?thesis by (cases q) (auto simp: as_result_def)
qed (use keep in simp_all)
qed

interpretation first_setup: single_use "auth_step E" "\<lambda>_. True" is_setup_win "\<lambda>_. has_cred" for E
  by unfold_locales (use auth_step_cred in blast)+

text \<open>
  C19. First-run setup has one winner: in any sequence of calls on any database, with any
  failures, at most one \<open>Setup\<close> hands out a token, and none does once a credential is stored.
\<close>

theorem setup_single_winner:
  assumes "auth_run E cs d = (rs, d')"
  shows "length (filter (\<lambda>(c, r). is_setup_win () c r) (zip cs rs)) \<le> (if has_cred d then 0 else 1)"
  using first_setup.at_most_once [of E cs d rs d' "()"] assms by (simp add: auth_run_def)

section \<open>The settings view\<close>

lemma newest_sessions_unique:
  assumes "mset rows = mset rows'" "distinct (map ses_id rows)"
  shows "newest_sessions rows = newest_sessions rows'"
proof -
  let ?k = "\<lambda>r. (ses_last_seen r, ses_id r)"
  have "inj_on ?k (set rows)" using assms(2) by (auto simp: distinct_map inj_on_def)
  have "sort_key ?k rows' = sort_key ?k rows"
  proof (rule properties_for_sort_key)
    show "mset (sort_key ?k rows) = mset rows'" using assms(1) by simp
    show "filter (\<lambda>y. ?k x = ?k y) (sort_key ?k rows) = filter (\<lambda>y. ?k x = ?k y) rows'"
      if "x \<in> set (sort_key ?k rows)" for x
    proof -
      have d: "distinct rows" "distinct rows'"
        using assms by (auto simp: distinct_map dest: mset_eq_imp_distinct_iff)
      have "filter (\<lambda>y. ?k x = ?k y) l = [x]" if "distinct l" "set l = set rows" for l
        using that \<open>inj_on ?k (set rows)\<close> \<open>x \<in> set (sort_key ?k rows)\<close>
        by (intro filter_single) (auto simp: inj_on_def)
      from this [of rows'] this [of "sort_key ?k rows"] d mset_eq_setD [OF assms(1)]
      show ?thesis by simp
    qed
  qed simp
  then show ?thesis by (simp add: newest_sessions_def)
qed

lemma ListSessions_Inr:
  assumes "ListSessions H cur d = (Inr l, d')"
  shows "tables d' = tables d \<and>
    (let rows = auth_sessions (tables d);
         page = take sessionListLimit (newest_sessions rows)
     in Items l = map (session_info (tokenID H cur)) (filter (\<lambda>r. ses_id r = tokenID H cur) page) @
                  map (session_info (tokenID H cur)) (filter (\<lambda>r. ses_id r \<noteq> tokenID H cur) page) \<and>
        Total l = length rows \<and> (Truncated l \<longleftrightarrow> sessionListLimit < length rows))"
proof -
  have n: "length (newest_sessions rows) = length rows" for rows
    by (simp add: newest_sessions_def)
  have c: "Current (session_info i r) \<longleftrightarrow> ses_id r = i" for i r by (simp add: session_info_def)
  show ?thesis using assms unfolding ListSessions_def store_ListSessions_def Let_def
    by (auto elim!: andThenE dest!: stmt_Inr_tables simp: sort_key_bit n c filter_map comp_def)
qed

text \<open>
  The settings view is reproducible: its answer depends only on which sessions exist, not on
  the order in which the database happens to keep them. It is one page in the total order
  "last seen, then id, both descending" with the caller's own session moved to the front, the
  total counts every row, and \<open>Truncated\<close> says exactly whether the page limit cut rows off.
\<close>

theorem sessions_view_reproducible:
  assumes "ListSessions H cur d = (Inr l, d1)" "ListSessions H cur e = (Inr m, e1)"
    and "mset (auth_sessions (tables d)) = mset (auth_sessions (tables e))"
    and "distinct (map ses_id (auth_sessions (tables d)))"
  shows "l = m \<and> Total l = length (auth_sessions (tables d)) \<and>
    (Truncated l \<longleftrightarrow> 200 < length (auth_sessions (tables d))) \<and>
    length (Items l) = min 200 (length (auth_sessions (tables d))) \<and>
    (\<forall>i j. i < j \<and> j < length (Items l) \<and> Current (Items l ! j) \<longrightarrow> Current (Items l ! i))"
proof -
  let ?rows = "auth_sessions (tables d)" and ?id = "tokenID H cur"
  let ?page = "take sessionListLimit (newest_sessions ?rows)"
  have len: "length ?rows = length (auth_sessions (tables e))" using assms(3) by (rule mset_eq_length)
  note L = ListSessions_Inr [OF assms(1), unfolded Let_def]
  note M = ListSessions_Inr [OF assms(2), unfolded Let_def newest_sessions_unique [OF assms(3,4), symmetric]]
  have eq: "Items l = Items m" "Total l = Total m" "Truncated l = Truncated m"
    using L M len by auto
  have items: "length (Items l) = length ?page" using L
    by (simp add: sum_length_filter_compl)
  moreover have "Current (Items l ! i)" if "i < j" "j < length (Items l)" "Current (Items l ! j)" for i j
  proof -
    let ?a = "map (session_info ?id) (filter (\<lambda>r. ses_id r = ?id) ?page)"
      and ?b = "map (session_info ?id) (filter (\<lambda>r. ses_id r \<noteq> ?id) ?page)"
    have "Items l = ?a @ ?b" using L by simp
    with that show ?thesis
      using nth_partition [of i j ?a ?b Current] by (auto simp: session_info_def)
  qed
  ultimately show ?thesis using eq L
    by (auto simp: sessionListLimit_def newest_sessions_def)
qed

section \<open>Witnesses\<close>

text \<open>A service with a toy digest and key derivation, set up at time 0.\<close>

definition ex_env :: auth_env where
  "ex_env = \<lparr>env_H = (\<lambda>s. s), env_IDKey = (\<lambda>pw s t m p n. take n (pw @ replicate n CHR ''0'')),
     env_svc = NewService \<lparr>opt_EnvHash = [], opt_TTL = 0, opt_MaxAge = 0\<rparr>, env_dialect = Sqlite\<rparr>"

definition ex_setup :: auth_call where
  "ex_setup = CSetup (Some ''0123456789abcdef'') (Some ''abc'') 0 0 ''secret-word-1'' ''ip'' ''ua''"

definition ex_login :: auth_call where
  "ex_login = CLogin (Some ''def'') (5 * Second) ''secret-word-1'' ''ip'' ''ua''"

definition ex_db :: "auth_tables db" where
  "ex_db = \<lparr>tables =
    \<lparr>auth_credentials = Some \<lparr>cred_hash = ''$argon2id$v=19$m=65536,t=3,p=2$MDEyMzQ1Njc4OWFiY2RlZg$''
         @ ''c2VjcmV0LXdvcmQtMTAwMDAwMDAwMDAwMDAwMDAwMDA'', cred_created = 0, cred_updated = 0\<rparr>,
     auth_sessions =
       [\<lparr>ses_id = ''59574a6a'', ses_created = 0, ses_expires = 2592000, ses_last_seen = 0,
         ses_ip = ''ip'', ses_ua = ''ua''\<rparr>,
        \<lparr>ses_id = ''5a47566d'', ses_created = 5, ses_expires = 2592005, ses_last_seen = 5,
         ses_ip = ''ip'', ses_ua = ''ua''\<rparr>],
     auth_events = []\<rparr>, faults = []\<rparr>"

lemma ex_env_svc: "env_svc ex_env = NewService \<lparr>opt_EnvHash = [], opt_TTL = 0, opt_MaxAge = 0\<rparr>"
  by (simp add: ex_env_def)

lemma ex_run: "auth_run ex_env [ex_setup, ex_login] (empty_auth []) =
    ([RToken ''YWJj'', RToken ''ZGVm''], ex_db)"
  by code_simp

theorem session_lifetime_witness:
  "\<exists>r. fst (Authenticate (env_H ex_env) (env_svc ex_env) (1296002 * Second) ''YWJj'' ex_db) = Inr (Some r) \<and>
     (\<exists>tok t0. (tok, t0) \<in> all_issued [ex_setup, ex_login] [RToken ''YWJj'', RToken ''ZGVm''] \<and>
        tokenID (env_H ex_env) ''YWJj'' = tokenID (env_H ex_env) tok \<and> ses_created r = t0 \<and>
        ses_expires r \<le> t0 + seconds (maxAge (env_svc ex_env)))"
proof -
  let ?a = "Authenticate (env_H ex_env) (env_svc ex_env) (1296002 * Second) ''YWJj'' ex_db"
  have "case fst ?a of Inr (Some r) \<Rightarrow> ses_expires r = 3888002 | _ \<Rightarrow> False" by code_simp
  then obtain r where r: "fst ?a = Inr (Some r)" by (auto split: sum.splits option.splits)
  then have "?a = (Inr (Some r), snd ?a)" by (metis prod.collapse)
  from session_lifetime [OF ex_env_svc ex_run this] r show ?thesis by blast
qed

theorem password_change_revokes_witness:
  "fst (Authenticate (env_H ex_env) (env_svc ex_env) (7 * Second) ''ZGVm''
     (snd (ChangePassword (env_H ex_env) (env_IDKey ex_env) (env_svc ex_env)
        (Some ''fedcba9876543210'') (6 * Second) ''YWJj'' ''secret-word-1'' ''secret-word-2'' ex_db)))
   \<in> {Inr None, Inl ErrStore}"
proof -
  let ?c = "ChangePassword (env_H ex_env) (env_IDKey ex_env) (env_svc ex_env)
        (Some ''fedcba9876543210'') (6 * Second) ''YWJj'' ''secret-word-1'' ''secret-word-2'' ex_db"
  have "fst ?c = Inr ()" by code_simp
  then have c: "?c = (Inr (), snd ?c)" by (metis prod.collapse)
  have ne: "tokenID (env_H ex_env) ''ZGVm'' \<noteq> tokenID (env_H ex_env) ''YWJj''" by code_simp
  show ?thesis
    by (rule password_change_revokes [OF c ne, of "[]" "[]"]) simp_all
qed

theorem revoke_prefix_exact_witness:
  "\<exists>r d'. RevokeByIDPrefix Postgres ''59574a6a'' ex_db = (r, d') \<and> r = Inr () \<and>
     tables d' = (tables ex_db)\<lparr>auth_sessions :=
       filter (\<lambda>q. \<not> prefix ''59574a6a'' (ses_id q)) (auth_sessions (tables ex_db))\<rparr>"
proof -
  let ?c = "RevokeByIDPrefix Postgres ''59574a6a'' ex_db"
  have r: "fst ?c = Inr ()" by code_simp
  have c: "?c = (fst ?c, snd ?c)" by simp
  from revoke_prefix_exact [OF ex_env_svc ex_run c] r show ?thesis
    by (intro exI [of _ "fst ?c"] exI [of _ "snd ?c"]) (auto simp: prod_eq_iff)
qed

theorem setup_single_winner_witness:
  "length (filter (\<lambda>(c, r). is_setup_win () c r)
     (zip [ex_setup, ex_login] [RToken ''YWJj'', RToken ''ZGVm''])) \<le> 1"
  using setup_single_winner [OF ex_run] by (simp add: empty_auth_def)

theorem sessions_view_reproducible_witness:
  "\<exists>l. fst (ListSessions (env_H ex_env) ''YWJj'' ex_db) = Inr l \<and>
     Total l = length (auth_sessions (tables ex_db)) \<and> length (Items l) = 2"
proof -
  let ?c = "ListSessions (env_H ex_env) ''YWJj'' ex_db"
  have "case fst ?c of Inr l \<Rightarrow> True | Inl _ \<Rightarrow> False" by code_simp
  then obtain l where l: "fst ?c = Inr l" by (auto split: sum.splits)
  then have c: "?c = (Inr l, snd ?c)" by (metis prod.collapse)
  have d: "distinct (map ses_id (auth_sessions (tables ex_db)))"
    and n: "length (auth_sessions (tables ex_db)) = 2" by code_simp+
  from sessions_view_reproducible [OF c c refl d] l n show ?thesis by auto
qed

end
