(* ===== verification/Json.thy ===== *)
theory Json
  imports GoText "HOL-Library.Char_ord" "HOL-Library.List_Lexorder"
begin

text \<open>
  JSON values as \<open>encoding/json\<close> decodes them into \<open>any\<close>, and \<open>json.Marshal\<close> of such values.

  An object is an association list with distinct keys; Go's map order is not observable, since
  \<open>Marshal\<close> sorts the keys. A number carries the text that \<open>Marshal\<close> prints for it. A nil map
  is \<open>JNull\<close>. Strings are valid UTF-8 (the decoder replaces anything else), so the only
  multi-byte sequences that \<open>Marshal\<close> escapes are the two line separators.
\<close>

datatype json =
    JNull | JBool bool | JNum string | JStr string
  | JArr "json list" | JObj "(string \<times> json) list"

type_synonym args = "(string \<times> json) list"

definition hex4 :: "nat \<Rightarrow> string" where
  "hex4 n = (let h = (\<lambda>d. byte (if d < 10 then 48 + d else 87 + d))
     in [h (n div 4096 mod 16), h (n div 256 mod 16), h (n div 16 mod 16), h (n mod 16)])"

definition escape_char :: "char \<Rightarrow> string" where
  "escape_char c =
    (if c = byte 34 then [byte 92, byte 34]
     else if c = byte 92 then [byte 92, byte 92]
     else if c = byte 8 then [byte 92, CHR ''b'']
     else if c = byte 12 then [byte 92, CHR ''f'']
     else if c = byte 10 then [byte 92, CHR ''n'']
     else if c = byte 13 then [byte 92, CHR ''r'']
     else if c = byte 9 then [byte 92, CHR ''t'']
     else if (of_char c :: nat) < 32 \<or> c = CHR ''<'' \<or> c = CHR ''>'' \<or> c = CHR ''&''
       then [byte 92, CHR ''u''] @ hex4 (of_char c)
     else [c])"

fun escape :: "string \<Rightarrow> string" where
  "escape [] = []"
| "escape (c # cs) =
    (case cs of
       d # e # rest \<Rightarrow>
         if c = byte 0xE2 \<and> d = byte 0x80 \<and> (e = byte 0xA8 \<or> e = byte 0xA9)
         then [byte 92, CHR ''u''] @ hex4 (if e = byte 0xA8 then 0x2028 else 0x2029) @ escape rest
         else escape_char c @ escape cs
     | _ \<Rightarrow> escape_char c @ escape cs)"

definition quoted :: "string \<Rightarrow> string" where
  "quoted s = byte 34 # escape s @ [byte 34]"

fun Marshal :: "json \<Rightarrow> string" where
  "Marshal JNull = ''null''"
| "Marshal (JBool b) = (if b then ''true'' else ''false'')"
| "Marshal (JNum n) = n"
| "Marshal (JStr s) = quoted s"
| "Marshal (JArr xs) = CHR ''['' # Join (map Marshal xs) '','' @ '']''"
| "Marshal (JObj kvs) = CHR ''{'' #
     Join (map (\<lambda>(k, v). quoted k @ CHR '':'' # v)
       (sort_key fst (map (\<lambda>(k, v). (k, Marshal v)) kvs))) '','' @ ''}''"

text \<open>Looking up an argument: Go's \<open>args[key]\<close>.\<close>

definition arg :: "args \<Rightarrow> string \<Rightarrow> json option" where
  "arg a k = map_of a k"

end
