(* ===== verification/OAuthMetadata.thy ===== *)
theory OAuthMetadata
  imports GoText Json
begin

text \<open>
  The configuration and the discovery documents of the OAuth authorization server,
  \<open>src/internal/oauth/oauth.go\<close> and \<open>metadata.go\<close>: defaults, issuer and resource, scopes and their
  negotiation, the map from scopes to the role of the MCP server, and the JSON documents.

  Scopes are texts. The two scopes the program knows are \<open>fund.read\<close> and \<open>fund.write\<close>; everything
  that decides what a token may do goes through \<open>NegotiateScopes\<close> and \<open>RoleForScopes\<close>.
\<close>

section \<open>Errors and options (oauth.go)\<close>

datatype oauth_code =
    ErrInvalidRequest | ErrInvalidClient | ErrUnauthorizedClient | ErrAccessDenied
  | ErrUnsupportedResponseType | ErrUnsupportedGrantType | ErrInvalidScope | ErrInvalidRedirectURI
  | ErrInvalidGrant | ErrServerError | ErrTemporarilyUnavailable | ErrLoginRequired

text \<open>The human-readable description of a failure is not modelled.\<close>

record OAuthFailure =
  fl_Code :: oauth_code
  fl_Status :: nat
  fl_Redirectable :: bool

definition fail :: "oauth_code \<Rightarrow> nat \<Rightarrow> OAuthFailure" where
  "fail code status = \<lparr>fl_Code = code, fl_Status = status, fl_Redirectable = False\<rparr>"

definition OAuthScopeRead :: string where "OAuthScopeRead = ''fund.read''"
definition OAuthScopeWrite :: string where "OAuthScopeWrite = ''fund.write''"
definition OAuthSubject :: string where "OAuthSubject = ''fund-owner''"
definition DefaultResourcePath :: string where "DefaultResourcePath = ''/mcp''"

record OAuthOptions =
  oo_PublicBaseURL :: string
  oo_ResourcePath :: string
  oo_SigningKeyPEM :: string
  oo_AccessTTL :: duration
  oo_RefreshTTL :: duration
  oo_CodeTTL :: duration
  oo_AutoApprove :: bool
  oo_AllowWriteScope :: bool
  oo_CIMDHosts :: "string list"

definition withDefaults :: "OAuthOptions \<Rightarrow> OAuthOptions" where
  "withDefaults o1 =
    (let path = (if TrimSpace (oo_ResourcePath o1) = [] then DefaultResourcePath else oo_ResourcePath o1);
         path' = (if HasPrefix path ''/'' then path else ''/'' @ path)
     in o1\<lparr>oo_PublicBaseURL := TrimRightChar CHR ''/'' (TrimSpace (oo_PublicBaseURL o1)),
           oo_ResourcePath := path',
           oo_AccessTTL := (if oo_AccessTTL o1 \<le> 0 then Hour else oo_AccessTTL o1),
           oo_RefreshTTL := (if oo_RefreshTTL o1 \<le> 0 then 720 * Hour else oo_RefreshTTL o1),
           oo_CodeTTL := (if oo_CodeTTL o1 \<le> 0 then 60 * Second else oo_CodeTTL o1),
           oo_CIMDHosts := (if oo_CIMDHosts o1 = [] then [''chatgpt.com''] else oo_CIMDHosts o1)\<rparr>)"

definition ScopesSupported :: "OAuthOptions \<Rightarrow> string list" where
  "ScopesSupported o1 = (if oo_AllowWriteScope o1 then [OAuthScopeRead, OAuthScopeWrite] else [OAuthScopeRead])"

definition Issuer :: "OAuthOptions \<Rightarrow> string \<Rightarrow> string" where
  "Issuer o1 fallback =
    (if oo_PublicBaseURL o1 \<noteq> [] then oo_PublicBaseURL o1 else TrimRightChar CHR ''/'' (TrimSpace fallback))"

definition Resource :: "OAuthOptions \<Rightarrow> string \<Rightarrow> string" where
  "Resource o1 issuer = TrimRightChar CHR ''/'' issuer @ oo_ResourcePath o1"

section \<open>Scopes\<close>

definition splitScopes :: "string \<Rightarrow> string list" where
  "splitScopes raw = (if TrimSpace raw = [] then [] else filter (\<lambda>p. p \<noteq> []) (Fields (TrimSpace raw)))"

definition joinScopes :: "string list \<Rightarrow> string" where
  "joinScopes scopes = Join scopes '' ''"

definition dedupeStrings :: "string list \<Rightarrow> string list" where
  "dedupeStrings xs = keep_first {} xs"

definition NegotiateScopes :: "OAuthOptions \<Rightarrow> string \<Rightarrow> string list" where
  "NegotiateScopes o1 requested =
    (let granted = dedupeStrings (filter (\<lambda>s. s \<in> set (ScopesSupported o1)) (splitScopes requested))
     in if granted = [] then [OAuthScopeRead] else granted)"

definition RoleForScopes :: "string list \<Rightarrow> string" where
  "RoleForScopes scopes =
    (if list_ex (\<lambda>s. s = OAuthScopeWrite) scopes then ''operator'' else ''analyst'')"

section \<open>Discovery (metadata.go)\<close>

definition WellKnownPathProtectedResource :: "string \<Rightarrow> string list" where
  "WellKnownPathProtectedResource resourcePath =
    (let base = ''/.well-known/oauth-protected-resource''; sfx = TrimPrefix resourcePath ''/''
     in if sfx \<noteq> [] then [base, base @ ''/'' @ sfx] else [base])"

definition WellKnownPathAuthorizationServer :: "string \<Rightarrow> string list" where
  "WellKnownPathAuthorizationServer resourcePath =
    (let bases = [''/.well-known/oauth-authorization-server'', ''/.well-known/openid-configuration''];
         sfx = TrimPrefix resourcePath ''/''
     in if sfx \<noteq> [] then concat (map (\<lambda>base. [base, base @ ''/'' @ sfx]) bases) else bases)"

definition JStrs :: "string list \<Rightarrow> json" where "JStrs xs = JArr (map JStr xs)"

definition ProtectedResourceMetadata :: "OAuthOptions \<Rightarrow> string \<Rightarrow> json" where
  "ProtectedResourceMetadata o1 issuer = JObj
    [(''resource'', JStr (Resource o1 issuer)),
     (''authorization_servers'', JStrs [issuer]),
     (''scopes_supported'', JStrs (ScopesSupported o1)),
     (''bearer_methods_supported'', JStrs [''header'']),
     (''resource_signing_alg_values_supported'', JStrs []),
     (''tls_client_certificate_bound_access_tokens'', JBool False),
     (''documentation'', JStr (issuer @ ''/oauth/about''))]"

definition AuthorizationServerMetadata :: "OAuthOptions \<Rightarrow> string \<Rightarrow> json" where
  "AuthorizationServerMetadata o1 issuer = JObj
    [(''issuer'', JStr issuer),
     (''authorization_endpoint'', JStr (issuer @ ''/oauth/authorize'')),
     (''token_endpoint'', JStr (issuer @ ''/oauth/token'')),
     (''registration_endpoint'', JStr (issuer @ ''/oauth/register'')),
     (''jwks_uri'', JStr (issuer @ ''/oauth/jwks'')),
     (''scopes_supported'', JStrs (ScopesSupported o1)),
     (''response_types_supported'', JStrs [''code'']),
     (''response_modes_supported'', JStrs [''query'']),
     (''grant_types_supported'', JStrs [''authorization_code'', ''refresh_token'']),
     (''code_challenge_methods_supported'', JStrs [''S256'']),
     (''token_endpoint_auth_methods_supported'', JStrs [''none'']),
     (''token_endpoint_auth_signing_alg_values_supported'', JStrs []),
     (''client_id_metadata_document_supported'', JBool True),
     (''service_documentation'', JStr (issuer @ ''/oauth/about'')),
     (''access_token_formats'', JStrs [''jwt'']),
     (''revocation_endpoint'', JStr (issuer @ ''/oauth/revoke'')),
     (''revocation_endpoint_auth_methods_supported'', JStrs [''none'']),
     (''authorization_response_iss_parameter_supported'', JBool False)]"

definition scopesDescription :: "OAuthOptions \<Rightarrow> json" where
  "scopesDescription o1 = JArr
    ([JObj [(''scope'', JStr OAuthScopeRead), (''role'', JStr ''analyst''),
       (''description'', JStr ''Read portfolio, holdings, NAV history, analytics and market context.'')]] @
     (if oo_AllowWriteScope o1 then
       [JObj [(''scope'', JStr OAuthScopeWrite), (''role'', JStr ''operator''),
         (''description'', JStr (''Additionally perform write and maintenance tools '' @
           ''(each still confirmation-gated).''))]]
      else []))"

definition AboutDocument :: "OAuthOptions \<Rightarrow> string \<Rightarrow> json" where
  "AboutDocument o1 issuer = JObj
    [(''service'', JStr ''fund-dashboard''), (''issuer'', JStr issuer),
     (''resource'', JStr (Resource o1 issuer)), (''mcp_endpoint'', JStr (Resource o1 issuer)),
     (''profile'', JStr ''OAuth 2.1 authorization code + PKCE (S256), public clients only''),
     (''scopes'', scopesDescription o1),
     (''discovery'', JObj
       [(''protected_resource'', JStrs (WellKnownPathProtectedResource (oo_ResourcePath o1))),
        (''authorization_server'', JStrs (WellKnownPathAuthorizationServer (oo_ResourcePath o1)))]),
     (''endpoints'', JObj
       [(''authorize'', JStr (issuer @ ''/oauth/authorize'')), (''token'', JStr (issuer @ ''/oauth/token'')),
        (''register'', JStr (issuer @ ''/oauth/register'')), (''jwks'', JStr (issuer @ ''/oauth/jwks'')),
        (''revoke'', JStr (issuer @ ''/oauth/revoke''))]),
     (''notes'', JStr (''Single-tenant dashboard: the resource owner is whoever can log in. '' @
       ''Access tokens are ES256 JWTs audience-bound to the MCP resource URL.''))]"

section \<open>Lemmas\<close>

lemmas oauth_scope_defs = OAuthScopeRead_def OAuthScopeWrite_def

lemma scopes_distinct [simp]: "OAuthScopeRead \<noteq> OAuthScopeWrite"
  by (simp add: oauth_scope_defs)

lemma NegotiateScopes_props:
  "NegotiateScopes o1 r \<noteq> []" "distinct (NegotiateScopes o1 r)"
  "set (NegotiateScopes o1 r) \<subseteq> set (ScopesSupported o1)"
  unfolding NegotiateScopes_def Let_def dedupeStrings_def
  by (auto simp: distinct_keep_first set_keep_first ScopesSupported_def)

lemma write_negotiated:
  "OAuthScopeWrite \<in> set (NegotiateScopes o1 r) \<longleftrightarrow>
     oo_AllowWriteScope o1 \<and> OAuthScopeWrite \<in> set (splitScopes r)"
proof -
  let ?g = "keep_first {} (filter (\<lambda>s. s \<in> set (ScopesSupported o1)) (splitScopes r))"
  have g: "OAuthScopeWrite \<in> set ?g \<longleftrightarrow> oo_AllowWriteScope o1 \<and> OAuthScopeWrite \<in> set (splitScopes r)"
    by (auto simp: set_keep_first ScopesSupported_def scopes_distinct [symmetric])
  show ?thesis
  proof (cases "?g = []")
    case True
    with g show ?thesis by (auto simp: NegotiateScopes_def dedupeStrings_def scopes_distinct [symmetric])
  next
    case False
    with g show ?thesis by (simp add: NegotiateScopes_def dedupeStrings_def)
  qed
qed

lemma RoleForScopes_operator: "RoleForScopes ss = ''operator'' \<longleftrightarrow> OAuthScopeWrite \<in> set ss"
  by (auto simp: RoleForScopes_def list_ex_iff)

text \<open>Scope lists the server grants survive being joined and split again.\<close>

lemma split_join_granted:
  assumes "distinct ss" "set ss \<subseteq> {OAuthScopeRead, OAuthScopeWrite}"
  shows "splitScopes (joinScopes ss) = ss"
proof -
  have "length ss \<le> 2"
    using assms card_mono [of "{OAuthScopeRead, OAuthScopeWrite}" "set ss"] by (simp add: distinct_card)
  then consider "ss = []" | x where "ss = [x]" | x y where "ss = [x, y]"
    by (cases ss; cases "tl ss"; cases "tl (tl ss)") auto
  moreover have
    "splitScopes (joinScopes [OAuthScopeRead]) = [OAuthScopeRead]"
    "splitScopes (joinScopes [OAuthScopeWrite]) = [OAuthScopeWrite]"
    "splitScopes (joinScopes [OAuthScopeRead, OAuthScopeWrite]) = [OAuthScopeRead, OAuthScopeWrite]"
    "splitScopes (joinScopes [OAuthScopeWrite, OAuthScopeRead]) = [OAuthScopeWrite, OAuthScopeRead]"
    "splitScopes (joinScopes []) = []" by code_simp+
  ultimately show ?thesis using assms by cases auto
qed

lemma ScopesSupported_known: "set (ScopesSupported o1) \<subseteq> {OAuthScopeRead, OAuthScopeWrite}"
  by (auto simp: ScopesSupported_def)

text \<open>
  Scope negotiation can only narrow: the granted scopes are never empty, are distinct and
  among those the deployment advertises; they give the operator role exactly when writing is
  enabled and was asked for; and they survive the trip through the space-separated text of a
  token or a refresh-token row.
\<close>

theorem negotiate_scopes_sound:
  "let g = NegotiateScopes o1 requested in
     g \<noteq> [] \<and> distinct g \<and> set g \<subseteq> set (ScopesSupported o1) \<and>
     (RoleForScopes g = ''operator'' \<longleftrightarrow> oo_AllowWriteScope o1 \<and> OAuthScopeWrite \<in> set (splitScopes requested)) \<and>
     splitScopes (joinScopes g) = g"
proof -
  let ?g = "NegotiateScopes o1 requested"
  have "set ?g \<subseteq> {OAuthScopeRead, OAuthScopeWrite}"
    using NegotiateScopes_props(3) ScopesSupported_known by blast
  from split_join_granted [OF NegotiateScopes_props(2) this] show ?thesis
    by (simp add: NegotiateScopes_props RoleForScopes_operator write_negotiated)
qed

end
