(* ===== verification/OAuthStore.thy ===== *)
theory OAuthStore
  imports Encoding Json
begin

text \<open>
  The persistence of the OAuth server, \<open>src/internal/oauth/store.go\<close>: registered clients, refresh
  tokens, the signing key and the consents of the owner. One definition per method, one \<open>stmt\<close>
  per SQL statement; lists are stored as JSON text, and \<open>unmarshal\<close> decodes them again. The nil
  store, with which the server runs without a database, is treated where the service calls it.
\<close>

section \<open>Tables\<close>

record Client =
  cl_ID :: string
  cl_Name :: string
  cl_RedirectURIs :: "string list"
  cl_GrantTypes :: "string list"
  cl_TokenEndpointAuthMethod :: string
  cl_Scope :: string
  cl_ClientURI :: string
  cl_RegistrationAccessToken :: string
  cl_CreatedAt :: int
  cl_MetadataDocument :: bool

record client_row =
  cr_client :: Client
  cr_redirects :: string
  cr_grants :: string

record StoredSigningKey =
  sk_Kid :: string
  sk_Algorithm :: string
  sk_PrivateKeyPEM :: string
  sk_PublicJWKJSON :: string
  sk_CreatedAt :: int

text \<open>\<open>rt_RevokedAt\<close> is \<open>None\<close> for SQL's NULL.\<close>

record StoredRefreshToken =
  rt_ID :: string
  rt_ClientID :: string
  rt_Scope :: string
  rt_Resource :: string
  rt_CreatedAt :: int
  rt_ExpiresAt :: int
  rt_RevokedAt :: "int option"

record oauth_tables =
  ot_clients :: "client_row list"
  ot_refresh :: "StoredRefreshToken list"
  ot_key :: "StoredSigningKey option"
  ot_consents :: "(string \<times> string \<times> int) list"

type_synonym 'a oauth_sql = "(oauth_tables db, db_error, 'a) proc"

section \<open>Signing key\<close>

definition LoadSigningKey :: "StoredSigningKey option oauth_sql" where
  "LoadSigningKey = stmt (\<lambda>t. (ot_key t, t))"

definition InsertSigningKeyIfAbsent :: "StoredSigningKey \<Rightarrow> bool oauth_sql" where
  "InsertSigningKeyIfAbsent key = stmt (\<lambda>t. case ot_key t of
       None \<Rightarrow> (True, t\<lparr>ot_key := Some key\<rparr>) | Some _ \<Rightarrow> (False, t))"

section \<open>Clients\<close>

definition string_array :: "string list \<Rightarrow> string" where
  "string_array xs = Marshal (JArr (map JStr xs))"

definition new_client_row :: "Client \<Rightarrow> client_row" where
  "new_client_row c = \<lparr>cr_client = c, cr_redirects = string_array (cl_RedirectURIs c),
     cr_grants = string_array (cl_GrantTypes c)\<rparr>"

text \<open>On a conflict everything but the creation time is replaced.\<close>

definition InsertClient :: "Client \<Rightarrow> unit oauth_sql" where
  "InsertClient c = stmt (\<lambda>t. ((), t\<lparr>ot_clients :=
     (if select1 (\<lambda>r. cl_ID (cr_client r) = cl_ID c) (ot_clients t) = None
      then ot_clients t @ [new_client_row c]
      else update_where (\<lambda>r. cl_ID (cr_client r) = cl_ID c)
        (\<lambda>r. new_client_row (c\<lparr>cl_CreatedAt := cl_CreatedAt (cr_client r)\<rparr>)) (ot_clients t))\<rparr>))"

definition decode_client :: "(string \<Rightarrow> string list option) \<Rightarrow> client_row \<Rightarrow> Client option" where
  "decode_client unmarshal r = (case (unmarshal (cr_redirects r), unmarshal (cr_grants r)) of
     (Some redirects, Some grants) \<Rightarrow> Some ((cr_client r)\<lparr>cl_RedirectURIs := redirects,
        cl_GrantTypes := grants, cl_MetadataDocument := False\<rparr>)
   | _ \<Rightarrow> None)"

definition ClientByID :: "(string \<Rightarrow> string list option) \<Rightarrow> string \<Rightarrow> Client option oauth_sql" where
  "ClientByID unmarshal clientID =
    andThen (stmt (\<lambda>t. (select1 (\<lambda>r. cl_ID (cr_client r) = clientID) (ot_clients t), t))) (\<lambda>row.
      case row of None \<Rightarrow> ret None
      | Some r \<Rightarrow> (case decode_client unmarshal r of None \<Rightarrow> throw DriverError | Some c \<Rightarrow> ret (Some c)))"

definition DeleteClientConsent :: "string \<Rightarrow> unit oauth_sql" where
  "DeleteClientConsent clientID = stmt (\<lambda>t. ((), t\<lparr>ot_consents :=
     delete_where (\<lambda>c. fst c = clientID) (ot_consents t)\<rparr>))"

definition DeleteClient :: "string \<Rightarrow> unit oauth_sql" where
  "DeleteClient clientID =
    andThen (stmt (\<lambda>t. ((), t\<lparr>ot_clients :=
        delete_where (\<lambda>r. cl_ID (cr_client r) = clientID) (ot_clients t)\<rparr>)))
      (\<lambda>_. DeleteClientConsent clientID)"

definition CountClients :: "nat oauth_sql" where
  "CountClients = stmt (\<lambda>t. (length (ot_clients t), t))"

section \<open>Consents\<close>

definition RecordClientConsent :: "string \<Rightarrow> string \<Rightarrow> int \<Rightarrow> unit oauth_sql" where
  "RecordClientConsent clientID scope approvedAt = stmt (\<lambda>t. ((), t\<lparr>ot_consents :=
     (if list_ex (\<lambda>(c, s, _). c = clientID \<and> s = scope) (ot_consents t) then ot_consents t
      else ot_consents t @ [(clientID, scope, approvedAt)])\<rparr>))"

definition HasClientConsent :: "string \<Rightarrow> string list \<Rightarrow> bool oauth_sql" where
  "HasClientConsent clientID scopes =
    (if scopes = [] then ret False
     else andThen (stmt (\<lambda>t. (count_where (\<lambda>(c, s, _). c = clientID \<and> s \<in> set scopes) (ot_consents t), t)))
       (\<lambda>count. ret (count = length scopes)))"

section \<open>Refresh tokens\<close>

definition oauth_tokenID :: "(string \<Rightarrow> string) \<Rightarrow> string \<Rightarrow> string" where
  "oauth_tokenID sha raw = HexEncode (sha raw)"

definition NewRefreshToken :: "(string \<Rightarrow> string) \<Rightarrow> string option \<Rightarrow> (string \<times> string) option" where
  "NewRefreshToken sha rnd = (case rnd of None \<Rightarrow> None
     | Some buf \<Rightarrow> (let raw = B64Encode url_alphabet buf in Some (raw, oauth_tokenID sha raw)))"

definition refreshTokenRetention :: int where "refreshTokenRetention = 30 * 86400"

definition swept :: "int \<Rightarrow> StoredRefreshToken \<Rightarrow> bool" where
  "swept cutoff r \<longleftrightarrow> rt_ExpiresAt r \<le> cutoff \<or>
     (case rt_RevokedAt r of None \<Rightarrow> False | Some v \<Rightarrow> 0 < v \<and> v \<le> cutoff)"

text \<open>Best effort: an error of the sweep is logged and dropped.\<close>

definition sweepExpiredRefreshTokens :: "int \<Rightarrow> oauth_tables db \<Rightarrow> oauth_tables db" where
  "sweepExpiredRefreshTokens now d =
    (let cutoff = now - refreshTokenRetention in
     if cutoff \<le> 0 then d
     else snd (stmt (\<lambda>t. ((), t\<lparr>ot_refresh := delete_where (swept cutoff) (ot_refresh t)\<rparr>)) d))"

text \<open>\<open>RevokedAt\<close> 0 is stored as NULL; the primary key makes a second insert of an id fail.\<close>

definition InsertRefreshToken :: "StoredRefreshToken \<Rightarrow> unit oauth_sql" where
  "InsertRefreshToken token =
    andThen (stmt (\<lambda>t. if select1 (\<lambda>r. rt_ID r = rt_ID token) (ot_refresh t) = None
        then (True, t\<lparr>ot_refresh := ot_refresh t @
          [token\<lparr>rt_RevokedAt := (if rt_RevokedAt token = Some 0 then None else rt_RevokedAt token)\<rparr>]\<rparr>)
        else (False, t)))
      (\<lambda>inserted. if inserted then (\<lambda>d. (Inr (), sweepExpiredRefreshTokens (rt_CreatedAt token) d))
        else throw DriverError)"

definition live_token :: "int \<Rightarrow> StoredRefreshToken \<Rightarrow> bool" where
  "live_token now r \<longleftrightarrow> (rt_RevokedAt r = None \<or> rt_RevokedAt r = Some 0) \<and> now < rt_ExpiresAt r"

definition RefreshTokenByID :: "string \<Rightarrow> int \<Rightarrow> StoredRefreshToken option oauth_sql" where
  "RefreshTokenByID tid now =
    andThen (stmt (\<lambda>t. (select1 (\<lambda>r. rt_ID r = tid) (ot_refresh t), t)))
      (\<lambda>row. ret (case row of None \<Rightarrow> None | Some r \<Rightarrow> if live_token now r then Some r else None))"

definition RevokeRefreshToken :: "string \<Rightarrow> int \<Rightarrow> unit oauth_sql" where
  "RevokeRefreshToken tid now = stmt (\<lambda>t. ((), t\<lparr>ot_refresh :=
     update_where (\<lambda>r. rt_ID r = tid \<and> rt_RevokedAt r = None) (\<lambda>r. r\<lparr>rt_RevokedAt := Some now\<rparr>)
       (ot_refresh t)\<rparr>))"

definition RevokeClientTokens :: "string \<Rightarrow> int \<Rightarrow> unit oauth_sql" where
  "RevokeClientTokens clientID now = stmt (\<lambda>t. ((), t\<lparr>ot_refresh :=
     update_where (\<lambda>r. rt_ClientID r = clientID \<and> rt_RevokedAt r = None)
       (\<lambda>r. r\<lparr>rt_RevokedAt := Some now\<rparr>) (ot_refresh t)\<rparr>))"

section \<open>Lemmas\<close>

text \<open>The sweep never removes a token that is neither revoked nor expired.\<close>

lemma sweep_keeps_live:
  assumes "r \<in> set (ot_refresh (tables d))" "rt_RevokedAt r = None" "now < rt_ExpiresAt r"
  shows "r \<in> set (ot_refresh (tables (sweepExpiredRefreshTokens now d)))"
  using assms unfolding sweepExpiredRefreshTokens_def Let_def
  by (auto simp: stmt_def swept_def refreshTokenRetention_def split: list.split bool.split)

lemma sweep_tables:
  "tables (sweepExpiredRefreshTokens now d) = tables d \<or>
   (\<exists>p. tables (sweepExpiredRefreshTokens now d) =
      (tables d)\<lparr>ot_refresh := delete_where p (ot_refresh (tables d))\<rparr>)"
  unfolding sweepExpiredRefreshTokens_def Let_def
  by (auto simp: stmt_def split: list.split bool.split)

lemma InsertRefreshToken_D:
  assumes "InsertRefreshToken token d = (r, d')" "rt_RevokedAt token = None"
  shows "tables d' = tables d \<or>
    (\<exists>p. tables d' = (tables d)\<lparr>ot_refresh := filter p (ot_refresh (tables d) @ [token])\<rparr> \<and>
      (\<forall>q \<in> set (ot_refresh (tables d)). rt_ID q \<noteq> rt_ID token))"
proof -
  let ?t = "(tables d)\<lparr>ot_refresh := ot_refresh (tables d) @ [token]\<rparr>"
  have tok: "token\<lparr>rt_RevokedAt := None\<rparr> = token" using assms(2) by (cases token) simp
  from assms consider "tables d' = tables d"
    | d1 where "\<forall>q \<in> set (ot_refresh (tables d)). rt_ID q \<noteq> rt_ID token" "tables d1 = ?t"
        "d' = sweepExpiredRefreshTokens (rt_CreatedAt token) d1"
    unfolding InsertRefreshToken_def
    by (elim andThenE) (auto dest!: stmt_Inl_tables stmt_Inr_tables simp: select1_None_iff tok split: if_splits)
  then show ?thesis
  proof cases
    case 2
    from sweep_tables [of "rt_CreatedAt token" d1] 2(2,3) have
      "tables d' = ?t \<or> (\<exists>p. tables d' = ?t\<lparr>ot_refresh := delete_where p (ot_refresh ?t)\<rparr>)" by simp
    then have "\<exists>p. tables d' = (tables d)\<lparr>ot_refresh := filter p (ot_refresh (tables d) @ [token])\<rparr>"
    proof
      assume "tables d' = ?t"
      then show ?thesis by (intro exI [of _ "\<lambda>_. True"]) simp
    next
      assume "\<exists>p. tables d' = ?t\<lparr>ot_refresh := delete_where p (ot_refresh ?t)\<rparr>"
      then obtain p where "tables d' = ?t\<lparr>ot_refresh := delete_where p (ot_refresh ?t)\<rparr>" by blast
      then show ?thesis by (intro exI [of _ "\<lambda>r. \<not> p r"]) (simp add: delete_where_def)
    qed
    with 2(1) show ?thesis by blast
  qed simp
qed

lemma RefreshTokenByID_Inr:
  "RefreshTokenByID tid now d = (Inr x, d') \<Longrightarrow> tables d' = tables d \<and>
   (\<forall>r. x = Some r \<longrightarrow> r \<in> set (ot_refresh (tables d)) \<and> rt_ID r = tid \<and> live_token now r)"
  unfolding RefreshTokenByID_def
  by (elim andThenE) (auto dest!: stmt_Inr_tables select1_SomeD [OF sym] split: option.splits if_splits)

lemma RefreshTokenByID_tables: "RefreshTokenByID tid now d = (x, d') \<Longrightarrow> tables d' = tables d"
  unfolding RefreshTokenByID_def
  by (elim andThenE) (auto dest!: stmt_Inr_tables stmt_Inl_tables)

lemma ClientByID_tables: "ClientByID u cid d = (x, d') \<Longrightarrow> tables d' = tables d"
  unfolding ClientByID_def
  by (elim andThenE) (auto dest!: stmt_Inr_tables stmt_Inl_tables split: option.splits)

text \<open>
  Counting the rows decides whether every scope is approved, because the primary key keeps the
  pairs of client and scope distinct.
\<close>

lemma count_consents:
  assumes "distinct (map (\<lambda>(c, s, _). (c, s)) rows)" "distinct scopes"
  shows "count_where (\<lambda>(c, s, _). c = cid \<and> s \<in> set scopes) rows = length scopes \<longleftrightarrow>
    (\<forall>s \<in> set scopes. \<exists>t. (cid, s, t) \<in> set rows)"
proof -
  let ?f = "filter (\<lambda>(c, s, _). c = cid \<and> s \<in> set scopes) rows"
  let ?k = "\<lambda>(c, s, _). (c, s)"
  have d: "distinct (map ?k ?f)" using assms(1) by (simp add: distinct_map_filter)
  have sub: "?k ` set ?f \<subseteq> Pair cid ` set scopes" by auto
  have card: "length ?f = card (?k ` set ?f)" using distinct_card [OF d] by simp
  have card2: "length scopes = card (Pair cid ` set scopes)"
    using distinct_card [OF assms(2)] by (simp add: card_image inj_on_def)
  have "length ?f = length scopes \<longleftrightarrow> ?k ` set ?f = Pair cid ` set scopes"
    using card card2 card_subset_eq [OF _ sub] by auto
  also have "\<dots> \<longleftrightarrow> (\<forall>s \<in> set scopes. \<exists>t. (cid, s, t) \<in> set rows)"
    using sub by (auto simp: image_iff) force+
  finally show ?thesis by (simp add: count_where_def)
qed

end
