(* ===== verification/Jwt.thy ===== *)
theory Jwt
  imports OAuthMetadata OAuthStore
begin

text \<open>
  Access tokens, \<open>src/internal/oauth/jwt.go\<close>: signing and verifying compact ES256 tokens, the
  fixed-width signature encoding, the key id and the resolution of the signing key.

  What Go's libraries do is the record \<open>jwt_lib\<close>: the digest, ECDSA on P-256 (a signature is the
  pair of its two integers, so \<open>SignASN1\<close> with the DER decoding that follows it is one
  function), \<open>json.Unmarshal\<close> into the header and the claims, and the PEM codec. A private key is
  an opaque text.
\<close>

section \<open>Claims and keys\<close>

definition AlgES256 :: string where "AlgES256 = ''ES256''"
definition maxFutureIssuedAtSkew :: duration where "maxFutureIssuedAtSkew = 5 * Minute"

record accessTokenClaims =
  cm_Issuer :: string
  cm_Subject :: string
  cm_Audience :: string
  cm_ClientID :: string
  cm_Scope :: string
  cm_Expiry :: int
  cm_IssuedAt :: int
  cm_JWTID :: string
  cm_TokenType :: string

record AccessToken =
  at_Issuer :: string
  at_Audience :: string
  at_ClientID :: string
  at_Subject :: string
  at_Scopes :: "string list"
  at_Expiry :: int
  at_JWTID :: string

definition HasScope :: "AccessToken \<Rightarrow> string \<Rightarrow> bool" where
  "HasScope t scope = list_ex (\<lambda>s. s = scope) (at_Scopes t)"

record token_header =
  hd_Alg :: string
  hd_Typ :: string
  hd_Kid :: string

record signingKey =
  key_kid :: string
  key_private :: string
  key_jwk :: "(string \<times> json) list"

record jwt_lib =
  jl_sha :: "string \<Rightarrow> string"
  jl_sign :: "string \<Rightarrow> string option \<Rightarrow> string \<Rightarrow> (nat \<times> nat) option"
  jl_verify :: "string \<Rightarrow> string \<Rightarrow> nat \<times> nat \<Rightarrow> bool"
  jl_header :: "string \<Rightarrow> token_header option"
  jl_claims :: "string \<Rightarrow> accessTokenClaims option"
  jl_public :: "string \<Rightarrow> nat \<times> nat"
  jl_parse_pem :: "string \<Rightarrow> string option"
  jl_encode_pem :: "string \<Rightarrow> string"

section \<open>Encodings\<close>

definition int_text :: "int \<Rightarrow> string" where
  "int_text i = (if i < 0 then CHR ''-'' # itoa (nat (- i)) else itoa (nat i))"

text \<open>\<open>json.Marshal\<close> of a struct: the fields in their order, empty ones omitted where tagged so.\<close>

definition marshal_struct :: "(string \<times> json) list \<Rightarrow> string" where
  "marshal_struct kvs =
     CHR ''{'' # Join (map (\<lambda>(k, v). quoted k @ CHR '':'' # Marshal v) kvs) '','' @ ''}''"

definition omitempty :: "string \<Rightarrow> string \<Rightarrow> (string \<times> json) list" where
  "omitempty k v = (if v = [] then [] else [(k, JStr v)])"

definition claims_json :: "accessTokenClaims \<Rightarrow> string" where
  "claims_json c = marshal_struct
    ([(''iss'', JStr (cm_Issuer c)), (''sub'', JStr (cm_Subject c)), (''aud'', JStr (cm_Audience c))] @
     omitempty ''client_id'' (cm_ClientID c) @ omitempty ''scope'' (cm_Scope c) @
     [(''exp'', JNum (int_text (cm_Expiry c))), (''iat'', JNum (int_text (cm_IssuedAt c)))] @
     omitempty ''jti'' (cm_JWTID c) @ omitempty ''token_type'' (cm_TokenType c))"

definition header_json :: "string \<Rightarrow> string" where
  "header_json kid = Marshal (JObj [(''alg'', JStr AlgES256), (''typ'', JStr ''JWT''), (''kid'', JStr kid)])"

definition encodeSegmentPair :: "string \<Rightarrow> string \<Rightarrow> string" where
  "encodeSegmentPair headerJSON claimsJSON =
     B64Encode url_alphabet headerJSON @ CHR ''.'' # B64Encode url_alphabet claimsJSON"

text \<open>\<open>big.Int.Bytes\<close> and \<open>SetBytes\<close>: big endian, without leading zeros.\<close>

fun int_bytes :: "nat \<Rightarrow> string" where
  "int_bytes n = (if n = 0 then [] else int_bytes (n div 256) @ [byte (n mod 256)])"

declare int_bytes.simps [simp del]

definition set_bytes :: "string \<Rightarrow> nat" where
  "set_bytes bs = foldl (\<lambda>a c. 256 * a + of_char c) 0 bs"

definition padded :: "nat \<Rightarrow> nat \<Rightarrow> string" where
  "padded v n = (let raw = int_bytes v in
     if length raw \<ge> n then drop (length raw - n) raw else replicate (n - length raw) (byte 0) @ raw)"

text \<open>An integer of more than 32 bytes makes the slice bounds negative: a panic, here \<open>None\<close>.\<close>

definition asn1ToRawES256 :: "nat \<times> nat \<Rightarrow> string option" where
  "asn1ToRawES256 rs = (case rs of (r, s) \<Rightarrow>
     if length (int_bytes r) > 32 \<or> length (int_bytes s) > 32 then None
     else Some (padded r 32 @ padded s 32))"

definition rawToASN1ES256 :: "string \<Rightarrow> (nat \<times> nat) option" where
  "rawToASN1ES256 raw =
     (if length raw \<noteq> 64 then None else Some (set_bytes (take 32 raw), set_bytes (drop 32 raw)))"

section \<open>Keys\<close>

definition jwkThumbprint :: "jwt_lib \<Rightarrow> string \<Rightarrow> string \<Rightarrow> string" where
  "jwkThumbprint L x y = B64Encode url_alphabet (take 8 (jl_sha L
     (CHR ''{'' # quoted ''crv'' @ CHR '':'' # quoted ''P-256'' @ CHR '','' # quoted ''kty'' @ CHR '':'' #
      quoted ''EC'' @ CHR '','' # quoted ''x'' @ '':'' @ [byte 34] @ x @ [byte 34] @ CHR '','' #
      quoted ''y'' @ '':'' @ [byte 34] @ y @ [byte 34] @ ''}'')))"

definition newSigningKey :: "jwt_lib \<Rightarrow> string \<Rightarrow> signingKey" where
  "newSigningKey L private =
    (let (px, py) = jl_public L private;
         x = B64Encode url_alphabet (padded px 32); y = B64Encode url_alphabet (padded py 32);
         kid = jwkThumbprint L x y
     in \<lparr>key_kid = kid, key_private = private,
         key_jwk = [(''kty'', JStr ''EC''), (''crv'', JStr ''P-256''), (''x'', JStr x), (''y'', JStr y),
           (''alg'', JStr AlgES256), (''use'', JStr ''sig''), (''kid'', JStr kid)]\<rparr>)"

definition parsePrivateKeyPEM :: "jwt_lib \<Rightarrow> string \<Rightarrow> signingKey option" where
  "parsePrivateKeyPEM L raw = map_option (newSigningKey L) (jl_parse_pem L raw)"

definition generateSigningKey :: "jwt_lib \<Rightarrow> string option \<Rightarrow> signingKey option" where
  "generateSigningKey L private = map_option (newSigningKey L) private"

datatype key_error = KeyPEM | KeyRandom | KeyStore | KeyUnusable | KeyVanished

text \<open>
  \<open>EnsureSigningKey\<close>: \<open>generated\<close> is the private key that \<open>ecdsa.GenerateKey\<close> returns, \<open>now\<close> the
  clock. The result is the key the service keeps.
\<close>

definition EnsureSigningKey :: "jwt_lib \<Rightarrow> OAuthOptions \<Rightarrow> bool \<Rightarrow> string option \<Rightarrow> time
    \<Rightarrow> (oauth_tables db, key_error, signingKey) proc" where
  "EnsureSigningKey L o1 has_store generated now =
    (let usable = (\<lambda>err pem. case parsePrivateKeyPEM L pem of Some k \<Rightarrow> ret k | None \<Rightarrow> throw err);
         fresh = (case generateSigningKey L generated of Some k \<Rightarrow> ret k | None \<Rightarrow> throw KeyRandom)
     in if TrimSpace (oo_SigningKeyPEM o1) \<noteq> [] then usable KeyPEM (TrimSpace (oo_SigningKeyPEM o1))
        else if \<not> has_store then fresh
        else andThen (wrap (\<lambda>_. KeyStore) LoadSigningKey) (\<lambda>stored.
          case stored of Some row \<Rightarrow> usable KeyUnusable (sk_PrivateKeyPEM row)
          | None \<Rightarrow> andThen fresh (\<lambda>key.
              andThen (wrap (\<lambda>_. KeyStore) (InsertSigningKeyIfAbsent \<lparr>sk_Kid = key_kid key,
                  sk_Algorithm = AlgES256, sk_PrivateKeyPEM = jl_encode_pem L (key_private key),
                  sk_PublicJWKJSON = Marshal (JObj (key_jwk key)), sk_CreatedAt = unix now\<rparr>)) (\<lambda>inserted.
                if inserted then ret key
                else andThen (wrap (\<lambda>_. KeyStore) LoadSigningKey) (\<lambda>winner.
                  case winner of None \<Rightarrow> throw KeyVanished
                  | Some row \<Rightarrow> usable KeyUnusable (sk_PrivateKeyPEM row))))))"

definition JWKS :: "signingKey option \<Rightarrow> json option" where
  "JWKS key = map_option (\<lambda>k. JObj [(''keys'', JArr [JObj (key_jwk k)])]) key"

section \<open>Signing and verifying\<close>

definition SignAccessToken :: "jwt_lib \<Rightarrow> signingKey option \<Rightarrow> string option \<Rightarrow> accessTokenClaims \<Rightarrow> string option" where
  "SignAccessToken L key rnd claims =
    (case key of None \<Rightarrow> None
     | Some k \<Rightarrow>
        (let signingInput = encodeSegmentPair (header_json (key_kid k)) (claims_json claims) in
         case jl_sign L (key_private k) rnd (jl_sha L signingInput) of None \<Rightarrow> None
         | Some sig \<Rightarrow> (case asn1ToRawES256 sig of None \<Rightarrow> None
             | Some raw \<Rightarrow> Some (signingInput @ CHR ''.'' # B64Encode url_alphabet raw))))"

datatype verify_error =
    NoSigningKey | MalformedToken | MalformedHeader | UnsupportedAlg string | UnknownKid
  | MalformedSignature | SignatureMismatch | MalformedClaims | IssuerMismatch string
  | AudienceMismatch string | TokenExpired | IssuedInFuture

definition check_claims :: "time \<Rightarrow> string \<Rightarrow> string \<Rightarrow> accessTokenClaims \<Rightarrow> verify_error + AccessToken" where
  "check_claims now expectedIssuer expectedAudience c =
    (if cm_Issuer c \<noteq> expectedIssuer then Inl (IssuerMismatch (cm_Issuer c))
     else if cm_Audience c \<noteq> expectedAudience then Inl (AudienceMismatch (cm_Audience c))
     else if unix now \<ge> cm_Expiry c then Inl TokenExpired
     else if cm_IssuedAt c > unix now + maxFutureIssuedAtSkew div Second then Inl IssuedInFuture
     else Inr \<lparr>at_Issuer = cm_Issuer c, at_Audience = cm_Audience c, at_ClientID = cm_ClientID c,
       at_Subject = cm_Subject c, at_Scopes = splitScopes (cm_Scope c), at_Expiry = cm_Expiry c,
       at_JWTID = cm_JWTID c\<rparr>)"

definition VerifyAccessToken :: "jwt_lib \<Rightarrow> signingKey option \<Rightarrow> time \<Rightarrow> string \<Rightarrow> string \<Rightarrow> string
    \<Rightarrow> verify_error + AccessToken" where
  "VerifyAccessToken L key now token expectedIssuer expectedAudience =
    (case key of None \<Rightarrow> Inl NoSigningKey
     | Some k \<Rightarrow>
       (case Split CHR ''.'' (TrimSpace token) of
          [p0, p1, p2] \<Rightarrow>
           (case B64Decode url_alphabet p0 of None \<Rightarrow> Inl MalformedHeader
            | Some headerBytes \<Rightarrow> (case jl_header L headerBytes of None \<Rightarrow> Inl MalformedHeader
              | Some header \<Rightarrow>
                 if hd_Alg header \<noteq> AlgES256 then Inl (UnsupportedAlg (hd_Alg header))
                 else if hd_Kid header \<noteq> key_kid k then Inl UnknownKid
                 else (case B64Decode url_alphabet p2 of None \<Rightarrow> Inl MalformedSignature
                   | Some signature \<Rightarrow> (case rawToASN1ES256 signature of None \<Rightarrow> Inl MalformedSignature
                     | Some rs \<Rightarrow>
                        if \<not> jl_verify L (key_private k) (jl_sha L (p0 @ CHR ''.'' # p1)) rs
                        then Inl SignatureMismatch
                        else (case B64Decode url_alphabet p1 of None \<Rightarrow> Inl MalformedClaims
                          | Some claimsBytes \<Rightarrow> (case jl_claims L claimsBytes of None \<Rightarrow> Inl MalformedClaims
                            | Some claims \<Rightarrow> check_claims now expectedIssuer expectedAudience claims))))))
        | _ \<Rightarrow> Inl MalformedToken))"

section \<open>The signature encoding\<close>

lemma foldl_digits:
  "foldl (\<lambda>a c. 256 * a + g c) n bs = n * 256 ^ length bs + foldl (\<lambda>a c. 256 * a + g c) (0 :: nat) bs"
proof (induction bs arbitrary: n)
  case (Cons b bs)
  show ?case using Cons.IH [of "256 * n + g b"] Cons.IH [of "g b"] by (simp add: algebra_simps)
qed simp

lemma set_bytes_append: "set_bytes (a @ b) = set_bytes a * 256 ^ length b + set_bytes b"
  unfolding set_bytes_def foldl_append by (rule foldl_digits)

lemma set_bytes_int_bytes: "set_bytes (int_bytes n) = n"
proof (induction n rule: int_bytes.induct)
  case (1 n)
  show ?case
  proof (cases "n = 0")
    case False
    then have "set_bytes (int_bytes n) = set_bytes (int_bytes (n div 256)) * 256 + n mod 256"
      by (subst int_bytes.simps) (simp add: set_bytes_append set_bytes_def [of "[_]"] byte_def)
    with 1 False show ?thesis by simp
  qed (simp add: int_bytes.simps set_bytes_def)
qed

lemma set_bytes_padded:
  assumes "length (int_bytes n) \<le> k"
  shows "set_bytes (padded n k) = n" "length (padded n k) = k"
proof -
  have "set_bytes (replicate m (byte 0) @ bs) = set_bytes bs" for m bs
    by (induction m) (simp_all add: set_bytes_def byte_def)
  then show "set_bytes (padded n k) = n"
    using assms by (auto simp: padded_def Let_def set_bytes_int_bytes)
  show "length (padded n k) = k" using assms by (auto simp: padded_def Let_def)
qed

lemma raw_roundtrip:
  assumes "asn1ToRawES256 rs = Some raw"
  shows "rawToASN1ES256 raw = Some rs" "raw \<noteq> []"
proof -
  obtain r s where rs: "rs = (r, s)" by (cases rs)
  with assms have l: "length (int_bytes r) \<le> 32" "length (int_bytes s) \<le> 32"
    and raw: "raw = padded r 32 @ padded s 32" by (auto simp: asn1ToRawES256_def split: if_splits)
  note p = set_bytes_padded [OF l(1)] set_bytes_padded [OF l(2)]
  from p raw rs show "rawToASN1ES256 raw = Some rs" by (simp add: rawToASN1ES256_def)
  from p raw show "raw \<noteq> []" by auto
qed

section \<open>Tokens\<close>

lemma b64url_TrimSpace:
  assumes "set s \<subseteq> insert (CHR ''.'') (set url_alphabet)"
  shows "TrimSpace s = s"
proof -
  have *: "leading seqs t = None" if "set t \<subseteq> insert (CHR ''.'') (set url_alphabet)"
    "list_all (\<lambda>q. q = [] \<or> hd q \<notin> insert (CHR ''.'') (set url_alphabet)) seqs" for t seqs
  proof (rule ccontr)
    assume "leading seqs t \<noteq> None"
    then obtain q where q: "leading seqs t = Some q" by blast
    from leading_SomeD [OF q] that(2) have "q \<noteq> []" "prefix q t" "hd q \<notin> insert (CHR ''.'') (set url_alphabet)"
      by (auto simp: list_all_iff)
    moreover from this have "hd q \<in> set t" by (auto simp: prefix_def)
    ultimately show False using that(1) by blast
  qed
  have "list_all (\<lambda>q. q = [] \<or> hd q \<notin> insert (CHR ''.'') (set url_alphabet)) space_seqs"
    "list_all (\<lambda>q. q = [] \<or> hd q \<notin> insert (CHR ''.'') (set url_alphabet)) (map rev space_seqs)" by code_simp+
  with * [OF assms] * [of "rev s"] assms show ?thesis
    by (simp add: TrimSpace_def strip_right_def strip_left_fix)
qed

lemma SignAccessToken_SomeD:
  assumes "SignAccessToken L (Some k) rnd c = Some token"
  obtains sig raw where
    "jl_sign L (key_private k) rnd (jl_sha L (encodeSegmentPair (header_json (key_kid k)) (claims_json c))) = Some sig"
    "asn1ToRawES256 sig = Some raw"
    "token = encodeSegmentPair (header_json (key_kid k)) (claims_json c) @ CHR ''.'' # B64Encode url_alphabet raw"
  using assms by (auto simp: SignAccessToken_def Let_def split: option.splits)

text \<open>
  C27. Minting and checking agree: a token the server signs is accepted by the server, with exactly
  the signed claims, whenever the claims pass the checks of issuer, audience, expiry and issue
  time - and refused with the very reason of those checks otherwise. Assumed of the libraries:
  a signature verifies under its own key, and JSON decodes to what was encoded.
\<close>

theorem sign_verify_roundtrip:
  assumes "SignAccessToken L (Some k) rnd c = Some token"
    and "\<And>digest sig. jl_sign L (key_private k) rnd digest = Some sig \<Longrightarrow> jl_verify L (key_private k) digest sig"
    and "jl_header L (header_json (key_kid k)) = Some \<lparr>hd_Alg = AlgES256, hd_Typ = ''JWT'', hd_Kid = key_kid k\<rparr>"
    and "jl_claims L (claims_json c) = Some c"
  shows "VerifyAccessToken L (Some k) now token issuer audience = check_claims now issuer audience c"
proof -
  from SignAccessToken_SomeD [OF assms(1)] obtain sig raw where
    sig: "jl_sign L (key_private k) rnd (jl_sha L (encodeSegmentPair (header_json (key_kid k)) (claims_json c))) = Some sig"
      "asn1ToRawES256 sig = Some raw"
    and token: "token = encodeSegmentPair (header_json (key_kid k)) (claims_json c) @ CHR ''.'' # B64Encode url_alphabet raw" .
  let ?p0 = "B64Encode url_alphabet (header_json (key_kid k))"
  let ?p1 = "B64Encode url_alphabet (claims_json c)"
  have "TrimSpace token = token"
    by (rule b64url_TrimSpace) (use b64url.encode_in_alphabet in \<open>auto simp: token encodeSegmentPair_def\<close>)
  moreover have "Split CHR ''.'' token = [?p0, ?p1, B64Encode url_alphabet raw]"
    by (simp add: token encodeSegmentPair_def Split_append b64url_no_dot)
  ultimately show ?thesis
    using assms(3,4) assms(2) [OF sig(1)] raw_roundtrip(1) [OF sig(2)]
    by (simp add: VerifyAccessToken_def b64url.decode_encode encodeSegmentPair_def)
qed

text \<open>
  C28. What an accepted token proves, whatever bytes were sent: exactly three segments, a header
  that names ES256 and the active key, a signature over the first two segments that verifies
  under that key, and claims for this issuer and this audience that are neither expired nor
  issued in the future; the scopes handed on are those of the claims.
\<close>

theorem verified_token_sound:
  assumes "VerifyAccessToken L key now token issuer audience = Inr t"
  shows "\<exists>k p0 p1 p2 header rs claims.
    key = Some k \<and> TrimSpace token = p0 @ CHR ''.'' # p1 @ CHR ''.'' # p2 \<and>
    CHR ''.'' \<notin> set p0 \<and> CHR ''.'' \<notin> set p1 \<and> CHR ''.'' \<notin> set p2 \<and>
    Option.bind (B64Decode url_alphabet p0) (jl_header L) = Some header \<and>
    hd_Alg header = ''ES256'' \<and> hd_Kid header = key_kid k \<and>
    Option.bind (B64Decode url_alphabet p2) rawToASN1ES256 = Some rs \<and>
    jl_verify L (key_private k) (jl_sha L (p0 @ CHR ''.'' # p1)) rs \<and>
    Option.bind (B64Decode url_alphabet p1) (jl_claims L) = Some claims \<and>
    cm_Issuer claims = issuer \<and> cm_Audience claims = audience \<and> unix now < cm_Expiry claims \<and>
    cm_IssuedAt claims \<le> unix now + 300 \<and> at_Scopes t = splitScopes (cm_Scope claims) \<and>
    at_Expiry t = cm_Expiry claims"
proof -
  obtain k where k: "key = Some k" using assms by (auto simp: VerifyAccessToken_def split: option.splits)
  obtain p0 p1 p2 where split: "Split CHR ''.'' (TrimSpace token) = [p0, p1, p2]"
    using assms k by (auto simp: VerifyAccessToken_def split: list.splits)
  note v = assms [unfolded VerifyAccessToken_def k split, simplified]
  obtain hb header where h: "B64Decode url_alphabet p0 = Some hb" "jl_header L hb = Some header"
    "hd_Alg header = AlgES256" "hd_Kid header = key_kid k"
    using v by (auto split: option.splits if_splits)
  obtain sb rs where s: "B64Decode url_alphabet p2 = Some sb" "rawToASN1ES256 sb = Some rs"
    "jl_verify L (key_private k) (jl_sha L (p0 @ CHR ''.'' # p1)) rs"
    using v h by (auto split: option.splits if_splits)
  obtain cb c where c: "B64Decode url_alphabet p1 = Some cb" "jl_claims L cb = Some c"
    "check_claims now issuer audience c = Inr t"
    using v h s by (auto split: option.splits if_splits)
  have cs: "cm_Issuer c = issuer" "cm_Audience c = audience" "unix now < cm_Expiry c"
    "cm_IssuedAt c \<le> unix now + 300" "at_Scopes t = splitScopes (cm_Scope c)" "at_Expiry t = cm_Expiry c"
    using c(3) by (auto simp: check_claims_def maxFutureIssuedAtSkew_def Minute_def Second_def split: if_splits)
  have join: "TrimSpace token = p0 @ CHR ''.'' # p1 @ CHR ''.'' # p2"
    using Join_Split [of "CHR ''.''" "TrimSpace token"] by (simp add: split)
  have dots: "CHR ''.'' \<notin> set p0" "CHR ''.'' \<notin> set p1" "CHR ''.'' \<notin> set p2"
    using Split_sep [where c = "CHR ''.''" and s = "TrimSpace token"] split by simp_all
  show ?thesis
    by (rule exI [of _ k], rule exI [of _ p0], rule exI [of _ p1], rule exI [of _ p2], rule exI [of _ header],
        rule exI [of _ rs], rule exI [of _ c]) (simp add: k join dots h s c(1,2) cs AlgES256_def [symmetric])
qed

section \<open>The signing key\<close>

text \<open>
  Without a configured key every boot that succeeds on a database works with the key stored
  there, and a stored key is never replaced: so all servers on one database share one key.
\<close>

lemma newSigningKey_private [simp]: "key_private (newSigningKey L p) = p"
  by (simp add: newSigningKey_def Let_def split: prod.split)

lemma EnsureSigningKey_stored:
  assumes "EnsureSigningKey L o1 True generated now d = (Inr k, d')" "TrimSpace (oo_SigningKeyPEM o1) = []"
    and "\<And>p. jl_parse_pem L (jl_encode_pem L p) = Some p"
  shows "\<exists>row. ot_key (tables d') = Some row \<and> parsePrivateKeyPEM L (sk_PrivateKeyPEM row) = Some k \<and>
    (\<forall>row0. ot_key (tables d) = Some row0 \<longrightarrow> row0 = row)"
proof -
  have key: "newSigningKey L (key_private k) = k" if "generateSigningKey L generated = Some k" for k
    using that newSigningKey_private by (auto simp: generateSigningKey_def)
  show ?thesis
    by (cases "ot_key (tables d)"; insert assms(1,2))
      (auto simp: EnsureSigningKey_def Let_def LoadSigningKey_def InsertSigningKeyIfAbsent_def
        parsePrivateKeyPEM_def assms(3) key elim!: andThenE dest!: stmt_Inr_tables
        split: option.splits if_splits)
qed

section \<open>Witnesses\<close>

definition ex_claims :: accessTokenClaims where
  "ex_claims = \<lparr>cm_Issuer = ''i'', cm_Subject = OAuthSubject, cm_Audience = ''i/mcp'', cm_ClientID = ''c'',
     cm_Scope = ''fund.read'', cm_Expiry = 3600, cm_IssuedAt = 0, cm_JWTID = ''j'', cm_TokenType = ''at+jwt''\<rparr>"

definition ex_jwt :: jwt_lib where
  "ex_jwt = \<lparr>jl_sha = (\<lambda>s. take 8 s), jl_sign = (\<lambda>_ _ _. Some (1, 2)), jl_verify = (\<lambda>_ _ rs. rs = (1, 2)),
     jl_header = (\<lambda>_. Some \<lparr>hd_Alg = ''ES256'', hd_Typ = ''JWT'', hd_Kid = ''k1''\<rparr>),
     jl_claims = (\<lambda>_. Some ex_claims), jl_public = (\<lambda>_. (3, 4)), jl_parse_pem = Some, jl_encode_pem = (\<lambda>p. p)\<rparr>"

definition ex_key :: signingKey where
  "ex_key = \<lparr>key_kid = ''k1'', key_private = ''p'', key_jwk = []\<rparr>"

lemma ex_signed: "\<exists>token. SignAccessToken ex_jwt (Some ex_key) None ex_claims = Some token"
proof -
  have "length (int_bytes 1) \<le> 32" "length (int_bytes 2) \<le> 32" by code_simp+
  then show ?thesis by (simp add: SignAccessToken_def ex_jwt_def asn1ToRawES256_def Let_def)
qed

lemma ex_checked:
  "\<exists>t. check_claims (5 * Second) ''i'' ''i/mcp'' ex_claims = Inr t \<and> at_ClientID t = ''c''"
  by (simp add: check_claims_def ex_claims_def unix_def Second_def maxFutureIssuedAtSkew_def Minute_def)

theorem sign_verify_roundtrip_witness:
  "\<exists>token t. SignAccessToken ex_jwt (Some ex_key) None ex_claims = Some token \<and>
     VerifyAccessToken ex_jwt (Some ex_key) (5 * Second) token ''i'' ''i/mcp'' = Inr t \<and> at_ClientID t = ''c''"
proof -
  obtain token where t: "SignAccessToken ex_jwt (Some ex_key) None ex_claims = Some token" using ex_signed by blast
  have "VerifyAccessToken ex_jwt (Some ex_key) (5 * Second) token ''i'' ''i/mcp'' =
      check_claims (5 * Second) ''i'' ''i/mcp'' ex_claims"
    by (rule sign_verify_roundtrip [OF t]) (simp_all add: ex_jwt_def ex_key_def AlgES256_def)
  with t ex_checked show ?thesis by auto
qed

theorem verified_token_sound_witness:
  "\<exists>t. VerifyAccessToken ex_jwt (Some ex_key) (5 * Second) ''AA.AA.AAAAAAAAAAAAAAAAAAAAAAAAAAAAAAAAAAAAAAAAAAEAAAAAAAAAAAAAAAAAAAAAAAAAAAAAAAAAAAAAAAAAAg''
      ''i'' ''i/mcp'' = Inr t \<and> at_Scopes t = splitScopes ''fund.read''"
proof -
  let ?v = "VerifyAccessToken ex_jwt (Some ex_key) (5 * Second)
    ''AA.AA.AAAAAAAAAAAAAAAAAAAAAAAAAAAAAAAAAAAAAAAAAAEAAAAAAAAAAAAAAAAAAAAAAAAAAAAAAAAAAAAAAAAAAg'' ''i'' ''i/mcp''"
  have "case ?v of Inr t \<Rightarrow> True | Inl _ \<Rightarrow> False" by code_simp
  then obtain t where t: "?v = Inr t" by (auto split: sum.splits)
  from verified_token_sound [OF t] have "at_Scopes t = splitScopes ''fund.read''"
    by (auto simp: ex_jwt_def ex_claims_def bind_eq_Some_conv)
  with t show ?thesis by blast
qed

end
