(* ===== verification/UrlQuery.thy ===== *)
theory UrlQuery
  imports Encoding "HOL-Library.AList" "HOL-Library.List_Lexorder" "HOL-Library.Char_ord"
begin

text \<open>
  What the program uses of Go's \<open>net/url\<close>: the fields of a parsed URL, \<open>Hostname\<close>, and the
  query part - \<open>Values\<close> with \<open>Get\<close>, \<open>Set\<close>, \<open>Encode\<close> and \<open>ParseQuery\<close>. Parsing a whole URL is an
  argument of the definitions that need it. \<open>Values\<close> is Go's map of lists, as an association list.

  The main lemma is the round trip: parsing an encoded query gives back every value.
\<close>

section \<open>Escaping\<close>

definition upper_hex_digit :: "nat \<Rightarrow> char" where
  "upper_hex_digit n = byte (if n < 10 then 48 + n else 55 + n)"

definition unreserved :: "char \<Rightarrow> bool" where
  "unreserved c \<longleftrightarrow> is_letter c \<or> is_digit c \<or> c \<in> set ''-_.~''"

definition escape_byte :: "char \<Rightarrow> string" where
  "escape_byte c =
    (if unreserved c then [c]
     else if c = CHR '' '' then ''+''
     else [CHR ''%'', upper_hex_digit (of_char c div 16), upper_hex_digit (of_char c mod 16)])"

definition QueryEscape :: "string \<Rightarrow> string" where
  "QueryEscape s = concat (map escape_byte s)"

definition unhex :: "char \<Rightarrow> nat option" where
  "unhex c =
    (if is_digit c then Some (of_char c - 48)
     else if in_range CHR ''a'' CHR ''f'' c then Some (of_char c - 87)
     else if in_range CHR ''A'' CHR ''F'' c then Some (of_char c - 55)
     else None)"

fun QueryUnescape :: "string \<Rightarrow> string option" where
  "QueryUnescape [] = Some []"
| "QueryUnescape (c # r) =
    (if c = CHR ''%''
     then (case r of
        a # b # r' \<Rightarrow>
          (case (unhex a, unhex b) of
             (Some x, Some y) \<Rightarrow> map_option (Cons (byte (x * 16 + y))) (QueryUnescape r')
           | _ \<Rightarrow> None)
      | _ \<Rightarrow> None)
     else map_option (Cons (if c = CHR ''+'' then CHR '' '' else c)) (QueryUnescape r))"

lemma unhex_upper: "n < 16 \<Longrightarrow> unhex (upper_hex_digit n) = Some n"
  by (auto simp: unhex_def upper_hex_digit_def byte_def char_class_defs)

lemma unreserved_plain: "unreserved c \<Longrightarrow> c \<noteq> CHR ''%'' \<and> c \<noteq> CHR ''+'' \<and> c \<notin> set ''&=;''"
  by (auto simp: unreserved_def char_class_defs)

lemma QueryUnescape_byte: "QueryUnescape (escape_byte c @ s) = map_option (Cons c) (QueryUnescape s)"
proof -
  have lt: "(of_char c :: nat) div 16 < 16" using nat_of_char_less_256 [of c] by linarith
  have "byte ((of_char c div 16) * 16 + of_char c mod 16) = c" by (simp add: byte_def)
  with lt unreserved_plain [of c] show ?thesis
    by (auto simp: escape_byte_def unhex_upper)
qed

lemma QueryUnescape_Escape: "QueryUnescape (QueryEscape s) = Some s"
  by (induction s) (simp_all add: QueryEscape_def QueryUnescape_byte)

lemma hex_not_sep: "n < 16 \<Longrightarrow> upper_hex_digit n \<notin> set ''&=;''"
proof
  assume n: "n < 16" and "upper_hex_digit n \<in> set ''&=;''"
  then have "unhex (upper_hex_digit n) = None"
    by (auto simp: unhex_def char_class_defs)
  with unhex_upper [OF n] show False by simp
qed

lemma QueryEscape_no_sep: "c \<in> set (QueryEscape s) \<Longrightarrow> c \<notin> set ''&=;''"
proof -
  have "c \<notin> set ''&=;''" if "c \<in> set (escape_byte b)" for b
  proof -
    have lt: "(of_char b :: nat) div 16 < 16" using nat_of_char_less_256 [of b] by linarith
    from that hex_not_sep [OF lt] hex_not_sep [of "of_char b mod 16"] unreserved_plain [of b]
    show ?thesis by (auto simp: escape_byte_def split: if_splits)
  qed
  then show "c \<in> set (QueryEscape s) \<Longrightarrow> c \<notin> set ''&=;''" by (auto simp: QueryEscape_def)
qed

section \<open>Values\<close>

type_synonym Values = "(string \<times> string list) list"

definition vals :: "Values \<Rightarrow> string \<Rightarrow> string list" where
  "vals v k = (case map_of v k of None \<Rightarrow> [] | Some xs \<Rightarrow> xs)"

definition Get :: "Values \<Rightarrow> string \<Rightarrow> string" where
  "Get v k = (case vals v k of [] \<Rightarrow> [] | x # _ \<Rightarrow> x)"

definition Set_val :: "string \<Rightarrow> string \<Rightarrow> Values \<Rightarrow> Values" where
  "Set_val k x v = AList.update k [x] v"

definition Add_val :: "string \<Rightarrow> string \<Rightarrow> Values \<Rightarrow> Values" where
  "Add_val k x v = AList.update k (vals v k @ [x]) v"

definition query_pair :: "string \<times> string \<Rightarrow> string" where
  "query_pair p = QueryEscape (fst p) @ CHR ''='' # QueryEscape (snd p)"

definition query_pairs :: "Values \<Rightarrow> (string \<times> string) list" where
  "query_pairs v = concat (map (\<lambda>k. map (Pair k) (vals v k)) (sort (map fst v)))"

definition Encode :: "Values \<Rightarrow> string" where
  "Encode v = Join (map query_pair (query_pairs v)) ''&''"

definition parse_part :: "string \<Rightarrow> (string \<times> string) option" where
  "parse_part part =
    (if CHR '';'' \<in> set part \<or> part = [] then None
     else (let (k, x) = (case Cut CHR ''='' part of Some kx \<Rightarrow> kx | None \<Rightarrow> (part, []))
           in case (QueryUnescape k, QueryUnescape x) of
                (Some k', Some x') \<Rightarrow> Some (k', x') | _ \<Rightarrow> None))"

definition parse_step :: "Values \<Rightarrow> string \<Rightarrow> Values" where
  "parse_step m part = (case parse_part part of None \<Rightarrow> m | Some (k, x) \<Rightarrow> Add_val k x m)"

definition ParseQuery :: "string \<Rightarrow> Values" where
  "ParseQuery q = foldl parse_step [] (Split CHR ''&'' q)"

section \<open>The round trip\<close>

lemma vals_Set: "vals (Set_val k x v) j = (if j = k then [x] else vals v j)"
  by (simp add: vals_def Set_val_def update_conv')

lemma vals_Add: "vals (Add_val k x v) j = (if j = k then vals v k @ [x] else vals v j)"
  by (simp add: vals_def Add_val_def update_conv')

lemma distinct_Set: "distinct (map fst v) \<Longrightarrow> distinct (map fst (Set_val k x v))"
  by (simp add: Set_val_def distinct_update)

lemma distinct_Add: "distinct (map fst v) \<Longrightarrow> distinct (map fst (Add_val k x v))"
  by (simp add: Add_val_def distinct_update)

lemma parse_part_pair: "parse_part (query_pair p) = Some p"
proof -
  have "CHR ''='' \<notin> set (QueryEscape (fst p))" "CHR '';'' \<notin> set (query_pair p)"
    using QueryEscape_no_sep by (auto simp: query_pair_def)
  then show ?thesis by (simp add: parse_part_def query_pair_def Cut_append QueryUnescape_Escape)
qed

lemma query_pair_no_amp: "CHR ''&'' \<notin> set (query_pair p)"
  using QueryEscape_no_sep by (auto simp: query_pair_def)

lemma Split_Join:
  "xs \<noteq> [] \<Longrightarrow> (\<And>x. x \<in> set xs \<Longrightarrow> c \<notin> set x) \<Longrightarrow> Split c (Join xs [c]) = xs"
  by (induction xs "[c]" rule: Join.induct) (auto simp: Split_append)

lemma vals_foldl_Add:
  "vals (foldl (\<lambda>m (k, x). Add_val k x m) v ps) j = vals v j @ map snd (filter (\<lambda>p. fst p = j) ps)"
  by (induction ps arbitrary: v) (auto simp: vals_Add)

lemma filter_pairs:
  "distinct ks \<Longrightarrow> map snd (filter (\<lambda>p. fst p = j) (concat (map (\<lambda>k. map (Pair k) (f k)) ks))) =
     (if j \<in> set ks then f j else [])"
proof (induction ks)
  case (Cons k ks)
  have "filter (\<lambda>p. fst p = j) (map (Pair k) (f k)) = (if j = k then map (Pair k) (f k) else [])"
    by (simp add: filter_map comp_def)
  with Cons show ?case by (auto simp: comp_def)
qed simp

lemma vals_ParseQuery_Encode:
  assumes "distinct (map fst v)"
  shows "vals (ParseQuery (Encode v)) j = vals v j"
proof -
  let ?ps = "query_pairs v"
  have step: "foldl parse_step m (map query_pair ps) = foldl (\<lambda>m (k, x). Add_val k x m) m ps" for m ps
    by (induction ps arbitrary: m) (auto simp: parse_step_def parse_part_pair)
  have "ParseQuery (Encode v) = foldl parse_step [] (map query_pair ?ps)"
  proof (cases "?ps = []")
    case True
    then show ?thesis by (simp add: ParseQuery_def Encode_def parse_step_def parse_part_def)
  next
    case False
    then show ?thesis unfolding ParseQuery_def Encode_def
      by (subst Split_Join) (auto simp: query_pair_no_amp)
  qed
  then have "vals (ParseQuery (Encode v)) j = map snd (filter (\<lambda>p. fst p = j) ?ps)"
    using step vals_foldl_Add [of "[]"] by (simp add: vals_def [of "[]"])
  also have "\<dots> = (if j \<in> set (map fst v) then vals v j else [])"
    unfolding query_pairs_def using assms by (subst filter_pairs) auto
  also have "\<dots> = vals v j" using map_of_eq_None_iff [of v j] by (auto simp: vals_def)
  finally show ?thesis .
qed

lemma Get_ParseQuery_Encode: "distinct (map fst v) \<Longrightarrow> Get (ParseQuery (Encode v)) k = Get v k"
  by (simp add: Get_def vals_ParseQuery_Encode)

lemma distinct_ParseQuery: "distinct (map fst (ParseQuery q))"
proof -
  have "distinct (map fst (foldl parse_step m ps))" if "distinct (map fst m)" for m ps
    using that by (induction ps arbitrary: m) (auto simp: parse_step_def distinct_Add split: option.split)
  then show ?thesis by (simp add: ParseQuery_def)
qed

section \<open>URLs\<close>

text \<open>A parsed URL; \<open>url_User\<close> is \<open>None\<close> for Go's nil.\<close>

record URL =
  url_Scheme :: string
  url_User :: "string option"
  url_Host :: string
  url_Path :: string
  url_RawQuery :: string
  url_Fragment :: string

definition validOptionalPort :: "string \<Rightarrow> bool" where
  "validOptionalPort port = (case port of [] \<Rightarrow> True | c # ds \<Rightarrow> c = CHR '':'' \<and> list_all is_digit ds)"

text \<open>The text from the last colon on, and what precedes it.\<close>

definition cut_last_colon :: "string \<Rightarrow> string \<times> string" where
  "cut_last_colon s =
    (if CHR '':'' \<in> set s
     then (let port = rev (takeWhile (\<lambda>c. c \<noteq> CHR '':'') (rev s))
           in (take (length s - length port - 1) s, CHR '':'' # port))
     else (s, []))"

definition Hostname :: "URL \<Rightarrow> string" where
  "Hostname u =
    (let (h, port) = cut_last_colon (url_Host u);
         host = (if port \<noteq> [] \<and> validOptionalPort port then h else url_Host u)
     in if HasPrefix host ''['' \<and> HasSuffix host '']'' then butlast (tl host) else host)"

definition IsAbs :: "URL \<Rightarrow> bool" where "IsAbs u \<longleftrightarrow> url_Scheme u \<noteq> []"

definition with_query :: "URL \<Rightarrow> (string \<times> string) list \<Rightarrow> URL" where
  "with_query u kvs = u\<lparr>url_RawQuery :=
     Encode (foldl (\<lambda>q (k, x). Set_val k x q) (ParseQuery (url_RawQuery u)) kvs)\<rparr>"

lemma with_query_fields [simp]:
  "url_Scheme (with_query u kvs) = url_Scheme u" "url_User (with_query u kvs) = url_User u"
  "url_Host (with_query u kvs) = url_Host u" "url_Path (with_query u kvs) = url_Path u"
  "url_Fragment (with_query u kvs) = url_Fragment u"
  by (simp_all add: with_query_def)

lemma vals_with_query:
  assumes "distinct (map fst kvs)"
  shows "vals (ParseQuery (url_RawQuery (with_query u kvs))) k =
    (case map_of kvs k of Some x \<Rightarrow> [x] | None \<Rightarrow> vals (ParseQuery (url_RawQuery u)) k)"
proof -
  have fold: "vals (foldl (\<lambda>q (k, x). Set_val k x q) v kvs) k =
      (case map_of kvs k of Some x \<Rightarrow> [x] | None \<Rightarrow> vals v k)" if "distinct (map fst kvs)" for v
    using that
  proof (induction kvs arbitrary: v)
    case (Cons p kvs)
    obtain j x where p: "p = (j, x)" by (cases p)
    with Cons have "map_of kvs j = None" by (auto simp: map_of_eq_None_iff)
    with Cons p show ?case by (auto simp: vals_Set split: option.split)
  qed simp
  have "distinct (map fst (foldl (\<lambda>q (k, x). Set_val k x q) v kvs))" if "distinct (map fst v)" for v
    using that by (induction kvs arbitrary: v) (auto simp: distinct_Set)
  then show ?thesis
    using fold [OF assms] by (simp add: with_query_def vals_ParseQuery_Encode distinct_ParseQuery)
qed

end
