(* ===== verification/OAuthCodes.thy ===== *)
theory OAuthCodes
  imports UrlQuery SingleUse
begin

unbundle bit_operations_syntax

text \<open>
  PKCE, the store of pending authorization codes and the store of consent screens,
  \<open>src/internal/oauth/pkce.go\<close> and \<open>consent.go\<close>. Both stores are a Go map under a mutex; an
  operation is one critical section, so the model is a function on the map. The locale
  \<open>counted_use\<close> is interpreted on the code store: a code is redeemed at most as often as it was
  issued.
\<close>

section \<open>PKCE\<close>

definition CodeChallengeMethodS256 :: string where "CodeChallengeMethodS256 = ''S256''"

datatype challenge_error =
    ChallengeRequired | ChallengeMethod string | ChallengeLength | ChallengeCharacters

definition challenge_char :: "char \<Rightarrow> bool" where
  "challenge_char c \<longleftrightarrow> is_letter c \<or> is_digit c \<or> c \<in> set ''-._~''"

definition ValidateCodeChallenge :: "string \<Rightarrow> string \<Rightarrow> challenge_error + unit" where
  "ValidateCodeChallenge challenge methd =
    (if challenge = [] then Inl ChallengeRequired
     else (let m = (if methd = [] then CodeChallengeMethodS256 else methd) in
       if m \<noteq> CodeChallengeMethodS256 then Inl (ChallengeMethod m)
       else if length challenge < 43 \<or> length challenge > 128 then Inl ChallengeLength
       else if \<not> list_all challenge_char challenge then Inl ChallengeCharacters
       else Inr ()))"

text \<open>The comparison loop: every pair of bytes is looked at, and the differences are collected.\<close>

definition subtleEqual :: "string \<Rightarrow> string \<Rightarrow> bool" where
  "subtleEqual a b \<longleftrightarrow> length a = length b \<and>
     foldl (\<lambda>diff (x, y). diff OR (of_char x XOR of_char y)) (0 :: nat) (zip a b) = 0"

definition VerifyCodeVerifier :: "(string \<Rightarrow> string) \<Rightarrow> string \<Rightarrow> string \<Rightarrow> bool" where
  "VerifyCodeVerifier sha verifier challenge =
    (if verifier = [] \<or> challenge = [] then False
     else if length verifier < 43 \<or> length verifier > 128 then False
     else subtleEqual (B64Encode url_alphabet (sha verifier)) challenge)"

section \<open>Authorization codes\<close>

record AuthorizationGrant =
  gr_ClientID :: string
  gr_RedirectURI :: string
  gr_Scopes :: "string list"
  gr_Resource :: string
  gr_CodeChallenge :: string
  gr_CodeChallengeMethod :: string
  gr_SessionID :: string
  gr_AuthorizedAt :: int

record codeEntry =
  ce_grant :: AuthorizationGrant
  ce_expiresAt :: time

type_synonym codeStore = "string \<rightharpoonup> codeEntry"

definition sweepExpiredLocked :: "time \<Rightarrow> codeStore \<Rightarrow> codeStore" where
  "sweepExpiredLocked now m = mfilter (\<lambda>_ e. now < ce_expiresAt e) m"

definition code_Issue :: "duration \<Rightarrow> string option \<Rightarrow> time \<Rightarrow> AuthorizationGrant \<Rightarrow> codeStore
    \<Rightarrow> string option \<times> codeStore" where
  "code_Issue ttl rnd now grant m = (case rnd of None \<Rightarrow> (None, m)
     | Some buf \<Rightarrow>
        (let code = B64Encode url_alphabet buf
         in (Some code, (sweepExpiredLocked now m)(code \<mapsto> \<lparr>ce_grant = grant, ce_expiresAt = now + ttl\<rparr>))))"

definition code_Redeem :: "time \<Rightarrow> string \<Rightarrow> codeStore \<Rightarrow> AuthorizationGrant option \<times> codeStore" where
  "code_Redeem now code m = (case m code of None \<Rightarrow> (None, m)
     | Some entry \<Rightarrow>
        (if \<not> now < ce_expiresAt entry then (None, m(code := None))
         else (Some (ce_grant entry), m(code := None))))"

section \<open>Consent screens\<close>

definition consentTTL :: duration where "consentTTL = 10 * Minute"

text \<open>\<open>cs_redirect\<close> is \<open>None\<close> until the first decision; an issued redirect is never empty.\<close>

record consentEntry =
  cs_grant :: AuthorizationGrant
  cs_state :: string
  cs_expiresAt :: time
  cs_redirect :: "URL option"

type_synonym consentStore = "string \<rightharpoonup> consentEntry"

definition sweepConsents :: "time \<Rightarrow> consentStore \<Rightarrow> consentStore" where
  "sweepConsents now m = mfilter (\<lambda>_ e. now < cs_expiresAt e) m"

definition randomID :: "string option \<Rightarrow> string option" where
  "randomID rnd = map_option (B64Encode url_alphabet) rnd"

definition consent_Begin :: "string option \<Rightarrow> time \<Rightarrow> AuthorizationGrant \<Rightarrow> string \<Rightarrow> consentStore
    \<Rightarrow> string option \<times> consentStore" where
  "consent_Begin rnd now grant state m = (case randomID rnd of None \<Rightarrow> (None, m)
     | Some token \<Rightarrow> (Some token, (sweepConsents now m)(token \<mapsto>
         \<lparr>cs_grant = grant, cs_state = state, cs_expiresAt = now + consentTTL, cs_redirect = None\<rparr>)))"

text \<open>
  \<open>Finalize\<close>: \<open>build\<close> is called under the lock, on the rest of the world. The result is the error
  of \<open>build\<close>, \<open>None\<close> for an unknown or expired token, or the redirect.
\<close>

definition consent_Finalize :: "time \<Rightarrow> string \<Rightarrow> (AuthorizationGrant \<Rightarrow> string \<Rightarrow> ('w, 'e, URL) proc)
    \<Rightarrow> (consentStore \<times> 'w, 'e, URL option) proc" where
  "consent_Finalize now token build = (\<lambda>(m, w).
    (let m1 = sweepConsents now m in
     case m1 token of None \<Rightarrow> (Inr None, (m1, w))
     | Some entry \<Rightarrow>
        (case cs_redirect entry of Some redirect \<Rightarrow> (Inr (Some redirect), (m1, w))
         | None \<Rightarrow>
            (case build (cs_grant entry) (cs_state entry) w of
               (Inl e, w') \<Rightarrow> (Inl e, (m1, w'))
             | (Inr redirect, w') \<Rightarrow>
                (Inr (Some redirect), (m1(token \<mapsto> entry\<lparr>cs_redirect := Some redirect\<rparr>), w'))))))"

section \<open>Lemmas\<close>

lemma nat_or_eq_0: "a OR b = (0 :: nat) \<longleftrightarrow> a = 0 \<and> b = 0"
  by (auto simp: or_eq_0_iff)

lemma nat_xor_eq_0: "a XOR b = (0 :: nat) \<longleftrightarrow> a = b"
proof
  assume "a XOR b = 0"
  then have "bit (a XOR b) n = bit (0 :: nat) n" for n by simp
  then show "a = b" by (intro bit_eqI) (simp add: bit_xor_iff)
qed simp

lemma subtleEqual_iff: "subtleEqual a b \<longleftrightarrow> a = b"
proof -
  have "foldl (\<lambda>diff (x, y). diff OR (of_char x XOR of_char y)) d ps = (0 :: nat) \<longleftrightarrow>
      d = 0 \<and> (\<forall>(x, y) \<in> set ps. x = y)" for d and ps :: "(char \<times> char) list"
    by (induction ps arbitrary: d) (auto simp: nat_or_eq_0 nat_xor_eq_0)
  moreover have "length a = length b \<Longrightarrow> (\<forall>(x, y) \<in> set (zip a b). x = y) \<longleftrightarrow> a = b"
    by (induction a b rule: list_induct2) auto
  ultimately show ?thesis by (auto simp: subtleEqual_def)
qed

lemma VerifyCodeVerifier_iff:
  "VerifyCodeVerifier sha v c \<longleftrightarrow>
     43 \<le> length v \<and> length v \<le> 128 \<and> c \<noteq> [] \<and> c = B64Encode url_alphabet (sha v)"
  by (auto simp: VerifyCodeVerifier_def subtleEqual_iff)

lemma code_Issue_SomeD:
  "code_Issue ttl rnd now g m = (Some code, m') \<Longrightarrow>
     m' = (sweepExpiredLocked now m)(code \<mapsto> \<lparr>ce_grant = g, ce_expiresAt = now + ttl\<rparr>)"
  by (auto simp: code_Issue_def Let_def split: option.splits)

lemma code_Issue_NoneD: "code_Issue ttl rnd now g m = (None, m') \<Longrightarrow> m' = m"
  by (auto simp: code_Issue_def Let_def split: option.splits)

lemma code_Redeem_SomeD:
  "code_Redeem now code m = (Some g, m') \<Longrightarrow>
     (\<exists>e. m code = Some e \<and> ce_grant e = g \<and> now < ce_expiresAt e) \<and> m' = m(code := None)"
  by (auto simp: code_Redeem_def split: option.splits if_splits)

lemma code_Redeem_store: "code_Redeem now code m = (r, m') \<Longrightarrow> m' = m(code := None)"
  by (auto simp: code_Redeem_def fun_upd_idem split: option.splits if_splits)

text \<open>One call of the code store, and its run.\<close>

datatype code_call = Issue_call duration "string option" time AuthorizationGrant | Redeem_call time string
datatype code_result = Issued "string option" | Redeemed "AuthorizationGrant option"

fun code_step :: "code_call \<Rightarrow> codeStore \<Rightarrow> code_result \<times> codeStore" where
  "code_step (Issue_call ttl rnd now g) m = map_prod Issued id (code_Issue ttl rnd now g m)"
| "code_step (Redeem_call now code) m = map_prod Redeemed id (code_Redeem now code m)"

fun redeems :: "string \<Rightarrow> code_call \<Rightarrow> code_result \<Rightarrow> bool" where
  "redeems k (Redeem_call now code) (Redeemed (Some g)) \<longleftrightarrow> code = k"
| "redeems k _ _ \<longleftrightarrow> False"

fun issues :: "string \<Rightarrow> code_call \<Rightarrow> code_result \<Rightarrow> bool" where
  "issues k (Issue_call ttl rnd now g) (Issued (Some code)) \<longleftrightarrow> code = k"
| "issues k _ _ \<longleftrightarrow> False"

interpretation codes: counted_use code_step "\<lambda>_. True" "\<lambda>_. True" redeems issues "\<lambda>k m. m k \<noteq> None"
proof (unfold_locales, goal_cases)
  case (2 m e k r m')
  from 2 show ?case
    by (cases e) (auto simp: code_Issue_def code_Redeem_def sweepExpiredLocked_def Let_def
      mfilter_def split: option.splits if_splits)
next
  case (3 m e r m' k)
  then show ?case
    by (cases "(k, e, r)" rule: redeems.cases) (auto simp: code_Redeem_def split: option.splits if_splits)
qed simp

text \<open>What finalizing a consent screen does to the store, case by case.\<close>

lemma consent_FinalizeE:
  assumes "consent_Finalize now token build (m, w) = (r, (m', w'))"
  obtains (unknown) "r = Inr None" "sweepConsents now m token = None" "m' = sweepConsents now m" "w' = w"
    | (replay) e u where "sweepConsents now m token = Some e" "cs_redirect e = Some u"
        "r = Inr (Some u)" "m' = sweepConsents now m" "w' = w"
    | (failed) e x where "sweepConsents now m token = Some e" "cs_redirect e = None"
        "build (cs_grant e) (cs_state e) w = (Inl x, w')" "r = Inl x" "m' = sweepConsents now m"
    | (first) e u where "sweepConsents now m token = Some e" "cs_redirect e = None"
        "build (cs_grant e) (cs_state e) w = (Inr u, w')" "r = Inr (Some u)"
        "m' = (sweepConsents now m)(token \<mapsto> e\<lparr>cs_redirect := Some u\<rparr>)"
  using assms unfolding consent_Finalize_def Let_def
  by (simp split: option.splits prod.splits sum.splits)

end
