(* ===== verification/OAuthClients.thy ===== *)
theory OAuthClients
  imports Jwt OAuthCodes
begin

text \<open>
  OAuth clients, \<open>src/internal/oauth/clients.go\<close>: dynamic registration, the resolution of a client
  id - stored or by a metadata document on an allowed host - and the checks of redirect targets;
  and the state of the service as a whole.

  \<open>oauth_lib\<close> extends the library arguments by \<open>url.Parse\<close>, the decoding of a JSON array of
  strings and the decoding of a metadata document. The answer of an HTTP fetch and the addresses
  a name resolves to are arguments of the call.
\<close>

section \<open>State\<close>

record cimd_doc =
  dc_ClientID :: string
  dc_ClientName :: string
  dc_RedirectURIs :: "string list"
  dc_Scope :: string
  dc_ClientURI :: string
  dc_GrantTypes :: "string list"

record oauth_lib = jwt_lib +
  xl_url :: "string \<Rightarrow> URL option"
  xl_strings :: "string \<Rightarrow> string list option"
  xl_document :: "string \<Rightarrow> cimd_doc option"

record cimdCacheEntry =
  cc_client :: Client
  cc_expiresAt :: time

record oauth_state =
  st_db :: "oauth_tables db"
  st_codes :: codeStore
  st_consents :: consentStore
  st_cimd :: "string \<rightharpoonup> cimdCacheEntry"
  st_key :: "signingKey option"

text \<open>The service: its effective options, whether it has a store, and the allowed hosts.\<close>

record OAuthService =
  os_opts :: OAuthOptions
  os_store :: bool
  os_hosts :: "string list"

type_synonym 'a oauth_proc = "(oauth_state, OAuthFailure, 'a) proc"

definition on_store :: "'a oauth_sql \<Rightarrow> (oauth_state, db_error, 'a) proc" where
  "on_store m s = (case m (st_db s) of (r, d) \<Rightarrow> (r, s\<lparr>st_db := d\<rparr>))"

definition server_error :: OAuthFailure where "server_error = fail ErrServerError 500"

definition on_db :: "'a oauth_sql \<Rightarrow> 'a oauth_proc" where
  "on_db m = wrap (\<lambda>_. server_error) (on_store m)"

section \<open>Redirect targets\<close>

definition isLoopbackHost :: "string \<Rightarrow> bool" where
  "isLoopbackHost host \<longleftrightarrow> ToLower host \<in> {''localhost'', ''127.0.0.1'', ''::1'', ''[::1]''}"

definition loopbackEquivalent :: "(string \<Rightarrow> URL option) \<Rightarrow> string \<Rightarrow> string \<Rightarrow> bool" where
  "loopbackEquivalent parse registered candidate =
    (case (parse registered, parse candidate) of
       (Some a, Some b) \<Rightarrow>
         if url_Scheme a \<noteq> ''http'' \<or> url_Scheme b \<noteq> ''http'' then False
         else if \<not> isLoopbackHost (Hostname a) \<or> \<not> isLoopbackHost (Hostname b) then False
         else url_Path a = url_Path b \<and> url_RawQuery a = url_RawQuery b
     | _ \<Rightarrow> False)"

text \<open>\<open>None\<close> is the error.\<close>

definition ValidateRedirectURI :: "(string \<Rightarrow> URL option) \<Rightarrow> Client \<Rightarrow> string \<Rightarrow> string option" where
  "ValidateRedirectURI parse client uri =
    (let r = TrimSpace uri in
     if r = [] then (case cl_RedirectURIs client of [only] \<Rightarrow> Some only | _ \<Rightarrow> None)
     else if list_ex (\<lambda>registered. registered = r \<or> loopbackEquivalent parse registered r) (cl_RedirectURIs client)
     then Some r else None)"

definition normalizeRedirectURI :: "(string \<Rightarrow> URL option) \<Rightarrow> string \<Rightarrow> string option" where
  "normalizeRedirectURI parse raw =
    (let uri = TrimSpace raw in
     if uri = [] then None
     else (case parse uri of None \<Rightarrow> None
       | Some u \<Rightarrow>
          if \<not> IsAbs u \<or> url_Fragment u \<noteq> [] then None
          else if Hostname u = [] \<or> ContainsAny (Hostname u) (''*?[]{}'' @ [byte 92]) then None
          else if url_User u \<noteq> None then None
          else if ToLower (url_Scheme u) = ''https'' then Some uri
          else if ToLower (url_Scheme u) = ''http'' \<and> isLoopbackHost (Hostname u) then Some uri
          else None))"

definition normalizeGrantTypes :: "string list \<Rightarrow> string list" where
  "normalizeGrantTypes requested =
    (let out = filter (\<lambda>g. g \<in> {''authorization_code'', ''refresh_token''}) (map TrimSpace requested);
         out' = (if out = [] then [''authorization_code'', ''refresh_token''] else out)
     in dedupeStrings out')"

fun all_some :: "('a \<Rightarrow> 'b option) \<Rightarrow> 'a list \<Rightarrow> 'b list option" where
  "all_some f [] = Some []"
| "all_some f (x # xs) = (case f x of None \<Rightarrow> None
     | Some y \<Rightarrow> map_option (Cons y) (all_some f xs))"

section \<open>Registration\<close>

record RegisterClientRequest =
  rr_ClientName :: string
  rr_RedirectURIs :: "string list"
  rr_GrantTypes :: "string list"
  rr_TokenEndpointAuthMethod :: string
  rr_Scope :: string
  rr_ClientURI :: string

record RegisterClientResponse =
  rp_ClientID :: string
  rp_ClientIDIssuedAt :: int
  rp_ClientName :: string
  rp_RedirectURIs :: "string list"
  rp_GrantTypes :: "string list"
  rp_ResponseTypes :: "string list"
  rp_TokenEndpointAuthMethod :: string
  rp_Scope :: string
  rp_ClientURI :: string

definition newClientID :: "string option \<Rightarrow> string option" where
  "newClientID rnd = map_option (B64Encode url_alphabet) rnd"

definition truncate_text :: "string \<Rightarrow> nat \<Rightarrow> string" where
  "truncate_text v n = (let t = TrimSpace v in if length t \<le> n then t else take n t)"

definition registration_response :: "Client \<Rightarrow> RegisterClientResponse" where
  "registration_response c =
    \<lparr>rp_ClientID = cl_ID c, rp_ClientIDIssuedAt = cl_CreatedAt c, rp_ClientName = cl_Name c,
     rp_RedirectURIs = cl_RedirectURIs c, rp_GrantTypes = cl_GrantTypes c, rp_ResponseTypes = [''code''],
     rp_TokenEndpointAuthMethod = cl_TokenEndpointAuthMethod c, rp_Scope = cl_Scope c,
     rp_ClientURI = cl_ClientURI c\<rparr>"

definition RegisterClient :: "oauth_lib \<Rightarrow> OAuthService \<Rightarrow> string option \<Rightarrow> time \<Rightarrow> RegisterClientRequest
    \<Rightarrow> (Client \<times> RegisterClientResponse) oauth_proc" where
  "RegisterClient X svc rnd now req =
    (if rr_RedirectURIs req = [] then throw (fail ErrInvalidClient 400)
     else (case all_some (normalizeRedirectURI (xl_url X)) (rr_RedirectURIs req) of
        None \<Rightarrow> throw (fail ErrInvalidRedirectURI 400)
      | Some uris \<Rightarrow>
         (let cleaned = keep_first {} uris;
              authMethod = (if TrimSpace (rr_TokenEndpointAuthMethod req) = [] then ''none''
                else TrimSpace (rr_TokenEndpointAuthMethod req))
          in if authMethod \<noteq> ''none'' then throw (fail ErrInvalidClient 400)
             else (case newClientID rnd of None \<Rightarrow> throw server_error
               | Some clientID \<Rightarrow>
                  (let name = (if TrimSpace (rr_ClientName req) = [] then ''MCP client '' @ take 8 clientID
                         else TrimSpace (rr_ClientName req));
                       client = \<lparr>cl_ID = clientID, cl_Name = truncate_text name 120, cl_RedirectURIs = cleaned,
                         cl_GrantTypes = normalizeGrantTypes (rr_GrantTypes req),
                         cl_TokenEndpointAuthMethod = authMethod, cl_Scope = TrimSpace (rr_Scope req),
                         cl_ClientURI = TrimSpace (rr_ClientURI req), cl_RegistrationAccessToken = [],
                         cl_CreatedAt = unix now, cl_MetadataDocument = False\<rparr>;
                       done = ret (client, registration_response client)
                   in if os_store svc then andThen (on_db (InsertClient client)) (\<lambda>_. done) else done)))))"

section \<open>Metadata documents\<close>

definition maxCIMDBytes :: nat where "maxCIMDBytes = 64 * 1024"
definition cimdCacheTTL :: duration where "cimdCacheTTL = 10 * Minute"

definition isCIMDCandidate :: "string \<Rightarrow> bool" where
  "isCIMDCandidate clientID = HasPrefix clientID ''https://''"

definition newCIMDResolver :: "string list \<Rightarrow> string list" where
  "newCIMDResolver hosts = filter (\<lambda>h. h \<noteq> []) (map (\<lambda>h. ToLower (TrimSpace h)) hosts)"

definition NewOAuthService :: "bool \<Rightarrow> OAuthOptions \<Rightarrow> OAuthService" where
  "NewOAuthService has_store opts =
    \<lparr>os_opts = withDefaults opts, os_store = has_store,
     os_hosts = newCIMDResolver (oo_CIMDHosts (withDefaults opts))\<rparr>"

definition cimd_allowed :: "(string \<Rightarrow> URL option) \<Rightarrow> string list \<Rightarrow> string \<Rightarrow> URL option" where
  "cimd_allowed parse hosts rawURL = (case parse rawURL of None \<Rightarrow> None
     | Some u \<Rightarrow> if url_Scheme u \<noteq> ''https'' then None
        else if ToLower (Hostname u) \<in> set hosts then Some u else None)"

text \<open>The answer of the server, \<open>None\<close> when the request itself fails.\<close>

definition httpFetch :: "(nat \<times> string) option \<Rightarrow> string option" where
  "httpFetch answer = (case answer of None \<Rightarrow> None
     | Some (status, body) \<Rightarrow> if status \<noteq> 200 then None
        else if length (take (maxCIMDBytes + 1) body) > maxCIMDBytes then None
        else Some (take (maxCIMDBytes + 1) body))"

definition cimd_client :: "oauth_lib \<Rightarrow> string \<Rightarrow> URL \<Rightarrow> cimd_doc \<Rightarrow> Client option" where
  "cimd_client X clientID parsed doc =
    (if dc_RedirectURIs doc = [] then None
     else (case all_some (normalizeRedirectURI (xl_url X)) (dc_RedirectURIs doc) of None \<Rightarrow> None
       | Some cleaned \<Rightarrow>
          (let name = (if TrimSpace (dc_ClientName doc) = [] then url_Host parsed else TrimSpace (dc_ClientName doc))
           in Some \<lparr>cl_ID = clientID, cl_Name = truncate_text name 120, cl_RedirectURIs = cleaned,
              cl_GrantTypes = normalizeGrantTypes (dc_GrantTypes doc), cl_TokenEndpointAuthMethod = ''none'',
              cl_Scope = TrimSpace (dc_Scope doc), cl_ClientURI = TrimSpace (dc_ClientURI doc),
              cl_RegistrationAccessToken = [], cl_CreatedAt = 0, cl_MetadataDocument = True\<rparr>)))"

definition cimd_Resolve :: "oauth_lib \<Rightarrow> OAuthService \<Rightarrow> time \<Rightarrow> (nat \<times> string) option \<Rightarrow> string
    \<Rightarrow> Client oauth_proc" where
  "cimd_Resolve X svc now answer clientID =
    (let bad = throw (fail ErrInvalidClient 400) in
     case cimd_allowed (xl_url X) (os_hosts svc) clientID of None \<Rightarrow> bad
     | Some parsed \<Rightarrow> (\<lambda>s.
        (case (case st_cimd s clientID of None \<Rightarrow> None
            | Some entry \<Rightarrow> if now < cc_expiresAt entry then Some (cc_client entry) else None) of
           Some cached \<Rightarrow> (Inr cached, s)
         | None \<Rightarrow>
            (case Option.bind (Option.bind (httpFetch answer) (xl_document X)) (cimd_client X clientID parsed) of
               None \<Rightarrow> bad s
             | Some client \<Rightarrow> (Inr client, s\<lparr>st_cimd := (st_cimd s)(clientID \<mapsto>
                 \<lparr>cc_client = client, cc_expiresAt = now + cimdCacheTTL\<rparr>)\<rparr>)))))"

definition ResolveClient :: "oauth_lib \<Rightarrow> OAuthService \<Rightarrow> time \<Rightarrow> (nat \<times> string) option \<Rightarrow> string
    \<Rightarrow> Client oauth_proc" where
  "ResolveClient X svc now answer clientID =
    (let cid = TrimSpace clientID;
         unstored = (if isCIMDCandidate cid then cimd_Resolve X svc now answer cid
           else throw (fail ErrInvalidClient 400))
     in if cid = [] then throw (fail ErrInvalidClient 400)
        else if os_store svc
        then andThen (on_db (ClientByID (xl_strings X) cid)) (\<lambda>stored.
          case stored of Some c \<Rightarrow> ret c | None \<Rightarrow> unstored)
        else unstored)"

section \<open>Addresses\<close>

text \<open>An IP address is its list of 4 or 16 bytes; the empty list is Go's nil.\<close>

definition To4 :: "nat list \<Rightarrow> nat list option" where
  "To4 ip = (if length ip = 4 then Some ip
     else if length ip = 16 \<and> take 12 ip = replicate 10 0 @ [255, 255] then Some (drop 12 ip)
     else None)"

definition IsLoopback :: "nat list \<Rightarrow> bool" where
  "IsLoopback ip = (case To4 ip of Some v4 \<Rightarrow> v4 ! 0 = 127 | None \<Rightarrow> ip = replicate 15 0 @ [1])"

definition IsPrivate :: "nat list \<Rightarrow> bool" where
  "IsPrivate ip = (case To4 ip of
     Some v4 \<Rightarrow> v4 ! 0 = 10 \<or> (v4 ! 0 = 172 \<and> v4 ! 1 AND 0xf0 = 16) \<or> (v4 ! 0 = 192 \<and> v4 ! 1 = 168)
   | None \<Rightarrow> length ip = 16 \<and> ip ! 0 AND 0xfe = 0xfc)"

definition IsLinkLocalUnicast :: "nat list \<Rightarrow> bool" where
  "IsLinkLocalUnicast ip = (case To4 ip of Some v4 \<Rightarrow> v4 ! 0 = 169 \<and> v4 ! 1 = 254
   | None \<Rightarrow> length ip = 16 \<and> ip ! 0 = 0xfe \<and> ip ! 1 AND 0xc0 = 0x80)"

definition IsLinkLocalMulticast :: "nat list \<Rightarrow> bool" where
  "IsLinkLocalMulticast ip = (case To4 ip of Some v4 \<Rightarrow> v4 ! 0 = 224 \<and> v4 ! 1 = 0 \<and> v4 ! 2 = 0
   | None \<Rightarrow> length ip = 16 \<and> ip ! 0 = 0xff \<and> ip ! 1 AND 0x0f = 0x02)"

definition IsInterfaceLocalMulticast :: "nat list \<Rightarrow> bool" where
  "IsInterfaceLocalMulticast ip \<longleftrightarrow> length ip = 16 \<and> ip ! 0 = 0xff \<and> ip ! 1 AND 0x0f = 0x01"

definition IsMulticast :: "nat list \<Rightarrow> bool" where
  "IsMulticast ip = (case To4 ip of Some v4 \<Rightarrow> v4 ! 0 AND 0xf0 = 0xe0 | None \<Rightarrow> length ip = 16 \<and> ip ! 0 = 0xff)"

definition IsUnspecified :: "nat list \<Rightarrow> bool" where
  "IsUnspecified ip \<longleftrightarrow> To4 ip = Some [0, 0, 0, 0] \<or> ip = replicate 16 0"

definition isPublicUnicast :: "nat list \<Rightarrow> bool" where
  "isPublicUnicast ip =
    (if ip = [] then False
     else if IsLoopback ip \<or> IsPrivate ip \<or> IsLinkLocalUnicast ip \<or> IsLinkLocalMulticast ip \<or>
       IsInterfaceLocalMulticast ip \<or> IsMulticast ip \<or> IsUnspecified ip then False
     else (case To4 ip of None \<Rightarrow> True
       | Some v4 \<Rightarrow> \<not> (v4 ! 0 = 100 \<and> v4 ! 1 AND 0xC0 = 64) \<and> v4 ! 0 \<noteq> 255))"

text \<open>
  \<open>DialContext\<close> of the transport: every address of the lookup must be public, but then the name -
  not one of these addresses - is handed to the dialer, which looks it up again (\<open>again\<close>) and
  connects to the first address.
\<close>

definition cimd_dial :: "nat list list option \<Rightarrow> nat list list option \<Rightarrow> nat list option" where
  "cimd_dial ips again = (case ips of None \<Rightarrow> None
     | Some xs \<Rightarrow> if list_ex (\<lambda>ip. \<not> isPublicUnicast ip) xs then None
        else (case again of Some (ip # _) \<Rightarrow> Some ip | _ \<Rightarrow> None))"

section \<open>Lemmas\<close>

text \<open>A redirect target that may receive authorization codes.\<close>

definition safe_redirect :: "(string \<Rightarrow> URL option) \<Rightarrow> string \<Rightarrow> bool" where
  "safe_redirect parse uri \<longleftrightarrow> (\<exists>u. parse uri = Some u \<and> url_Fragment u = [] \<and> url_User u = None \<and>
     Hostname u \<noteq> [] \<and> CHR ''*'' \<notin> set (Hostname u) \<and>
     (ToLower (url_Scheme u) = ''https'' \<or> (ToLower (url_Scheme u) = ''http'' \<and> isLoopbackHost (Hostname u))))"

lemma normalizeRedirectURI_SomeD:
  "normalizeRedirectURI parse raw = Some uri \<Longrightarrow> uri = TrimSpace raw \<and> safe_redirect parse uri"
  unfolding normalizeRedirectURI_def safe_redirect_def Let_def
  by (auto simp: ContainsAny_def list_ex_iff split: option.splits if_splits)

lemma all_some_SomeD:
  "all_some f xs = Some ys \<Longrightarrow> length ys = length xs \<and> (\<forall>y \<in> set ys. \<exists>x \<in> set xs. f x = Some y)"
proof (induction xs arbitrary: ys)
  case (Cons x xs)
  then obtain y zs where "f x = Some y" "all_some f xs = Some zs" "ys = y # zs" by (auto split: option.splits)
  with Cons.IH [of zs] show ?case by auto
qed simp

lemma all_some_normalize:
  "all_some (normalizeRedirectURI parse) xs = Some ys \<Longrightarrow> \<forall>y \<in> set ys. safe_redirect parse y"
  using all_some_SomeD [of "normalizeRedirectURI parse" xs ys] normalizeRedirectURI_SomeD by blast

lemma ValidateRedirectURI_SomeD:
  assumes "ValidateRedirectURI parse client uri = Some r"
  shows "\<exists>registered \<in> set (cl_RedirectURIs client).
    r = registered \<or> loopbackEquivalent parse registered r"
  using assms unfolding ValidateRedirectURI_def Let_def
  by (auto simp: list_ex_iff split: if_splits list.splits)

lemma loopbackEquivalentD:
  "loopbackEquivalent parse a b \<Longrightarrow> \<exists>u v. parse a = Some u \<and> parse b = Some v \<and>
     url_Scheme v = ''http'' \<and> isLoopbackHost (Hostname v) \<and> url_Path v = url_Path u \<and>
     url_RawQuery v = url_RawQuery u"
  by (auto simp: loopbackEquivalent_def split: option.splits if_splits)

text \<open>Every registered target, stored or cached, is safe.\<close>

definition clients_safe :: "oauth_lib \<Rightarrow> oauth_state \<Rightarrow> bool" where
  "clients_safe X s \<longleftrightarrow>
     (\<forall>r \<in> set (ot_clients (tables (st_db s))). \<forall>uris. xl_strings X (cr_redirects r) = Some uris \<longrightarrow>
        (\<forall>uri \<in> set uris. safe_redirect (xl_url X) uri)) \<and>
     (\<forall>cid e. st_cimd s cid = Some e \<longrightarrow> (\<forall>uri \<in> set (cl_RedirectURIs (cc_client e)). safe_redirect (xl_url X) uri))"

lemma on_store_tables:
  "on_store m s = (r, s') \<Longrightarrow> \<exists>d. m (st_db s) = (r, d) \<and> s' = s\<lparr>st_db := d\<rparr>"
  by (auto simp: on_store_def split: prod.splits)

lemma on_db_Inr: "on_db m s = (Inr a, s') \<longleftrightarrow> (\<exists>d. m (st_db s) = (Inr a, d) \<and> s' = s\<lparr>st_db := d\<rparr>)"
  by (auto simp: on_db_def on_store_def split: prod.splits)

lemma on_db_cases:
  assumes "on_db m s = (r, s')"
  obtains (ok) a d where "m (st_db s) = (Inr a, d)" "r = Inr a" "s' = s\<lparr>st_db := d\<rparr>"
    | (err) e d where "m (st_db s) = (Inl e, d)" "r = Inl server_error" "s' = s\<lparr>st_db := d\<rparr>"
  using assms by (auto simp: on_db_def wrap_def on_store_def split: prod.splits sum.splits)

lemma cimd_client_safe:
  "cimd_client X cid u doc = Some c \<Longrightarrow> \<forall>uri \<in> set (cl_RedirectURIs c). safe_redirect (xl_url X) uri"
  using all_some_normalize by (auto simp: cimd_client_def Let_def split: if_splits option.splits)

lemma cimd_Resolve_D:
  assumes "cimd_Resolve X svc now answer cid s = (r, s')"
  shows "(s' = s \<or> (\<exists>c e. r = Inr c \<and> s' = s\<lparr>st_cimd := (st_cimd s)(cid \<mapsto> \<lparr>cc_client = c, cc_expiresAt = e\<rparr>)\<rparr>)) \<and>
    (clients_safe X s \<longrightarrow> (\<forall>c. r = Inr c \<longrightarrow> (\<forall>uri \<in> set (cl_RedirectURIs c). safe_redirect (xl_url X) uri)))"
  using assms cimd_client_safe unfolding cimd_Resolve_def Let_def
  by (auto simp: clients_safe_def bind_eq_Some_conv split: option.splits if_splits)

lemma ClientByID_Inr:
  "ClientByID u cid d = (Inr x, d') \<Longrightarrow> tables d' = tables d \<and>
   (\<forall>c. x = Some c \<longrightarrow> (\<exists>r \<in> set (ot_clients (tables d)). cl_ID (cr_client r) = cid \<and>
      u (cr_redirects r) = Some (cl_RedirectURIs c) \<and> cl_ID c = cid))"
  unfolding ClientByID_def
  by (elim andThenE) (auto dest!: stmt_Inr_tables select1_SomeD [OF sym] simp: decode_client_def split: option.splits)

lemma ResolveClient_D:
  assumes "ResolveClient X svc now answer cid0 s = (r, s')" "clients_safe X s"
  shows "clients_safe X s' \<and> st_codes s' = st_codes s \<and> st_consents s' = st_consents s \<and> st_key s' = st_key s \<and>
    tables (st_db s') = tables (st_db s) \<and>
    (\<forall>c. r = Inr c \<longrightarrow> (\<forall>uri \<in> set (cl_RedirectURIs c). safe_redirect (xl_url X) uri))"
proof -
  let ?cid = "TrimSpace cid0"
  have cimd: "clients_safe X s2 \<and> st_codes s2 = st_codes s1 \<and> st_consents s2 = st_consents s1 \<and>
      st_key s2 = st_key s1 \<and> st_db s2 = st_db s1 \<and>
      (\<forall>c. r = Inr c \<longrightarrow> (\<forall>uri \<in> set (cl_RedirectURIs c). safe_redirect (xl_url X) uri))"
    if c: "cimd_Resolve X svc now answer ?cid s1 = (r, s2)" "clients_safe X s1" for s1 s2
    using cimd_Resolve_D [OF c(1)] c(2) by (auto simp: clients_safe_def split: if_splits)
  have dbs: "clients_safe X (s\<lparr>st_db := d\<rparr>)" if "tables d = tables (st_db s)" for d
    using that assms(2) by (simp add: clients_safe_def)
  show ?thesis
  proof (cases "?cid = [] \<or> \<not> os_store svc")
    case True
    with assms cimd [of s s'] show ?thesis by (auto simp: ResolveClient_def Let_def split: if_splits)
  next
    case False
    with assms(1) have "andThen (on_db (ClientByID (xl_strings X) ?cid)) (\<lambda>stored. case stored of
        Some c \<Rightarrow> ret c | None \<Rightarrow> if isCIMDCandidate ?cid then cimd_Resolve X svc now answer ?cid
          else throw (fail ErrInvalidClient 400)) s = (r, s')" by (simp add: ResolveClient_def Let_def)
    then show ?thesis
    proof (cases rule: andThenE)
      case (failed e)
      then show ?thesis
        by (cases rule: on_db_cases [OF failed(1)]) (auto dest!: ClientByID_tables intro: dbs)
    next
      case (succeeded x s1)
      from succeeded(1) obtain d where d: "ClientByID (xl_strings X) ?cid (st_db s) = (Inr x, d)" "s1 = s\<lparr>st_db := d\<rparr>"
        by (auto simp: on_db_Inr)
      note row = ClientByID_Inr [OF d(1)]
      show ?thesis
      proof (cases x)
        case None
        with succeeded(2) dbs row d(2) cimd [of s1 s'] show ?thesis by (auto split: if_splits)
      next
        case (Some c)
        with row obtain q where "q \<in> set (ot_clients (tables (st_db s)))" "xl_strings X (cr_redirects q) =
            Some (cl_RedirectURIs c)" by blast
        with assms(2) have "\<forall>uri \<in> set (cl_RedirectURIs c). safe_redirect (xl_url X) uri"
          by (auto simp: clients_safe_def)
        with Some succeeded(2) dbs row d(2) show ?thesis by auto
      qed
    qed
  qed
qed

lemma RegisterClient_D:
  assumes "RegisterClient X svc rnd now req s = (r, s')" "clients_safe X s"
    and "\<And>xs ys. xl_strings X (string_array xs) = Some ys \<Longrightarrow> ys = xs"
  shows "clients_safe X s' \<and> st_codes s' = st_codes s \<and> st_consents s' = st_consents s \<and> st_key s' = st_key s \<and>
    ot_refresh (tables (st_db s')) = ot_refresh (tables (st_db s)) \<and>
    ot_consents (tables (st_db s')) = ot_consents (tables (st_db s)) \<and>
    (\<forall>c resp. r = Inr (c, resp) \<longrightarrow> (\<forall>uri \<in> set (cl_RedirectURIs c). safe_redirect (xl_url X) uri))"
proof -
  have ins: "clients_safe X (s\<lparr>st_db := d\<rparr>) \<and> ot_refresh (tables d) = ot_refresh (tables (st_db s)) \<and>
      ot_consents (tables d) = ot_consents (tables (st_db s))"
    if "InsertClient c (st_db s) = (x, d)" "\<forall>uri \<in> set (cl_RedirectURIs c). safe_redirect (xl_url X) uri" for c x d
  proof -
    from stmt_tablesD [OF that(1) [unfolded InsertClient_def]] assms(2) that(2) assms(3) show ?thesis
      by (fastforce simp: clients_safe_def set_update_where new_client_row_def split: if_splits)
  qed
  from assms(1,2) all_some_normalize [of "xl_url X" "rr_RedirectURIs req"] show ?thesis
    unfolding RegisterClient_def Let_def
    by (auto simp: set_keep_first elim!: andThenE on_db_cases dest!: ins split: if_splits option.splits)
qed

text \<open>The address that was checked need not be the address that is dialed.\<close>

lemma dial_not_pinned: "cimd_dial (Some [[8, 8, 8, 8]]) (Some [[127, 0, 0, 1]]) = Some [127, 0, 0, 1] \<and>
    \<not> isPublicUnicast [127, 0, 0, 1]"
  by code_simp

end
