(* ===== verification/Registry.thy ===== *)
theory Registry
  imports Json
begin

text \<open>
  The tool registry, \<open>src/internal/agenttools\<close>, and the contract validation of
  \<open>src/internal/contracts/validation.go\<close> that every loaded registry passes.

  Roles, scopes, permissions and risk levels are strings in the Go code, and they are strings
  here: an unknown role is a value like any other. \<open>contracts\<close> declares its own copy of the
  structs for the same JSON shape, and both are the one record type of this theory. Decoding
  and re-encoding a registry (\<open>encoding/json\<close>) and parsing an RFC 3339 time are arguments of
  \<open>LoadJSON\<close>. The index behind \<open>Lookup\<close> is rebuilt from the tools when it is missing, and
  nothing changes the tools after loading, so \<open>Lookup\<close> reads the index of the current tools:
  the last tool of a name wins.
\<close>

section \<open>Data\<close>

definition ScopeRead :: string where "ScopeRead = ''read''"
definition ScopeWrite :: string where "ScopeWrite = ''write''"
definition ScopeMaintenance :: string where "ScopeMaintenance = ''maintenance''"
definition ScopeExternalContext :: string where "ScopeExternalContext = ''external_context''"
definition ScopeDisabled :: string where "ScopeDisabled = ''disabled''"
definition PermissionAllowed :: string where "PermissionAllowed = ''allowed''"
definition PermissionRequiresConfirmation :: string where
  "PermissionRequiresConfirmation = ''requires_confirmation''"
definition PermissionDisabled :: string where "PermissionDisabled = ''disabled''"
definition RiskHigh :: string where "RiskHigh = ''high''"
definition RoleViewer :: string where "RoleViewer = ''viewer''"
definition RoleAnalyst :: string where "RoleAnalyst = ''analyst''"
definition RoleMaintainer :: string where "RoleMaintainer = ''maintainer''"
definition RoleOperator :: string where "RoleOperator = ''operator''"

lemmas scope_defs = ScopeRead_def ScopeWrite_def ScopeMaintenance_def ScopeExternalContext_def
  ScopeDisabled_def
lemmas permission_defs = PermissionAllowed_def PermissionRequiresConfirmation_def
  PermissionDisabled_def
lemmas role_defs = RoleViewer_def RoleAnalyst_def RoleMaintainer_def RoleOperator_def

datatype DenyReason =
    DenyNone | DenyUnknownTool | DenyDisabled | DenyReviewRequired | DenyScope
  | DenyConfirmationRequired

record OutputEnvelope =
  out_Kind :: string
  out_JSONRoot :: "string option"

record ToolCapability =
  cap_Tool :: string
  cap_Scope :: string
  cap_Permission :: string
  cap_RiskLevel :: string
  cap_UseFor :: string

record ConfirmationPolicy =
  pol_Required :: bool
  pol_Reason :: "string option"
  pol_TokenTTLSeconds :: "int option"

record AuditPolicy =
  aud_EventType :: string
  aud_RecordAttempt :: bool
  aud_RecordResult :: bool
  aud_RedactArgs :: "string list"

record MCPAnnotations =
  ann_ReadOnlyHint :: bool
  ann_DestructiveHint :: bool
  ann_OpenWorldHint :: bool

record MigrationMetadata =
  mig_SourceFile :: string
  mig_PermissionSource :: string
  mig_ReviewRequired :: bool

record ToolDefinition =
  tool_Name :: string
  tool_Category :: string
  tool_Description :: string
  tool_InputSchema :: json
  tool_OutputEnvelope :: OutputEnvelope
  tool_Capability :: ToolCapability
  tool_Confirmation :: ConfirmationPolicy
  tool_Audit :: AuditPolicy
  tool_MCPAnnotations :: MCPAnnotations
  tool_Migration :: "MigrationMetadata option"

record Registry =
  reg_SchemaVersion :: string
  reg_GeneratedAt :: string
  reg_Tools :: "ToolDefinition list"

section \<open>Authorization\<close>

definition RoleAllowsScope :: "string \<Rightarrow> string \<Rightarrow> bool" where
  "RoleAllowsScope role scope =
    (let allowed = [(RoleViewer, [ScopeRead]),
                    (RoleAnalyst, [ScopeRead, ScopeExternalContext]),
                    (RoleMaintainer, [ScopeRead, ScopeMaintenance, ScopeExternalContext]),
                    (RoleOperator, [ScopeRead, ScopeMaintenance, ScopeExternalContext, ScopeWrite])]
     in scope \<in> set (case map_of allowed role of None \<Rightarrow> [] | Some ss \<Rightarrow> ss))"

definition toolRequiresReview :: "ToolDefinition \<Rightarrow> bool" where
  "toolRequiresReview tool = (case tool_Migration tool of None \<Rightarrow> False
     | Some m \<Rightarrow> mig_ReviewRequired m \<or> mig_PermissionSource m = ''inferred'')"

definition permissionSource :: "ToolDefinition \<Rightarrow> string" where
  "permissionSource tool = (case tool_Migration tool of None \<Rightarrow> []
     | Some m \<Rightarrow> mig_PermissionSource m)"

text \<open>\<open>reindex\<close>: the loop stores every tool under its name.\<close>

definition reindex :: "ToolDefinition list \<Rightarrow> (string \<rightharpoonup> ToolDefinition)" where
  "reindex tools = foldl (\<lambda>m tool. m(tool_Name tool \<mapsto> tool)) Map.empty tools"

definition Lookup :: "Registry \<Rightarrow> string \<Rightarrow> ToolDefinition option" where
  "Lookup r name = reindex (reg_Tools r) name"

record AuthorizeRequest =
  req_Tool :: string
  req_Role :: string
  req_Confirmed :: bool
  req_EnforceReviewed :: bool

record AuthorizeDecision =
  dec_Allowed :: bool
  dec_Reason :: DenyReason
  dec_RequiresConfirmation :: bool
  dec_ConfirmationReason :: "string option"
  dec_ConfirmationTTLSeconds :: "int option"
  dec_ReviewRequired :: bool
  dec_PermissionSource :: string
  dec_Tool :: string
  dec_Scope :: string
  dec_Permission :: string
  dec_RiskLevel :: string

definition empty_decision :: AuthorizeDecision where
  "empty_decision = \<lparr>dec_Allowed = False, dec_Reason = DenyNone, dec_RequiresConfirmation = False,
     dec_ConfirmationReason = None, dec_ConfirmationTTLSeconds = None, dec_ReviewRequired = False,
     dec_PermissionSource = [], dec_Tool = [], dec_Scope = [], dec_Permission = [],
     dec_RiskLevel = []\<rparr>"

definition Authorize :: "Registry \<Rightarrow> AuthorizeRequest \<Rightarrow> AuthorizeDecision" where
  "Authorize r request =
    (case Lookup r (req_Tool request) of
       None \<Rightarrow> empty_decision\<lparr>dec_Reason := DenyUnknownTool, dec_Tool := req_Tool request\<rparr>
     | Some tool \<Rightarrow>
        (let cap = tool_Capability tool;
             decision = empty_decision\<lparr>dec_Tool := tool_Name tool, dec_Scope := cap_Scope cap,
               dec_Permission := cap_Permission cap, dec_RiskLevel := cap_RiskLevel cap,
               dec_ReviewRequired := toolRequiresReview tool,
               dec_PermissionSource := permissionSource tool\<rparr>
         in if cap_Permission cap = PermissionDisabled \<or> cap_Scope cap = ScopeDisabled
            then decision\<lparr>dec_Reason := DenyDisabled\<rparr>
            else if req_EnforceReviewed request \<and> toolRequiresReview tool
            then decision\<lparr>dec_Reason := DenyReviewRequired\<rparr>
            else if \<not> RoleAllowsScope (req_Role request) (cap_Scope cap)
            then decision\<lparr>dec_Reason := DenyScope\<rparr>
            else if cap_Permission cap = PermissionRequiresConfirmation \<and> \<not> req_Confirmed request
            then decision\<lparr>dec_RequiresConfirmation := True,
                   dec_ConfirmationReason := pol_Reason (tool_Confirmation tool),
                   dec_ConfirmationTTLSeconds := pol_TokenTTLSeconds (tool_Confirmation tool),
                   dec_Reason := DenyConfirmationRequired\<rparr>
            else decision\<lparr>dec_Allowed := True\<rparr>))"

section \<open>Loading\<close>

datatype registry_error =
    EmptyJSON | DecodeFailed | BadSchemaVersion | TooFewTools | EmptyToolName | DuplicateTool string
  | CapabilityToolMismatch string | MissingCapability string | MissingTokenTTL string
  | PolicyLacksConfirmation string | PermissionLacksConfirmation string | MissingAuditEventType string
  | EncodeFailed | BadDateTime | NotSnakeCase string | BadCategory string | MissingDescription string
  | BadOutputKind string | BadScope string | BadPermission string | BadRiskLevel string
  | MissingConfirmationReason string | BadTokenTTL string | BadAuditEventType string
  | MissingSourceFile string | BadPermissionSource string | InferredNeedsReview string

definition validate_tool :: "ToolDefinition \<Rightarrow> string set \<Rightarrow> registry_error option" where
  "validate_tool tool seen =
    (let n = tool_Name tool; cap = tool_Capability tool; pol = tool_Confirmation tool in
     if n = [] then Some EmptyToolName
     else if n \<in> seen then Some (DuplicateTool n)
     else if cap_Tool cap \<noteq> n then Some (CapabilityToolMismatch n)
     else if cap_Scope cap = [] \<or> cap_Permission cap = [] \<or> cap_RiskLevel cap = []
     then Some (MissingCapability n)
     else if pol_Required pol \<and> pol_TokenTTLSeconds pol = None then Some (MissingTokenTTL n)
     else if cap_Permission cap = PermissionRequiresConfirmation \<and> \<not> pol_Required pol
     then Some (PolicyLacksConfirmation n)
     else if pol_Required pol \<and> cap_Permission cap \<noteq> PermissionRequiresConfirmation
     then Some (PermissionLacksConfirmation n)
     else if aud_EventType (tool_Audit tool) = [] then Some (MissingAuditEventType n)
     else None)"

fun validate_loop :: "ToolDefinition list \<Rightarrow> string set \<Rightarrow> registry_error option" where
  "validate_loop [] seen = None"
| "validate_loop (tool # tools) seen =
    (case validate_tool tool seen of Some e \<Rightarrow> Some e
     | None \<Rightarrow> validate_loop tools (insert (tool_Name tool) seen))"

definition Validate :: "Registry \<Rightarrow> registry_error option" where
  "Validate r =
    (if reg_SchemaVersion r \<noteq> ''tool-registry-v1'' then Some BadSchemaVersion
     else if length (reg_Tools r) < 44 then Some TooFewTools
     else validate_loop (reg_Tools r) {})"

text \<open>\<open>validSnakeName\<close>: the Go loop ranges over runes; a non-ASCII rune is refused like its bytes.\<close>

definition validSnakeName :: "string \<Rightarrow> bool" where
  "validSnakeName v = (case v of [] \<Rightarrow> False
     | c # _ \<Rightarrow> is_lower c \<and> list_all (\<lambda>r. is_lower r \<or> is_digit r \<or> r = CHR ''_'') v)"

definition allowedString :: "string \<Rightarrow> string list \<Rightarrow> bool" where
  "allowedString v allowed = list_ex (\<lambda>c. v = c) allowed"

definition validateToolDefinition :: "ToolDefinition \<Rightarrow> registry_error option" where
  "validateToolDefinition tool =
    (let n = tool_Name tool; cap = tool_Capability tool; pol = tool_Confirmation tool in
     if \<not> validSnakeName n then Some (NotSnakeCase n)
     else if \<not> allowedString (tool_Category tool) [''query'', ''portfolio'', ''transactions'',
        ''admin'', ''operations'', ''securities'', ''market'', ''analysis'', ''report'', ''dca'']
     then Some (BadCategory n)
     else if tool_Description tool = [] then Some (MissingDescription n)
     else if out_Kind (tool_OutputEnvelope tool) \<noteq> ''json'' \<and> out_Kind (tool_OutputEnvelope tool) \<noteq> ''text''
        \<and> out_Kind (tool_OutputEnvelope tool) \<noteq> ''stream'' then Some (BadOutputKind n)
     else if cap_Tool cap \<noteq> n then Some (CapabilityToolMismatch n)
     else if \<not> allowedString (cap_Scope cap) [''read'', ''write'', ''maintenance'',
        ''external_context'', ''disabled''] then Some (BadScope n)
     else if \<not> allowedString (cap_Permission cap) [''allowed'', ''requires_confirmation'', ''disabled'']
     then Some (BadPermission n)
     else if \<not> allowedString (cap_RiskLevel cap) [''low'', ''medium'', ''high''] then Some (BadRiskLevel n)
     else if cap_Permission cap = ''requires_confirmation'' \<and> \<not> pol_Required pol
     then Some (PolicyLacksConfirmation n)
     else if pol_Required pol \<and> (pol_Reason pol = None \<or> pol_Reason pol = Some [])
     then Some (MissingConfirmationReason n)
     else if pol_Required pol \<and> (case pol_TokenTTLSeconds pol of None \<Rightarrow> True | Some s \<Rightarrow> s < 1)
     then Some (BadTokenTTL n)
     else if \<not> allowedString (aud_EventType (tool_Audit tool)) [''read'', ''maintenance'', ''write'',
        ''external_context'', ''disabled''] then Some (BadAuditEventType n)
     else (case tool_Migration tool of None \<Rightarrow> None
       | Some m \<Rightarrow>
          if mig_SourceFile m = [] then Some (MissingSourceFile n)
          else if \<not> allowedString (mig_PermissionSource m) [''harness'', ''inferred'']
          then Some (BadPermissionSource n)
          else if mig_PermissionSource m = ''inferred'' \<and> \<not> mig_ReviewRequired m
          then Some (InferredNeedsReview n) else None))"

fun contract_loop :: "ToolDefinition list \<Rightarrow> string set \<Rightarrow> registry_error option" where
  "contract_loop [] seen = None"
| "contract_loop (tool # tools) seen =
    (case validateToolDefinition tool of Some e \<Rightarrow> Some e
     | None \<Rightarrow> if tool_Name tool \<in> seen then Some (DuplicateTool (tool_Name tool))
               else contract_loop tools (insert (tool_Name tool) seen))"

definition ValidateToolRegistryJSON :: "(string \<Rightarrow> bool) \<Rightarrow> Registry option \<Rightarrow> registry_error option" where
  "ValidateToolRegistryJSON rfc3339 decoded =
    (case decoded of None \<Rightarrow> Some DecodeFailed
     | Some registry \<Rightarrow>
        if reg_SchemaVersion registry \<noteq> ''tool-registry-v1'' then Some BadSchemaVersion
        else if reg_GeneratedAt registry = [] \<or> \<not> rfc3339 (reg_GeneratedAt registry) then Some BadDateTime
        else if length (reg_Tools registry) < 44 then Some TooFewTools
        else contract_loop (reg_Tools registry) {})"

definition defaultRedactArgs :: "string list" where
  "defaultRedactArgs = [''api_key'', ''token'', ''cookie'', ''authorization'', ''webhook'',
     ''password'', ''secret'']"

definition disabledBoundaryTool :: "string \<Rightarrow> string \<Rightarrow> ToolDefinition" where
  "disabledBoundaryTool name useFor =
    \<lparr>tool_Name = name, tool_Category = ''admin'', tool_Description = useFor,
     tool_InputSchema = JObj [(''type'', JStr ''object''), (''additionalProperties'', JBool False)],
     tool_OutputEnvelope = \<lparr>out_Kind = ''json'', out_JSONRoot = None\<rparr>,
     tool_Capability = \<lparr>cap_Tool = name, cap_Scope = ScopeDisabled, cap_Permission = PermissionDisabled,
       cap_RiskLevel = RiskHigh, cap_UseFor = useFor\<rparr>,
     tool_Confirmation = \<lparr>pol_Required = False, pol_Reason = None, pol_TokenTTLSeconds = None\<rparr>,
     tool_Audit = \<lparr>aud_EventType = ''disabled'', aud_RecordAttempt = True, aud_RecordResult = True,
       aud_RedactArgs = defaultRedactArgs\<rparr>,
     tool_MCPAnnotations = \<lparr>ann_ReadOnlyHint = False, ann_DestructiveHint = True,
       ann_OpenWorldHint = False\<rparr>,
     tool_Migration = None\<rparr>"

text \<open>The descriptions are Chinese text, given by their UTF-8 bytes.\<close>

definition disabledBoundaryTools :: "ToolDefinition list" where
  "disabledBoundaryTools =
    [disabledBoundaryTool ''broker_trade_execution'' (map byte
       [230, 156, 172, 231, 179, 187, 231, 187, 159, 228, 184, 141, 232, 191, 158, 230,
        142, 165, 229, 136, 184, 229, 149, 134, 230, 137, 167, 232, 161, 140, 229, 177,
        130]),
     disabledBoundaryTool ''cash_transfer'' (map byte
       [230, 156, 172, 231, 179, 187, 231, 187, 159, 228, 184, 141, 230, 137, 167, 232,
        161, 140, 231, 142, 176, 233, 135, 145, 229, 136, 146, 232, 189, 172]),
     disabledBoundaryTool ''backup_producer'' (map byte
       [230, 140, 137, 229, 189, 147, 229, 137, 141, 232, 191, 144, 231, 187, 180, 232,
        190, 185, 231, 149, 140, 239, 188, 140, 229, 164, 135, 228, 187, 189, 231, 148,
        159, 228, 186, 167, 229, 153, 168, 230, 156, 170, 229, 144, 175, 231, 148, 168])]"

text \<open>
  \<open>unmarshal\<close> decodes the payload; \<open>recode\<close> is \<open>json.Marshal\<close> of the registry followed by the
  strict decoder of \<open>contracts\<close>: the outer \<open>None\<close> is a failed encoding, the inner one a refused
  decoding.
\<close>

definition LoadJSON :: "(string \<Rightarrow> Registry option) \<Rightarrow> (Registry \<Rightarrow> Registry option option) \<Rightarrow> (string \<Rightarrow> bool)
    \<Rightarrow> bool \<Rightarrow> string \<Rightarrow> registry_error + Registry" where
  "LoadJSON unmarshal recode rfc3339 disabledBoundaries payload =
    (if TrimSpace payload = [] then Inl EmptyJSON
     else
      (case unmarshal (TrimSpace payload) of None \<Rightarrow> Inl DecodeFailed
       | Some registry0 \<Rightarrow>
          (let registry = (if disabledBoundaries
             then registry0\<lparr>reg_Tools := reg_Tools registry0 @ disabledBoundaryTools\<rparr> else registry0)
           in case Validate registry of Some e \<Rightarrow> Inl e
            | None \<Rightarrow>
               (case recode registry of None \<Rightarrow> Inl EncodeFailed
                | Some encoded \<Rightarrow>
                   (case ValidateToolRegistryJSON rfc3339 encoded of
                      Some e \<Rightarrow> Inl e | None \<Rightarrow> Inr registry)))))"

section \<open>Summary\<close>

record RegistrySummary =
  sum_SchemaVersion :: string
  sum_GeneratedAt :: string
  sum_TotalTools :: nat
  sum_DisabledTools :: nat
  sum_ReviewRequiredTools :: nat
  sum_ConfirmationRequiredTools :: nat
  sum_AuditedTools :: nat
  sum_ByScope :: "string \<rightharpoonup> nat"
  sum_ByPermission :: "string \<rightharpoonup> nat"
  sum_ByRiskLevel :: "string \<rightharpoonup> nat"
  sum_ByPermissionSource :: "string \<rightharpoonup> nat"
  sum_DisabledBoundaries :: "string list"
  sum_ReviewRequiredByCategory :: "string \<rightharpoonup> nat"
  sum_ConfirmationByCategory :: "string \<rightharpoonup> nat"
  sum_AuditRedactionKeys :: "string list"

definition incr :: "(string \<rightharpoonup> nat) \<Rightarrow> string \<Rightarrow> (string \<rightharpoonup> nat)" where
  "incr m k = m(k \<mapsto> mget m k 0 + 1)"

definition is_disabled :: "ToolDefinition \<Rightarrow> bool" where
  "is_disabled tool \<longleftrightarrow> cap_Permission (tool_Capability tool) = PermissionDisabled \<or>
     cap_Scope (tool_Capability tool) = ScopeDisabled"

definition summary_step :: "RegistrySummary \<Rightarrow> ToolDefinition \<Rightarrow> RegistrySummary" where
  "summary_step s tool =
    (let s1 = s\<lparr>sum_ByScope := incr (sum_ByScope s) (cap_Scope (tool_Capability tool)),
           sum_ByPermission := incr (sum_ByPermission s) (cap_Permission (tool_Capability tool)),
           sum_ByRiskLevel := incr (sum_ByRiskLevel s) (cap_RiskLevel (tool_Capability tool)),
           sum_ByPermissionSource := incr (sum_ByPermissionSource s)
             (if permissionSource tool = [] then ''runtime'' else permissionSource tool)\<rparr>;
         s2 = (if is_disabled tool
           then s1\<lparr>sum_DisabledTools := sum_DisabledTools s1 + 1,
                   sum_DisabledBoundaries := sum_DisabledBoundaries s1 @ [tool_Name tool]\<rparr> else s1);
         s3 = (if toolRequiresReview tool
           then s2\<lparr>sum_ReviewRequiredTools := sum_ReviewRequiredTools s2 + 1,
                   sum_ReviewRequiredByCategory := incr (sum_ReviewRequiredByCategory s2) (tool_Category tool)\<rparr>
           else s2);
         s4 = (if pol_Required (tool_Confirmation tool)
           then s3\<lparr>sum_ConfirmationRequiredTools := sum_ConfirmationRequiredTools s3 + 1,
                   sum_ConfirmationByCategory := incr (sum_ConfirmationByCategory s3) (tool_Category tool)\<rparr>
           else s3)
     in if aud_RecordAttempt (tool_Audit tool) \<or> aud_RecordResult (tool_Audit tool)
        then s4\<lparr>sum_AuditedTools := sum_AuditedTools s4 + 1\<rparr> else s4)"

definition Summary :: "Registry \<Rightarrow> RegistrySummary" where
  "Summary r = foldl summary_step
     \<lparr>sum_SchemaVersion = reg_SchemaVersion r, sum_GeneratedAt = reg_GeneratedAt r,
      sum_TotalTools = length (reg_Tools r), sum_DisabledTools = 0, sum_ReviewRequiredTools = 0,
      sum_ConfirmationRequiredTools = 0, sum_AuditedTools = 0, sum_ByScope = Map.empty,
      sum_ByPermission = Map.empty, sum_ByRiskLevel = Map.empty, sum_ByPermissionSource = Map.empty,
      sum_DisabledBoundaries = [], sum_ReviewRequiredByCategory = Map.empty,
      sum_ConfirmationByCategory = Map.empty, sum_AuditRedactionKeys = defaultRedactArgs\<rparr> (reg_Tools r)"

section \<open>Looking tools up\<close>

lemma reindex_map_of: "reindex tools = map_of (rev (map (\<lambda>t. (tool_Name t, t)) tools))"
proof (induction tools rule: rev_induct)
  case (snoc t ts)
  then show ?case by (auto simp: reindex_def fun_eq_iff)
qed (simp add: reindex_def)

lemma Lookup_SomeD: "Lookup r n = Some t \<Longrightarrow> t \<in> set (reg_Tools r) \<and> tool_Name t = n"
  unfolding Lookup_def reindex_map_of by (auto dest!: map_of_SomeD)

lemma Lookup_Some_iff:
  assumes "distinct (map tool_Name (reg_Tools r))"
  shows "Lookup r n = Some t \<longleftrightarrow> t \<in> set (reg_Tools r) \<and> tool_Name t = n"
proof -
  have "distinct (map fst (rev (map (\<lambda>t. (tool_Name t, t)) (reg_Tools r))))"
    using assms by (simp add: rev_map [symmetric] comp_def)
  then show ?thesis unfolding Lookup_def reindex_map_of
    by (subst map_of_eq_Some_iff) auto
qed

section \<open>The policy behind the table\<close>

text \<open>
  The abstract policy: four levels of trust in a linear order, and for each scope the least
  level that may use it.
\<close>

datatype level = Viewer | Analyst | Maintainer | Operator

fun rank :: "level \<Rightarrow> nat" where
  "rank Viewer = 0" | "rank Analyst = 1" | "rank Maintainer = 2" | "rank Operator = 3"

lemma rank_inj: "rank a = rank b \<Longrightarrow> a = b"
  by (cases a; cases b) auto

instantiation level :: linorder
begin

definition less_eq_level :: "level \<Rightarrow> level \<Rightarrow> bool" where
  "less_eq_level a b \<longleftrightarrow> rank a \<le> rank b"

definition less_level :: "level \<Rightarrow> level \<Rightarrow> bool" where
  "less_level a b \<longleftrightarrow> rank a < rank b"

instance
  by standard (auto simp: less_eq_level_def less_level_def intro: rank_inj)

end

fun level_name :: "level \<Rightarrow> string" where
  "level_name Viewer = RoleViewer" | "level_name Analyst = RoleAnalyst"
| "level_name Maintainer = RoleMaintainer" | "level_name Operator = RoleOperator"

definition least_level :: "string \<Rightarrow> level option" where
  "least_level scope = (if scope = ScopeRead then Some Viewer
     else if scope = ScopeExternalContext then Some Analyst
     else if scope = ScopeMaintenance then Some Maintainer
     else if scope = ScopeWrite then Some Operator else None)"

lemma RoleAllowsScope_iff:
  "RoleAllowsScope role scope \<longleftrightarrow>
     (\<exists>a l. role = level_name a \<and> least_level scope = Some l \<and> l \<le> a)"
proof -
  have ex: "(\<exists>a. P a) \<longleftrightarrow> P Viewer \<or> P Analyst \<or> P Maintainer \<or> P Operator" for P
    by (metis level.exhaust)
  show ?thesis
    unfolding RoleAllowsScope_def ex Let_def
    by (auto simp: least_level_def less_eq_level_def role_defs scope_defs)
qed

lemma RoleAllowsScope_mono:
  "RoleAllowsScope (level_name a) scope \<Longrightarrow> a \<le> b \<Longrightarrow> RoleAllowsScope (level_name b) scope"
proof -
  have inj: "level_name x = level_name y \<Longrightarrow> x = y" for x y
    by (cases x; cases y) (auto simp: role_defs)
  then show "RoleAllowsScope (level_name a) scope \<Longrightarrow> a \<le> b \<Longrightarrow> RoleAllowsScope (level_name b) scope"
    unfolding RoleAllowsScope_iff by (metis order_trans)
qed

text \<open>Which requests are allowed, one condition per early return.\<close>

definition permitted :: "ToolDefinition \<Rightarrow> AuthorizeRequest \<Rightarrow> bool" where
  "permitted tool request \<longleftrightarrow>
     \<not> is_disabled tool \<and> \<not> (req_EnforceReviewed request \<and> toolRequiresReview tool) \<and>
     RoleAllowsScope (req_Role request) (cap_Scope (tool_Capability tool)) \<and>
     (cap_Permission (tool_Capability tool) = PermissionRequiresConfirmation \<longrightarrow> req_Confirmed request)"

lemma Authorize_allowed_iff:
  "dec_Allowed (Authorize r request) \<longleftrightarrow>
     (\<exists>tool. Lookup r (req_Tool request) = Some tool \<and> permitted tool request)"
  by (auto simp: Authorize_def permitted_def is_disabled_def Let_def empty_decision_def
      split: option.split)

lemma Authorize_reasons:
  "dec_Reason (Authorize r q) = DenyConfirmationRequired \<longleftrightarrow> dec_RequiresConfirmation (Authorize r q)"
  "dec_RequiresConfirmation (Authorize r q) \<longleftrightarrow>
     (\<exists>tool. Lookup r (req_Tool q) = Some tool \<and>
        cap_Permission (tool_Capability tool) = PermissionRequiresConfirmation \<and>
        \<not> req_Confirmed q \<and> permitted tool (q\<lparr>req_Confirmed := True\<rparr>))"
  by (auto simp: Authorize_def permitted_def is_disabled_def Let_def empty_decision_def
      split: option.split)

text \<open>
  C14. Authorization is a threshold policy: a request is allowed exactly when the tool exists, is
  not disabled, is reviewed where the caller insists on it, the caller's role is one of the four
  levels and reaches the least level of the tool's scope, and the tool's confirmation is given
  where it needs one. An unknown role or an unknown scope is never allowed.
\<close>

theorem authorize_threshold:
  "dec_Allowed (Authorize r q) \<longleftrightarrow>
     (\<exists>tool. Lookup r (req_Tool q) = Some tool \<and>
        (\<exists>a l. req_Role q = level_name a \<and>
           least_level (cap_Scope (tool_Capability tool)) = Some l \<and> l \<le> a) \<and>
        cap_Permission (tool_Capability tool) \<noteq> PermissionDisabled \<and>
        \<not> (req_EnforceReviewed q \<and> toolRequiresReview tool) \<and>
        \<not> (cap_Permission (tool_Capability tool) = PermissionRequiresConfirmation \<and> \<not> req_Confirmed q))"
proof -
  have live: "least_level s = Some l \<Longrightarrow> s \<noteq> ScopeDisabled" for s l
    by (auto simp: least_level_def scope_defs)
  have "permitted tool q \<longleftrightarrow>
     (\<exists>a l. req_Role q = level_name a \<and>
        least_level (cap_Scope (tool_Capability tool)) = Some l \<and> l \<le> a) \<and>
     cap_Permission (tool_Capability tool) \<noteq> PermissionDisabled \<and>
     \<not> (req_EnforceReviewed q \<and> toolRequiresReview tool) \<and>
     \<not> (cap_Permission (tool_Capability tool) = PermissionRequiresConfirmation \<and> \<not> req_Confirmed q)"
    for tool
    unfolding permitted_def is_disabled_def RoleAllowsScope_iff using live by metis
  then show ?thesis unfolding Authorize_allowed_iff by simp
qed

section \<open>What loading guarantees\<close>

definition tool_sound :: "ToolDefinition \<Rightarrow> bool" where
  "tool_sound t \<longleftrightarrow> tool_Name t \<noteq> [] \<and> cap_Tool (tool_Capability t) = tool_Name t \<and>
     (pol_Required (tool_Confirmation t) \<longleftrightarrow>
        cap_Permission (tool_Capability t) = PermissionRequiresConfirmation) \<and>
     (pol_Required (tool_Confirmation t) \<longrightarrow> pol_TokenTTLSeconds (tool_Confirmation t) \<noteq> None)"

lemma validate_tool_None:
  "validate_tool tool seen = None \<Longrightarrow> tool_Name tool \<notin> seen \<and> tool_sound tool"
  unfolding validate_tool_def Let_def tool_sound_def by (simp split: if_splits, blast)

lemma validate_loop_None:
  "validate_loop tools seen = None \<Longrightarrow>
     distinct (map tool_Name tools) \<and> tool_Name ` set tools \<inter> seen = {} \<and>
     (\<forall>t \<in> set tools. tool_sound t)"
proof (induction tools seen rule: validate_loop.induct)
  case (2 tool tools seen)
  then have v: "validate_tool tool seen = None"
    and l: "validate_loop tools (insert (tool_Name tool) seen) = None" by (auto split: option.splits)
  from 2(1) [OF v l] validate_tool_None [OF v] show ?case by auto
qed simp

lemma LoadJSON_InrD:
  assumes "LoadJSON unmarshal recode rfc3339 b payload = Inr r"
  shows "Validate r = None" and "b \<Longrightarrow> set disabledBoundaryTools \<subseteq> set (reg_Tools r)"
  using assms by (auto simp: LoadJSON_def Let_def split: if_splits option.splits)

lemma LoadJSON_distinct:
  assumes "LoadJSON unmarshal recode rfc3339 b payload = Inr r"
  shows "distinct (map tool_Name (reg_Tools r))"
  using LoadJSON_InrD(1) [OF assms] validate_loop_None
  by (auto simp: Validate_def split: if_splits)

text \<open>
  The hard boundaries hold whatever registry file is loaded: trading at the broker, moving
  cash and producing backups are denied as disabled for every role, every confirmation and every
  review setting, because the loader appends the disabled tools and refuses duplicate names.
\<close>

theorem boundaries_always_denied:
  assumes "LoadJSON unmarshal recode rfc3339 True payload = Inr r"
    and "req_Tool q \<in> {''broker_trade_execution'', ''cash_transfer'', ''backup_producer''}"
  shows "\<not> dec_Allowed (Authorize r q) \<and> \<not> dec_RequiresConfirmation (Authorize r q) \<and>
         dec_Reason (Authorize r q) = DenyDisabled"
proof -
  have sub: "set disabledBoundaryTools \<subseteq> set (reg_Tools r)" using LoadJSON_InrD(2) [OF assms(1)] by simp
  have names: "map tool_Name disabledBoundaryTools =
      [''broker_trade_execution'', ''cash_transfer'', ''backup_producer'']"
    by (simp add: disabledBoundaryTools_def disabledBoundaryTool_def)
  have shape: "\<exists>u. t = disabledBoundaryTool (tool_Name t) u" if "t \<in> set disabledBoundaryTools" for t
    using that by (auto simp: disabledBoundaryTools_def disabledBoundaryTool_def)
  from assms(2) have "req_Tool q \<in> set (map tool_Name disabledBoundaryTools)" by (simp add: names)
  then obtain t where "t \<in> set disabledBoundaryTools" "tool_Name t = req_Tool q" by auto
  with sub shape [of t] obtain u where "disabledBoundaryTool (req_Tool q) u \<in> set (reg_Tools r)" by auto
  then have "Lookup r (req_Tool q) = Some (disabledBoundaryTool (req_Tool q) u)"
    by (simp add: Lookup_Some_iff [OF LoadJSON_distinct [OF assms(1)]] disabledBoundaryTool_def)
  then show ?thesis
    by (simp add: Authorize_def disabledBoundaryTool_def Let_def empty_decision_def)
qed

lemma foldl_summary_counts:
  defines "n \<equiv> \<lambda>p ts. length (filter p ts)"
  shows "sum_DisabledTools (foldl summary_step s ts) = sum_DisabledTools s + n is_disabled ts"
    and "sum_ReviewRequiredTools (foldl summary_step s ts) = sum_ReviewRequiredTools s + n toolRequiresReview ts"
    and "sum_DisabledBoundaries (foldl summary_step s ts) =
         sum_DisabledBoundaries s @ map tool_Name (filter is_disabled ts)"
    and "sum_TotalTools (foldl summary_step s ts) = sum_TotalTools s"
  unfolding n_def by (induction ts arbitrary: s) (auto simp: summary_step_def Let_def)

section \<open>Witnesses\<close>

text \<open>A registry of 44 read tools, decoded from any text.\<close>

definition ex_tool :: "nat \<Rightarrow> ToolDefinition" where
  "ex_tool i = (disabledBoundaryTool (''tool_'' @ itoa i) ''d'')\<lparr>
     tool_Capability := \<lparr>cap_Tool = ''tool_'' @ itoa i, cap_Scope = ScopeRead,
       cap_Permission = PermissionAllowed, cap_RiskLevel = ''low'', cap_UseFor = ''d''\<rparr>,
     tool_Audit := \<lparr>aud_EventType = ''read'', aud_RecordAttempt = False, aud_RecordResult = False,
       aud_RedactArgs = []\<rparr>\<rparr>"

definition ex_registry :: Registry where
  "ex_registry = \<lparr>reg_SchemaVersion = ''tool-registry-v1'', reg_GeneratedAt = ''2026-01-01T00:00:00Z'',
     reg_Tools = map ex_tool [0..<44]\<rparr>"

lemma ex_load: "LoadJSON (\<lambda>_. Some ex_registry) (\<lambda>r. Some (Some r)) (\<lambda>_. True) True ''{}'' =
    Inr (ex_registry\<lparr>reg_Tools := reg_Tools ex_registry @ disabledBoundaryTools\<rparr>)"
  by code_simp

theorem boundaries_always_denied_witness:
  "dec_Reason (Authorize (ex_registry\<lparr>reg_Tools := reg_Tools ex_registry @ disabledBoundaryTools\<rparr>)
     \<lparr>req_Tool = ''cash_transfer'', req_Role = RoleOperator, req_Confirmed = True,
      req_EnforceReviewed = False\<rparr>) = DenyDisabled"
  using boundaries_always_denied [OF ex_load, of "\<lparr>req_Tool = ''cash_transfer'', req_Role = RoleOperator,
    req_Confirmed = True, req_EnforceReviewed = False\<rparr>"] by simp

end
