(* ===== verification/HttpGuards.thy ===== *)
theory HttpGuards
  imports AuthService OAuthClients Registry
begin

unbundle bit_operations_syntax

text \<open>
  The guards in front of the HTTP handlers, \<open>src/internal/httpapi\<close>: the session cookie and the
  CSRF checks of browser writes (\<open>session_auth.go\<close>, \<open>origin_check.go\<close>, \<open>auth.go\<close>), the bearer
  credentials of \<open>/mcp\<close> and \<open>/api/admin\<close> (\<open>mcp_auth.go\<close>, \<open>admin_auth.go\<close>), the client address
  behind trusted proxies, request ids, security headers, and the return path of the OAuth login.

  A guard is a function of the request; it rejects with a status and a code, or admits. Header
  names are in their canonical form; a header that is absent reads as the empty text.
\<close>

section \<open>Requests\<close>

record http_request =
  hr_Method :: string
  hr_Path :: string
  hr_Headers :: "(string \<times> string) list"
  hr_Cookies :: "(string \<times> string) list"
  hr_Host :: string
  hr_TLS :: bool
  hr_RemoteAddr :: string

definition header :: "http_request \<Rightarrow> string \<Rightarrow> string" where
  "header r k = (case map_of (hr_Headers r) k of None \<Rightarrow> [] | Some v \<Rightarrow> v)"

definition cookie :: "http_request \<Rightarrow> string \<Rightarrow> string option" where
  "cookie r k = map_of (hr_Cookies r) k"

datatype 'a guarded = Reject nat string | Admit 'a

text \<open>\<open>subtle.ConstantTimeCompare\<close> is 1 for equal texts and 0 otherwise.\<close>

definition same_secret :: "string \<Rightarrow> string \<Rightarrow> bool" where
  "same_secret provided expected \<longleftrightarrow> length provided = length expected \<and> provided = expected"

section \<open>Origin (origin_check.go)\<close>

definition edgeKeyHeader :: string where "edgeKeyHeader = ''X-Fund-Edge-Key''"

definition isUnsafeMethod :: "string \<Rightarrow> bool" where
  "isUnsafeMethod m \<longleftrightarrow> m \<in> {''POST'', ''PUT'', ''PATCH'', ''DELETE''}"

definition originAllowed :: "(string \<Rightarrow> URL option) \<Rightarrow> string \<Rightarrow> string list \<Rightarrow> bool" where
  "originAllowed parse origin0 allowedOrigins =
    (let origin = TrimRightChar CHR ''/'' origin0; lo = ToLower origin in
     if list_ex (\<lambda>allowed. lo = ToLower (TrimSpace allowed)) allowedOrigins then True
     else (case parse origin of None \<Rightarrow> False
       | Some u \<Rightarrow> ToLower (Hostname u) \<in> {''localhost'', ''127.0.0.1''} \<and>
           url_Scheme u \<in> {''http'', ''https''}))"

definition browserMutationAllowed :: "(string \<Rightarrow> URL option) \<Rightarrow> http_request \<Rightarrow> string list \<Rightarrow> bool" where
  "browserMutationAllowed parse r allowedOrigins =
    (if ToLower (TrimSpace (header r ''Sec-Fetch-Site'')) = ''cross-site'' then False
     else (let origin = TrimSpace (header r ''Origin'') in
       if origin = [] then True else originAllowed parse origin allowedOrigins))"

section \<open>Session cookie (auth.go, session_auth.go)\<close>

definition sessionCookieName :: string where "sessionCookieName = ''fund_session''"
definition csrfHeader :: string where "csrfHeader = ''X-Fund-Request''"
definition csrfHeaderValue :: string where "csrfHeaderValue = ''fetch''"

text \<open>\<open>svc\<close> is \<open>None\<close> for a server without a database.\<close>

definition sessionFromRequest :: "(string \<Rightarrow> string) \<Rightarrow> http_request \<Rightarrow> Service option \<Rightarrow> time \<Rightarrow> auth_tables db
    \<Rightarrow> Session option \<times> auth_tables db" where
  "sessionFromRequest H r svc now d =
    (case svc of None \<Rightarrow> (None, d)
     | Some s \<Rightarrow> (case cookie r sessionCookieName of None \<Rightarrow> (None, d)
       | Some token \<Rightarrow> if token = [] then (None, d)
          else (case Authenticate H s now token d of
              (Inl _, d') \<Rightarrow> (None, d') | (Inr sess, d') \<Rightarrow> (sess, d'))))"

definition csrf_checks :: "(string \<Rightarrow> URL option) \<Rightarrow> http_request \<Rightarrow> string list \<Rightarrow> bool \<Rightarrow> unit guarded" where
  "csrf_checks parse r origins needs_header =
    (if isUnsafeMethod (hr_Method r) then
       (if \<not> browserMutationAllowed parse r origins then Reject 403 ''origin_not_allowed''
        else if needs_header \<and> header r csrfHeader \<noteq> csrfHeaderValue then Reject 403 ''csrf_header_required''
        else Admit ())
     else Admit ())"

definition SessionAuth :: "(string \<Rightarrow> string) \<Rightarrow> (string \<Rightarrow> URL option) \<Rightarrow> Service option \<Rightarrow> string list \<Rightarrow> time
    \<Rightarrow> http_request \<Rightarrow> auth_tables db \<Rightarrow> unit guarded \<times> auth_tables db" where
  "SessionAuth H parse svc origins now r d =
    (case sessionFromRequest H r svc now d of
       (None, d') \<Rightarrow> (Reject 401 ''unauthorized'', d')
     | (Some sess, d') \<Rightarrow> (csrf_checks parse r origins True, d'))"

definition BrowserWriteAuth :: "(string \<Rightarrow> string) \<Rightarrow> (string \<Rightarrow> URL option) \<Rightarrow> Service option \<Rightarrow> string \<Rightarrow> bool
    \<Rightarrow> string list \<Rightarrow> time \<Rightarrow> http_request \<Rightarrow> auth_tables db \<Rightarrow> unit guarded \<times> auth_tables db" where
  "BrowserWriteAuth H parse svc edgeKey0 edgeAuthEnabled origins now r d =
    (let edgeKey = TrimSpace edgeKey0 in
     case sessionFromRequest H r svc now d of
       (Some sess, d') \<Rightarrow> (csrf_checks parse r origins True, d')
     | (None, d') \<Rightarrow>
         (let provided = TrimSpace (header r edgeKeyHeader) in
          if \<not> edgeAuthEnabled \<or> edgeKey = [] \<or> \<not> same_secret provided edgeKey
          then (Reject 401 ''unauthorized'', d')
          else (csrf_checks parse r origins False, d')))"

section \<open>Bearer credentials (mcp_auth.go, admin_auth.go)\<close>

text \<open>One turn of the loop over the two schemes: a returned token, or on to the next scheme.\<close>

definition bearer_scheme :: "string \<Rightarrow> string \<Rightarrow> string option" where
  "bearer_scheme h p =
    (if length h > length p \<and> EqualFold (take (length p) h) p then Some (TrimSpace (drop (length p) h))
     else if EqualFold h (TrimSpace p) then Some [] else None)"

definition bearerToken :: "string \<Rightarrow> string" where
  "bearerToken h0 =
    (let h = TrimSpace h0 in
     if h = [] then []
     else (case bearer_scheme h ''Bearer '' of Some t \<Rightarrow> t
       | None \<Rightarrow> (case bearer_scheme h ''N_Bearer '' of Some t \<Rightarrow> t
         | None \<Rightarrow> if \<not> Contains h '' '' then h else [])))"

record mcpAuthScope =
  ma_Role :: string
  ma_Key :: string
  ma_ClientID :: string

definition matchMCPKey :: "string \<Rightarrow> string \<Rightarrow> string \<Rightarrow> mcpAuthScope option" where
  "matchMCPKey token adminKey publicKey =
    (if adminKey \<noteq> [] \<and> same_secret token adminKey
     then Some \<lparr>ma_Role = RoleOperator, ma_Key = ''admin'', ma_ClientID = []\<rparr>
     else if publicKey \<noteq> [] \<and> same_secret token publicKey
     then Some \<lparr>ma_Role = RoleAnalyst, ma_Key = ''public'', ma_ClientID = []\<rparr>
     else None)"

definition mapOAuthRole :: "string \<Rightarrow> string option" where
  "mapOAuthRole name = (if name = ''analyst'' then Some RoleAnalyst
     else if name = ''operator'' then Some RoleOperator else None)"

definition resolveOAuthIssuer :: "http_request \<Rightarrow> OAuthOptions \<Rightarrow> string" where
  "resolveOAuthIssuer r opts =
    (let configured = TrimSpace (oo_PublicBaseURL opts) in
     if configured \<noteq> [] then TrimRightChar CHR ''/'' configured
     else (let proto = TrimSpace (header r ''X-Forwarded-Proto'');
               first = TrimSpace (hd (Split CHR '','' proto));
               scheme = (if proto \<noteq> [] then (if first \<noteq> [] then first else ''http'')
                 else if hr_TLS r then ''https'' else ''http'');
               host = (if TrimSpace (hr_Host r) = [] then ''localhost'' else TrimSpace (hr_Host r))
           in scheme @ ''://'' @ host))"

text \<open>The resource server's view of the OAuth service: its options and its active key.\<close>

definition verifyMCPOAuthToken :: "jwt_lib \<Rightarrow> OAuthOptions \<Rightarrow> signingKey option \<Rightarrow> time \<Rightarrow> http_request
    \<Rightarrow> string \<Rightarrow> mcpAuthScope option" where
  "verifyMCPOAuthToken L opts key now r token =
    (let issuer = resolveOAuthIssuer r opts in
     case VerifyAccessToken L key now token issuer (Resource opts issuer) of Inl _ \<Rightarrow> None
     | Inr verified \<Rightarrow>
        if at_Scopes verified = [] then None
        else (case mapOAuthRole (RoleForScopes (at_Scopes verified)) of None \<Rightarrow> None
          | Some role \<Rightarrow> Some
             \<lparr>ma_Role = (if role = RoleOperator \<and> \<not> oo_AllowWriteScope opts then RoleAnalyst else role),
              ma_Key = ''oauth'', ma_ClientID = at_ClientID verified\<rparr>))"

definition MCPAuth :: "jwt_lib \<Rightarrow> string \<Rightarrow> string \<Rightarrow> (OAuthOptions \<times> signingKey option) option \<Rightarrow> time
    \<Rightarrow> http_request \<Rightarrow> mcpAuthScope guarded" where
  "MCPAuth L adminKey0 publicKey0 oauthSvc now r =
    (let adminKey = TrimSpace adminKey0; publicKey = TrimSpace publicKey0;
         token = bearerToken (header r ''Authorization'')
     in if token = [] then Reject 401 ''missing_token''
        else (case matchMCPKey token adminKey publicKey of Some scope \<Rightarrow> Admit scope
          | None \<Rightarrow>
             (case oauthSvc of
                Some (opts, key) \<Rightarrow>
                  (case verifyMCPOAuthToken L opts key now r token of
                     Some scope \<Rightarrow> Admit scope | None \<Rightarrow> Reject 401 ''invalid_token'')
              | None \<Rightarrow> if adminKey = [] \<and> publicKey = [] then Reject 401 ''unauthorized''
                  else Reject 401 ''invalid_token'')))"

definition AdminAuth :: "string \<Rightarrow> http_request \<Rightarrow> unit guarded" where
  "AdminAuth adminKey0 r =
    (let adminKey = TrimSpace adminKey0; token = bearerToken (header r ''Authorization'') in
     if adminKey = [] then Reject 401 ''unauthorized''
     else if token = [] \<or> \<not> same_secret token adminKey then Reject 401 ''unauthorized''
     else Admit ())"

text \<open>The replacer is applied byte by byte: its four patterns are single bytes.\<close>

definition challenge_byte :: "char \<Rightarrow> char" where
  "challenge_byte c = (if c = byte 34 then byte 39 else if c = byte 92 then CHR ''/''
     else if c = byte 13 \<or> c = byte 10 then CHR '' '' else c)"

definition sanitizeChallengeDescription :: "string \<Rightarrow> string" where
  "sanitizeChallengeDescription v0 =
    (let v = TrimSpace v0 in
     if v = [] then ''unauthorized''
     else (let w = map challenge_byte v in if length w > 160 then take 160 w else w))"

definition quote_param :: "string \<Rightarrow> string \<Rightarrow> string" where
  "quote_param k v = k @ ''='' @ [byte 34] @ v @ [byte 34]"

text \<open>The \<open>WWW-Authenticate\<close> header of a rejection.\<close>

definition mcp_challenge :: "OAuthOptions \<Rightarrow> http_request \<Rightarrow> string \<Rightarrow> string \<Rightarrow> string" where
  "mcp_challenge opts r code description =
    (let metadataURL = resolveOAuthIssuer r opts @ List.last (WellKnownPathProtectedResource (oo_ResourcePath opts))
     in ''Bearer '' @ quote_param ''resource_metadata'' metadataURL @ '', '' @ quote_param ''error'' code @ '', '' @
        quote_param ''error_description'' (sanitizeChallengeDescription description) @
        (if ScopesSupported opts \<noteq> [] then '', '' @ quote_param ''scope'' (Join (ScopesSupported opts) '' '') else []))"


section \<open>Client address (auth.go)\<close>

text \<open>\<open>net.SplitHostPort\<close>, host part; \<open>None\<close> is the error.\<close>

definition index_last :: "char \<Rightarrow> string \<Rightarrow> nat option" where
  "index_last c s = (let r = dropWhile (\<lambda>x. x \<noteq> c) (rev s) in if r = [] then None else Some (length r - 1))"

definition index_first :: "char \<Rightarrow> string \<Rightarrow> nat option" where
  "index_first c s = (let r = takeWhile (\<lambda>x. x \<noteq> c) s in if r = s then None else Some (length r))"

definition SplitHostPort :: "string \<Rightarrow> string option" where
  "SplitHostPort hp = (case index_last CHR '':'' hp of None \<Rightarrow> None
     | Some i \<Rightarrow>
        if hp \<noteq> [] \<and> hd hp = CHR ''['' then
          (case index_first CHR '']'' hp of None \<Rightarrow> None
           | Some e \<Rightarrow> if e + 1 \<noteq> i then None
              else (let host = take (e - 1) (drop 1 hp) in
                if CHR ''['' \<in> set (drop 1 hp) \<or> CHR '']'' \<in> set (drop (e + 1) hp) then None else Some host))
        else (let host = take i hp in
          if CHR '':'' \<in> set host then None
          else if CHR ''['' \<in> set hp \<or> CHR '']'' \<in> set hp then None else Some host))"

definition remoteHost :: "string \<Rightarrow> string" where
  "remoteHost remoteAddr = (case SplitHostPort remoteAddr of None \<Rightarrow> remoteAddr | Some host \<Rightarrow> host)"

text \<open>A network is its address and its mask; \<open>parse_ip\<close> is \<open>net.ParseIP\<close>, 16 bytes.\<close>

record IPNet =
  net_IP :: "nat list"
  net_Mask :: "nat list"

definition networkNumberAndMask :: "IPNet \<Rightarrow> (nat list \<times> nat list) option" where
  "networkNumberAndMask n =
    (let ip = (case To4 (net_IP n) of Some v4 \<Rightarrow> v4 | None \<Rightarrow> net_IP n); m = net_Mask n in
     if length ip \<noteq> 4 \<and> length ip \<noteq> 16 then None
     else if length m = 4 then (if length ip = 4 then Some (ip, m) else None)
     else if length m = 16 then Some (ip, if length ip = 4 then drop 12 m else m)
     else None)"

definition net_Contains :: "IPNet \<Rightarrow> nat list \<Rightarrow> bool" where
  "net_Contains n ip0 =
    (let ip = (case To4 ip0 of Some v4 \<Rightarrow> v4 | None \<Rightarrow> ip0) in
     case networkNumberAndMask n of None \<Rightarrow> ip = []
     | Some (nn, m) \<Rightarrow> length ip = length nn \<and>
         list_all (\<lambda>(a, k, b). a AND k = b AND k) (zip nn (zip m ip)))"

definition ipInNetworks :: "(string \<Rightarrow> nat list option) \<Rightarrow> string \<Rightarrow> IPNet list \<Rightarrow> bool" where
  "ipInNetworks parse_ip ip networks = (case parse_ip ip of None \<Rightarrow> False
     | Some parsed \<Rightarrow> list_ex (\<lambda>n. net_Contains n parsed) networks)"

text \<open>The walk over the hops, rightmost first.\<close>

fun first_untrusted :: "(string \<Rightarrow> bool) \<Rightarrow> string list \<Rightarrow> string option" where
  "first_untrusted inside [] = None"
| "first_untrusted inside (part # parts) =
    (let ip = TrimSpace part in
     if ip = [] then first_untrusted inside parts
     else if \<not> inside ip then Some ip else first_untrusted inside parts)"

definition clientIP :: "(string \<Rightarrow> nat list option) \<Rightarrow> http_request \<Rightarrow> IPNet list \<Rightarrow> string" where
  "clientIP parse_ip r trusted =
    (let remote = remoteHost (hr_RemoteAddr r); inside = (\<lambda>ip. ipInNetworks parse_ip ip trusted);
         xff = header r ''X-Forwarded-For''
     in if trusted = [] then remote
        else if \<not> inside remote then remote
        else if xff \<noteq> [] then (case first_untrusted inside (rev (Split CHR '','' xff)) of
            Some ip \<Rightarrow> ip | None \<Rightarrow> remote)
        else remote)"

definition truncatedUserAgent :: "http_request \<Rightarrow> string" where
  "truncatedUserAgent r = (let ua = TrimSpace (header r ''User-Agent'') in if length ua > 120 then take 120 ua else ua)"

section \<open>Request ids and headers (request_id.go, security_headers.go)\<close>

text \<open>
  The loop ranges over runes; a text with a byte above 0x7f has a rune above 0x7e, so the test of
  every byte is the same.
\<close>

definition sanitizeRequestID :: "string \<Rightarrow> string" where
  "sanitizeRequestID raw0 =
    (let t = TrimSpace raw0; raw = (if length t > 128 then take 128 t else t) in
     if list_ex (\<lambda>c. (of_char c :: nat) < 0x21 \<or> (of_char c :: nat) > 0x7e) raw then [] else raw)"

definition newRequestID :: "string option \<Rightarrow> string" where
  "newRequestID rnd = (case rnd of None \<Rightarrow> replicate 32 CHR ''0'' | Some b \<Rightarrow> HexEncode b)"

definition RequestID :: "string option \<Rightarrow> http_request \<Rightarrow> string" where
  "RequestID rnd r =
    (let i = sanitizeRequestID (header r ''X-Request-Id'') in if i = [] then newRequestID rnd else i)"

definition csp_self :: "string \<Rightarrow> string" where
  "csp_self directive = directive @ CHR '' '' # [byte 39] @ ''self'' @ [byte 39]"

definition baseContentSecurityPolicy :: string where
  "baseContentSecurityPolicy = Join
    [csp_self ''default-src'', csp_self ''script-src'', csp_self ''style-src'', csp_self ''img-src'' @ '' data:'',
     csp_self ''font-src'', csp_self ''connect-src'', ''frame-ancestors '' @ [byte 39] @ ''none'' @ [byte 39],
     ''base-uri '' @ [byte 39] @ ''none'' @ [byte 39], csp_self ''form-action''] ''; ''"

definition oauthBrowserPath :: "string \<Rightarrow> bool" where
  "oauthBrowserPath p \<longleftrightarrow> p \<in> {''/oauth/authorize'', ''/oauth/consent'', ''/login''}"

definition set_default :: "string \<Rightarrow> string \<Rightarrow> (string \<rightharpoonup> string) \<Rightarrow> (string \<rightharpoonup> string)" where
  "set_default k v h = (if mget h k [] = [] then h(k \<mapsto> v) else h)"

definition SecurityHeaders :: "bool \<Rightarrow> string \<Rightarrow> (string \<rightharpoonup> string) \<Rightarrow> (string \<rightharpoonup> string)" where
  "SecurityHeaders secure path h0 =
    (let h1 = set_default ''X-Content-Type-Options'' ''nosniff'' h0;
         h2 = set_default ''X-Frame-Options'' ''DENY'' h1;
         h3 = set_default ''Referrer-Policy'' ''strict-origin-when-cross-origin'' h2;
         h4 = set_default ''Permissions-Policy'' ''camera=(), microphone=(), geolocation=(), payment=()'' h3;
         h5 = set_default ''Cross-Origin-Resource-Policy'' ''same-site'' h4;
         h6 = set_default ''Cross-Origin-Opener-Policy''
                (if oauthBrowserPath path then ''unsafe-none'' else ''same-origin'') h5;
         h7 = set_default ''Content-Security-Policy'' baseContentSecurityPolicy h6
     in if secure then set_default ''Strict-Transport-Security'' ''max-age=31536000; includeSubDomains'' h7 else h7)"

section \<open>Return path of the login (oauth.go)\<close>

text \<open>
  \<open>path.Clean\<close> of a rooted path, by its segments: empty ones and \<open>.\<close> go, and \<open>..\<close> takes back the
  one before it, if any.
\<close>

fun clean_segments :: "string list \<Rightarrow> string list \<Rightarrow> string list" where
  "clean_segments kept [] = rev kept"
| "clean_segments kept (s # ss) =
    (if s = [] \<or> s = ''.'' then clean_segments kept ss
     else if s = ''..'' then clean_segments (tl kept) ss
     else clean_segments (s # kept) ss)"

definition Clean_rooted :: "string \<Rightarrow> string" where
  "Clean_rooted p = CHR ''/'' # Join (clean_segments [] (Split CHR ''/'' p)) ''/''"

definition maxOAuthReturnLength :: nat where "maxOAuthReturnLength = 2048"

definition optionalQuery :: "URL \<Rightarrow> string" where
  "optionalQuery u = (if url_RawQuery u = [] then [] else CHR ''?'' # url_RawQuery u)"

definition safeOAuthReturn :: "(string \<Rightarrow> URL option) \<Rightarrow> string \<Rightarrow> string" where
  "safeOAuthReturn parse raw =
    (let trimmed = TrimSpace raw in
     if trimmed = [] then []
     else if length trimmed > maxOAuthReturnLength then []
     else if \<not> HasPrefix trimmed ''/oauth/'' then []
     else if HasPrefix trimmed ''//'' then []
     else if ContainsAny trimmed [byte 13, byte 10, byte 9] then []
     else (case parse trimmed of None \<Rightarrow> []
       | Some u \<Rightarrow>
          if IsAbs u \<or> url_Host u \<noteq> [] \<or> url_Scheme u \<noteq> [] then []
          else (let cleaned = Clean_rooted (CHR ''/'' # url_Path u) in
            if \<not> HasPrefix cleaned ''/oauth/'' then [] else cleaned @ optionalQuery u)))"

definition loginReturnURL :: "(string \<Rightarrow> URL option) \<Rightarrow> string \<Rightarrow> string" where
  "loginReturnURL parse returnPath =
    (let next = safeOAuthReturn parse returnPath in
     if next = [] then ''/login'' else ''/login?next='' @ QueryEscape next)"

definition redirectOrigin :: "(string \<Rightarrow> URL option) \<Rightarrow> string \<Rightarrow> string" where
  "redirectOrigin parse raw = (case parse raw of None \<Rightarrow> []
     | Some u \<Rightarrow> if url_Scheme u = [] \<or> url_Host u = [] then [] else url_Scheme u @ ''://'' @ url_Host u)"


section \<open>Guards of browser writes\<close>

lemma csrf_checks_Admit:
  "csrf_checks parse r origins needs_header = Admit u \<longleftrightarrow>
     (isUnsafeMethod (hr_Method r) \<longrightarrow> browserMutationAllowed parse r origins \<and>
        (needs_header \<longrightarrow> header r csrfHeader = csrfHeaderValue))"
  by (auto simp: csrf_checks_def)

lemma sessionFromRequest_SomeD:
  "sessionFromRequest H r svc now d = (Some sess, d') \<Longrightarrow>
     \<exists>s token. svc = Some s \<and> cookie r sessionCookieName = Some token \<and> token \<noteq> [] \<and>
       Authenticate H s now token d = (Inr (Some sess), d')"
  by (auto simp: sessionFromRequest_def split: option.splits if_splits prod.splits sum.splits)

lemma sessionFromRequest_no_service: "sessionFromRequest H r None now d = (None, d)"
  by (simp add: sessionFromRequest_def)

definition not_cross_site :: "(string \<Rightarrow> URL option) \<Rightarrow> http_request \<Rightarrow> string list \<Rightarrow> bool" where
  "not_cross_site parse r origins \<longleftrightarrow>
     ToLower (TrimSpace (header r ''Sec-Fetch-Site'')) \<noteq> ''cross-site'' \<and>
     (TrimSpace (header r ''Origin'') = [] \<or> originAllowed parse (TrimSpace (header r ''Origin'')) origins)"

lemma browserMutationAllowed_iff: "browserMutationAllowed parse r origins \<longleftrightarrow> not_cross_site parse r origins"
  by (simp add: browserMutationAllowed_def not_cross_site_def Let_def)

lemma Authenticate_unexpired:
  "Authenticate H s now token d = (Inr (Some sess), d') \<Longrightarrow>
     \<exists>row \<in> set (auth_sessions (tables d)). ses_id row = tokenID H token \<and> unix now < ses_expires row"
  by (drule Authenticate_SomeD) (auto dest: select1_SomeD)


text \<open>
  C15. Browser writes fail closed, exactly: the session guard admits a request if and only if the
  server has a database, the cookie carries a token of a live session, and - for the methods that
  write - the browser does not label the request cross-site, an \<open>Origin\<close> that is present is
  allowed, and the CSRF header is there. The row of that session had not expired.
\<close>

theorem session_guard_exact:
  "(fst (SessionAuth H parse svc origins now r d) = Admit ()) \<longleftrightarrow>
     (\<exists>s token sess d' row. svc = Some s \<and> cookie r sessionCookieName = Some token \<and> token \<noteq> [] \<and>
        Authenticate H s now token d = (Inr (Some sess), d') \<and>
        row \<in> set (auth_sessions (tables d)) \<and> ses_id row = tokenID H token \<and> unix now < ses_expires row) \<and>
     (isUnsafeMethod (hr_Method r) \<longrightarrow> not_cross_site parse r origins \<and> header r csrfHeader = csrfHeaderValue)"
    (is "?admitted \<longleftrightarrow> ?session \<and> ?csrf")
proof -
  have "?admitted \<longleftrightarrow> (\<exists>sess d'. sessionFromRequest H r svc now d = (Some sess, d')) \<and> ?csrf"
    by (auto simp: SessionAuth_def csrf_checks_Admit browserMutationAllowed_iff split: prod.splits option.splits)
  also have "(\<exists>sess d'. sessionFromRequest H r svc now d = (Some sess, d')) \<longleftrightarrow> ?session"
  proof
    assume "\<exists>sess d'. sessionFromRequest H r svc now d = (Some sess, d')"
    then obtain sess d' where "sessionFromRequest H r svc now d = (Some sess, d')" by blast
    then obtain s token where t: "svc = Some s" "cookie r sessionCookieName = Some token" "token \<noteq> []"
      "Authenticate H s now token d = (Inr (Some sess), d')" using sessionFromRequest_SomeD by blast
    from Authenticate_unexpired [OF t(4)] t show ?session by blast
  qed (auto simp: sessionFromRequest_def)
  finally show ?thesis .
qed

section \<open>Guard of the MCP endpoint\<close>

lemma same_secret_iff [simp]: "same_secret a b \<longleftrightarrow> a = b"
  by (auto simp: same_secret_def)

lemma matchMCPKey_nonempty: "token \<noteq> [] \<Longrightarrow> matchMCPKey token a p =
    (if token = a then Some \<lparr>ma_Role = RoleOperator, ma_Key = ''admin'', ma_ClientID = []\<rparr>
     else if token = p then Some \<lparr>ma_Role = RoleAnalyst, ma_Key = ''public'', ma_ClientID = []\<rparr> else None)"
  by (auto simp: matchMCPKey_def)

lemma role_for_scopes: "mapOAuthRole (RoleForScopes ss) =
    Some (if OAuthScopeWrite \<in> set ss then RoleOperator else RoleAnalyst)"
  by (auto simp: mapOAuthRole_def RoleForScopes_def list_ex_iff)

lemma operator_is_not_analyst [simp]: "RoleOperator \<noteq> RoleAnalyst" "RoleAnalyst \<noteq> RoleOperator"
  by (simp_all add: RoleOperator_def RoleAnalyst_def)

lemma verifyMCPOAuthToken_Some:
  "verifyMCPOAuthToken L opts key now r token = Some scope \<longleftrightarrow>
     (\<exists>verified. VerifyAccessToken L key now token (resolveOAuthIssuer r opts)
          (Resource opts (resolveOAuthIssuer r opts)) = Inr verified \<and> at_Scopes verified \<noteq> [] \<and>
        scope = \<lparr>ma_Role = (if OAuthScopeWrite \<in> set (at_Scopes verified) \<and> oo_AllowWriteScope opts
            then RoleOperator else RoleAnalyst), ma_Key = ''oauth'', ma_ClientID = at_ClientID verified\<rparr>)"
  by (auto simp: verifyMCPOAuthToken_def Let_def role_for_scopes split: sum.splits)

lemma MCPAuth_Admit:
  "MCPAuth L adminKey publicKey oauthSvc now r = Admit scope \<longleftrightarrow>
     (let token = bearerToken (header r ''Authorization'') in token \<noteq> [] \<and>
       (token = TrimSpace adminKey \<and> scope = \<lparr>ma_Role = RoleOperator, ma_Key = ''admin'', ma_ClientID = []\<rparr> \<or>
        token \<noteq> TrimSpace adminKey \<and> token = TrimSpace publicKey \<and>
          scope = \<lparr>ma_Role = RoleAnalyst, ma_Key = ''public'', ma_ClientID = []\<rparr> \<or>
        token \<noteq> TrimSpace adminKey \<and> token \<noteq> TrimSpace publicKey \<and>
          (\<exists>opts key verified. oauthSvc = Some (opts, key) \<and>
             VerifyAccessToken L key now token (resolveOAuthIssuer r opts)
               (Resource opts (resolveOAuthIssuer r opts)) = Inr verified \<and> at_Scopes verified \<noteq> [] \<and>
             scope = \<lparr>ma_Role = (if OAuthScopeWrite \<in> set (at_Scopes verified) \<and> oo_AllowWriteScope opts
               then RoleOperator else RoleAnalyst), ma_Key = ''oauth'', ma_ClientID = at_ClientID verified\<rparr>)))"
proof -
  define token where "token = bearerToken (header r ''Authorization'')"
  show ?thesis
  proof (cases "token = []")
    case True
    then show ?thesis by (simp add: MCPAuth_def Let_def token_def)
  next
    case False
    note match = matchMCPKey_nonempty [OF False, of "TrimSpace adminKey" "TrimSpace publicKey"]
    consider "token = TrimSpace adminKey" | "token \<noteq> TrimSpace adminKey" "token = TrimSpace publicKey"
      | "token \<noteq> TrimSpace adminKey" "token \<noteq> TrimSpace publicKey" by blast
    then show ?thesis
    proof cases
      case 3
      with False match show ?thesis
        by (cases oauthSvc)
          (auto simp: MCPAuth_def Let_def token_def [symmetric] verifyMCPOAuthToken_Some [symmetric] split: option.splits)
    qed (use False match in \<open>auto simp: MCPAuth_def Let_def token_def [symmetric]\<close>)
  qed
qed

text \<open>
  What opens the MCP endpoint, exactly: the administrator's key gives the operator role, the
  public key the analyst role, and an access token - not one of the keys - that verifies for this
  issuer and this resource and carries a scope gives the operator role if it carries the write
  scope and the deployment allows writing, and the analyst role otherwise. Nothing else is
  admitted; keys that are not configured match nothing.
\<close>

theorem mcp_auth_exact:
  "MCPAuth L adminKey publicKey oauthSvc now r = Admit scope \<longleftrightarrow>
     (let token = bearerToken (header r ''Authorization'') in token \<noteq> [] \<and>
       (token = TrimSpace adminKey \<and> scope = \<lparr>ma_Role = RoleOperator, ma_Key = ''admin'', ma_ClientID = []\<rparr> \<or>
        token \<noteq> TrimSpace adminKey \<and> token = TrimSpace publicKey \<and>
          scope = \<lparr>ma_Role = RoleAnalyst, ma_Key = ''public'', ma_ClientID = []\<rparr> \<or>
        token \<noteq> TrimSpace adminKey \<and> token \<noteq> TrimSpace publicKey \<and>
          (\<exists>opts key verified. oauthSvc = Some (opts, key) \<and>
             VerifyAccessToken L key now token (resolveOAuthIssuer r opts)
               (Resource opts (resolveOAuthIssuer r opts)) = Inr verified \<and> at_Scopes verified \<noteq> [] \<and>
             scope = \<lparr>ma_Role = (if OAuthScopeWrite \<in> set (at_Scopes verified) \<and> oo_AllowWriteScope opts
               then RoleOperator else RoleAnalyst), ma_Key = ''oauth'', ma_ClientID = at_ClientID verified\<rparr>)))"
  by (rule MCPAuth_Admit)

section \<open>Client address\<close>

lemma first_untrusted_Some:
  "first_untrusted inside parts = Some ip \<Longrightarrow>
     \<exists>before hop after. parts = before @ hop # after \<and> ip = TrimSpace hop \<and> \<not> inside ip \<and>
       list_all (\<lambda>h. TrimSpace h = [] \<or> inside (TrimSpace h)) before"
proof (induction parts)
  case (Cons part parts)
  show ?case
  proof (cases "TrimSpace part = [] \<or> inside (TrimSpace part)")
    case True
    with Cons.prems have "first_untrusted inside parts = Some ip" by (auto simp: Let_def split: if_splits)
    from Cons.IH [OF this] obtain before hop after where b: "parts = before @ hop # after" "ip = TrimSpace hop"
      "\<not> inside ip" "list_all (\<lambda>h. TrimSpace h = [] \<or> inside (TrimSpace h)) before" by blast
    then show ?thesis using True by (intro exI [of _ "part # before"] exI [of _ hop] exI [of _ after]) simp
  next
    case False
    with Cons.prems have "ip = TrimSpace part" by (simp add: Let_def)
    with False show ?thesis by (intro exI [of _ "[]"] exI [of _ part] exI [of _ parts]) simp
  qed
qed simp

text \<open>
  C29. The client address cannot be forged: it is the direct peer, unless that peer is a trusted
  proxy - then it may be a hop of \<open>X-Forwarded-For\<close>, namely the last one that is not a trusted
  proxy: everything to its right is trusted, so was written by trusted proxies.
\<close>

theorem client_ip_not_spoofed:
  "clientIP parse_ip r trusted = remoteHost (hr_RemoteAddr r) \<or>
     ipInNetworks parse_ip (remoteHost (hr_RemoteAddr r)) trusted \<and>
     (\<exists>before hop after. Split CHR '','' (header r ''X-Forwarded-For'') = before @ hop # after \<and>
        clientIP parse_ip r trusted = TrimSpace hop \<and> \<not> ipInNetworks parse_ip (TrimSpace hop) trusted \<and>
        list_all (\<lambda>h. TrimSpace h = [] \<or> ipInNetworks parse_ip (TrimSpace h) trusted) after)"
proof (cases "clientIP parse_ip r trusted = remoteHost (hr_RemoteAddr r)")
  case False
  let ?in = "\<lambda>ip. ipInNetworks parse_ip ip trusted"
  from False obtain ip where ip: "?in (remoteHost (hr_RemoteAddr r))" "clientIP parse_ip r trusted = ip"
    "first_untrusted ?in (rev (Split CHR '','' (header r ''X-Forwarded-For''))) = Some ip"
    by (auto simp: clientIP_def Let_def split: if_splits option.splits)
  from first_untrusted_Some [OF ip(3)] obtain before hop after where
    s: "rev (Split CHR '','' (header r ''X-Forwarded-For'')) = before @ hop # after" "ip = TrimSpace hop" "\<not> ?in ip"
      "list_all (\<lambda>h. TrimSpace h = [] \<or> ?in (TrimSpace h)) before" by blast
  from s(1) have "Split CHR '','' (header r ''X-Forwarded-For'') = rev after @ hop # rev before"
    by (simp add: rev_swap)
  then have "Split CHR '','' (header r ''X-Forwarded-For'') = rev after @ hop # rev before \<and>
      clientIP parse_ip r trusted = TrimSpace hop \<and> \<not> ?in (TrimSpace hop) \<and>
      list_all (\<lambda>h. TrimSpace h = [] \<or> ?in (TrimSpace h)) (rev before)"
    using ip(2) s(2-4) by (simp add: list_all_iff)
  with ip(1) show ?thesis by blast
qed simp

section \<open>Return path\<close>

definition plain_segment :: "string \<Rightarrow> bool" where
  "plain_segment s \<longleftrightarrow> s \<noteq> [] \<and> s \<noteq> ''.'' \<and> s \<noteq> ''..'' \<and> CHR ''/'' \<notin> set s"

lemma clean_segments_plain:
  "list_all plain_segment kept \<Longrightarrow> list_all (\<lambda>s. CHR ''/'' \<notin> set s) ss \<Longrightarrow>
     list_all plain_segment (clean_segments kept ss)"
proof (induction kept ss rule: clean_segments.induct)
  case (1 kept)
  then show ?case by (simp add: list_all_iff)
next
  case (2 kept s ss)
  have "list_all plain_segment (tl kept)" using 2(4) by (cases kept) simp_all
  moreover have "list_all plain_segment (s # kept)" if "s \<noteq> []" "s \<noteq> ''.''" "s \<noteq> ''..''"
    using that 2(4,5) by (simp add: plain_segment_def [of s])
  ultimately show ?case using 2 by auto
qed

lemma Join_slash_cases:
  "Join (x # xs) ''/'' = x @ (if xs = [] then [] else CHR ''/'' # Join xs ''/'')"
  by (cases xs) simp_all

text \<open>
  The return path of the login stays on this server and under \<open>/oauth/\<close>: it is empty, or
  \<open>/oauth/\<close> followed by segments none of which is empty, \<open>.\<close> or \<open>..\<close>, and then at most a query.
  So no scheme or host can come first, and a browser that resolves dot segments does not leave.
\<close>

theorem return_path_safe:
  "safeOAuthReturn parse raw = [] \<or>
     (\<exists>segments query. safeOAuthReturn parse raw = ''/oauth/'' @ Join segments ''/'' @ query \<and>
        segments \<noteq> [] \<and> list_all plain_segment segments \<and> (query = [] \<or> hd query = CHR ''?''))"
proof (cases "safeOAuthReturn parse raw = []")
  case False
  then obtain u where u: "HasPrefix (Clean_rooted (CHR ''/'' # url_Path u)) ''/oauth/''"
    "safeOAuthReturn parse raw = Clean_rooted (CHR ''/'' # url_Path u) @ optionalQuery u"
    by (auto simp: safeOAuthReturn_def Let_def split: if_splits option.splits)
  let ?segs = "clean_segments [] (Split CHR ''/'' (CHR ''/'' # url_Path u))"
  have plain: "list_all plain_segment ?segs"
    by (rule clean_segments_plain) (auto simp: list_all_iff dest: Split_sep)
  from u(1) obtain s where s: "Join ?segs ''/'' = ''oauth/'' @ s"
    by (auto simp: HasPrefix_def Clean_rooted_def prefix_def)
  then obtain x xs where x: "?segs = x # xs" by (cases ?segs) auto
  have eq: "x @ (if xs = [] then [] else CHR ''/'' # Join xs ''/'') = ''oauth'' @ CHR ''/'' # s"
    using s unfolding x Join_slash_cases by simp
  have nox: "CHR ''/'' \<notin> set x" using plain x by (simp add: plain_segment_def)
  have "x = ''oauth'' \<and> xs \<noteq> []"
  proof -
    have t: "takeWhile (\<lambda>c. c \<noteq> CHR ''/'') (x @ (if xs = [] then [] else CHR ''/'' # Join xs ''/'')) = x"
      using nox by (subst takeWhile_append2) (auto split: if_splits)
    have "takeWhile (\<lambda>c. c \<noteq> CHR ''/'') (''oauth'' @ CHR ''/'' # s) = ''oauth''" by simp
    with t eq have "x = ''oauth''" by metis
    with eq show ?thesis by auto
  qed
  then have out: "safeOAuthReturn parse raw = ''/oauth/'' @ Join xs ''/'' @ optionalQuery u"
    using u(2) x by (simp add: Clean_rooted_def Join_slash_cases)
  have "list_all plain_segment xs" using plain x by simp
  moreover have "optionalQuery u = [] \<or> hd (optionalQuery u) = CHR ''?''" by (simp add: optionalQuery_def)
  ultimately show ?thesis using out \<open>x = ''oauth'' \<and> xs \<noteq> []\<close> by blast
qed simp

section \<open>Witness\<close>

text \<open>A write with the cookie of a live session of the service's example, from an allowed origin.\<close>

definition ex_write :: http_request where
  "ex_write = \<lparr>hr_Method = ''POST'', hr_Path = ''/api/holdings'',
     hr_Headers = [(''Origin'', ''https://fund.example''), (''X-Fund-Request'', ''fetch'')],
     hr_Cookies = [(''fund_session'', ''YWJj'')], hr_Host = [], hr_TLS = False, hr_RemoteAddr = []\<rparr>"

theorem session_guard_exact_witness:
  "(\<exists>row \<in> set (auth_sessions (tables ex_db)). ses_id row = tokenID (env_H ex_env) ''YWJj'' \<and>
      unix (1296002 * Second) < ses_expires row) \<and> isUnsafeMethod (hr_Method ex_write)"
proof -
  have "fst (SessionAuth (env_H ex_env) (\<lambda>_. None) (Some (env_svc ex_env)) [''https://fund.example'']
      (1296002 * Second) ex_write ex_db) = Admit ()" by code_simp
  moreover have "cookie ex_write sessionCookieName = Some ''YWJj''"
    by (simp add: cookie_def ex_write_def sessionCookieName_def)
  moreover have "isUnsafeMethod (hr_Method ex_write)" by (simp add: isUnsafeMethod_def ex_write_def)
  ultimately show ?thesis unfolding session_guard_exact by auto
qed

end
