(* ===== verification/Limiter.thy ===== *)
theory Limiter
  imports Prelude "HOL-Library.Word"
begin

text \<open>
  The login rate limiter, \<open>src/internal/auth/limiter.go\<close>.

  \<open>Limiter\<close> is the Go struct without its mutex and clock: each method runs under the mutex,
  so it is one atomic step, and the reading of the clock is the argument \<open>now\<close>. The Go maps
  are partial functions; the three clean-up loops of \<open>pruneStaleLocked\<close> treat each key
  separately, so the order in which Go visits the keys does not matter. A zero \<open>lastPrune\<close>
  is \<open>None\<close>. The package variable \<open>pruneInterval\<close> is its production value.

  \<open>escalatedLockout\<close> is modelled twice: on integers, for the rest of the development, and on
  64-bit words with signed comparisons, the way the machine computes it;
  \<open>escalate_loop64_sint\<close> shows that the two loops agree.
\<close>

section \<open>The code\<close>

record Limiter =
  fails :: "string \<rightharpoonup> time list"
  lockedUntil :: "string \<rightharpoonup> time"
  lockStrikes :: "string \<rightharpoonup> int"
  lastFailure :: "string \<rightharpoonup> time"
  globalFails :: "time list"
  lastPrune :: "time option"
  MaxFails :: int
  FailWindow :: duration
  Lockout :: duration
  GlobalPerHour :: int

definition maxLockout :: duration where "maxLockout = 24 * Hour"
definition maxLockStrikes :: int where "maxLockStrikes = 64"
definition strikeDecay :: duration where "strikeDecay = 7 * 24 * Hour"
definition pruneInterval :: duration where "pruneInterval = Minute"

lemmas limiter_consts = maxLockout_def maxLockStrikes_def strikeDecay_def pruneInterval_def

definition NewLimiter :: Limiter where
  "NewLimiter = \<lparr>fails = Map.empty, lockedUntil = Map.empty, lockStrikes = Map.empty,
     lastFailure = Map.empty, globalFails = [], lastPrune = None,
     MaxFails = 5, FailWindow = 15 * Minute, Lockout = 15 * Minute, GlobalPerHour = 20\<rparr>"

definition prune :: "time list \<Rightarrow> time \<Rightarrow> time list" where
  "prune ts cutoff = filter (\<lambda>t. cutoff < t) ts"

definition prune_windows :: "(string \<rightharpoonup> time list) \<Rightarrow> time \<Rightarrow> (string \<rightharpoonup> time list)" where
  "prune_windows m cutoff = (\<lambda>k. case m k of None \<Rightarrow> None
     | Some ts \<Rightarrow> (let kept = prune ts cutoff in if kept = [] then None else Some kept))"

definition pruneStaleLocked :: "Limiter \<Rightarrow> time \<Rightarrow> Limiter" where
  "pruneStaleLocked l now =
    (if (case lastPrune l of None \<Rightarrow> False | Some p \<Rightarrow> now - p < pruneInterval) then l
     else
       (let locks = mfilter (\<lambda>_ until. now < until) (lockedUntil l);
            windows = prune_windows (fails l) (now - FailWindow l);
            stays = (\<lambda>k at. locks k \<noteq> None \<or> windows k \<noteq> None \<or> now - at < strikeDecay)
        in l\<lparr>lastPrune := Some now, lockedUntil := locks, fails := windows,
             lastFailure := mfilter stays (lastFailure l),
             lockStrikes := (\<lambda>k. case lastFailure l k of
                 None \<Rightarrow> lockStrikes l k
               | Some at \<Rightarrow> if stays k at then lockStrikes l k else None)\<rparr>))"

fun escalate_loop :: "nat \<Rightarrow> duration \<Rightarrow> duration" where
  "escalate_loop 0 d = d"
| "escalate_loop (Suc n) d =
     (if d \<ge> maxLockout div 2 then maxLockout else escalate_loop n (d * 2))"

definition escalatedLockout :: "duration \<Rightarrow> int \<Rightarrow> duration" where
  "escalatedLockout base strikes =
    (if strikes \<le> 1 \<or> base \<le> 0 then base else escalate_loop (nat (strikes - 1)) base)"

text \<open>
  \<open>Allow\<close>: (retryAfter, allowed) and the new state. The oldest global failure is read as
  \<open>hd\<close>: the list is not empty there whenever \<open>GlobalPerHour\<close> is positive, as in
  \<open>NewLimiter\<close>.
\<close>

definition Allow :: "string \<Rightarrow> time \<Rightarrow> Limiter \<Rightarrow> (duration \<times> bool) \<times> Limiter" where
  "Allow key now l =
    (case (case lockedUntil l key of
             Some until \<Rightarrow> if now < until then Some (until - now) else None
           | None \<Rightarrow> None) of
       Some wait \<Rightarrow> ((wait, False), l)
     | None \<Rightarrow>
       (let l1 = pruneStaleLocked (l\<lparr>lockedUntil := (lockedUntil l)(key := None)\<rparr>) now;
            l2 = l1\<lparr>globalFails := prune (globalFails l1) (now - Hour)\<rparr>
        in if int (length (globalFails l2)) \<ge> GlobalPerHour l2
           then ((hd (globalFails l2) + Hour - now, False), l2)
           else
             (let kept = prune (mget (fails l2) key []) (now - FailWindow l2);
                  l3 = l2\<lparr>fails := (fails l2)(key := (if kept = [] then None else Some kept))\<rparr>;
                  l4 = (if int (length (mget (fails l3) key [])) \<ge> MaxFails l3
                        then l3\<lparr>fails := (fails l3)(key := None)\<rparr> else l3)
              in ((0, True), l4))))"

text \<open>\<open>Failure\<close>: (locked, lockDuration) and the new state.\<close>

definition Failure :: "string \<Rightarrow> time \<Rightarrow> Limiter \<Rightarrow> (bool \<times> duration) \<times> Limiter" where
  "Failure key now l =
    (let l1 = l\<lparr>globalFails := prune (globalFails l) (now - Hour) @ [now],
                fails := (fails l)(key \<mapsto>
                   prune (mget (fails l) key []) (now - FailWindow l) @ [now]),
                lastFailure := (lastFailure l)(key \<mapsto> now)\<rparr>
     in if int (length (mget (fails l1) key [])) \<ge> MaxFails l1
        then
          (let strikes = mget (lockStrikes l1) key 0;
               l2 = (if strikes < maxLockStrikes
                     then l1\<lparr>lockStrikes := (lockStrikes l1)(key \<mapsto> strikes + 1)\<rparr> else l1);
               d = escalatedLockout (Lockout l2) (mget (lockStrikes l2) key 0);
               l3 = l2\<lparr>lockedUntil := (lockedUntil l2)(key \<mapsto> now + d),
                       fails := (fails l2)(key := None)\<rparr>
           in ((True, d), pruneStaleLocked l3 now))
        else ((False, 0), pruneStaleLocked l1 now))"

definition Success :: "string \<Rightarrow> Limiter \<Rightarrow> Limiter" where
  "Success key l = l\<lparr>fails := (fails l)(key := None), lockedUntil := (lockedUntil l)(key := None),
     lockStrikes := (lockStrikes l)(key := None), lastFailure := (lastFailure l)(key := None)\<rparr>"

text \<open>The machine's version of the loop: \<open>time.Duration\<close> is an \<open>int64\<close>.\<close>

definition maxLockout64 :: "64 word" where "maxLockout64 = 86400000000000"

fun escalate_loop64 :: "nat \<Rightarrow> 64 word \<Rightarrow> 64 word" where
  "escalate_loop64 0 d = d"
| "escalate_loop64 (Suc n) d =
     (if sint d \<ge> sint maxLockout64 div 2 then maxLockout64 else escalate_loop64 n (d * 2))"

definition escalatedLockout64 :: "64 word \<Rightarrow> int \<Rightarrow> 64 word" where
  "escalatedLockout64 base strikes =
    (if strikes \<le> 1 \<or> sint base \<le> 0 then base else escalate_loop64 (nat (strikes - 1)) base)"

section \<open>Escalation\<close>

lemma maxLockout_pos [simp]: "0 < maxLockout"
  by (simp add: maxLockout_def duration_defs)

lemma escalate_loop_eq:
  assumes "0 < d" "d \<le> maxLockout"
  shows "escalate_loop n d = min (d * 2 ^ n) maxLockout"
  using assms
proof (induction n arbitrary: d)
  case 0
  then show ?case by simp
next
  case (Suc n)
  have even: "maxLockout = 2 * (maxLockout div 2)"
    by (simp add: maxLockout_def duration_defs)
  show ?case
  proof (cases "d \<ge> maxLockout div 2")
    case True
    with even have "maxLockout \<le> d * 2" by linarith
    also have "\<dots> \<le> d * 2 ^ Suc n" using Suc.prems(1) by simp
    finally show ?thesis using True by simp
  next
    case False
    with even have "d * 2 \<le> maxLockout" by linarith
    with Suc.IH [of "d * 2"] Suc.prems(1) False show ?thesis by (simp add: mult.assoc)
  qed
qed

lemma escalatedLockout_eq:
  assumes "0 < base" "base \<le> maxLockout" "1 \<le> s"
  shows "escalatedLockout base s = min (base * 2 ^ nat (s - 1)) maxLockout"
  using assms by (auto simp: escalatedLockout_def escalate_loop_eq)

lemma escalatedLockout_mono:
  assumes "0 < base" "base \<le> maxLockout" "1 \<le> s" "s \<le> t"
  shows "escalatedLockout base s \<le> escalatedLockout base t"
proof -
  have "base * 2 ^ nat (s - 1) \<le> base * 2 ^ nat (t - 1)"
    using assms by (intro mult_left_mono power_increasing) auto
  then show ?thesis using assms by (simp add: escalatedLockout_eq min.coboundedI1)
qed

lemma escalatedLockout_bounds:
  assumes "0 < base" "base \<le> maxLockout" "1 \<le> s"
  shows "base \<le> escalatedLockout base s" and "escalatedLockout base s \<le> maxLockout"
proof -
  have "base * 1 \<le> base * 2 ^ nat (s - 1)"
    using assms by (intro mult_left_mono) auto
  then show "base \<le> escalatedLockout base s" using assms by (simp add: escalatedLockout_eq)
  show "escalatedLockout base s \<le> maxLockout" using assms by (simp add: escalatedLockout_eq)
qed

lemma sint_maxLockout64 [simp]: "sint maxLockout64 = maxLockout"
  by (simp add: maxLockout64_def maxLockout_def duration_defs)

lemma sint_double:
  fixes d :: "64 word"
  assumes "0 < sint d" "sint d < maxLockout div 2"
  shows "sint (d * 2) = sint d * 2"
proof -
  have "sint (d * 2) = signed_take_bit 63 (sint d * 2)"
    by (simp add: sint_word_ariths(3))
  also have "\<dots> = sint d * 2"
    using assms by (intro signed_take_bit_int_eq_self)
      (auto simp: maxLockout_def duration_defs)
  finally show ?thesis .
qed

lemma escalate_loop64_sint:
  "0 < sint d \<Longrightarrow> sint (escalate_loop64 n d) = escalate_loop n (sint d)"
  by (induction n d rule: escalate_loop64.induct) (auto simp: sint_double)

section \<open>The invariant\<close>

text \<open>
  What every reachable state satisfies per key, with \<open>now\<close> a bound on every clock reading so
  far: a failure window is shorter than \<open>MaxFails\<close>, a strike count lies between 1 and the
  cap, a lock is one escalated lockout long and counted from a recorded failure, and every
  entry of any map is backed by an entry of \<open>lastFailure\<close>, the map that drives the clean-up.
\<close>

definition key_inv :: "time \<Rightarrow> Limiter \<Rightarrow> string \<Rightarrow> bool" where
  "key_inv now l k \<longleftrightarrow>
     (\<forall>f. lastFailure l k = Some f \<longrightarrow> f \<le> now) \<and>
     (\<forall>ts. fails l k = Some ts \<longrightarrow> int (length ts) < MaxFails l \<and>
        (\<exists>f. lastFailure l k = Some f \<and> (\<forall>t \<in> set ts. t \<le> f))) \<and>
     (\<forall>s. lockStrikes l k = Some s \<longrightarrow> 1 \<le> s \<and> s \<le> maxLockStrikes \<and> lastFailure l k \<noteq> None) \<and>
     (\<forall>u. lockedUntil l k = Some u \<longrightarrow>
        (\<exists>s f t0. lockStrikes l k = Some s \<and> lastFailure l k = Some f \<and> t0 \<le> f \<and>
                u = t0 + escalatedLockout (Lockout l) s))"

definition cfg_ok :: "Limiter \<Rightarrow> bool" where
  "cfg_ok l \<longleftrightarrow> 0 < MaxFails l \<and> 0 < GlobalPerHour l \<and> 0 < Lockout l \<and> Lockout l \<le> maxLockout \<and>
     0 \<le> FailWindow l \<and> FailWindow l \<le> strikeDecay"

definition lim_inv :: "time \<Rightarrow> Limiter \<Rightarrow> bool" where
  "lim_inv now l \<longleftrightarrow> cfg_ok l \<and> (\<forall>k. key_inv now l k)"

lemma lim_inv_strikesD:
  "lim_inv t l \<Longrightarrow> lockStrikes l k = Some s \<Longrightarrow> 1 \<le> s \<and> s \<le> maxLockStrikes"
  unfolding lim_inv_def key_inv_def by blast

lemma lim_inv_failsD:
  "lim_inv t l \<Longrightarrow> fails l k = Some ts \<Longrightarrow>
   int (length ts) < MaxFails l \<and> (\<exists>f. lastFailure l k = Some f \<and> (\<forall>t \<in> set ts. t \<le> f))"
  unfolding lim_inv_def key_inv_def by blast

lemma lim_inv_lastD: "lim_inv t l \<Longrightarrow> lastFailure l k = Some f \<Longrightarrow> f \<le> t"
  unfolding lim_inv_def key_inv_def by blast

lemma lim_inv_lockD:
  "lim_inv t l \<Longrightarrow> lockedUntil l k = Some u \<Longrightarrow>
   \<exists>s f t0. lockStrikes l k = Some s \<and> lastFailure l k = Some f \<and> t0 \<le> f \<and>
            u = t0 + escalatedLockout (Lockout l) s"
  unfolding lim_inv_def key_inv_def by blast

lemma lim_inv_cfgD: "lim_inv t l \<Longrightarrow> cfg_ok l"
  by (simp add: lim_inv_def)

lemma lim_inv_mono: "lim_inv t l \<Longrightarrow> t \<le> t' \<Longrightarrow> lim_inv t' l"
  unfolding lim_inv_def key_inv_def by (meson order_trans)

lemma lim_inv_New: "lim_inv t NewLimiter"
  by (simp add: lim_inv_def key_inv_def cfg_ok_def NewLimiter_def limiter_consts duration_defs)

lemma set_prune [simp]: "set (prune ts c) = {t \<in> set ts. c < t}"
  by (auto simp: prune_def)

lemma prune_Nil [simp]: "prune [] c = []"
  by (simp add: prune_def)

lemma length_prune: "length (prune ts c) \<le> length ts"
  by (simp add: prune_def)

lemma length_prune_less: "int (length ts) < n \<Longrightarrow> int (length (prune ts c)) < n"
  using length_prune [of ts c] by simp

lemma prune_windows_Some:
  "prune_windows m c k = Some ts \<longleftrightarrow> (\<exists>old. m k = Some old \<and> ts = prune old c \<and> ts \<noteq> [])"
  by (auto simp: prune_windows_def Let_def split: option.splits)

lemma pruneStaleLocked_cfg [simp]:
  "MaxFails (pruneStaleLocked l now) = MaxFails l"
  "FailWindow (pruneStaleLocked l now) = FailWindow l"
  "Lockout (pruneStaleLocked l now) = Lockout l"
  "GlobalPerHour (pruneStaleLocked l now) = GlobalPerHour l"
  "globalFails (pruneStaleLocked l now) = globalFails l"
  by (simp_all add: pruneStaleLocked_def Let_def)

lemma key_inv_pruneStaleLocked:
  assumes "key_inv t l k"
  shows "key_inv t (pruneStaleLocked l now) k"
proof (cases "case lastPrune l of None \<Rightarrow> False | Some p \<Rightarrow> now - p < pruneInterval")
  case True
  with assms show ?thesis by (simp add: pruneStaleLocked_def)
next
  case False
  with assms show ?thesis unfolding key_inv_def pruneStaleLocked_def
    by (auto simp: Let_def prune_windows_Some intro: length_prune_less split: option.splits)
qed

lemma lim_inv_pruneStaleLocked: "lim_inv t l \<Longrightarrow> lim_inv t (pruneStaleLocked l now)"
  by (auto simp: lim_inv_def cfg_ok_def intro: key_inv_pruneStaleLocked)

lemma lim_inv_fails_drop:
  "lim_inv t l \<Longrightarrow> lim_inv t (l\<lparr>fails := (fails l)(key := None)\<rparr>)"
  by (auto simp: lim_inv_def cfg_ok_def key_inv_def)

lemma lim_inv_lock_drop:
  "lim_inv t l \<Longrightarrow> lim_inv t (l\<lparr>lockedUntil := (lockedUntil l)(key := None)\<rparr>)"
  by (auto simp: lim_inv_def cfg_ok_def key_inv_def)

lemma lim_inv_globalFails: "lim_inv t (l\<lparr>globalFails := gs\<rparr>) = lim_inv t l"
  by (simp add: lim_inv_def cfg_ok_def key_inv_def)

lemma lim_inv_fails_prune:
  assumes "lim_inv t l"
  shows "lim_inv t (l\<lparr>fails := (fails l)(key :=
           (if prune (mget (fails l) key []) c = [] then None
            else Some (prune (mget (fails l) key []) c)))\<rparr>)"
proof -
  have "key_inv t (l\<lparr>fails := (fails l)(key :=
           (if prune (mget (fails l) key []) c = [] then None
            else Some (prune (mget (fails l) key []) c)))\<rparr>) k" for k
  proof (cases "k = key")
    case True
    show ?thesis
    proof (cases "fails l key")
      case (Some ts)
      then obtain f where f: "lastFailure l key = Some f" "\<forall>t \<in> set ts. t \<le> f"
        and n: "int (length ts) < MaxFails l"
        using lim_inv_failsD [OF assms] by blast
      have "key_inv t l key" using assms by (simp add: lim_inv_def)
      with Some f n True show ?thesis
        by (simp add: key_inv_def length_prune_less [OF n])
    qed (use assms True in \<open>auto simp: lim_inv_def key_inv_def prune_def\<close>)
  qed (use assms in \<open>auto simp: lim_inv_def key_inv_def\<close>)
  then show ?thesis using assms by (simp add: lim_inv_def cfg_ok_def)
qed

lemma lim_inv_Allow:
  assumes "lim_inv t l" "t \<le> now" "Allow key now l = (r, l')"
  shows "lim_inv now l'"
proof -
  let ?l1 = "pruneStaleLocked (l\<lparr>lockedUntil := (lockedUntil l)(key := None)\<rparr>) now"
  let ?l2 = "?l1\<lparr>globalFails := prune (globalFails ?l1) (now - Hour)\<rparr>"
  let ?l3 = "?l2\<lparr>fails := (fails ?l2)(key :=
     (if prune (mget (fails ?l2) key []) (now - FailWindow ?l2) = [] then None
      else Some (prune (mget (fails ?l2) key []) (now - FailWindow ?l2))))\<rparr>"
  have "lim_inv now l" using assms(1,2) by (rule lim_inv_mono)
  then have l2: "lim_inv now ?l2"
    unfolding lim_inv_globalFails by (intro lim_inv_pruneStaleLocked lim_inv_lock_drop)
  then have l3: "lim_inv now ?l3" by (rule lim_inv_fails_prune)
  have "l' \<in> {l, ?l2, ?l3, ?l3\<lparr>fails := (fails ?l3)(key := None)\<rparr>}"
    using assms(3) unfolding Allow_def Let_def
    by (simp split: option.splits if_splits)
  with l2 l3 \<open>lim_inv now l\<close> lim_inv_fails_drop [OF l3] show ?thesis by blast
qed

lemma lim_inv_Failure:
  assumes "lim_inv t l" "t \<le> now" "Failure key now l = (r, l')"
  shows "lim_inv now l'"
proof -
  define w where "w = prune (mget (fails l) key []) (now - FailWindow l) @ [now]"
  define l1 where "l1 = l\<lparr>globalFails := prune (globalFails l) (now - Hour) @ [now],
    fails := (fails l)(key \<mapsto> w), lastFailure := (lastFailure l)(key \<mapsto> now)\<rparr>"
  define strikes where "strikes = mget (lockStrikes l) key 0"
  define strikes' where "strikes' = (if strikes < maxLockStrikes then strikes + 1 else strikes)"
  define d where "d = escalatedLockout (Lockout l) strikes'"
  define l3 where "l3 = l\<lparr>globalFails := prune (globalFails l) (now - Hour) @ [now],
    lastFailure := (lastFailure l)(key \<mapsto> now),
    lockStrikes := (lockStrikes l)(key \<mapsto> strikes'),
    lockedUntil := (lockedUntil l)(key \<mapsto> now + d), fails := (fails l)(key := None)\<rparr>"
  have inv: "lim_inv now l" using assms(1,2) by (rule lim_inv_mono)
  have "0 \<le> strikes \<and> strikes \<le> maxLockStrikes"
    using lim_inv_strikesD [OF inv, of key] by (cases "lockStrikes l key")
      (auto simp: strikes_def maxLockStrikes_def)
  then have s': "1 \<le> strikes'" "strikes' \<le> maxLockStrikes"
    by (auto simp: strikes'_def maxLockStrikes_def)
  have strikes_None: "lockStrikes l key = None \<Longrightarrow> strikes = 0" by (simp add: strikes_def)
  have l'_cases: "(int (length w) < MaxFails l \<and> l' = pruneStaleLocked l1 now) \<or>
                  l' = pruneStaleLocked l3 now"
  proof (cases "int (length w) \<ge> MaxFails l")
    case True
    have keep: "(lockStrikes l)(key \<mapsto> strikes') = lockStrikes l" if "\<not> strikes < maxLockStrikes"
      using that strikes_None
      by (cases "lockStrikes l key")
        (auto simp: strikes'_def strikes_def maxLockStrikes_def fun_eq_iff)
    have "l' = pruneStaleLocked l3 now"
    proof (cases "strikes < maxLockStrikes")
      case less: True
      then show ?thesis using assms(3) True
        by (simp add: Failure_def Let_def w_def [symmetric] l3_def d_def strikes_def [symmetric]
              strikes'_def)
    next
      case False
      then have "l3 = l\<lparr>globalFails := prune (globalFails l) (now - Hour) @ [now],
          lastFailure := (lastFailure l)(key \<mapsto> now),
          lockedUntil := (lockedUntil l)(key \<mapsto> now + d), fails := (fails l)(key := None)\<rparr>"
        by (simp add: l3_def keep)
      with False show ?thesis using assms(3) True
        by (simp add: Failure_def Let_def w_def [symmetric] d_def strikes_def [symmetric]
              strikes'_def)
    qed
    then show ?thesis ..
  next
    case False
    then show ?thesis using assms(3)
      by (auto simp: Failure_def Let_def w_def [symmetric] l1_def)
  qed
  have "lim_inv now l1" if "int (length w) < MaxFails l"
  proof -
    have old: "\<forall>t \<in> set (mget (fails l) key []). t \<le> now"
    proof (cases "fails l key")
      case (Some ts)
      then show ?thesis using lim_inv_failsD [OF inv Some] lim_inv_lastD [OF inv] by fastforce
    qed simp
    have "key_inv now l1 k" for k
    proof (cases "k = key")
      case True
      have "key_inv now l key" using inv by (simp add: lim_inv_def)
      then have lock: "\<exists>s t0. lockStrikes l key = Some s \<and> t0 \<le> now \<and>
          u = t0 + escalatedLockout (Lockout l) s" if "lockedUntil l key = Some u" for u
        using that unfolding key_inv_def by (meson order_trans)
      have "1 \<le> s \<and> s \<le> maxLockStrikes" if "lockStrikes l key = Some s" for s
        using lim_inv_strikesD [OF inv that] .
      with True that old lock show ?thesis by (simp add: key_inv_def l1_def w_def)
    next
      case False
      have "key_inv now l k" using inv by (simp add: lim_inv_def)
      with False show ?thesis by (simp add: key_inv_def l1_def)
    qed
    then show ?thesis using inv by (simp add: lim_inv_def cfg_ok_def l1_def)
  qed
  moreover have "lim_inv now l3"
  proof -
    have "key_inv now l3 k" for k
    proof (cases "k = key")
      case True
      with s' show ?thesis by (auto simp: key_inv_def l3_def d_def)
    next
      case False
      have "key_inv now l k" using inv by (simp add: lim_inv_def)
      with False show ?thesis by (simp add: key_inv_def l3_def)
    qed
    then show ?thesis using inv by (simp add: lim_inv_def cfg_ok_def l3_def)
  qed
  ultimately show ?thesis using l'_cases lim_inv_pruneStaleLocked by blast
qed

lemma lim_inv_Success: "lim_inv t l \<Longrightarrow> lim_inv t (Success key l)"
  by (auto simp: lim_inv_def cfg_ok_def key_inv_def Success_def)


section \<open>Runs\<close>

text \<open>The calls the server makes, each at its own clock reading.\<close>

datatype lim_op = OpAllow string | OpFailure string | OpSuccess string

fun lim_step :: "time \<times> lim_op \<Rightarrow> Limiter \<Rightarrow> Limiter" where
  "lim_step (now, OpAllow k) l = snd (Allow k now l)"
| "lim_step (now, OpFailure k) l = snd (Failure k now l)"
| "lim_step (now, OpSuccess k) l = Success k l"

fun lim_run :: "(time \<times> lim_op) list \<Rightarrow> Limiter \<Rightarrow> Limiter" where
  "lim_run [] l = l"
| "lim_run (e # es) l = lim_run es (lim_step e l)"

lemma lim_run_append: "lim_run (xs @ ys) l = lim_run ys (lim_run xs l)"
  by (induction xs l rule: lim_run.induct) auto

lemma Allow_cfg [simp]:
  "MaxFails (snd (Allow k now l)) = MaxFails l"
  "FailWindow (snd (Allow k now l)) = FailWindow l"
  "Lockout (snd (Allow k now l)) = Lockout l"
  "GlobalPerHour (snd (Allow k now l)) = GlobalPerHour l"
  by (simp_all add: Allow_def Let_def split: option.split)

lemma Failure_cfg [simp]:
  "MaxFails (snd (Failure k now l)) = MaxFails l"
  "FailWindow (snd (Failure k now l)) = FailWindow l"
  "Lockout (snd (Failure k now l)) = Lockout l"
  "GlobalPerHour (snd (Failure k now l)) = GlobalPerHour l"
  by (simp_all add: Failure_def Let_def)

lemma Success_cfg [simp]:
  "MaxFails (Success k l) = MaxFails l"
  "FailWindow (Success k l) = FailWindow l"
  "Lockout (Success k l) = Lockout l"
  "GlobalPerHour (Success k l) = GlobalPerHour l"
  "globalFails (Success k l) = globalFails l"
  by (simp_all add: Success_def)

lemma lim_inv_step:
  assumes "lim_inv t l" "t \<le> fst e"
  shows "lim_inv (fst e) (lim_step e l)"
proof (cases e)
  case (Pair now opr)
  then show ?thesis
  proof (cases opr)
    case (OpAllow k)
    with Pair assms show ?thesis
      by (simp add: lim_inv_Allow [OF assms(1), of now k "fst (Allow k now l)"])
  next
    case (OpFailure k)
    with Pair assms show ?thesis
      by (simp add: lim_inv_Failure [OF assms(1), of now k "fst (Failure k now l)"])
  next
    case (OpSuccess k)
    with Pair assms show ?thesis by (auto intro: lim_inv_Success lim_inv_mono)
  qed
qed

lemma lim_inv_run:
  assumes "lim_inv t l" "sorted (map fst es)" "\<forall>e \<in> set es. t \<le> fst e"
  shows "lim_inv (if es = [] then t else fst (last es)) (lim_run es l)"
  using assms
proof (induction es arbitrary: t l)
  case (Cons e es)
  have "lim_inv (fst e) (lim_step e l)" using Cons.prems by (intro lim_inv_step) auto
  with Cons.IH [of "fst e" "lim_step e l"] Cons.prems(2) show ?case by auto
qed simp

section \<open>A lock holds\<close>

text \<open>The key is locked at least until \<open>u0\<close>, and has at least \<open>s0\<close> strikes.\<close>

definition held :: "string \<Rightarrow> time \<Rightarrow> int \<Rightarrow> Limiter \<Rightarrow> bool" where
  "held key u0 s0 l \<longleftrightarrow> cfg_ok l \<and>
     (\<exists>u s. lockedUntil l key = Some u \<and> u0 \<le> u \<and> lockStrikes l key = Some s \<and> s0 \<le> s)"

lemma held_pruneStaleLocked:
  assumes "held key u0 s0 l" "now < u0"
  shows "held key u0 s0 (pruneStaleLocked l now)"
proof -
  from assms obtain u s where us: "lockedUntil l key = Some u" "u0 \<le> u"
    "lockStrikes l key = Some s" "s0 \<le> s" "cfg_ok l" unfolding held_def by blast
  have "mfilter (\<lambda>_ until. now < until) (lockedUntil l) key = Some u"
    using us assms(2) by simp
  with us show ?thesis
    by (auto simp: held_def pruneStaleLocked_def Let_def cfg_ok_def split: option.split)
qed

lemma held_Allow:
  assumes "held key u0 s0 l" "now < u0"
  shows "held key u0 s0 (snd (Allow k now l))"
proof (cases "\<exists>until. lockedUntil l k = Some until \<and> now < until")
  case True
  then show ?thesis using assms(1) by (auto simp: Allow_def)
next
  case False
  with assms have "k \<noteq> key" by (auto simp: held_def)
  then have "held key u0 s0 (l\<lparr>lockedUntil := (lockedUntil l)(k := None)\<rparr>)"
    using assms(1) by (auto simp: held_def cfg_ok_def)
  from held_pruneStaleLocked [OF this assms(2)] False show ?thesis
    by (auto simp: Allow_def Let_def held_def cfg_ok_def split: option.split)
qed

lemma held_Failure:
  assumes "held key u0 s0 l" "now < u0" "1 \<le> s0"
    and "u0 \<le> now + escalatedLockout (Lockout l) s0"
  shows "held key u0 s0 (snd (Failure k now l))"
proof -
  from assms(1) obtain u s where us: "lockedUntil l key = Some u" "u0 \<le> u"
    "lockStrikes l key = Some s" "s0 \<le> s" "cfg_ok l" unfolding held_def by blast
  have esc: "u0 \<le> now + escalatedLockout (Lockout l) s'" if "s0 \<le> s'" for s'
    using escalatedLockout_mono [of "Lockout l" s0 s'] that assms(3,4) us(5)
    by (auto simp: cfg_ok_def)
  show ?thesis
    by (simp add: Failure_def Let_def, intro conjI impI held_pruneStaleLocked [OF _ assms(2)])
      (use us esc [of s] esc [of "s + 1"] in \<open>auto simp: held_def cfg_ok_def\<close>)
qed

lemma held_step:
  assumes "held key u0 s0 l" "fst e < u0" "1 \<le> s0" "snd e \<noteq> OpSuccess key"
    and "u0 \<le> fst e + escalatedLockout (Lockout l) s0"
  shows "held key u0 s0 (lim_step e l)"
proof (cases e)
  case (Pair now opr)
  then show ?thesis using assms
    by (cases opr) (simp_all add: held_Allow held_Failure, simp add: held_def Success_def cfg_ok_def)
qed

lemma lim_step_cfg [simp]: "Lockout (lim_step e l) = Lockout l"
  by (cases e; cases "snd e") auto

lemma held_run:
  assumes "held key u0 s0 l" "1 \<le> s0"
    and "\<forall>e \<in> set es. begin_at \<le> fst e \<and> fst e < u0 \<and> snd e \<noteq> OpSuccess key"
    and "u0 \<le> begin_at + escalatedLockout (Lockout l) s0"
  shows "held key u0 s0 (lim_run es l)"
  using assms
proof (induction es arbitrary: l)
  case (Cons e es)
  have "held key u0 s0 (lim_step e l)" using Cons.prems by (intro held_step) auto
  then show ?case using Cons.IH Cons.prems by simp
qed simp

lemma Failure_held:
  assumes "lim_inv t l" "t \<le> t0" "Failure key t0 l = ((True, d), l1)"
  shows "\<exists>s. 1 \<le> s \<and> d = escalatedLockout (Lockout l1) s \<and> held key (t0 + d) s l1 \<and> 0 < d"
proof -
  define s where "s = mget (lockStrikes l) key 0"
  define s' where "s' = (if s < maxLockStrikes then s + 1 else s)"
  have cfg: "cfg_ok l" using assms(1) by (rule lim_inv_cfgD)
  have s: "0 \<le> s" using lim_inv_strikesD [OF assms(1), of key]
    by (cases "lockStrikes l key") (auto simp: s_def)
  then have s': "1 \<le> s'" by (auto simp: s'_def maxLockStrikes_def)
  have d: "d = escalatedLockout (Lockout l) s'"
    using assms(3) by (auto simp: Failure_def Let_def s'_def s_def split: if_splits)
  have pos: "0 < d" using escalatedLockout_bounds(1) [of "Lockout l" s'] s' cfg
    by (simp add: d cfg_ok_def)
  have None: "lockStrikes l key \<noteq> None" if "\<not> s < maxLockStrikes"
    using that by (cases "lockStrikes l key") (auto simp: s_def maxLockStrikes_def)
  define m where "m = l\<lparr>globalFails := prune (globalFails l) (t0 - Hour) @ [t0],
     lastFailure := (lastFailure l)(key \<mapsto> t0)\<rparr>"
  define m' where "m' = (if s < maxLockStrikes
     then m\<lparr>lockStrikes := (lockStrikes l)(key \<mapsto> s + 1)\<rparr> else m)"
  define l3 where "l3 = m'\<lparr>lockedUntil := (lockedUntil l)(key \<mapsto> t0 + d), fails := (fails l)(key := None)\<rparr>"
  have "l1 = pruneStaleLocked l3 t0"
    using assms(3) unfolding l3_def m'_def m_def d
    by (auto simp: Failure_def Let_def s'_def s_def [symmetric] split: if_splits)
  moreover have "lockStrikes l3 key = Some s'"
    using None by (auto simp: l3_def m'_def m_def s'_def s_def)
  ultimately have l3: "l1 = pruneStaleLocked l3 t0" "lockedUntil l3 key = Some (t0 + d)"
      "lockStrikes l3 key = Some s'" "cfg_ok l3"
    using cfg by (auto simp: l3_def m'_def m_def cfg_ok_def)
  have "held key (t0 + d) s' l3" using l3 by (simp add: held_def)
  then have "held key (t0 + d) s' l1" using pos l3(1) by (simp add: held_pruneStaleLocked)
  moreover have "Lockout l1 = Lockout l"
    using Failure_cfg(3) [of key t0 l] assms(3) by simp
  ultimately show ?thesis using s' d pos by auto
qed

lemma held_Allow_refused:
  assumes "held key u0 s0 l" "now < u0"
  shows "\<exists>wait. Allow key now l = ((wait, False), l) \<and> u0 - now \<le> wait"
  using assms by (auto simp: held_def Allow_def)

text \<open>
  C9. A tripped lock holds: after a \<open>Failure\<close> that reports a lock of length \<open>d\<close> at \<open>t0\<close>,
  whatever calls follow before \<open>t0 + d\<close>, for any keys, other than a \<open>Success\<close> for this key,
  \<open>Allow\<close> refuses the key at every moment before \<open>t0 + d\<close>, asks the caller to wait at least
  for the rest of the lock, and changes nothing.
\<close>

theorem lock_holds:
  assumes "lim_inv t l" "t \<le> t0" "Failure key t0 l = ((True, d), l1)"
    and "\<forall>e \<in> set es. t0 \<le> fst e \<and> fst e < t0 + d \<and> snd e \<noteq> OpSuccess key"
    and "t0 \<le> now" "now < t0 + d"
  shows "\<exists>wait. Allow key now (lim_run es l1) = ((wait, False), lim_run es l1) \<and>
                t0 + d - now \<le> wait"
proof -
  from Failure_held [OF assms(1-3)] obtain s where
    s: "1 \<le> s" "d = escalatedLockout (Lockout l1) s" "held key (t0 + d) s l1" by blast
  then have "held key (t0 + d) s (lim_run es l1)"
    using assms(4) by (intro held_run [where begin_at = t0]) auto
  then show ?thesis using assms(6) by (rule held_Allow_refused)
qed

section \<open>The hourly cap\<close>

text \<open>
  A login attempt as the server performs it: ask \<open>Allow\<close>, check the password if allowed, then
  report the outcome. \<open>None\<close> is a refusal, \<open>Some ok\<close> the outcome of the check.
\<close>

definition attempt :: "string \<Rightarrow> time \<Rightarrow> bool \<Rightarrow> Limiter \<Rightarrow> bool option \<times> Limiter" where
  "attempt key now ok l =
    (case Allow key now l of
       ((_, False), l') \<Rightarrow> (None, l')
     | ((_, True), l') \<Rightarrow> (Some ok, if ok then Success key l' else snd (Failure key now l')))"

text \<open>The moments at which a password check failed, in a run of attempts.\<close>

fun failed_checks :: "(time \<times> string \<times> bool) list \<Rightarrow> Limiter \<Rightarrow> time list" where
  "failed_checks [] l = []"
| "failed_checks ((now, key, ok) # as) l =
    (case attempt key now ok l of
       (r, l') \<Rightarrow> (if r = Some False then [now] else []) @ failed_checks as l')"

lemma prune_prune: "c \<le> c' \<Longrightarrow> prune (prune ts c) c' = prune ts c'"
  unfolding prune_def filter_filter by (intro filter_cong) auto

lemma prune_append: "prune (xs @ ys) c = prune xs c @ prune ys c"
  by (simp add: prune_def)

lemma globalFails_Allow:
  "prune (globalFails (snd (Allow k now l))) (now - Hour) = prune (globalFails l) (now - Hour)"
  by (auto simp: Allow_def Let_def prune_prune split: option.split)

lemma globalFails_Failure:
  "globalFails (snd (Failure k now l)) = prune (globalFails l) (now - Hour) @ [now]"
  by (auto simp: Failure_def Let_def)

lemma Allow_allowed_count:
  "Allow k now l = ((w, True), l') \<Longrightarrow>
   int (length (prune (globalFails l) (now - Hour))) < GlobalPerHour l"
  by (auto simp: Allow_def Let_def split: option.splits if_splits)

lemma Allow_cfg_eq:
  assumes "Allow k now l = (r, l')"
  shows "GlobalPerHour l' = GlobalPerHour l"
  using Allow_cfg(4) [of k now l] assms by simp

lemma attempt_global:
  assumes "attempt key now ok l = (r, l')"
  shows "GlobalPerHour l' = GlobalPerHour l"
    and "prune (globalFails l') (now - Hour) =
         prune (globalFails l) (now - Hour) @ (if r = Some False then [now] else [])"
    and "r = Some False \<Longrightarrow>
         int (length (prune (globalFails l) (now - Hour))) < GlobalPerHour l"
proof -
  obtain w b l1 where A: "Allow key now l = ((w, b), l1)" by (metis surj_pair)
  have p: "prune (globalFails l1) (now - Hour) = prune (globalFails l) (now - Hour)"
    using globalFails_Allow [of key now l] A by simp
  have 1: "now - Hour < now" by (simp add: duration_defs)
  show "GlobalPerHour l' = GlobalPerHour l" using assms A Allow_cfg_eq [OF A]
    by (cases b) (auto simp: attempt_def)
  show "prune (globalFails l') (now - Hour) =
         prune (globalFails l) (now - Hour) @ (if r = Some False then [now] else [])"
    using assms A p 1
    by (cases b) (auto simp: attempt_def globalFails_Failure prune_append prune_prune
        prune_def [of "[now]"])
  show "int (length (prune (globalFails l) (now - Hour))) < GlobalPerHour l" if "r = Some False"
    using assms A that by (cases b) (auto simp: attempt_def dest: Allow_allowed_count)
qed

fun after_attempts :: "(time \<times> string \<times> bool) list \<Rightarrow> Limiter \<Rightarrow> Limiter" where
  "after_attempts [] l = l"
| "after_attempts ((now, key, ok) # as) l = after_attempts as (snd (attempt key now ok l))"

lemma after_attempts_snoc:
  "after_attempts (as @ [(now, key, ok)]) l = snd (attempt key now ok (after_attempts as l))"
  by (induction as l rule: after_attempts.induct) auto

lemma failed_checks_snoc:
  "failed_checks (as @ [(now, key, ok)]) l = failed_checks as l @
     (if fst (attempt key now ok (after_attempts as l)) = Some False then [now] else [])"
  by (induction as l rule: failed_checks.induct) (auto split: prod.split)

lemma failed_checks_invariant:
  assumes "sorted (map fst as)" "globalFails l = []"
  shows "GlobalPerHour (after_attempts as l) = GlobalPerHour l \<and>
    (\<forall>t. (\<forall>a \<in> set as. fst a \<le> t) \<longrightarrow>
        prune (globalFails (after_attempts as l)) (t - Hour) = prune (failed_checks as l) (t - Hour)) \<and>
    (0 \<le> GlobalPerHour l \<longrightarrow> (\<forall>c. int (length (filter (\<lambda>t. c < t \<and> t \<le> c + Hour) (failed_checks as l)))
        \<le> GlobalPerHour l))"
  using assms
proof (induction as rule: rev_induct)
  case (snoc a as)
  obtain now key ok where a: "a = (now, key, ok)" by (metis surj_pair)
  let ?m = "after_attempts as l" and ?fs = "failed_checks as l"
  obtain r l' where at: "attempt key now ok ?m = (r, l')" by (metis surj_pair)
  note g = attempt_global [OF at]
  have IH: "GlobalPerHour ?m = GlobalPerHour l"
    "prune (globalFails ?m) (now - Hour) = prune ?fs (now - Hour)"
    "\<And>c. 0 \<le> GlobalPerHour l \<Longrightarrow>
       int (length (filter (\<lambda>t. c < t \<and> t \<le> c + Hour) ?fs)) \<le> GlobalPerHour l"
    using snoc a by (auto simp: sorted_append)
  have fs: "failed_checks (as @ [a]) l = ?fs @ (if r = Some False then [now] else [])"
    by (simp add: a failed_checks_snoc at)
  have l': "after_attempts (as @ [a]) l = l'" by (simp add: a after_attempts_snoc at)
  have "prune (globalFails l') (t - Hour) = prune (failed_checks (as @ [a]) l) (t - Hour)"
    if "\<forall>a' \<in> set (as @ [a]). fst a' \<le> t" for t
  proof -
    have le: "now - Hour \<le> t - Hour" using that a by simp
    have "prune (globalFails l') (now - Hour) = prune (failed_checks (as @ [a]) l) (now - Hour)"
      using g(2) IH(2) by (auto simp: fs prune_append prune_def [of "[now]"] duration_defs)
    from arg_cong [OF this, of "\<lambda>ts. prune ts (t - Hour)"] show ?thesis
      by (simp add: prune_prune [OF le])
  qed
  moreover have "int (length (filter (\<lambda>t. c < t \<and> t \<le> c + Hour) (failed_checks (as @ [a]) l)))
      \<le> GlobalPerHour l" if "0 \<le> GlobalPerHour l" for c
  proof (cases "r = Some False \<and> now \<le> c + Hour")
    case True
    have "filter (\<lambda>t. c < t \<and> t \<le> c + Hour) ?fs =
          filter (\<lambda>t. c < t \<and> t \<le> c + Hour) (prune ?fs (now - Hour))"
      using True unfolding prune_def filter_filter by (intro filter_cong) auto
    then have "length (filter (\<lambda>t. c < t \<and> t \<le> c + Hour) ?fs) \<le> length (prune ?fs (now - Hour))"
      by simp
    with g(3) True IH(1,2) show ?thesis by (simp add: fs)
  next
    case False
    with IH(3) [OF that, of c] show ?thesis by (auto simp: fs)
  qed
  ultimately show ?case using g(1) IH(1) l' by simp
qed (simp add: prune_def)

text \<open>
  The credential-stuffing guard: however login attempts are spread over keys, if they are
  made one after the other, then in no window of one hour do more than \<open>GlobalPerHour\<close> (20)
  of them get a password checked and fail.
\<close>

theorem failures_per_hour:
  assumes "sorted (map fst as)"
  shows "length (filter (\<lambda>t. c < t \<and> t \<le> c + Hour) (failed_checks as NewLimiter)) \<le> 20"
  using failed_checks_invariant [OF assms, of NewLimiter] by (simp add: NewLimiter_def)

text \<open>
  The lockout computed with 64-bit machine arithmetic, as a closed form on unbounded
  integers: no doubling ever wraps, whatever the base and the strike count. From the second
  strike on the value is the shifted base, saturating at \<open>maxLockout\<close>.
\<close>

theorem escalatedLockout64_exact:
  "sint (escalatedLockout64 base strikes) =
     (if strikes \<le> 1 \<or> sint base \<le> 0 then sint base
      else if sint base \<le> maxLockout then min (sint base * 2 ^ nat (strikes - 1)) maxLockout
      else maxLockout)"
proof (cases "strikes \<le> 1 \<or> sint base \<le> 0")
  case False
  then have loop: "sint (escalatedLockout64 base strikes) =
      escalate_loop (nat (strikes - 1)) (sint base)"
    by (simp add: escalatedLockout64_def escalate_loop64_sint)
  show ?thesis
  proof (cases "sint base \<le> maxLockout")
    case True
    with False loop show ?thesis by (simp add: escalate_loop_eq)
  next
    case big: False
    obtain n where "nat (strikes - 1) = Suc n" using False by (cases "nat (strikes - 1)") auto
    moreover have "maxLockout div 2 \<le> sint base"
      using big by (simp add: maxLockout_def duration_defs)
    ultimately show ?thesis using False loop big by simp
  qed
qed (simp add: escalatedLockout64_def)

section \<open>Bounded memory\<close>

definition has_entry :: "Limiter \<Rightarrow> string \<Rightarrow> bool" where
  "has_entry l k \<longleftrightarrow> fails l k \<noteq> None \<or> lockedUntil l k \<noteq> None \<or> lockStrikes l k \<noteq> None \<or>
     lastFailure l k \<noteq> None"

lemma lim_inv_lock_recent:
  assumes "lim_inv t l" "lockedUntil l k = Some u" "now < u" "lastFailure l k = Some f"
  shows "now - f < strikeDecay"
proof -
  obtain s t0 where s: "lockStrikes l k = Some s" "t0 \<le> f" "u = t0 + escalatedLockout (Lockout l) s"
    using lim_inv_lockD [OF assms(1,2)] assms(4) by auto
  have "escalatedLockout (Lockout l) s \<le> maxLockout"
    using escalatedLockout_bounds(2) lim_inv_strikesD [OF assms(1) s(1)] lim_inv_cfgD [OF assms(1)]
    by (simp add: cfg_ok_def)
  moreover have "maxLockout < strikeDecay" by (simp add: limiter_consts duration_defs)
  ultimately show ?thesis using s assms(3) by simp
qed

text \<open>
  Bounded memory: whenever the clean-up really runs, every key that keeps an entry in any
  of the four maps had a failure less than \<open>strikeDecay\<close> (a week) ago, so a key that is no
  longer attacked leaves nothing behind.
\<close>

theorem clean_up_forgets:
  assumes "lim_inv t l"
    and "\<forall>p. lastPrune l = Some p \<longrightarrow> pruneInterval \<le> now - p"
    and "has_entry (pruneStaleLocked l now) k"
  shows "\<exists>f. lastFailure l k = Some f \<and> now - f < strikeDecay"
proof -
  let ?l' = "pruneStaleLocked l now"
  have runs: "\<not> (case lastPrune l of None \<Rightarrow> False | Some p \<Rightarrow> now - p < pruneInterval)"
    using assms(2) by (auto split: option.split)
  have inv': "lim_inv t ?l'" using assms(1) by (rule lim_inv_pruneStaleLocked)
  obtain f where f: "lastFailure ?l' k = Some f"
    using assms(3) inv' unfolding has_entry_def lim_inv_def key_inv_def by blast
  then have old: "lastFailure l k = Some f"
    and stay: "(\<exists>u. lockedUntil l k = Some u \<and> now < u) \<or>
      (\<exists>ts. fails l k = Some ts \<and> prune ts (now - FailWindow l) \<noteq> []) \<or> now - f < strikeDecay"
    using runs by (auto simp: pruneStaleLocked_def Let_def prune_windows_Some)
  have "now - f < strikeDecay"
    if ts: "fails l k = Some ts" "prune ts (now - FailWindow l) \<noteq> []" for ts
  proof -
    obtain x where "x \<in> set ts" "now - FailWindow l < x"
      using ts(2) by (auto simp: prune_def filter_empty_conv)
    moreover have "x \<le> f" using lim_inv_failsD [OF assms(1) ts(1)] old \<open>x \<in> set ts\<close> by auto
    ultimately show ?thesis using lim_inv_cfgD [OF assms(1)] by (simp add: cfg_ok_def)
  qed
  with stay old lim_inv_lock_recent [OF assms(1)] show ?thesis by blast
qed

section \<open>Witnesses\<close>

text \<open>Five failures of one key, a second apart: the fifth locks it for 15 minutes.\<close>

definition ex_limiter :: Limiter where
  "ex_limiter = lim_run (map (\<lambda>i. (int i * Second, OpFailure ''ip'')) [0..<4]) NewLimiter"

lemma ex_limiter_inv: "lim_inv (3 * Second) ex_limiter"
  using lim_inv_run [OF lim_inv_New, of "map (\<lambda>i. (int i * Second, OpFailure ''ip'')) [0..<4]" 0]
  by (simp add: ex_limiter_def Second_def upt_rec)

lemma ex_limiter_trips:
  "Failure ''ip'' (4 * Second) ex_limiter =
     ((True, 15 * Minute), snd (Failure ''ip'' (4 * Second) ex_limiter))"
proof -
  have "fst (Failure ''ip'' (4 * Second) ex_limiter) = (True, 15 * Minute)" by code_simp
  then show ?thesis by (simp add: prod_eq_iff)
qed

theorem lock_holds_witness:
  "\<exists>wait. Allow ''ip'' (14 * Minute)
     (lim_run [(5 * Second, OpAllow ''ip''), (6 * Second, OpSuccess ''other'')]
        (snd (Failure ''ip'' (4 * Second) ex_limiter))) =
     ((wait, False), lim_run [(5 * Second, OpAllow ''ip''), (6 * Second, OpSuccess ''other'')]
        (snd (Failure ''ip'' (4 * Second) ex_limiter))) \<and>
     4 * Second + 15 * Minute - 14 * Minute \<le> wait"
  by (rule lock_holds [OF ex_limiter_inv _ ex_limiter_trips]) (auto simp: duration_defs)

theorem failures_per_hour_witness:
  "length (filter (\<lambda>t. 0 < t \<and> t \<le> 0 + Hour)
     (failed_checks (map (\<lambda>i. (int i * Minute, ''ip'', False)) [0..<3]) NewLimiter)) \<le> 20"
  by (rule failures_per_hour) (simp add: duration_defs upt_rec)

theorem clean_up_forgets_witness:
  "\<exists>f. lastFailure ex_limiter ''ip'' = Some f \<and> 2 * Minute - f < strikeDecay"
proof (rule clean_up_forgets [OF ex_limiter_inv])
  have "lastPrune ex_limiter = Some 0" by code_simp
  then show "\<forall>p. lastPrune ex_limiter = Some p \<longrightarrow> pruneInterval \<le> 2 * Minute - p"
    by (simp add: pruneInterval_def duration_defs)
  show "has_entry (pruneStaleLocked ex_limiter (2 * Minute)) ''ip''" by code_simp
qed

end
