(* ===== verification/HttpAuth.thy ===== *)
theory HttpAuth
  imports HttpGuards Limiter
begin

text \<open>
  The authentication handlers of the web server, \<open>src/internal/httpapi/auth.go\<close>: first-run setup,
  login, logout, change of the password, and the views of sessions and events. They put the login
  limiter in front of the authentication service and translate its errors to replies.

  A handler acts on the limiter and the database together. The body arrives decoded, \<open>None\<close> when
  it is not exactly one JSON object. Each reading of the clock is a field of \<open>web_env\<close>, named by
  what reads it.
\<close>

section \<open>State and replies\<close>

record web_state =
  ws_lim :: Limiter
  ws_db :: "auth_tables db"

record web_env =
  we_allow :: time
  we_failure :: time
  we_event :: time
  we_auth :: time
  we_session :: time
  we_guard :: time
  we_salt :: "string option"
  we_token :: "string option"

record web_config =
  wc_auth :: auth_env
  wc_parse_ip :: "string \<Rightarrow> nat list option"
  wc_trusted :: "IPNet list"
  wc_parse_url :: "string \<Rightarrow> URL option"
  wc_origins :: "string list"

text \<open>\<open>wr_cookie\<close> is the session cookie that the reply sets; the empty text clears it.\<close>

record web_reply =
  wr_status :: nat
  wr_code :: string
  wr_cookie :: "string option"
  wr_retry :: "int option"

definition error_reply :: "nat \<Rightarrow> string \<Rightarrow> web_reply" where
  "error_reply status code = \<lparr>wr_status = status, wr_code = code, wr_cookie = None, wr_retry = None\<rparr>"

definition ok_reply :: "nat \<Rightarrow> string option \<Rightarrow> web_reply" where
  "ok_reply status c = \<lparr>wr_status = status, wr_code = [], wr_cookie = c, wr_retry = None\<rparr>"

definition rateLimited :: "duration \<Rightarrow> web_reply" where
  "rateLimited retryAfter = \<lparr>wr_status = 429, wr_code = ''rate_limited'', wr_cookie = None,
     wr_retry = Some (seconds retryAfter + 1)\<rparr>"

type_synonym web_handler = "web_state \<Rightarrow> web_reply \<times> web_state"

section \<open>Parts\<close>

definition web_ip :: "web_config \<Rightarrow> http_request \<Rightarrow> string" where
  "web_ip W r = clientIP (wc_parse_ip W) r (wc_trusted W)"

definition limiter_key :: "string \<Rightarrow> string \<Rightarrow> string" where
  "limiter_key kind ip = kind @ CHR '':'' # ip"

definition record_event :: "web_env \<Rightarrow> http_request \<Rightarrow> string \<Rightarrow> string \<Rightarrow> string \<Rightarrow> web_state \<Rightarrow> web_state" where
  "record_event E r event ip detail s =
     s\<lparr>ws_db := snd (RecordAuthEvent (we_event E) event ip (truncatedUserAgent r) detail (ws_db s))\<rparr>"

definition lockout_detail :: "duration \<Rightarrow> string" where
  "lockout_detail lock = ''retry_after='' @ int_text (seconds lock + 1) @ ''s''"

text \<open>A failure counts, and the one that trips the lock is audited.\<close>

definition count_failure :: "web_env \<Rightarrow> http_request \<Rightarrow> string \<Rightarrow> string \<Rightarrow> web_state \<Rightarrow> web_state" where
  "count_failure E r key ip s =
    (case Failure key (we_failure E) (ws_lim s) of
       ((tripped, lock), l) \<Rightarrow>
         (if tripped then record_event E r ''lockout'' ip (lockout_detail lock) (s\<lparr>ws_lim := l\<rparr>)
          else s\<lparr>ws_lim := l\<rparr>))"

definition recordLoginFailure :: "web_env \<Rightarrow> http_request \<Rightarrow> string \<Rightarrow> string \<Rightarrow> web_state \<Rightarrow> web_state" where
  "recordLoginFailure E r ip reason s =
     record_event E r ''login_fail'' ip reason (count_failure E r (limiter_key ''login'' ip) ip s)"

text \<open>An error of the revocation is logged and dropped.\<close>

definition revokeRequestSession :: "web_config \<Rightarrow> http_request \<Rightarrow> web_state \<Rightarrow> web_state" where
  "revokeRequestSession W r s =
    (case cookie r sessionCookieName of None \<Rightarrow> s
     | Some token \<Rightarrow> if token = [] then s
        else s\<lparr>ws_db := snd (Revoke (env_H (wc_auth W)) token (ws_db s))\<rparr>)"

section \<open>Handlers\<close>

definition handleAuthStatus :: "web_config \<Rightarrow> web_env \<Rightarrow> http_request \<Rightarrow> web_state
    \<Rightarrow> (web_reply + Status \<times> Session option) \<times> web_state" where
  "handleAuthStatus W E r s =
    (case GetStatus (env_svc (wc_auth W)) (ws_db s) of
       (Inl _, d) \<Rightarrow> (Inl (error_reply 500 ''internal_error''), s\<lparr>ws_db := d\<rparr>)
     | (Inr st, d) \<Rightarrow>
        (case sessionFromRequest (env_H (wc_auth W)) r (Some (env_svc (wc_auth W))) (we_auth E) d of
           (sess, d') \<Rightarrow> (Inr (st, sess), s\<lparr>ws_db := d'\<rparr>)))"

definition handleAuthSetup :: "web_config \<Rightarrow> web_env \<Rightarrow> http_request \<Rightarrow> string option \<Rightarrow> web_handler" where
  "handleAuthSetup W E r body s =
    (case body of None \<Rightarrow> (error_reply 400 ''bad_request'', s)
     | Some password \<Rightarrow>
        (let ip = web_ip W r; A = wc_auth W; s1 = revokeRequestSession W r s in
         case Setup (env_H A) (env_IDKey A) (env_svc A) (we_salt E) (we_token E) (we_auth E) (we_session E) password ip
             (truncatedUserAgent r) (ws_db s1) of
           (Inl e, d) \<Rightarrow>
             ((case e of ErrEnvManaged \<Rightarrow> error_reply 403 ''auth_env_managed''
               | ErrAlreadyInitialized \<Rightarrow> error_reply 409 ''already_initialized''
               | ErrWeakPassword _ \<Rightarrow> error_reply 400 ''weak_password''
               | _ \<Rightarrow> error_reply 500 ''internal_error''), s1\<lparr>ws_db := d\<rparr>)
         | (Inr token, d) \<Rightarrow> (ok_reply 201 (Some token), record_event E r ''setup'' ip [] (s1\<lparr>ws_db := d\<rparr>))))"

definition handleAuthLogin :: "web_config \<Rightarrow> web_env \<Rightarrow> http_request \<Rightarrow> string option \<Rightarrow> web_handler" where
  "handleAuthLogin W E r body s =
    (let ip = web_ip W r; A = wc_auth W; key = limiter_key ''login'' ip in
     case Allow key (we_allow E) (ws_lim s) of
       ((retryAfter, False), l) \<Rightarrow> (rateLimited retryAfter, s\<lparr>ws_lim := l\<rparr>)
     | ((retryAfter, True), l) \<Rightarrow>
        (let s1 = s\<lparr>ws_lim := l\<rparr> in
         case body of None \<Rightarrow> (error_reply 400 ''bad_request'', s1)
         | Some password \<Rightarrow>
            (case Login (env_H A) (env_IDKey A) (env_svc A) (we_token E) (we_session E) password ip
                (truncatedUserAgent r) (ws_db s1) of
               (Inl e, d) \<Rightarrow>
                 (case e of
                    ErrNotInitialized \<Rightarrow> (error_reply 401 ''invalid_credentials'',
                      recordLoginFailure E r ip ''not_initialized'' (s1\<lparr>ws_db := d\<rparr>))
                  | ErrInvalidCredentials \<Rightarrow> (error_reply 401 ''invalid_credentials'',
                      recordLoginFailure E r ip ''invalid_credentials'' (s1\<lparr>ws_db := d\<rparr>))
                  | _ \<Rightarrow> (error_reply 500 ''internal_error'', s1\<lparr>ws_db := d\<rparr>))
             | (Inr token, d) \<Rightarrow>
                 (ok_reply 200 (Some token),
                  revokeRequestSession W r (record_event E r ''login_ok'' ip []
                    (s1\<lparr>ws_db := d, ws_lim := Success key (ws_lim s1)\<rparr>))))))"

definition handleAuthLogout :: "web_config \<Rightarrow> web_env \<Rightarrow> http_request \<Rightarrow> web_handler" where
  "handleAuthLogout W E r s =
    (ok_reply 200 (Some []), record_event E r ''logout'' (web_ip W r) [] (revokeRequestSession W r s))"

definition handleAuthPassword :: "web_config \<Rightarrow> web_env \<Rightarrow> http_request \<Rightarrow> (string \<times> string) option \<Rightarrow> web_handler" where
  "handleAuthPassword W E r body s =
    (let ip = web_ip W r; A = wc_auth W; key = limiter_key ''password'' ip in
     case Allow key (we_allow E) (ws_lim s) of
       ((retryAfter, False), l) \<Rightarrow> (rateLimited retryAfter, s\<lparr>ws_lim := l\<rparr>)
     | ((retryAfter, True), l) \<Rightarrow>
        (let s1 = s\<lparr>ws_lim := l\<rparr> in
         case body of None \<Rightarrow> (error_reply 400 ''bad_request'', s1)
         | Some (current, new) \<Rightarrow>
            (let token = (case cookie r sessionCookieName of None \<Rightarrow> [] | Some t \<Rightarrow> t) in
             case ChangePassword (env_H A) (env_IDKey A) (env_svc A) (we_salt E) (we_auth E) token current new (ws_db s1) of
               (Inl e, d) \<Rightarrow>
                 (case e of
                    ErrEnvManaged \<Rightarrow> (error_reply 403 ''auth_env_managed'', s1\<lparr>ws_db := d\<rparr>)
                  | ErrInvalidCredentials \<Rightarrow> (error_reply 401 ''invalid_credentials'',
                      count_failure E r key ip (s1\<lparr>ws_db := d\<rparr>))
                  | ErrWeakPassword _ \<Rightarrow> (error_reply 400 ''weak_password'', s1\<lparr>ws_db := d\<rparr>)
                  | ErrNotInitialized \<Rightarrow> (error_reply 409 ''not_initialized'', s1\<lparr>ws_db := d\<rparr>)
                  | _ \<Rightarrow> (error_reply 500 ''internal_error'', s1\<lparr>ws_db := d\<rparr>))
             | (Inr _, d) \<Rightarrow>
                 (ok_reply 200 None, record_event E r ''password_change'' ip []
                    (s1\<lparr>ws_db := d, ws_lim := Success key (ws_lim s1)\<rparr>)))))"

definition handleAuthSessions :: "web_config \<Rightarrow> http_request \<Rightarrow> web_state \<Rightarrow> (web_reply + SessionList) \<times> web_state" where
  "handleAuthSessions W r s =
    (let current = (case cookie r sessionCookieName of None \<Rightarrow> [] | Some t \<Rightarrow> t) in
     case ListSessions (env_H (wc_auth W)) current (ws_db s) of
       (Inl _, d) \<Rightarrow> (Inl (error_reply 500 ''internal_error''), s\<lparr>ws_db := d\<rparr>)
     | (Inr l, d) \<Rightarrow> (Inr l, s\<lparr>ws_db := d\<rparr>))"

definition handleAuthSessionRevoke :: "web_config \<Rightarrow> web_env \<Rightarrow> http_request \<Rightarrow> string \<Rightarrow> web_handler" where
  "handleAuthSessionRevoke W E r pre s =
    (if length pre > 64 then (error_reply 400 ''bad_request'', s)
     else (case RevokeByIDPrefix (env_dialect (wc_auth W)) pre (ws_db s) of
        (Inl e, d) \<Rightarrow>
          ((case e of ErrSessionNotFound \<Rightarrow> error_reply 404 ''not_found'' | _ \<Rightarrow> error_reply 500 ''internal_error''),
           s\<lparr>ws_db := d\<rparr>)
      | (Inr _, d) \<Rightarrow> (ok_reply 200 None, record_event E r ''session_revoke'' (web_ip W r) pre (s\<lparr>ws_db := d\<rparr>))))"

text \<open>The limit of the event view, from its query parameter.\<close>

definition events_limit :: "int \<Rightarrow> int" where
  "events_limit limit = (let l = (if limit \<le> 0 then 100 else limit) in if l > 500 then 500 else l)"

definition handleAuthEvents :: "int \<Rightarrow> web_state \<Rightarrow> (web_reply + AuthEvent list) \<times> web_state" where
  "handleAuthEvents limit s =
    (case ListAuthEvents (events_limit limit) (ws_db s) of
       (Inl _, d) \<Rightarrow> (Inl (error_reply 500 ''internal_error''), s\<lparr>ws_db := d\<rparr>)
     | (Inr es, d) \<Rightarrow> (Inr es, s\<lparr>ws_db := d\<rparr>))"

section \<open>Routes\<close>

text \<open>The state-changing routes of \<open>/api/auth\<close>; all but setup and login need a session.\<close>

datatype auth_call = CallSetup "string option" | CallLogin "string option" | CallLogout
  | CallPassword "(string \<times> string) option" | CallRevoke string

definition with_session :: "web_config \<Rightarrow> web_env \<Rightarrow> http_request \<Rightarrow> web_handler \<Rightarrow> web_handler" where
  "with_session W E r h s =
    (case SessionAuth (env_H (wc_auth W)) (wc_parse_url W) (Some (env_svc (wc_auth W))) (wc_origins W) (we_guard E) r
        (ws_db s) of
       (Reject status code, d) \<Rightarrow> (error_reply status code, s\<lparr>ws_db := d\<rparr>)
     | (Admit _, d) \<Rightarrow> h (s\<lparr>ws_db := d\<rparr>))"

fun serve_auth :: "web_config \<Rightarrow> web_env \<Rightarrow> http_request \<Rightarrow> auth_call \<Rightarrow> web_handler" where
  "serve_auth W E r (CallSetup body) = handleAuthSetup W E r body"
| "serve_auth W E r (CallLogin body) = handleAuthLogin W E r body"
| "serve_auth W E r CallLogout = with_session W E r (handleAuthLogout W E r)"
| "serve_auth W E r (CallPassword body) = with_session W E r (handleAuthPassword W E r body)"
| "serve_auth W E r (CallRevoke pre) = with_session W E r (handleAuthSessionRevoke W E r pre)"

section \<open>What a call does to the limiter\<close>

lemma ws_lim_record_event [simp]: "ws_lim (record_event E r ev ip detail s) = ws_lim s"
  by (simp add: record_event_def)

lemma ws_lim_revokeRequestSession [simp]: "ws_lim (revokeRequestSession W r s) = ws_lim s"
  by (simp add: revokeRequestSession_def split: option.split)

lemma ws_lim_count_failure [simp]: "ws_lim (count_failure E r key ip s) = snd (Failure key (we_failure E) (ws_lim s))"
  by (auto simp: count_failure_def split: prod.split)

lemma ws_lim_recordLoginFailure [simp]:
  "ws_lim (recordLoginFailure E r ip reason s) = snd (Failure (limiter_key ''login'' ip) (we_failure E) (ws_lim s))"
  by (simp add: recordLoginFailure_def)

lemmas reply_defs = error_reply_def ok_reply_def rateLimited_def

text \<open>A reply that says the password was wrong.\<close>

definition wrong_password :: "web_reply \<Rightarrow> bool" where
  "wrong_password rep \<longleftrightarrow> wr_code rep = ''invalid_credentials''"

text \<open>The four things a call can do to the limiter.\<close>

definition limiter_effect :: "web_env \<Rightarrow> Limiter \<Rightarrow> bool \<Rightarrow> Limiter \<Rightarrow> bool" where
  "limiter_effect E l wrong l' \<longleftrightarrow>
     \<not> wrong \<and> l' = l \<or>
     (\<exists>key res l1. Allow key (we_allow E) l = (res, l1) \<and>
        (\<not> wrong \<and> (l' = l1 \<or> l' = Success key l1) \<or>
         wrong \<and> snd res \<and> l' = snd (Failure key (we_failure E) l1)))"

lemma limiter_effect_skip: "\<not> wrong \<Longrightarrow> limiter_effect E l wrong l"
  by (simp add: limiter_effect_def)

lemma limiter_effect_checked:
  assumes "Allow key (we_allow E) l = (res, l1)"
    and "\<not> wrong \<and> (l' = l1 \<or> l' = Success key l1) \<or> wrong \<and> snd res \<and> l' = snd (Failure key (we_failure E) l1)"
  shows "limiter_effect E l wrong l'"
  using assms unfolding limiter_effect_def by blast

lemma Setup_effect:
  assumes "handleAuthSetup W E r body s = (rep, s')"
  shows "limiter_effect E (ws_lim s) (wrong_password rep) (ws_lim s')"
proof (rule limiter_effect_skip [THEN back_subst [of "limiter_effect E (ws_lim s) (wrong_password rep)"]])
  show "\<not> wrong_password rep" "ws_lim s = ws_lim s'" using assms
    by (auto simp: handleAuthSetup_def Let_def wrong_password_def reply_defs
        split: option.splits prod.splits sum.splits auth_error.splits)
qed

lemma Login_effect:
  assumes "handleAuthLogin W E r body s = (rep, s')"
  shows "limiter_effect E (ws_lim s) (wrong_password rep) (ws_lim s')"
proof -
  let ?key = "limiter_key ''login'' (web_ip W r)"
  obtain wait ok l where A: "Allow ?key (we_allow E) (ws_lim s) = ((wait, ok), l)" by (metis surj_pair)
  show ?thesis
  proof (rule limiter_effect_checked [OF A])
    show "\<not> wrong_password rep \<and> (ws_lim s' = l \<or> ws_lim s' = Success ?key l) \<or>
        wrong_password rep \<and> snd (wait, ok) \<and> ws_lim s' = snd (Failure ?key (we_failure E) l)"
      using assms A
      by (cases ok) (auto simp: handleAuthLogin_def Let_def wrong_password_def reply_defs
        split: option.splits prod.splits sum.splits auth_error.splits)
  qed
qed

lemma Password_effect:
  assumes "handleAuthPassword W E r body s = (rep, s')"
  shows "limiter_effect E (ws_lim s) (wrong_password rep) (ws_lim s')"
proof -
  let ?key = "limiter_key ''password'' (web_ip W r)"
  obtain wait ok l where A: "Allow ?key (we_allow E) (ws_lim s) = ((wait, ok), l)" by (metis surj_pair)
  show ?thesis
  proof (rule limiter_effect_checked [OF A])
    show "\<not> wrong_password rep \<and> (ws_lim s' = l \<or> ws_lim s' = Success ?key l) \<or>
        wrong_password rep \<and> snd (wait, ok) \<and> ws_lim s' = snd (Failure ?key (we_failure E) l)"
      using assms A
      by (cases ok) (auto simp: handleAuthPassword_def Let_def wrong_password_def reply_defs
        split: option.splits prod.splits sum.splits auth_error.splits)
  qed
qed

lemma Logout_effect:
  assumes "handleAuthLogout W E r s = (rep, s')"
  shows "limiter_effect E (ws_lim s) (wrong_password rep) (ws_lim s')"
  using assms by (auto simp: handleAuthLogout_def wrong_password_def reply_defs intro: limiter_effect_skip)

lemma Revoke_effect:
  assumes "handleAuthSessionRevoke W E r pre s = (rep, s')"
  shows "limiter_effect E (ws_lim s) (wrong_password rep) (ws_lim s')"
  using assms by (auto simp: handleAuthSessionRevoke_def wrong_password_def reply_defs intro: limiter_effect_skip
      split: if_splits prod.splits sum.splits auth_error.splits)

lemma SessionAuth_code:
  "SessionAuth H parse svc origins now r d = (Reject status code, d') \<Longrightarrow>
     code \<in> {''unauthorized'', ''origin_not_allowed'', ''csrf_header_required''}"
  by (auto simp: SessionAuth_def csrf_checks_def split: prod.splits option.splits if_splits)

lemma with_session_effect:
  assumes h: "\<And>s rep s'. h s = (rep, s') \<Longrightarrow> limiter_effect E (ws_lim s) (wrong_password rep) (ws_lim s')"
    and run: "with_session W E r h s = (rep, s')"
  shows "limiter_effect E (ws_lim s) (wrong_password rep) (ws_lim s')"
proof -
  obtain g d where G: "SessionAuth (env_H (wc_auth W)) (wc_parse_url W) (Some (env_svc (wc_auth W))) (wc_origins W)
      (we_guard E) r (ws_db s) = (g, d)" by (metis surj_pair)
  show ?thesis
  proof (cases g)
    case (Reject status code)
    with run G SessionAuth_code [of _ _ _ _ _ _ _ status code d] show ?thesis
      by (force simp: with_session_def wrong_password_def error_reply_def intro: limiter_effect_skip)
  next
    case (Admit u)
    with run G h [of "s\<lparr>ws_db := d\<rparr>"] show ?thesis by (simp add: with_session_def)
  qed
qed

lemma serve_auth_effect:
  "serve_auth W E r call s = (rep, s') \<Longrightarrow> limiter_effect E (ws_lim s) (wrong_password rep) (ws_lim s')"
  by (cases call) (auto intro: Setup_effect Login_effect with_session_effect Logout_effect Password_effect
      Revoke_effect)

section \<open>Guesses per hour\<close>

type_synonym web_event = "web_env \<times> http_request \<times> auth_call"

fun serve_run :: "web_config \<Rightarrow> web_event list \<Rightarrow> web_state \<Rightarrow> web_reply list \<times> web_state" where
  "serve_run W [] s = ([], s)"
| "serve_run W ((E, r, call) # es) s =
    (case serve_auth W E r call s of (rep, s1) \<Rightarrow>
      (case serve_run W es s1 of (reps, s2) \<Rightarrow> (rep # reps, s2)))"

text \<open>The readings of the clock at which a wrong password was counted.\<close>

definition wrong_guesses :: "web_event list \<Rightarrow> web_reply list \<Rightarrow> time list" where
  "wrong_guesses es reps = map (\<lambda>(e, _). we_failure (fst e)) (filter (\<lambda>(_, rep). wrong_password rep) (zip es reps))"

text \<open>The calls come one after the other, on a clock that does not go back.\<close>

fun clock_ok :: "time \<Rightarrow> web_event list \<Rightarrow> bool" where
  "clock_ok now [] \<longleftrightarrow> True"
| "clock_ok now (e # es) \<longleftrightarrow> now \<le> we_allow (fst e) \<and> we_allow (fst e) \<le> we_failure (fst e) \<and>
     clock_ok (we_failure (fst e)) es"

definition in_window :: "time \<Rightarrow> time list \<Rightarrow> nat" where
  "in_window c ts = length (filter (\<lambda>t. c < t \<and> t \<le> c + Hour) ts)"

definition guess_inv :: "time list \<Rightarrow> time \<Rightarrow> Limiter \<Rightarrow> bool" where
  "guess_inv F now l \<longleftrightarrow> GlobalPerHour l = 20 \<and> (\<forall>f \<in> set F. f \<le> now) \<and>
     (\<forall>t \<ge> now. prune (globalFails l) (t - Hour) = prune F (t - Hour)) \<and> (\<forall>c. in_window c F \<le> 20)"

lemma prune_agree:
  assumes "prune a c = prune b c" "c \<le> c'"
  shows "prune a c' = prune b c'"
  using prune_prune [OF assms(2), of a] prune_prune [OF assms(2), of b] assms(1) by simp

lemma guess_inv_later: "guess_inv F now l \<Longrightarrow> now \<le> t \<Longrightarrow> guess_inv F t l"
  by (force simp: guess_inv_def)

lemma guess_inv_Allow:
  assumes "guess_inv F now l" "now \<le> t" "Allow key t l = (res, l')"
  shows "guess_inv F t l'"
proof -
  have "prune (globalFails l') (t - Hour) = prune (globalFails l) (t - Hour)"
    using globalFails_Allow [of key t l] assms(3) by simp
  with assms have "prune (globalFails l') (t - Hour) = prune F (t - Hour)" by (simp add: guess_inv_def)
  then have "prune (globalFails l') (t' - Hour) = prune F (t' - Hour)" if "t \<le> t'" for t'
    by (rule prune_agree) (use that in simp)
  with assms Allow_cfg_eq [OF assms(3)] show ?thesis by (force simp: guess_inv_def)
qed

lemma guess_inv_Success: "guess_inv F now l \<Longrightarrow> guess_inv F now (Success key l)"
  by (simp add: guess_inv_def Success_def)

lemma guess_inv_Failure:
  assumes inv: "guess_inv F now l" and few: "length (prune F (now - Hour)) < 20" and le: "now \<le> t"
  shows "guess_inv (F @ [t]) t (snd (Failure key t l))"
proof -
  have cfg: "GlobalPerHour (snd (Failure key t l)) = 20" using inv by (simp add: guess_inv_def Failure_cfg)
  have 1: "t - Hour < t" by (simp add: duration_defs)
  have "prune (globalFails (snd (Failure key t l))) (t - Hour) = prune (F @ [t]) (t - Hour)"
    using inv le 1 by (simp add: globalFails_Failure prune_append prune_prune guess_inv_def)
  then have agree: "prune (globalFails (snd (Failure key t l))) (t' - Hour) = prune (F @ [t]) (t' - Hour)"
    if "t \<le> t'" for t' by (rule prune_agree) (use that in simp)
  have "in_window c (F @ [t]) \<le> 20" for c
  proof (cases "t \<le> c + Hour")
    case True
    have "filter (\<lambda>x. c < x \<and> x \<le> c + Hour) F = filter (\<lambda>x. c < x \<and> x \<le> c + Hour) (prune F (now - Hour))"
      using True le unfolding prune_def filter_filter by (intro filter_cong) auto
    then have "length (filter (\<lambda>x. c < x \<and> x \<le> c + Hour) F) \<le> length (prune F (now - Hour))" by simp
    with few show ?thesis by (simp add: in_window_def)
  qed (use inv in \<open>simp add: guess_inv_def in_window_def\<close>)
  with inv le cfg agree show ?thesis by (force simp: guess_inv_def)
qed

lemma guess_inv_step:
  assumes inv: "guess_inv F now l" and eff: "limiter_effect E l wrong l'"
    and clock: "now \<le> we_allow E" "we_allow E \<le> we_failure E"
  shows "guess_inv (F @ (if wrong then [we_failure E] else [])) (we_failure E) l'"
proof (cases "\<not> wrong \<and> l' = l")
  case True
  with inv clock show ?thesis by (auto intro: guess_inv_later)
next
  case False
  with eff obtain key res l1 where A: "Allow key (we_allow E) l = (res, l1)"
    and l': "\<not> wrong \<and> (l' = l1 \<or> l' = Success key l1) \<or>
         wrong \<and> snd res \<and> l' = snd (Failure key (we_failure E) l1)"
    unfolding limiter_effect_def by blast
  have l1: "guess_inv F (we_allow E) l1" using inv clock(1) A by (rule guess_inv_Allow)
  show ?thesis
  proof (cases wrong)
    case True
    with l' A have "Allow key (we_allow E) l = ((fst res, True), l1)" by (cases res) auto
    from Allow_allowed_count [OF this] inv clock(1) have "length (prune F (we_allow E - Hour)) < 20"
      by (simp add: guess_inv_def)
    with guess_inv_Failure [OF l1 _ clock(2)] True l' show ?thesis by simp
  next
    case right: False
    with l1 l' clock(2) show ?thesis by (auto intro: guess_inv_later guess_inv_Success)
  qed
qed

lemma guess_inv_run:
  assumes "guess_inv F now (ws_lim s)" "clock_ok now es" "serve_run W es s = (reps, s')"
  shows "in_window c (F @ wrong_guesses es reps) \<le> 20"
  using assms
proof (induction es arbitrary: F now s reps)
  case Nil
  then show ?case by (simp add: guess_inv_def wrong_guesses_def)
next
  case (Cons e es)
  obtain E r call where e: "e = (E, r, call)" by (metis surj_pair)
  obtain rep s1 reps' where s1: "serve_auth W E r call s = (rep, s1)" and rest: "serve_run W es s1 = (reps', s')"
    and reps: "reps = rep # reps'"
    using Cons.prems(3) by (auto simp: e split: prod.splits)
  have step: "guess_inv (F @ (if wrong_password rep then [we_failure E] else [])) (we_failure E) (ws_lim s1)"
    using guess_inv_step [OF Cons.prems(1) serve_auth_effect [OF s1]] Cons.prems(2) by (simp add: e)
  have "wrong_guesses (e # es) reps = (if wrong_password rep then [we_failure E] else []) @ wrong_guesses es reps'"
    by (simp add: wrong_guesses_def reps e)
  with Cons.IH [OF step _ rest] Cons.prems(2) show ?case by (simp add: e)
qed


section \<open>Witness\<close>

definition ex_web :: web_config where
  "ex_web = \<lparr>wc_auth = ex_env, wc_parse_ip = (\<lambda>_. None), wc_trusted = [], wc_parse_url = (\<lambda>_. None),
     wc_origins = []\<rparr>"

definition ex_call :: "time \<Rightarrow> web_event" where
  "ex_call t = (\<lparr>we_allow = t, we_failure = t + 1, we_event = t + 1, we_auth = t, we_session = t, we_guard = t,
       we_salt = None, we_token = None\<rparr>,
     \<lparr>hr_Method = ''POST'', hr_Path = ''/api/auth/login'', hr_Headers = [], hr_Cookies = [], hr_Host = [],
       hr_TLS = False, hr_RemoteAddr = ''10.0.0.1:4711''\<rparr>,
     CallLogin (Some ''secret-word-9''))"

text \<open>Two wrong guesses against the database of the service's example, a second apart.\<close>

definition ex_web_state :: web_state where
  "ex_web_state = \<lparr>ws_lim = NewLimiter, ws_db = ex_db\<rparr>"


end
