(* ===== verification/Calendar.thy ===== *)
theory Calendar
  imports GoText
begin

text \<open>
  The parts of Go's \<open>time\<close> package that turn a point in time into text: the civil date of a day
  number in the proleptic Gregorian calendar, the weekday, and the layouts \<open>2006-01-02\<close> and
  \<open>time.RFC3339Nano\<close> in UTC, which drops the trailing zeros of the fraction.
\<close>

definition day_of :: "time \<Rightarrow> int" where "day_of t = t div (24 * Hour)"

record civil =
  year :: int
  month :: int
  day :: int

text \<open>The date of day \<open>z\<close>, counted from 1970-01-01; eras of 400 years begin on 1 March.\<close>

definition civil_of_day :: "int \<Rightarrow> civil" where
  "civil_of_day z0 =
    (let z = z0 + 719468;
         era = z div 146097;
         doe = z mod 146097;
         yoe = (doe - doe div 1460 + doe div 36524 - doe div 146096) div 365;
         doy = doe - (365 * yoe + yoe div 4 - yoe div 100);
         mp = (5 * doy + 2) div 153;
         d = doy - (153 * mp + 2) div 5 + 1;
         m = (if mp < 10 then mp + 3 else mp - 9)
     in \<lparr>year = yoe + era * 400 + (if m \<le> 2 then 1 else 0), month = m, day = d\<rparr>)"

text \<open>Sunday is 0, as in \<open>time.Weekday\<close>.\<close>

definition weekday :: "int \<Rightarrow> int" where "weekday z = (z + 4) mod 7"

fun pad :: "nat \<Rightarrow> string \<Rightarrow> string" where
  "pad w s = replicate (w - length s) CHR ''0'' @ s"

definition pad_int :: "nat \<Rightarrow> int \<Rightarrow> string" where "pad_int w n = pad w (itoa (nat n))"

definition format_date :: "int \<Rightarrow> string" where
  "format_date z = (let c = civil_of_day z in
     pad_int 4 (year c) @ ''-'' @ pad_int 2 (month c) @ ''-'' @ pad_int 2 (day c))"

definition format_fraction :: "int \<Rightarrow> string" where
  "format_fraction ns = (let ds = rev (dropWhile (\<lambda>c. c = CHR ''0'') (rev (pad_int 9 ns)))
     in if ds = [] then [] else CHR ''.'' # ds)"

definition format_time :: "time \<Rightarrow> string" where
  "format_time t = (let s = unix t mod 86400 in
     format_date (day_of t) @ ''T'' @ pad_int 2 (s div 3600) @ '':'' @ pad_int 2 (s div 60 mod 60) @ '':'' @
     pad_int 2 (s mod 60) @ format_fraction (t mod Second) @ ''Z'')"

lemma format_time_examples:
  "format_time 0 = ''1970-01-01T00:00:00Z''"
  "format_time (951782400 * Second + 120000000) = ''2000-02-29T00:00:00.12Z''"
  "weekday 0 = 4"
  by code_simp+

lemma day_of_mono: "s \<le> t \<Longrightarrow> day_of s \<le> day_of t"
  by (simp add: day_of_def duration_defs zdiv_mono1)

end
