(* ===== verification/AuditTrail.thy ===== *)
theory AuditTrail
  imports Registry Calendar
begin

text \<open>
  Audit events, \<open>src/internal/audit\<close>: the attempt and result events of a tool with recursive
  redaction of secrets, and the execution events whose status and category come from closed
  sets. The clock reading is an argument; the nil maps of \<open>Event\<close> are \<open>None\<close>.
\<close>

section \<open>Events and redaction (audit.go)\<close>

definition RedactedValue :: string where "RedactedValue = ''[REDACTED]''"
definition StatusAttempt :: string where "StatusAttempt = ''attempt''"
definition StatusResult :: string where "StatusResult = ''result''"

definition shouldRedactKey :: "string \<Rightarrow> string list \<Rightarrow> bool" where
  "shouldRedactKey key keys = list_ex (\<lambda>k. let r = ToLower (TrimSpace k) in
     r \<noteq> [] \<and> Contains (ToLower key) r) keys"

fun redactValue :: "string list \<Rightarrow> json \<Rightarrow> json"
  and RedactMapping :: "string list \<Rightarrow> args \<Rightarrow> args"
  and redactItems :: "string list \<Rightarrow> json list \<Rightarrow> json list" where
  "redactValue keys (JObj kvs) = JObj (RedactMapping keys kvs)"
| "redactValue keys (JArr xs) = JArr (redactItems keys xs)"
| "redactValue keys JNull = JNull"
| "redactValue keys (JBool b) = JBool b"
| "redactValue keys (JNum n) = JNum n"
| "redactValue keys (JStr s) = JStr s"
| "RedactMapping keys [] = []"
| "RedactMapping keys ((k, v) # kvs) =
     (k, if shouldRedactKey k keys then JStr RedactedValue else redactValue keys v) #
     RedactMapping keys kvs"
| "redactItems keys [] = []"
| "redactItems keys (x # xs) = redactValue keys x # redactItems keys xs"

record Event =
  evt_RequestID :: string
  evt_Caller :: string
  evt_Tool :: string
  evt_EventType :: string
  evt_Status :: string
  evt_Scope :: string
  evt_Permission :: string
  evt_RiskLevel :: string
  evt_RedactedArgs :: "args option"
  evt_ResultSummary :: "args option"
  evt_CreatedAt :: string

record EventInput =
  ein_RequestID :: string
  ein_Caller :: string
  ein_Tool :: ToolDefinition
  ein_Args :: "args option"
  ein_Result :: "args option"

definition newEvent :: "time \<Rightarrow> EventInput \<Rightarrow> string \<Rightarrow> Event" where
  "newEvent now input status = (let tool = ein_Tool input; cap = tool_Capability tool in
     \<lparr>evt_RequestID = ein_RequestID input, evt_Caller = ein_Caller input, evt_Tool = tool_Name tool,
      evt_EventType = aud_EventType (tool_Audit tool), evt_Status = status, evt_Scope = cap_Scope cap,
      evt_Permission = cap_Permission cap, evt_RiskLevel = cap_RiskLevel cap,
      evt_RedactedArgs = None, evt_ResultSummary = None, evt_CreatedAt = format_time now\<rparr>)"

text \<open>\<open>RedactMapping\<close> of a nil map is an empty map.\<close>

definition redact_map :: "args option \<Rightarrow> string list \<Rightarrow> args" where
  "redact_map input keys = (case input of None \<Rightarrow> [] | Some kvs \<Rightarrow> RedactMapping keys kvs)"

definition NewAttemptEvent :: "time \<Rightarrow> EventInput \<Rightarrow> Event" where
  "NewAttemptEvent now input = (newEvent now input StatusAttempt)\<lparr>evt_RedactedArgs :=
     Some (redact_map (ein_Args input) (aud_RedactArgs (tool_Audit (ein_Tool input))))\<rparr>"

definition NewResultEvent :: "time \<Rightarrow> EventInput \<Rightarrow> Event" where
  "NewResultEvent now input = (newEvent now input StatusResult)\<lparr>evt_ResultSummary :=
     Some (redact_map (ein_Result input) (aud_RedactArgs (tool_Audit (ein_Tool input))))\<rparr>"

section \<open>Execution outcomes (execution.go)\<close>

definition ExecutionOK :: string where "ExecutionOK = ''ok''"
definition ExecutionErrored :: string where "ExecutionErrored = ''errored''"
definition ExecutionPanicRecovered :: string where "ExecutionPanicRecovered = ''panic_recovered''"
definition CategoryValidation :: string where "CategoryValidation = ''validation''"
definition CategoryDenied :: string where "CategoryDenied = ''denied''"
definition CategoryNotImplemented :: string where "CategoryNotImplemented = ''not_implemented''"
definition CategoryInternal :: string where "CategoryInternal = ''internal''"

lemmas execution_consts = ExecutionOK_def ExecutionErrored_def ExecutionPanicRecovered_def
  CategoryValidation_def CategoryDenied_def CategoryNotImplemented_def CategoryInternal_def

definition status_IsValid :: "string \<Rightarrow> bool" where
  "status_IsValid s \<longleftrightarrow> s = ExecutionOK \<or> s = ExecutionErrored \<or> s = ExecutionPanicRecovered"

definition category_IsValid :: "string \<Rightarrow> bool" where
  "category_IsValid c \<longleftrightarrow> c = CategoryValidation \<or> c = CategoryDenied \<or>
     c = CategoryNotImplemented \<or> c = CategoryInternal"

record ExecutionEvent =
  exe_Tool :: string
  exe_RequestID :: string
  exe_Caller :: string
  exe_Status :: string
  exe_ErrorCategory :: string
  exe_DurationMs :: int
  exe_RecordedAt :: string

record ExecutionEventInput =
  xin_Tool :: string
  xin_RequestID :: string
  xin_Caller :: string
  xin_Status :: string
  xin_ErrorCategory :: string
  xin_Duration :: duration

text \<open>\<open>Duration.Milliseconds\<close> truncates towards zero.\<close>

definition milliseconds :: "duration \<Rightarrow> int" where
  "milliseconds d = (if d < 0 then - ((- d) div 1000000) else d div 1000000)"

definition NewExecutionEvent :: "time \<Rightarrow> ExecutionEventInput \<Rightarrow> ExecutionEvent" where
  "NewExecutionEvent now input =
    (let status = (if status_IsValid (xin_Status input) then xin_Status input else ExecutionErrored);
         category = (if status = ExecutionOK then []
           else if category_IsValid (xin_ErrorCategory input) then xin_ErrorCategory input
           else CategoryInternal);
         ms = milliseconds (xin_Duration input)
     in \<lparr>exe_Tool = xin_Tool input, exe_RequestID = xin_RequestID input, exe_Caller = xin_Caller input,
         exe_Status = status, exe_ErrorCategory = category,
         exe_DurationMs = (if ms < 0 then 0 else ms), exe_RecordedAt = format_time now\<rparr>)"

section \<open>Redaction is complete, and changes nothing else\<close>

text \<open>At every depth, a value under a secret key is the placeholder.\<close>

fun clean :: "string list \<Rightarrow> json \<Rightarrow> bool"
  and clean_pairs :: "string list \<Rightarrow> args \<Rightarrow> bool"
  and clean_items :: "string list \<Rightarrow> json list \<Rightarrow> bool" where
  "clean keys (JObj kvs) = clean_pairs keys kvs"
| "clean keys (JArr xs) = clean_items keys xs"
| "clean keys JNull = True"
| "clean keys (JBool b) = True"
| "clean keys (JNum n) = True"
| "clean keys (JStr s) = True"
| "clean_pairs keys [] = True"
| "clean_pairs keys ((k, v) # kvs) =
     ((if shouldRedactKey k keys then v = JStr RedactedValue else clean keys v) \<and> clean_pairs keys kvs)"
| "clean_items keys [] = True"
| "clean_items keys (x # xs) = (clean keys x \<and> clean_items keys xs)"

lemma redact_clean:
  "clean keys (redactValue keys v)"
  "clean_pairs keys (RedactMapping keys kvs)"
  "clean_items keys (redactItems keys xs)"
  by (induction keys v and keys kvs and keys xs rule: redactValue_RedactMapping_redactItems.induct) auto

lemma redact_id_of_clean:
  "clean keys v \<Longrightarrow> redactValue keys v = v"
  "clean_pairs keys kvs \<Longrightarrow> RedactMapping keys kvs = kvs"
  "clean_items keys xs \<Longrightarrow> redactItems keys xs = xs"
  by (induction keys v and keys kvs and keys xs rule: redactValue_RedactMapping_redactItems.induct)
    (auto split: if_splits)

lemma RedactMapping_keys: "map fst (RedactMapping keys kvs) = map fst kvs"
  by (induction kvs) auto

text \<open>
  C35. The audit trail cannot leak: in the arguments of an attempt event and the summary of a
  result event, at every depth of objects and arrays, the value under a key that contains one of
  the tool's redaction words (in any case) is the placeholder. The keys themselves and data that
  hold no secret key are recorded unchanged, so redacting twice is redacting once.
\<close>

theorem audit_events_redacted:
  "\<exists>a b. evt_RedactedArgs (NewAttemptEvent now i) = Some a \<and>
     evt_ResultSummary (NewResultEvent now i) = Some b \<and>
     clean (aud_RedactArgs (tool_Audit (ein_Tool i))) (JObj a) \<and>
     clean (aud_RedactArgs (tool_Audit (ein_Tool i))) (JObj b) \<and>
     map fst a = (case ein_Args i of None \<Rightarrow> [] | Some kvs \<Rightarrow> map fst kvs) \<and>
     RedactMapping (aud_RedactArgs (tool_Audit (ein_Tool i))) a = a \<and>
     (case ein_Args i of None \<Rightarrow> True | Some kvs \<Rightarrow>
        clean_pairs (aud_RedactArgs (tool_Audit (ein_Tool i))) kvs = (a = kvs))"
proof -
  let ?ks = "aud_RedactArgs (tool_Audit (ein_Tool i))"
  have "clean_pairs ?ks kvs = (RedactMapping ?ks kvs = kvs)" for kvs
    using redact_clean(2) [of ?ks kvs] redact_id_of_clean(2) [of ?ks kvs] by auto
  then show ?thesis
    by (auto simp: NewAttemptEvent_def NewResultEvent_def redact_map_def redact_clean
        RedactMapping_keys redact_id_of_clean(2) [OF redact_clean(2)] split: option.split)
qed

text \<open>
  Execution events are closed: whatever status, category and duration the caller passes, the
  event's status is one of three words, its category is empty exactly for success and one of four
  words otherwise, and its duration is not negative. No error text can reach the store this way.
\<close>

theorem execution_event_closed:
  "let e = NewExecutionEvent now i in
     exe_Status e \<in> {''ok'', ''errored'', ''panic_recovered''} \<and>
     (exe_Status e = ''ok'' \<longleftrightarrow> xin_Status i = ''ok'') \<and>
     (exe_ErrorCategory e = [] \<longleftrightarrow> exe_Status e = ''ok'') \<and>
     exe_ErrorCategory e \<in> {[], ''validation'', ''denied'', ''not_implemented'', ''internal''} \<and>
     0 \<le> exe_DurationMs e"
  by (auto simp: NewExecutionEvent_def Let_def status_IsValid_def category_IsValid_def
      execution_consts)

end
