(* ===== verification/Confirmations.thy ===== *)
theory Confirmations
  imports AuditTrail Encoding
begin

text \<open>
  One-time confirmations, \<open>src/internal/confirmations/confirmation.go\<close>, and the two repositories
  of \<open>src/internal/repository/agentstate\<close>, which keep confirmations and audit events.

  The digest \<open>SHA\<close> and the keyed digest \<open>MAC\<close> are arguments (a record, so that one value names
  both), as are random bytes and clock readings. Times go to the database and back through
  RFC 3339 text with nanoseconds, which loses nothing; confirmation rows keep the time itself,
  audit rows keep the text, because their listing is ordered by it.
\<close>

section \<open>The manager\<close>

record crypto =
  SHA :: "string \<Rightarrow> string"
  MAC :: "string \<Rightarrow> string \<Rightarrow> string"

datatype conf_error =
    ErrEmptySecret | ErrConfirmationNotRequired | ErrPayloadHash | ErrToolMismatch
  | ErrPayloadMismatch | ErrTokenMismatch | ErrAlreadyUsed | ErrExpired
  | ErrInvalidConfirmationLifetime | ErrConfRandom

record Manager =
  mgr_secret :: string

record ConfRecord =
  rec_Tool :: string
  rec_TokenHash :: string
  rec_PayloadHash :: string
  rec_ExpiresAt :: time
  rec_UsedAt :: "time option"
  rec_CreatedAt :: time

record IssueInput =
  iss_Tool :: ToolDefinition
  iss_Payload :: "args option"
  iss_TTL :: duration

record VerifyInput =
  ver_Record :: ConfRecord
  ver_Token :: string
  ver_Tool :: ToolDefinition
  ver_Payload :: "args option"

record IssuedConfirmation =
  isd_Token :: string
  isd_Record :: ConfRecord

definition NewManager :: "string \<Rightarrow> conf_error + Manager" where
  "NewManager secret = (if secret = [] then Inl ErrEmptySecret else Inr \<lparr>mgr_secret = secret\<rparr>)"

text \<open>\<open>json.Marshal\<close> of a decoded object cannot fail; a nil map is encoded as \<open>null\<close>.\<close>

definition payload_json :: "args option \<Rightarrow> json" where
  "payload_json p = (case p of None \<Rightarrow> JNull | Some kvs \<Rightarrow> JObj kvs)"

definition PayloadHash :: "crypto \<Rightarrow> args option \<Rightarrow> string" where
  "PayloadHash C payload = HexEncode (SHA C (Marshal (payload_json payload)))"

definition TokenHash :: "crypto \<Rightarrow> Manager \<Rightarrow> string \<Rightarrow> string" where
  "TokenHash C m token = HexEncode (MAC C (mgr_secret m) token)"

definition requiresConfirmation :: "ToolDefinition \<Rightarrow> bool" where
  "requiresConfirmation tool \<longleftrightarrow> pol_Required (tool_Confirmation tool) \<and>
     cap_Permission (tool_Capability tool) = PermissionRequiresConfirmation"

definition conf_generateToken :: "string option \<Rightarrow> conf_error + string" where
  "conf_generateToken rnd = (case rnd of None \<Rightarrow> Inl ErrConfRandom
     | Some buf \<Rightarrow> Inr (B64Encode url_alphabet buf))"

definition Issue :: "crypto \<Rightarrow> Manager \<Rightarrow> string option \<Rightarrow> time \<Rightarrow> IssueInput
    \<Rightarrow> conf_error + IssuedConfirmation" where
  "Issue C m rnd now input =
    (if \<not> requiresConfirmation (iss_Tool input) then Inl ErrConfirmationNotRequired
     else
      (let ttl = (case pol_TokenTTLSeconds (tool_Confirmation (iss_Tool input)) of
             Some s \<Rightarrow> if iss_TTL input = 0 then s * Second else iss_TTL input
           | None \<Rightarrow> iss_TTL input)
       in if ttl \<le> 0 then Inl ErrInvalidConfirmationLifetime
          else (case conf_generateToken rnd of Inl e \<Rightarrow> Inl e
            | Inr token \<Rightarrow> Inr \<lparr>isd_Token = token, isd_Record =
                \<lparr>rec_Tool = tool_Name (iss_Tool input), rec_TokenHash = TokenHash C m token,
                 rec_PayloadHash = PayloadHash C (iss_Payload input), rec_ExpiresAt = now + ttl,
                 rec_UsedAt = None, rec_CreatedAt = now\<rparr>\<rparr>)))"

definition Verify :: "crypto \<Rightarrow> Manager \<Rightarrow> time \<Rightarrow> VerifyInput \<Rightarrow> conf_error + unit" where
  "Verify C m now input =
    (let r = ver_Record input in
     if rec_Tool r \<noteq> tool_Name (ver_Tool input) then Inl ErrToolMismatch
     else if rec_PayloadHash r \<noteq> PayloadHash C (ver_Payload input) then Inl ErrPayloadMismatch
     else if rec_TokenHash r \<noteq> TokenHash C m (ver_Token input) then Inl ErrTokenMismatch
     else if rec_UsedAt r \<noteq> None then Inl ErrAlreadyUsed
     else if \<not> now < rec_ExpiresAt r then Inl ErrExpired
     else Inr ())"

section \<open>The repositories\<close>

record audit_row =
  row_event :: Event
  row_args_json :: string
  row_summary_json :: string

text \<open>Ids are assigned in order of insertion, from 1.\<close>

record agent_tables =
  conf_rows :: "(int \<times> ConfRecord) list"
  conf_next :: int
  audit_rows :: "(int \<times> audit_row) list"
  audit_next :: int

type_synonym 'a agent_sql = "(agent_tables db, db_error, 'a) proc"

definition conf_Save :: "ConfRecord \<Rightarrow> int agent_sql" where
  "conf_Save r = stmt (\<lambda>t. (conf_next t,
     t\<lparr>conf_rows := conf_rows t @ [(conf_next t, r)], conf_next := conf_next t + 1\<rparr>))"

definition conf_Get :: "int \<Rightarrow> ConfRecord option agent_sql" where
  "conf_Get i = stmt (\<lambda>t. (map_option snd (select1 (\<lambda>r. fst r = i) (conf_rows t)), t))"

text \<open>The compare-and-set: \<open>UPDATE ... WHERE id = ? AND used_at IS NULL\<close>, then the row count.\<close>

definition unused_row :: "int \<Rightarrow> int \<times> ConfRecord \<Rightarrow> bool" where
  "unused_row i r \<longleftrightarrow> fst r = i \<and> rec_UsedAt (snd r) = None"

definition mark_row :: "time \<Rightarrow> int \<times> ConfRecord \<Rightarrow> int \<times> ConfRecord" where
  "mark_row usedAt r = (fst r, (snd r)\<lparr>rec_UsedAt := Some usedAt\<rparr>)"

definition MarkUsed :: "int \<Rightarrow> time \<Rightarrow> bool agent_sql" where
  "MarkUsed i usedAt = stmt (\<lambda>t. (0 < count_where (unused_row i) (conf_rows t),
     t\<lparr>conf_rows := update_where (unused_row i) (mark_row usedAt) (conf_rows t)\<rparr>))"

definition maxAuditJSON :: nat where "maxAuditJSON = 64 * 1024"

definition encodeAuditMap :: "args option \<Rightarrow> string" where
  "encodeAuditMap v =
    (let encoded = Marshal (JObj (case v of None \<Rightarrow> [] | Some kvs \<Rightarrow> kvs)) in
     if length encoded > maxAuditJSON
     then [CHR ''{'', byte 34] @ ''_truncated'' @ [byte 34] @ '':true,'' @ [byte 34] @ ''_bytes'' @
          [byte 34] @ '':'' @ itoa (length encoded) @ ''}''
     else encoded)"

definition audit_Save :: "Event \<Rightarrow> int agent_sql" where
  "audit_Save e = stmt (\<lambda>t. (audit_next t,
     t\<lparr>audit_rows := audit_rows t @ [(audit_next t, \<lparr>row_event = e,
          row_args_json = encodeAuditMap (evt_RedactedArgs e),
          row_summary_json = encodeAuditMap (evt_ResultSummary e)\<rparr>)],
       audit_next := audit_next t + 1\<rparr>))"

text \<open>Decoding a stored map; \<open>unmarshal\<close> is \<open>json.Unmarshal\<close> into \<open>any\<close>.\<close>

datatype audit_error = AuditDecode | AuditDriver

definition decodeAuditMap :: "(string \<Rightarrow> json option) \<Rightarrow> string \<Rightarrow> audit_error + args" where
  "decodeAuditMap unmarshal s =
    (if s = [] then Inr []
     else (case unmarshal s of
        Some (JObj kvs) \<Rightarrow> Inr kvs | Some JNull \<Rightarrow> Inr [] | _ \<Rightarrow> Inl AuditDecode))"

definition decode_row :: "(string \<Rightarrow> json option) \<Rightarrow> audit_row \<Rightarrow> audit_error + Event" where
  "decode_row unmarshal r =
    (case decodeAuditMap unmarshal (row_args_json r) of Inl e \<Rightarrow> Inl e
     | Inr a \<Rightarrow> (case decodeAuditMap unmarshal (row_summary_json r) of Inl e \<Rightarrow> Inl e
        | Inr b \<Rightarrow> Inr ((row_event r)\<lparr>evt_RedactedArgs := Some a, evt_ResultSummary := Some b\<rparr>)))"

definition audit_Get :: "(string \<Rightarrow> json option) \<Rightarrow> int \<Rightarrow> (agent_tables db, audit_error, Event option) proc" where
  "audit_Get unmarshal i =
    andThen (wrap (\<lambda>_. AuditDriver)
      (stmt (\<lambda>t. (map_option snd (select1 (\<lambda>r. fst r = i) (audit_rows t)), t)))) (\<lambda>row.
      case row of None \<Rightarrow> ret None
      | Some r \<Rightarrow> (case decode_row unmarshal r of Inl e \<Rightarrow> throw e | Inr e \<Rightarrow> ret (Some e)))"

fun decode_rows :: "(string \<Rightarrow> json option) \<Rightarrow> audit_row list \<Rightarrow> audit_error + Event list" where
  "decode_rows unmarshal [] = Inr []"
| "decode_rows unmarshal (r # rs) = (case decode_row unmarshal r of Inl e \<Rightarrow> Inl e
     | Inr e \<Rightarrow> (case decode_rows unmarshal rs of Inl e' \<Rightarrow> Inl e' | Inr es \<Rightarrow> Inr (e # es)))"

text \<open>
  \<open>ORDER BY created_at DESC, id DESC\<close>: the rows are kept in the order of their ids, so a stable
  ascending sort by the text, reversed, is that order.
\<close>

definition newest_rows :: "(int \<times> audit_row) list \<Rightarrow> (int \<times> audit_row) list" where
  "newest_rows rows = rev (sort_key (\<lambda>(i, r). evt_CreatedAt (row_event r)) rows)"

definition audit_List :: "(string \<Rightarrow> json option) \<Rightarrow> int \<Rightarrow> (agent_tables db, audit_error, Event list) proc" where
  "audit_List unmarshal limit =
    (if limit \<le> 0 then ret []
     else (let limit' = (if limit > 500 then 500 else limit) in
       andThen (wrap (\<lambda>_. AuditDriver)
         (stmt (\<lambda>t. (map snd (take (nat limit') (newest_rows (audit_rows t))), t)))) (\<lambda>rows.
         check (decode_rows unmarshal rows))))"

section \<open>Lemmas\<close>

lemma Verify_Inr_iff:
  "Verify C m now i = Inr u \<longleftrightarrow>
     rec_Tool (ver_Record i) = tool_Name (ver_Tool i) \<and>
     rec_PayloadHash (ver_Record i) = PayloadHash C (ver_Payload i) \<and>
     rec_TokenHash (ver_Record i) = TokenHash C m (ver_Token i) \<and>
     rec_UsedAt (ver_Record i) = None \<and> now < rec_ExpiresAt (ver_Record i)"
  by (auto simp: Verify_def Let_def)

lemma Issue_InrD:
  "Issue C m rnd now i = Inr r \<Longrightarrow>
     requiresConfirmation (iss_Tool i) \<and> rec_Tool (isd_Record r) = tool_Name (iss_Tool i) \<and>
     rec_TokenHash (isd_Record r) = TokenHash C m (isd_Token r) \<and>
     rec_PayloadHash (isd_Record r) = PayloadHash C (iss_Payload i) \<and>
     rec_UsedAt (isd_Record r) = None \<and> rec_CreatedAt (isd_Record r) = now \<and>
     now < rec_ExpiresAt (isd_Record r)"
  by (auto simp: Issue_def Let_def split: if_splits option.splits sum.splits)

text \<open>A row is spent when it is gone or used; ids below the counter are never reused.\<close>

definition conf_spent :: "int \<Rightarrow> agent_tables \<Rightarrow> bool" where
  "conf_spent i t \<longleftrightarrow> i < conf_next t \<and> (\<forall>r \<in> set (conf_rows t). \<not> unused_row i r)"

definition conf_inv :: "agent_tables \<Rightarrow> bool" where
  "conf_inv t \<longleftrightarrow> distinct (map fst (conf_rows t)) \<and> (\<forall>r \<in> set (conf_rows t). fst r < conf_next t)"

lemma unused_mark [simp]: "\<not> unused_row i (mark_row at r)"
  by (simp add: unused_row_def mark_row_def)

lemma fst_mark [simp]: "fst (mark_row at r) = fst r"
  by (simp add: mark_row_def)

lemma mark_spends: "r \<in> set (update_where (unused_row i) (mark_row at) rows) \<Longrightarrow> \<not> unused_row i r"
  unfolding set_update_where by (metis unused_mark)

lemma mark_fst:
  "r \<in> set (update_where (unused_row i) (mark_row at) rows) \<Longrightarrow> \<exists>q \<in> set rows. fst q = fst r"
  unfolding set_update_where by (metis fst_mark)

lemma mark_unused_before:
  "r \<in> set (update_where (unused_row j) (mark_row at) rows) \<Longrightarrow> unused_row i r \<Longrightarrow> r \<in> set rows"
  unfolding set_update_where by (metis unused_mark)

lemma MarkUsed_true:
  assumes "MarkUsed i at d = (Inr True, d')" "conf_inv (tables d)"
  shows "\<not> conf_spent i (tables d) \<and> conf_spent i (tables d')"
proof -
  let ?rows = "conf_rows (tables d)"
  from assms(1) have d': "tables d' = (tables d)\<lparr>conf_rows := update_where (unused_row i) (mark_row at) ?rows\<rparr>"
    and n: "0 < count_where (unused_row i) ?rows"
    unfolding MarkUsed_def by (auto dest!: stmt_Inr_tables)
  from n obtain r where r: "r \<in> set ?rows" "unused_row i r" by (metis count_where_0_iff less_irrefl)
  then have "i < conf_next (tables d)" using assms(2) by (auto simp: conf_inv_def unused_row_def)
  with r d' show ?thesis by (auto simp: conf_spent_def dest: mark_spends)
qed

lemma keeps_conf_inv [keeps_intros]:
  "keeps (\<lambda>d. conf_inv (tables d)) (conf_Save r)"
  "keeps (\<lambda>d. conf_inv (tables d)) (conf_Get i)"
  "keeps (\<lambda>d. conf_inv (tables d)) (MarkUsed i at)"
  "keeps (\<lambda>d. conf_inv (tables d)) (audit_Save e)"
proof -
  show "keeps (\<lambda>d. conf_inv (tables d)) (MarkUsed i at)" unfolding MarkUsed_def
    by (rule keeps_stmt) (simp add: conf_inv_def map_key_update_where; metis mark_fst)
  show "keeps (\<lambda>d. conf_inv (tables d)) (conf_Save r)" unfolding conf_Save_def
    by (rule keeps_stmt) (force simp: conf_inv_def)
  show "keeps (\<lambda>d. conf_inv (tables d)) (conf_Get i)"
    "keeps (\<lambda>d. conf_inv (tables d)) (audit_Save e)"
    unfolding conf_Get_def audit_Save_def by (rule keeps_stmt, simp add: conf_inv_def)+
qed

lemma keeps_conf_spent [keeps_intros]:
  "keeps (\<lambda>d. conf_spent i (tables d)) (conf_Save r)"
  "keeps (\<lambda>d. conf_spent i (tables d)) (conf_Get j)"
  "keeps (\<lambda>d. conf_spent i (tables d)) (MarkUsed j at)"
  "keeps (\<lambda>d. conf_spent i (tables d)) (audit_Save e)"
proof -
  show "keeps (\<lambda>d. conf_spent i (tables d)) (conf_Save r)" unfolding conf_Save_def
    by (rule keeps_stmt) (auto simp: conf_spent_def unused_row_def)
  show "keeps (\<lambda>d. conf_spent i (tables d)) (MarkUsed j at)" unfolding MarkUsed_def
    by (rule keeps_stmt) (auto simp: conf_spent_def dest: mark_unused_before)
  show "keeps (\<lambda>d. conf_spent i (tables d)) (conf_Get j)"
    "keeps (\<lambda>d. conf_spent i (tables d)) (audit_Save e)"
    unfolding conf_Get_def audit_Save_def by (rule keeps_stmt, simp add: conf_spent_def)+
qed

section \<open>The audit listing\<close>

text \<open>
  The audit timeline is ordered by the text of the time stamps, and that is not the order of
  time: RFC 3339 text with nanoseconds drops trailing zeros, so an event half a second into a
  second is listed before - as if newer than - one recorded 50 milliseconds later, and an event
  on the full second before both.
\<close>

theorem audit_order_not_chronological:
  "\<exists>t1 t2 t3 e r1 r2 r3. t1 < t2 \<and> t2 < t3 \<and>
     r1 = (1, \<lparr>row_event = e\<lparr>evt_CreatedAt := format_time t1\<rparr>, row_args_json = [], row_summary_json = []\<rparr>) \<and>
     r2 = (2, \<lparr>row_event = e\<lparr>evt_CreatedAt := format_time t2\<rparr>, row_args_json = [], row_summary_json = []\<rparr>) \<and>
     r3 = (3, \<lparr>row_event = e\<lparr>evt_CreatedAt := format_time t3\<rparr>, row_args_json = [], row_summary_json = []\<rparr>) \<and>
     newest_rows [r1, r2, r3] = [r1, r2, r3]"
proof -
  define e where "e = newEvent 0 \<lparr>ein_RequestID = [], ein_Caller = [], ein_Tool = disabledBoundaryTool [] [],
     ein_Args = None, ein_Result = None\<rparr> []"
  have "newest_rows
     [(1, \<lparr>row_event = e\<lparr>evt_CreatedAt := format_time 0\<rparr>, row_args_json = [], row_summary_json = []\<rparr>),
      (2, \<lparr>row_event = e\<lparr>evt_CreatedAt := format_time 500000000\<rparr>, row_args_json = [], row_summary_json = []\<rparr>),
      (3, \<lparr>row_event = e\<lparr>evt_CreatedAt := format_time 550000000\<rparr>, row_args_json = [], row_summary_json = []\<rparr>)] =
     [(1, \<lparr>row_event = e\<lparr>evt_CreatedAt := format_time 0\<rparr>, row_args_json = [], row_summary_json = []\<rparr>),
      (2, \<lparr>row_event = e\<lparr>evt_CreatedAt := format_time 500000000\<rparr>, row_args_json = [], row_summary_json = []\<rparr>),
      (3, \<lparr>row_event = e\<lparr>evt_CreatedAt := format_time 550000000\<rparr>, row_args_json = [], row_summary_json = []\<rparr>)]"
    unfolding e_def by code_simp
  then show ?thesis
    by (intro exI [of _ "0"] exI [of _ "500000000"] exI [of _ "550000000"] exI [of _ e] exI conjI)
      (rule refl | simp)+
qed

end
