(* ===== verification/AgentOps.thy ===== *)
theory AgentOps
  imports Confirmations SingleUse
begin

text \<open>
  The confirmation workflow, \<open>src/internal/agentops/service.go\<close>: prepare, claim, and the record of
  executions, over the registry, the confirmation manager and the two repositories. A missing
  collaborator (a nil pointer, or the zero value of a repository) is \<open>None\<close> or \<open>False\<close>. Each
  reading of a clock is an argument of its own, in the order of the code.
\<close>

section \<open>The code\<close>

record AgentService =
  as_registry :: "Registry option"
  as_manager :: "Manager option"
  as_confRepo :: bool
  as_auditRepo :: bool

record PrepareConfirmationInput =
  pin_Tool :: string
  pin_Role :: string
  pin_Caller :: string
  pin_RequestID :: string
  pin_Payload :: "args option"
  pin_EnforceReviewed :: bool
  pin_TTL :: duration

record PreparedConfirmation =
  pre_ConfirmationID :: int
  pre_AuditEventID :: int
  pre_Token :: string
  pre_Tool :: string
  pre_PayloadHash :: string
  pre_CreatedAt :: time
  pre_ExpiresAt :: time

record ConsumeConfirmationInput =
  cin_Tool :: string
  cin_Role :: string
  cin_Caller :: string
  cin_RequestID :: string
  cin_ConfirmationID :: int
  cin_Token :: string
  cin_Payload :: "args option"
  cin_EnforceReviewed :: bool
  cin_ResultSummary :: "args option"

record ConsumedConfirmation =
  con_ConfirmationID :: int
  con_AuditEventID :: int
  con_Tool :: string
  con_PayloadHash :: string
  con_UsedAt :: time
  con_ExpiresAt :: time
  con_CreatedAt :: time

text \<open>An audit failure after the claim returns the consumed confirmation beside the error.\<close>

datatype ops_error =
    OpsUnknownTool | OpsToolDisabled | OpsReviewRequired | OpsScopeNotAllowed
  | OpsConfirmationNotRequired | OpsUnknownConfirmation | OpsMissingRegistry
  | OpsMissingConfirmationStore | OpsMissingAuditStore | OpsIdentityTooLong
  | OpsDenied DenyReason | OpsConf conf_error | OpsStore | OpsAuditResult ConsumedConfirmation

type_synonym 'a ops_proc = "(agent_tables db, ops_error, 'a) proc"

definition maxAgentIdentityLength :: nat where "maxAgentIdentityLength = 128"

definition requireConfirmationIssuers :: "AgentService \<Rightarrow> ops_error + unit" where
  "requireConfirmationIssuers s =
    (if as_registry s = None then Inl OpsMissingRegistry
     else if as_manager s = None then Inl (OpsConf ErrEmptySecret) else Inr ())"

definition requireConfirmationStores :: "AgentService \<Rightarrow> ops_error + unit" where
  "requireConfirmationStores s =
    (if \<not> as_confRepo s then Inl OpsMissingConfirmationStore
     else if \<not> as_auditRepo s then Inl OpsMissingAuditStore else Inr ())"

definition identityTooLong :: "string \<Rightarrow> string \<Rightarrow> bool" where
  "identityTooLong caller requestID \<longleftrightarrow>
     length caller > maxAgentIdentityLength \<or> length requestID > maxAgentIdentityLength"

fun mapDenyReason :: "DenyReason \<Rightarrow> ops_error" where
  "mapDenyReason DenyUnknownTool = OpsUnknownTool"
| "mapDenyReason DenyDisabled = OpsToolDisabled"
| "mapDenyReason DenyReviewRequired = OpsReviewRequired"
| "mapDenyReason DenyScope = OpsScopeNotAllowed"
| "mapDenyReason r = OpsDenied r"

definition authorizeGatedTool :: "AgentService \<Rightarrow> string \<Rightarrow> string \<Rightarrow> bool \<Rightarrow> ops_error + ToolDefinition" where
  "authorizeGatedTool s tool role enforceReviewed =
    (case as_registry s of None \<Rightarrow> Inl OpsMissingRegistry
     | Some registry \<Rightarrow>
        (case Lookup registry tool of None \<Rightarrow> Inl OpsUnknownTool
         | Some def \<Rightarrow>
            (let decision = Authorize registry \<lparr>req_Tool = tool, req_Role = role, req_Confirmed = True,
                   req_EnforceReviewed = enforceReviewed\<rparr>
             in if \<not> dec_Allowed decision then Inl (mapDenyReason (dec_Reason decision))
                else if cap_Permission (tool_Capability def) \<noteq> PermissionRequiresConfirmation
                then Inl OpsConfirmationNotRequired else Inr def)))"

definition manager_of :: "AgentService \<Rightarrow> Manager" where
  "manager_of s = the (as_manager s)"

definition PrepareConfirmation :: "crypto \<Rightarrow> AgentService \<Rightarrow> string option \<Rightarrow> time \<Rightarrow> time
    \<Rightarrow> PrepareConfirmationInput \<Rightarrow> PreparedConfirmation ops_proc" where
  "PrepareConfirmation C s rnd t1 t2 input =
    andThen (check (requireConfirmationIssuers s)) (\<lambda>_.
    if identityTooLong (pin_Caller input) (pin_RequestID input) then throw OpsIdentityTooLong
    else andThen (check (requireConfirmationStores s)) (\<lambda>_.
    andThen (check (authorizeGatedTool s (pin_Tool input) (pin_Role input) (pin_EnforceReviewed input))) (\<lambda>tool.
    andThen (wrap OpsConf (check (Issue C (manager_of s) rnd t1
        \<lparr>iss_Tool = tool, iss_Payload = pin_Payload input, iss_TTL = pin_TTL input\<rparr>))) (\<lambda>issued.
    andThen (wrap (\<lambda>_. OpsStore) (conf_Save (isd_Record issued))) (\<lambda>confirmationID.
    andThen (wrap (\<lambda>_. OpsStore) (audit_Save (NewAttemptEvent t2
        \<lparr>ein_RequestID = pin_RequestID input, ein_Caller = pin_Caller input, ein_Tool = tool,
         ein_Args = pin_Payload input, ein_Result = None\<rparr>))) (\<lambda>auditID.
    ret \<lparr>pre_ConfirmationID = confirmationID, pre_AuditEventID = auditID,
         pre_Token = isd_Token issued, pre_Tool = rec_Tool (isd_Record issued),
         pre_PayloadHash = rec_PayloadHash (isd_Record issued),
         pre_CreatedAt = rec_CreatedAt (isd_Record issued),
         pre_ExpiresAt = rec_ExpiresAt (isd_Record issued)\<rparr>))))))"

definition ClaimConfirmation :: "crypto \<Rightarrow> AgentService \<Rightarrow> time \<Rightarrow> time \<Rightarrow> time
    \<Rightarrow> ConsumeConfirmationInput \<Rightarrow> ConsumedConfirmation ops_proc" where
  "ClaimConfirmation C s t1 t2 t3 input =
    andThen (check (requireConfirmationIssuers s)) (\<lambda>_.
    andThen (check (requireConfirmationStores s)) (\<lambda>_.
    if identityTooLong (cin_Caller input) (cin_RequestID input) then throw OpsIdentityTooLong
    else andThen (check (authorizeGatedTool s (cin_Tool input) (cin_Role input) (cin_EnforceReviewed input))) (\<lambda>tool.
    andThen (wrap (\<lambda>_. OpsStore) (conf_Get (cin_ConfirmationID input))) (\<lambda>found.
    case found of None \<Rightarrow> throw OpsUnknownConfirmation
    | Some record \<Rightarrow>
    andThen (wrap OpsConf (check (Verify C (manager_of s) t1
        \<lparr>ver_Record = record, ver_Token = cin_Token input, ver_Tool = tool,
         ver_Payload = cin_Payload input\<rparr>))) (\<lambda>_.
    andThen (wrap (\<lambda>_. OpsStore) (MarkUsed (cin_ConfirmationID input) t2)) (\<lambda>marked.
    if \<not> marked then throw (OpsConf ErrAlreadyUsed)
    else
      (let consumed = (\<lambda>auditID. \<lparr>con_ConfirmationID = cin_ConfirmationID input, con_AuditEventID = auditID,
             con_Tool = rec_Tool record, con_PayloadHash = rec_PayloadHash record, con_UsedAt = t2,
             con_ExpiresAt = rec_ExpiresAt record, con_CreatedAt = rec_CreatedAt record\<rparr>)
       in andThen (wrap (\<lambda>_. OpsAuditResult (consumed 0)) (audit_Save (NewResultEvent t3
            \<lparr>ein_RequestID = cin_RequestID input, ein_Caller = cin_Caller input, ein_Tool = tool,
             ein_Args = None, ein_Result = cin_ResultSummary input\<rparr>))) (\<lambda>auditID.
          ret (consumed auditID)))))))))"

definition ConsumeConfirmation :: "crypto \<Rightarrow> AgentService \<Rightarrow> time \<Rightarrow> time \<Rightarrow> time
    \<Rightarrow> ConsumeConfirmationInput \<Rightarrow> ConsumedConfirmation ops_proc" where
  "ConsumeConfirmation = ClaimConfirmation"

definition execution_summary :: "ExecutionEvent \<Rightarrow> args" where
  "execution_summary event =
    [(''kind'', JStr ''execution''), (''execution_status'', JStr (exe_Status event)),
     (''duration_ms'', JNum (itoa (nat (exe_DurationMs event)))),
     (''recorded_at'', JStr (exe_RecordedAt event))] @
    (if exe_ErrorCategory event \<noteq> [] then [(''error_category'', JStr (exe_ErrorCategory event))] else [])"

definition RecordExecution :: "AgentService \<Rightarrow> ExecutionEvent \<Rightarrow> unit ops_proc" where
  "RecordExecution s event =
    (if length (exe_Caller event) > maxAgentIdentityLength \<or>
        length (exe_RequestID event) > maxAgentIdentityLength then throw OpsIdentityTooLong
     else
      (let cap = (case as_registry s of None \<Rightarrow> None
             | Some r \<Rightarrow> map_option tool_Capability (Lookup r (exe_Tool event)));
           get = (\<lambda>f. case cap of None \<Rightarrow> [] | Some c \<Rightarrow> f c)
       in andThen (wrap (\<lambda>_. OpsStore) (audit_Save
            \<lparr>evt_RequestID = exe_RequestID event, evt_Caller = exe_Caller event, evt_Tool = exe_Tool event,
             evt_EventType = ''execution'', evt_Status = StatusResult, evt_Scope = get cap_Scope,
             evt_Permission = get cap_Permission, evt_RiskLevel = get cap_RiskLevel,
             evt_RedactedArgs = None, evt_ResultSummary = Some (execution_summary event),
             evt_CreatedAt = exe_RecordedAt event\<rparr>)) (\<lambda>_. ret ())))"

section \<open>What the gate checks\<close>

lemma authorizeGatedTool_Inr:
  "authorizeGatedTool s tool role er = Inr def \<Longrightarrow>
   \<exists>r. as_registry s = Some r \<and> Lookup r tool = Some def \<and> tool_Name def = tool \<and>
     permitted def \<lparr>req_Tool = tool, req_Role = role, req_Confirmed = True, req_EnforceReviewed = er\<rparr> \<and>
     cap_Permission (tool_Capability def) = PermissionRequiresConfirmation"
  unfolding authorizeGatedTool_def Let_def
  by (auto simp: Authorize_allowed_iff dest: Lookup_SomeD split: option.splits if_splits)

lemma authorizeGatedTool_no_audit: "authorizeGatedTool s tool role er \<noteq> Inl (OpsAuditResult c)"
proof -
  have "mapDenyReason r \<noteq> OpsAuditResult c" for r by (cases r) auto
  then show ?thesis by (auto simp: authorizeGatedTool_def Let_def split: option.split)
qed

lemma conf_Get_Inr:
  "conf_Get i d = (Inr (Some r), d') \<Longrightarrow> (i, r) \<in> set (conf_rows (tables d)) \<and> tables d' = tables d"
  unfolding conf_Get_def by (drule stmt_Inr_tables) (auto dest!: sym [of "Some _"] select1_SomeD)

lemma conf_Get_tables: "conf_Get i d = (q, d') \<Longrightarrow> tables d' = tables d"
  unfolding conf_Get_def by (drule stmt_tablesD) simp

lemma audit_Save_conf: "audit_Save e d = (q, d') \<Longrightarrow> conf_rows (tables d') = conf_rows (tables d) \<and>
    conf_next (tables d') = conf_next (tables d)"
  unfolding audit_Save_def by (drule stmt_tablesD) auto

text \<open>The claim that marks the row: either it succeeds or only the audit write after it fails.\<close>

definition claimed :: "ops_error + ConsumedConfirmation \<Rightarrow> bool" where
  "claimed r \<longleftrightarrow> (\<exists>c. r = Inr c \<or> r = Inl (OpsAuditResult c))"

lemma ClaimConfirmation_claimed:
  assumes "ClaimConfirmation C s t1 t2 t3 i d = (r, d')" "claimed r"
  shows "\<exists>row reg tool d1 d2. (cin_ConfirmationID i, row) \<in> set (conf_rows (tables d)) \<and>
     as_registry s = Some reg \<and> Lookup reg (cin_Tool i) = Some tool \<and> tool_Name tool = cin_Tool i \<and>
     permitted tool \<lparr>req_Tool = cin_Tool i, req_Role = cin_Role i, req_Confirmed = True,
       req_EnforceReviewed = cin_EnforceReviewed i\<rparr> \<and>
     cap_Permission (tool_Capability tool) = PermissionRequiresConfirmation \<and>
     Verify C (manager_of s) t1 \<lparr>ver_Record = row, ver_Token = cin_Token i, ver_Tool = tool,
       ver_Payload = cin_Payload i\<rparr> = Inr () \<and>
     tables d1 = tables d \<and> MarkUsed (cin_ConfirmationID i) t2 d1 = (Inr True, d2) \<and>
     conf_rows (tables d') = conf_rows (tables d2) \<and> conf_next (tables d') = conf_next (tables d2)"
  using assms unfolding ClaimConfirmation_def Let_def
  by (auto elim!: andThenE split: if_splits option.splits simp: wrap_Inl_iff claimed_def
      dest!: authorizeGatedTool_Inr conf_Get_Inr audit_Save_conf simp: requireConfirmationIssuers_def
        requireConfirmationStores_def authorizeGatedTool_no_audit) (metis+)?

section \<open>Runs\<close>

datatype ops_call =
    OPrepare "string option" time time PrepareConfirmationInput
  | OClaim time time time ConsumeConfirmationInput
  | ORecord ExecutionEvent

datatype ops_result =
    OPrepared "ops_error + PreparedConfirmation"
  | OClaimed "ops_error + ConsumedConfirmation"
  | ORecorded "ops_error + unit"

fun ops_step :: "crypto \<Rightarrow> AgentService \<Rightarrow> ops_call \<Rightarrow> agent_tables db \<Rightarrow> ops_result \<times> agent_tables db" where
  "ops_step C s (OPrepare rnd t1 t2 i) d = map_prod OPrepared id (PrepareConfirmation C s rnd t1 t2 i d)"
| "ops_step C s (OClaim t1 t2 t3 i) d = map_prod OClaimed id (ClaimConfirmation C s t1 t2 t3 i d)"
| "ops_step C s (ORecord e) d = map_prod ORecorded id (RecordExecution s e d)"

text \<open>A call wins a confirmation when the row was claimed.\<close>

fun wins_confirmation :: "int \<Rightarrow> ops_call \<Rightarrow> ops_result \<Rightarrow> bool" where
  "wins_confirmation k (OClaim t1 t2 t3 i) (OClaimed r) \<longleftrightarrow> cin_ConfirmationID i = k \<and> claimed r"
| "wins_confirmation k _ _ \<longleftrightarrow> False"

lemma keeps_ops:
  assumes "\<And>r. keeps P (conf_Save r)" "\<And>i. keeps P (conf_Get i)"
    "\<And>i at. keeps P (MarkUsed i at)" "\<And>e. keeps P (audit_Save e)"
  shows "keeps P (PrepareConfirmation C s rnd t1 t2 pin)"
    "keeps P (ClaimConfirmation C s t1 t2 t3 cin)"
    "keeps P (RecordExecution s e)"
  unfolding PrepareConfirmation_def ClaimConfirmation_def RecordExecution_def Let_def
  by (intro keeps_intros assms)+

lemma ops_step_keeps:
  assumes "\<And>r. keeps P (conf_Save r)" "\<And>i. keeps P (conf_Get i)"
    "\<And>i at. keeps P (MarkUsed i at)" "\<And>e. keeps P (audit_Save e)"
    and "ops_step C s c d = (r, d')" "P d"
  shows "P d'"
proof -
  note k = keeps_ops [of P, OF assms(1-4)]
  have "P (snd (m d))" if "keeps P m" for m :: "'a ops_proc"
    using that assms(6) by (simp add: keeps_def)
  then have "P (snd (ops_step C s c d))" using k by (cases c) (simp_all add: keeps_def assms(6))
  then show ?thesis using assms(5) by simp
qed

interpretation ledger: single_use "ops_step C s" "\<lambda>d. conf_inv (tables d)" wins_confirmation
    "\<lambda>k d. conf_spent k (tables d)" for C s
proof (unfold_locales, goal_cases)
  case (1 d e r d')
  show ?case
    by (rule ops_step_keeps [where P = "\<lambda>d. conf_inv (tables d)", OF keeps_conf_inv 1(2) 1(1)])
next
  case (2 d k e r d')
  show ?case
    by (rule ops_step_keeps [where P = "\<lambda>d. conf_spent k (tables d)", OF keeps_conf_spent 2(3) 2(2)])
next
  case (3 d e r d' k)
  then obtain t1 t2 t3 i q where e: "e = OClaim t1 t2 t3 i" "r = OClaimed q" "cin_ConfirmationID i = k"
      "claimed q" by (cases "(k, e, r)" rule: wins_confirmation.cases) auto
  then have c: "ClaimConfirmation C s t1 t2 t3 i d = (q, d')"
    using 3(2) by (cases "ClaimConfirmation C s t1 t2 t3 i d") auto
  from ClaimConfirmation_claimed [OF c e(4)] obtain d1 d2 where
    "tables d1 = tables d" "MarkUsed k t2 d1 = (Inr True, d2)"
    "conf_rows (tables d') = conf_rows (tables d2)" "conf_next (tables d') = conf_next (tables d2)"
    using e(3) by blast
  with MarkUsed_true [of k t2 d1 d2] 3(1) show ?case by (simp add: conf_spent_def)
qed


text \<open>
  What a claim proves: when a claim gets through, the store held an unused, unexpired record
  under this id for exactly this tool, this payload (by digest) and this token (by keyed digest),
  the tool needs a confirmation and the caller's role may use it; afterwards the record is used.
\<close>

theorem claim_sound:
  assumes "ClaimConfirmation C s t1 t2 t3 i d = (r, d')" "claimed r" "conf_inv (tables d)"
  shows "\<exists>row reg tool. (cin_ConfirmationID i, row) \<in> set (conf_rows (tables d)) \<and>
     rec_UsedAt row = None \<and> t1 < rec_ExpiresAt row \<and> rec_Tool row = cin_Tool i \<and>
     rec_PayloadHash row = PayloadHash C (cin_Payload i) \<and>
     rec_TokenHash row = TokenHash C (manager_of s) (cin_Token i) \<and>
     as_registry s = Some reg \<and> Lookup reg (cin_Tool i) = Some tool \<and>
     cap_Permission (tool_Capability tool) = PermissionRequiresConfirmation \<and>
     RoleAllowsScope (cin_Role i) (cap_Scope (tool_Capability tool)) \<and> \<not> is_disabled tool \<and>
     conf_spent (cin_ConfirmationID i) (tables d')"
proof -
  from ClaimConfirmation_claimed [OF assms(1,2)] obtain row reg tool d1 d2 where
    *: "(cin_ConfirmationID i, row) \<in> set (conf_rows (tables d))" "as_registry s = Some reg"
     "Lookup reg (cin_Tool i) = Some tool" "tool_Name tool = cin_Tool i"
     "permitted tool \<lparr>req_Tool = cin_Tool i, req_Role = cin_Role i, req_Confirmed = True,
       req_EnforceReviewed = cin_EnforceReviewed i\<rparr>"
     "cap_Permission (tool_Capability tool) = PermissionRequiresConfirmation"
    and ver: "Verify C (manager_of s) t1 \<lparr>ver_Record = row, ver_Token = cin_Token i, ver_Tool = tool,
       ver_Payload = cin_Payload i\<rparr> = Inr ()"
    and mark: "tables d1 = tables d" "MarkUsed (cin_ConfirmationID i) t2 d1 = (Inr True, d2)"
     "conf_rows (tables d') = conf_rows (tables d2)" "conf_next (tables d') = conf_next (tables d2)"
    by blast
  have "conf_spent (cin_ConfirmationID i) (tables d')"
    using MarkUsed_true [OF mark(2)] mark assms(3) by (simp add: conf_spent_def)
  with * ver show ?thesis
    by (intro exI [of _ row] exI [of _ reg] exI [of _ tool])
      (simp add: Verify_Inr_iff permitted_def)
qed

section \<open>Prepare, then claim\<close>

lemma PrepareConfirmation_InrD:
  assumes "PrepareConfirmation C s rnd t1 t2 p d = (Inr q, d1)"
  shows "\<exists>tool rec. requireConfirmationIssuers s = Inr () \<and> requireConfirmationStores s = Inr () \<and>
     authorizeGatedTool s (pin_Tool p) (pin_Role p) (pin_EnforceReviewed p) = Inr tool \<and>
     rec_Tool rec = tool_Name tool \<and> rec_TokenHash rec = TokenHash C (manager_of s) (pre_Token q) \<and>
     rec_PayloadHash rec = PayloadHash C (pin_Payload p) \<and> rec_UsedAt rec = None \<and>
     rec_ExpiresAt rec = pre_ExpiresAt q \<and> t1 < pre_ExpiresAt q \<and>
     conf_rows (tables d1) = conf_rows (tables d) @ [(pre_ConfirmationID q, rec)] \<and>
     pre_ConfirmationID q = conf_next (tables d)"
  using assms unfolding PrepareConfirmation_def
  by (auto elim!: andThenE split: if_splits dest!: Issue_InrD audit_Save_conf
      simp: conf_Save_def dest!: stmt_Inr_tables)

lemma conf_Get_found:
  assumes "conf_rows (tables d) = rows @ [(i, r)]" "\<forall>q \<in> set rows. fst q < i" "faults d = []"
  shows "conf_Get i d = (Inr (Some r), d)"
proof -
  have "select1 (\<lambda>q. fst q = i) (rows @ [(i, r)]) = Some (i, r)"
    using assms(2) unfolding select1_def by (induction rows) auto
  then show ?thesis using assms unfolding conf_Get_def by (simp add: stmt_ok)
qed

lemma MarkUsed_found:
  assumes "conf_rows (tables d) = rows @ [(i, r)]" "\<forall>q \<in> set rows. fst q < i" "faults d = []"
    "rec_UsedAt r = None"
  shows "\<exists>d'. MarkUsed i at d = (Inr True, d') \<and> faults d' = [] \<and>
     conf_rows (tables d') = rows @ [(i, r\<lparr>rec_UsedAt := Some at\<rparr>)]"
proof -
  have "update_where (unused_row i) (mark_row at) rows = rows"
    using assms(2) unfolding update_where_def by (intro map_idI) (auto simp: unused_row_def)
  then show ?thesis using assms
    by (simp add: MarkUsed_def stmt_ok count_where_def update_where_def unused_row_def mark_row_def)
qed

lemma audit_Save_ok:
  "faults d = [] \<Longrightarrow> \<exists>i d'. audit_Save e d = (Inr i, d') \<and> faults d' = [] \<and>
     conf_rows (tables d') = conf_rows (tables d)"
  by (simp add: audit_Save_def stmt_ok)

lemma prepared_claims:
  assumes "PrepareConfirmation C s rnd t1 t2 p d = (Inr q, d1)" "conf_inv (tables d)"
    and "faults d1 = []" "t < pre_ExpiresAt q"
    and "cin_Tool i = pin_Tool p" "cin_Role i = pin_Role p" "cin_Payload i = pin_Payload p"
      "cin_EnforceReviewed i = pin_EnforceReviewed p" "cin_ConfirmationID i = pre_ConfirmationID q"
      "cin_Token i = pre_Token q" "\<not> identityTooLong (cin_Caller i) (cin_RequestID i)"
  shows "\<exists>c d2. ClaimConfirmation C s t u v i d1 = (Inr c, d2) \<and> con_Tool c = pin_Tool p \<and>
     (\<forall>t u v. fst (ClaimConfirmation C s t u v i d2) = Inl (OpsConf ErrAlreadyUsed))"
proof -
  let ?id = "pre_ConfirmationID q"
  from PrepareConfirmation_InrD [OF assms(1)] obtain tool rec where
    g: "requireConfirmationIssuers s = Inr ()" "requireConfirmationStores s = Inr ()"
    "authorizeGatedTool s (pin_Tool p) (pin_Role p) (pin_EnforceReviewed p) = Inr tool"
    and rec: "rec_Tool rec = tool_Name tool" "rec_TokenHash rec = TokenHash C (manager_of s) (pre_Token q)"
     "rec_PayloadHash rec = PayloadHash C (pin_Payload p)" "rec_UsedAt rec = None"
     "rec_ExpiresAt rec = pre_ExpiresAt q"
    and rows: "conf_rows (tables d1) = conf_rows (tables d) @ [(?id, rec)]" "?id = conf_next (tables d)"
    by blast
  have name: "tool_Name tool = pin_Tool p" using authorizeGatedTool_Inr [OF g(3)] by blast
  have less: "\<forall>r \<in> set (conf_rows (tables d)). fst r < ?id"
    using assms(2) rows(2) by (simp add: conf_inv_def)
  note get = conf_Get_found [OF rows(1) less assms(3)]
  from MarkUsed_found [OF rows(1) less assms(3) rec(4), of u] obtain d1' where
    mark: "MarkUsed ?id u d1 = (Inr True, d1')" "faults d1' = []"
      "conf_rows (tables d1') = conf_rows (tables d) @ [(?id, rec\<lparr>rec_UsedAt := Some u\<rparr>)]" by blast
  define ev where "ev = NewResultEvent v \<lparr>ein_RequestID = cin_RequestID i, ein_Caller = cin_Caller i,
    ein_Tool = tool, ein_Args = None, ein_Result = cin_ResultSummary i\<rparr>"
  from audit_Save_ok [OF mark(2), of ev] obtain a d2 where
    aud: "audit_Save ev d1' = (Inr a, d2)" "faults d2 = []" "conf_rows (tables d2) = conf_rows (tables d1')"
    by blast
  have get2: "conf_Get ?id d2 = (Inr (Some (rec\<lparr>rec_UsedAt := Some u\<rparr>)), d2)"
    using conf_Get_found [OF _ less aud(2)] aud(3) mark(3) by simp
  have "fst (ClaimConfirmation C s t u v i d1) = Inr \<lparr>con_ConfirmationID = ?id, con_AuditEventID = a,
      con_Tool = pin_Tool p, con_PayloadHash = rec_PayloadHash rec, con_UsedAt = u,
      con_ExpiresAt = rec_ExpiresAt rec, con_CreatedAt = rec_CreatedAt rec\<rparr>"
    and "snd (ClaimConfirmation C s t u v i d1) = d2"
    using g name rec assms(4-11) get mark(1) aud(1)
    by (simp_all add: ClaimConfirmation_def proc_defs Verify_def ev_def)
  moreover have "\<forall>t u v. fst (ClaimConfirmation C s t u v i d2) = Inl (OpsConf ErrAlreadyUsed)"
    using g name rec assms(4-11) get2
    by (simp add: ClaimConfirmation_def proc_defs Verify_def)
  ultimately show ?thesis by (metis ConsumedConfirmation.select_convs(3) prod.collapse)
qed


section \<open>A confirmation prepared without a payload\<close>

text \<open>
  A payload that is absent when a confirmation is prepared never matches the empty payload of
  the call it was prepared for: the first is hashed as \<open>null\<close>, the second as \<open>{}\<close>. Unless the
  digest confuses the two, the claim is refused as a payload mismatch or earlier.
\<close>

theorem absent_payload_never_claims:
  assumes "PrepareConfirmation C s rnd t1 t2 p d = (Inr q, d1)" "conf_inv (tables d)"
    and "pin_Payload p = None" "cin_Payload i = Some []" "cin_ConfirmationID i = pre_ConfirmationID q"
    and "SHA C ''null'' \<noteq> SHA C ''{}''"
  shows "\<not> claimed (fst (ClaimConfirmation C s t u v i d1))"
proof
  obtain r d2 where r: "ClaimConfirmation C s t u v i d1 = (r, d2)" by (metis surj_pair)
  assume "claimed (fst (ClaimConfirmation C s t u v i d1))"
  with r have cl: "claimed r" by simp
  from PrepareConfirmation_InrD [OF assms(1)] obtain rec where
    rec: "rec_PayloadHash rec = PayloadHash C None"
    and rows: "conf_rows (tables d1) = conf_rows (tables d) @ [(pre_ConfirmationID q, rec)]"
      "pre_ConfirmationID q = conf_next (tables d)" using assms(3) by auto
  from ClaimConfirmation_claimed [OF r cl] obtain row tool where
    row: "(pre_ConfirmationID q, row) \<in> set (conf_rows (tables d1))"
    and ver: "Verify C (manager_of s) t \<lparr>ver_Record = row, ver_Token = cin_Token i, ver_Tool = tool,
       ver_Payload = cin_Payload i\<rparr> = Inr ()" using assms(5) by auto
  have "row = rec" using row rows assms(2) by (auto simp: conf_inv_def)
  with ver rec assms(4) have "PayloadHash C None = PayloadHash C (Some [])" by (simp add: Verify_Inr_iff)
  then have "SHA C ''null'' = SHA C ''{}''"
    by (simp add: PayloadHash_def payload_json_def) (rule HexEncode_inj)
  with assms(6) show False by simp
qed

section \<open>Witnesses\<close>

definition ex_crypto :: crypto where
  "ex_crypto = \<lparr>SHA = (\<lambda>s. s), MAC = (\<lambda>k s. k @ s)\<rparr>"

definition ex_write_tool :: ToolDefinition where
  "ex_write_tool = (disabledBoundaryTool ''add_fund'' ''d'')\<lparr>
     tool_Capability := \<lparr>cap_Tool = ''add_fund'', cap_Scope = ScopeWrite,
       cap_Permission = PermissionRequiresConfirmation, cap_RiskLevel = ''high'', cap_UseFor = ''d''\<rparr>,
     tool_Confirmation := \<lparr>pol_Required = True, pol_Reason = Some ''r'', pol_TokenTTLSeconds = Some 900\<rparr>\<rparr>"

definition ex_ops :: AgentService where
  "ex_ops = \<lparr>as_registry = Some \<lparr>reg_SchemaVersion = ''tool-registry-v1'', reg_GeneratedAt = [],
       reg_Tools = [ex_write_tool]\<rparr>,
     as_manager = Some \<lparr>mgr_secret = ''k''\<rparr>, as_confRepo = True, as_auditRepo = True\<rparr>"

definition empty_agent :: "bool list \<Rightarrow> agent_tables db" where
  "empty_agent fs = \<lparr>tables = \<lparr>conf_rows = [], conf_next = 1, audit_rows = [], audit_next = 1\<rparr>, faults = fs\<rparr>"

definition ex_prepare :: "args option \<Rightarrow> PrepareConfirmationInput" where
  "ex_prepare payload = \<lparr>pin_Tool = ''add_fund'', pin_Role = RoleOperator, pin_Caller = ''mcp'', pin_RequestID = [],
     pin_Payload = payload, pin_EnforceReviewed = False, pin_TTL = 0\<rparr>"

definition ex_claim :: "args option \<Rightarrow> ConsumeConfirmationInput" where
  "ex_claim payload = \<lparr>cin_Tool = ''add_fund'', cin_Role = RoleOperator, cin_Caller = ''mcp'', cin_RequestID = [],
     cin_ConfirmationID = 1, cin_Token = ''YWJj'', cin_Payload = payload, cin_EnforceReviewed = False,
     cin_ResultSummary = None\<rparr>"

definition ex_prepared :: "args option \<Rightarrow> (ops_error + PreparedConfirmation) \<times> agent_tables db" where
  "ex_prepared payload = PrepareConfirmation ex_crypto ex_ops (Some ''abc'') 0 0 (ex_prepare payload) (empty_agent [])"

lemma empty_agent_inv: "conf_inv (tables (empty_agent fs))"
  by (simp add: conf_inv_def empty_agent_def)

lemma ex_prepared_ok:
  assumes "case fst (ex_prepared payload) of Inr q \<Rightarrow> pre_ConfirmationID q = 1 \<and> pre_Token q = ''YWJj'' \<and>
      pre_ExpiresAt q = 900 * Second | Inl _ \<Rightarrow> False"
  shows "\<exists>q. PrepareConfirmation ex_crypto ex_ops (Some ''abc'') 0 0 (ex_prepare payload) (empty_agent []) =
    (Inr q, snd (ex_prepared payload)) \<and> pre_ConfirmationID q = 1 \<and> pre_Token q = ''YWJj'' \<and>
    pre_ExpiresAt q = 900 * Second"
  using assms unfolding ex_prepared_def by (auto split: sum.splits simp: prod_eq_iff)

lemma ex_prepared_faults: "faults (snd (ex_prepared payload)) = []"
  using keeps_ops(1) [of "\<lambda>d. faults d = []"]
  by (simp add: keeps_def ex_prepared_def empty_agent_def keeps_no_faults_stmt [unfolded keeps_def]
      conf_Save_def conf_Get_def MarkUsed_def audit_Save_def)

lemma ex_prepared_inv: "conf_inv (tables (snd (ex_prepared payload)))"
  using keepsD [OF keeps_ops(1) [of "\<lambda>d. conf_inv (tables d)", OF keeps_conf_inv] empty_agent_inv
    surjective_pairing] unfolding ex_prepared_def .



theorem claim_sound_witness:
  "\<exists>row. (1, row) \<in> set (conf_rows (tables (snd (ex_prepared (Some []))))) \<and> rec_UsedAt row = None \<and>
     rec_PayloadHash row = PayloadHash ex_crypto (Some [])"
proof -
  let ?c = "ClaimConfirmation ex_crypto ex_ops Second Second Second (ex_claim (Some [])) (snd (ex_prepared (Some [])))"
  have "case fst ?c of Inr _ \<Rightarrow> True | Inl _ \<Rightarrow> False" by code_simp
  then have cl: "claimed (fst ?c)" by (auto simp: claimed_def split: sum.splits)
  from claim_sound [OF surjective_pairing cl ex_prepared_inv] show ?thesis
    by (simp add: ex_claim_def) blast
qed

theorem absent_payload_never_claims_witness:
  "\<not> claimed (fst (ClaimConfirmation ex_crypto ex_ops Second Second Second (ex_claim (Some []))
      (snd (ex_prepared None))))"
proof -
  have "case fst (ex_prepared None) of Inr q \<Rightarrow> pre_ConfirmationID q = 1 \<and> pre_Token q = ''YWJj'' \<and>
      pre_ExpiresAt q = 900 * Second | Inl _ \<Rightarrow> False" by code_simp
  from ex_prepared_ok [OF this] obtain q where q:
    "PrepareConfirmation ex_crypto ex_ops (Some ''abc'') 0 0 (ex_prepare None) (empty_agent []) =
      (Inr q, snd (ex_prepared None))" "pre_ConfirmationID q = 1" by blast
  show ?thesis
    by (rule absent_payload_never_claims [OF q(1) empty_agent_inv])
      (simp_all add: ex_prepare_def ex_claim_def q(2) ex_crypto_def)
qed

end
