(* ===== verification/McpServer.thy ===== *)
theory McpServer
  imports AgentOps
begin

text \<open>
  The MCP server, \<open>src/internal/mcp\<close>: JSON-RPC dispatch, the advertised tools, the guarded
  execution of a tool, the confirmation gate in front of every write, the execution audit beside
  it, and the argument and error helpers.

  The tool handlers themselves are a parameter: \<open>impl name args\<close> acts on an arbitrary
  application state and either returns, fails or panics, so the theorems hold for every handler.
  The one handler that touches confirmations, \<open>prepare_confirmation\<close>, is modelled. The world is
  the agent database, the application state and, as a ghost, the list of handlers run so far.
  Request parameters arrive decoded: absent, unreadable or a \<open>ToolCallParams\<close>. What a call reads
  from outside (clock, random bytes, request id) is the record \<open>call_env\<close>.
\<close>

section \<open>Arguments (tools_helpers.go)\<close>

text \<open>
  A JSON number is a \<open>float64\<close>, kept as the text \<open>Marshal\<close> prints: digits with an optional
  fraction, or an exponent outside [1e-6, 1e21). \<open>positive_int\<close> is \<open>int(x)\<close> for
  0 < x <= 2^63, and \<open>None\<close> otherwise; at 2^63 exactly the conversion gives the least integer
  on the platforms the server is built for.
\<close>

definition positive_int :: "string \<Rightarrow> int option" where
  "positive_int t =
    (let v = int (digits_val (takeWhile is_digit t)) in
     if prefix ''-'' t \<or> t = ''0'' then None
     else if CHR ''e'' \<in> set t then (if sublist ''e-'' t then Some 0 else None)
     else if v > 2 ^ 63 then None
     else if v = 2 ^ 63 then Some (- (2 ^ 63))
     else Some v)"

definition intArg :: "args \<Rightarrow> string \<Rightarrow> int \<Rightarrow> int" where
  "intArg a key fallback = (case arg a key of
     Some (JNum t) \<Rightarrow> (case positive_int t of Some v \<Rightarrow> v | None \<Rightarrow> fallback)
   | _ \<Rightarrow> fallback)"

definition intArgMax :: "args \<Rightarrow> string \<Rightarrow> int \<Rightarrow> int \<Rightarrow> int" where
  "intArgMax a key fallback mx =
    (let v = intArg a key fallback in
     if v \<le> 0 then fallback else if mx > 0 \<and> v > mx then mx else v)"

definition stringArg :: "args \<Rightarrow> string \<Rightarrow> string" where
  "stringArg a key = (case arg a key of Some (JStr s) \<Rightarrow> s | _ \<Rightarrow> [])"

definition boolArg :: "args \<Rightarrow> string \<Rightarrow> bool \<Rightarrow> bool" where
  "boolArg a key fallback = (case arg a key of Some (JBool b) \<Rightarrow> b | _ \<Rightarrow> fallback)"

definition stringSliceArg :: "args \<Rightarrow> string \<Rightarrow> string list" where
  "stringSliceArg a key = (case arg a key of
     Some (JArr xs) \<Rightarrow> concat (map (\<lambda>x. case x of JStr s \<Rightarrow> [s] | _ \<Rightarrow> []) xs) | _ \<Rightarrow> [])"

fun firstNonEmpty :: "string list \<Rightarrow> string" where
  "firstNonEmpty [] = []"
| "firstNonEmpty (v # vs) = (if v \<noteq> [] then v else firstNonEmpty vs)"

section \<open>Errors\<close>

record rpc_error =
  Code :: int
  Message :: string

definition jsonrpcError :: "int \<Rightarrow> string \<Rightarrow> rpc_error" where
  "jsonrpcError code message = \<lparr>Code = code, Message = message\<rparr>"

definition error_markers :: "string list" where
  "error_markers =
    [''sql:'', ''pq:'', ''sqlite'', ''postgres'', ''pgx'', ''sqlx'', ''driver:'', ''stack'',
     ''panic'', ''no such table'', ''no such column'', ''no such file'', ''no such host'',
     ''does not exist'', ''sqlstate'', ''syntax error'', ''constraint'', ''database'',
     ''connection refused'', ''connection reset'', ''dial '', ''tls:'', ''connect:'',
     ''unmarshal'', ''certificate'', ''open '', [CHR '':'', byte 92], ''://'']"

definition sanitizedToolErrorMessage :: "string \<Rightarrow> string" where
  "sanitizedToolErrorMessage msg =
    (let m = TrimSpace msg in
     if m = [] \<or> length m > 120 then ''internal_error''
     else if list_ex (\<lambda>marker. Contains (ToLower m) marker) error_markers then ''internal_error''
     else if ContainsAny m ''{}[]'' then ''internal_error''
     else m)"

definition internalToolError :: "string \<Rightarrow> rpc_error" where
  "internalToolError raw = jsonrpcError (-32000) (''tool_error: '' @ sanitizedToolErrorMessage raw)"

definition fixedInternalToolMessage :: "string \<Rightarrow> bool" where
  "fixedInternalToolMessage message \<longleftrightarrow> message \<in> {''internal_error'', ''cancelled'',
     ''admin service is required'', ''admin freshness service is required'',
     ''nav crawler is not configured'', ''snapshot recalculator is not configured'',
     ''holdings crawler is not configured''}"

definition categoryForToolError :: "string \<Rightarrow> string" where
  "categoryForToolError message =
    (let payload = TrimPrefix message ''tool_error: '' in
     if payload = message \<or> payload = [] then CategoryInternal
     else if sanitizedToolErrorMessage payload \<noteq> payload then CategoryInternal
     else if fixedInternalToolMessage payload then CategoryInternal
     else CategoryValidation)"

definition executionErrorCategory :: "rpc_error option \<Rightarrow> string" where
  "executionErrorCategory err =
    (case err of None \<Rightarrow> []
     | Some e \<Rightarrow>
        if Code e = -32601 then CategoryNotImplemented
        else if Code e = -32001 then CategoryDenied
        else if Code e = -32602 then
          (if sanitizedToolErrorMessage (Message e) = Message e then CategoryValidation
           else CategoryInternal)
        else if Code e = -32000 then categoryForToolError (Message e)
        else CategoryInternal)"

section \<open>The server (server.go)\<close>

record Server =
  srv_registry :: Registry
  srv_agentOps :: "AgentService option"
  srv_confirmationPrep :: "AgentService option"
  srv_executionAudit :: "AgentService option"
  srv_role :: string

definition NewServer :: "Registry option \<Rightarrow> Registry option \<Rightarrow> bool \<Rightarrow> AgentService option \<Rightarrow> AgentService option
    \<Rightarrow> AgentService option \<Rightarrow> string \<Rightarrow> Server option" where
  "NewServer given loaded portfolio agentOps prep audit role =
    (case (case given of Some r \<Rightarrow> Some r | None \<Rightarrow> loaded) of None \<Rightarrow> None
     | Some registry \<Rightarrow>
        if \<not> portfolio then None
        else Some \<lparr>srv_registry = registry, srv_agentOps = agentOps, srv_confirmationPrep = prep,
               srv_executionAudit = audit, srv_role = (if role = [] then RoleAnalyst else role)\<rparr>)"

definition toolDispatch :: "string list" where
  "toolDispatch =
    [''get_portfolio_summary'', ''get_portfolio_xirr'', ''get_portfolio_timeline'',
     ''get_portfolio_penetration'', ''get_portfolio_allocation'', ''list_portfolios'',
     ''list_dca_plans'', ''get_investment_harness_snapshot'', ''get_investment_source_brief'',
     ''get_source_events'', ''mark_source_event'', ''crawl_nav'', ''recalculate_snapshot'',
     ''crawl_fund_holdings'', ''get_data_freshness'', ''verify_data'', ''get_fund_status'',
     ''get_system_status'', ''get_fund_detail'', ''get_nav_history'', ''get_fund_xirr'',
     ''search_funds'', ''search_stocks'', ''get_us_stock'', ''get_market_indices'',
     ''get_fund_drawdown'', ''compare_funds'', ''compute_dca_amount'', ''run_backtest'',
     ''get_full_dashboard'', ''prepare_confirmation'', ''add_transaction'',
     ''import_transactions'', ''update_transaction'', ''delete_transaction'',
     ''upsert_dca_plan'', ''disable_dca_plan'', ''add_fund'', ''add_security'',
     ''update_fund'', ''delete_fund'', ''adjust_position'', ''check_alerts'',
     ''run_dca_auto_invest'', ''generate_report'']"

definition implementedMCPTools :: "string set" where
  "implementedMCPTools = set toolDispatch"

definition confirmationCompletable :: "Server \<Rightarrow> bool" where
  "confirmationCompletable s \<longleftrightarrow> srv_agentOps s \<noteq> None \<and> srv_role s = RoleOperator"

record mcpTool =
  mt_Name :: string
  mt_Description :: string
  mt_InputSchema :: json
  mt_Annotations :: MCPAnnotations

definition advertised :: "Server \<Rightarrow> ToolDefinition \<Rightarrow> bool" where
  "advertised s tool \<longleftrightarrow>
     tool_Name tool \<in> implementedMCPTools \<and>
     RoleAllowsScope (srv_role s) (cap_Scope (tool_Capability tool)) \<and>
     \<not> (tool_Name tool = ''prepare_confirmation'' \<and>
        (srv_confirmationPrep s = None \<or> \<not> confirmationCompletable s)) \<and>
     \<not> (\<not> confirmationCompletable s \<and>
        (cap_Permission (tool_Capability tool) = PermissionRequiresConfirmation \<or>
         pol_Required (tool_Confirmation tool)))"

definition listTools :: "Server \<Rightarrow> mcpTool list" where
  "listTools s = map (\<lambda>tool. \<lparr>mt_Name = tool_Name tool, mt_Description = tool_Description tool,
       mt_InputSchema = tool_InputSchema tool, mt_Annotations = tool_MCPAnnotations tool\<rparr>)
     (filter (advertised s) (reg_Tools (srv_registry s)))"

record call_env =
  ce_rnd :: "string option"
  ce_issue :: time
  ce_attempt :: time
  ce_verify :: time
  ce_used :: time
  ce_result :: time
  ce_recorded :: time
  ce_duration :: duration
  ce_requestID :: string

datatype outcome = Done json | Failed rpc_error | Panic

record 'app world =
  w_agent :: "agent_tables db"
  w_app :: 'app
  w_log :: "(string \<times> args) list"

type_synonym 'app impl = "string \<Rightarrow> args \<Rightarrow> 'app \<Rightarrow> outcome \<times> 'app"

definition prepare_input :: "args \<Rightarrow> PrepareConfirmationInput" where
  "prepare_input a =
    \<lparr>pin_Tool = stringArg a ''tool'', pin_Role = RoleOperator,
     pin_Caller = firstNonEmpty [stringArg a ''caller'', ''mcp''],
     pin_RequestID = stringArg a ''request_id'',
     pin_Payload = (case arg a ''payload'' of Some (JObj kvs) \<Rightarrow> Some kvs | _ \<Rightarrow> None),
     pin_EnforceReviewed = boolArg a ''enforce_reviewed'' False, pin_TTL = 0\<rparr>"

definition callPrepareConfirmation :: "crypto \<Rightarrow> call_env \<Rightarrow> Server \<Rightarrow> args \<Rightarrow> agent_tables db
    \<Rightarrow> outcome \<times> agent_tables db" where
  "callPrepareConfirmation C env s a d =
    (case srv_confirmationPrep s of
       None \<Rightarrow> (Failed (jsonrpcError (-32001) ''tool_denied: confirmation_service_unavailable''), d)
     | Some prep \<Rightarrow>
        (if stringArg a ''tool'' = []
         then (Failed (jsonrpcError (-32602) ''invalid_params: tool is required''), d)
         else
           (case PrepareConfirmation C prep (ce_rnd env) (ce_issue env) (ce_attempt env)
               (prepare_input a) d of
              (Inl _, d') \<Rightarrow> (Failed (jsonrpcError (-32001) ''tool_denied: invalid_confirmation''), d')
            | (Inr p, d') \<Rightarrow> (Done (JObj
                [(''decision_boundary'', JStr ''confirmation_only''),
                 (''confirmation_id'', JNum (itoa (nat (pre_ConfirmationID p)))),
                 (''audit_event_id'', JNum (itoa (nat (pre_AuditEventID p)))),
                 (''token'', JStr (pre_Token p)), (''tool'', JStr (pre_Tool p)),
                 (''payload_hash'', JStr (pre_PayloadHash p)),
                 (''created_at'', JStr (format_time (pre_CreatedAt p))),
                 (''expires_at'', JStr (format_time (pre_ExpiresAt p)))]), d'))))"

definition confirmationPayload :: "args \<Rightarrow> args" where
  "confirmationPayload a = filter (\<lambda>(key, v). key \<notin> {''confirmed'', ''confirmation_id'',
     ''confirmation_token'', ''caller'', ''request_id'', ''enforce_reviewed''}) a"

definition claim_input :: "Server \<Rightarrow> string \<Rightarrow> args \<Rightarrow> ConsumeConfirmationInput" where
  "claim_input s name a =
    \<lparr>cin_Tool = name, cin_Role = srv_role s, cin_Caller = firstNonEmpty [stringArg a ''caller'', ''mcp''],
     cin_RequestID = stringArg a ''request_id'', cin_ConfirmationID = intArg a ''confirmation_id'' 0,
     cin_Token = stringArg a ''confirmation_token'', cin_Payload = Some (confirmationPayload a),
     cin_EnforceReviewed = boolArg a ''enforce_reviewed'' False,
     cin_ResultSummary = Some [(''authorization'', JStr ''claimed'')]\<rparr>"

definition claimWriteConfirmation :: "crypto \<Rightarrow> call_env \<Rightarrow> Server \<Rightarrow> string \<Rightarrow> args \<Rightarrow> agent_tables db
    \<Rightarrow> rpc_error option \<times> agent_tables db" where
  "claimWriteConfirmation C env s name a d =
    (case Lookup (srv_registry s) name of None \<Rightarrow> (None, d)
     | Some tool \<Rightarrow>
        if cap_Permission (tool_Capability tool) \<noteq> PermissionRequiresConfirmation then (None, d)
        else
         (case srv_agentOps s of
            None \<Rightarrow> (Some (jsonrpcError (-32001) ''tool_denied: confirmation_service_unavailable''), d)
          | Some ops \<Rightarrow>
             if intArg a ''confirmation_id'' 0 \<le> 0 \<or> stringArg a ''confirmation_token'' = []
             then (Some (jsonrpcError (-32602) (''invalid_params: confirmation_id and '' @
               ''confirmation_token required; prepare them with the prepare_confirmation tool first, '' @
               ''then pass confirmation_id + confirmation_token'')), d)
             else
               (case ClaimConfirmation C ops (ce_verify env) (ce_used env) (ce_result env)
                  (claim_input s name a) d of
                  (Inl _, d') \<Rightarrow> (Some (jsonrpcError (-32001) ''tool_denied: invalid_confirmation''), d')
                | (Inr _, d') \<Rightarrow> (None, d'))))"

text \<open>The best-effort audit: an error of the sink is logged and dropped.\<close>

definition recordExecution :: "call_env \<Rightarrow> Server \<Rightarrow> string \<Rightarrow> string \<Rightarrow> string \<Rightarrow> string
    \<Rightarrow> agent_tables db \<Rightarrow> agent_tables db" where
  "recordExecution env s tool caller status category d =
    (case srv_executionAudit s of None \<Rightarrow> d
     | Some sink \<Rightarrow> snd (RecordExecution sink (NewExecutionEvent (ce_recorded env)
         \<lparr>xin_Tool = tool, xin_RequestID = ce_requestID env, xin_Caller = caller, xin_Status = status,
          xin_ErrorCategory = category, xin_Duration = ce_duration env\<rparr>) d))"

record ToolCallParams =
  tcp_Name :: string
  tcp_Arguments :: "args option"
  tcp_Tool :: string
  tcp_Args :: "args option"

datatype params = NoParams | BadParams | CallParams ToolCallParams

fun deny_text :: "DenyReason \<Rightarrow> string" where
  "deny_text DenyNone = []"
| "deny_text DenyUnknownTool = ''unknown_tool''"
| "deny_text DenyDisabled = ''disabled''"
| "deny_text DenyReviewRequired = ''review_required''"
| "deny_text DenyScope = ''scope_not_allowed''"
| "deny_text DenyConfirmationRequired = ''confirmation_required''"

definition run_handler :: "crypto \<Rightarrow> call_env \<Rightarrow> Server \<Rightarrow> 'app impl \<Rightarrow> string \<Rightarrow> args \<Rightarrow> 'app world
    \<Rightarrow> outcome \<times> 'app world" where
  "run_handler C env s impl name a w =
    (if name \<notin> implementedMCPTools
     then (Failed (jsonrpcError (-32601) (''tool_not_implemented: '' @ name)), w)
     else if name = ''prepare_confirmation''
     then (let (r, d') = callPrepareConfirmation C env s a (w_agent w)
           in (r, w\<lparr>w_agent := d', w_log := w_log w @ [(name, a)]\<rparr>))
     else (let (r, app') = impl name a (w_app w)
           in (r, w\<lparr>w_app := app', w_log := w_log w @ [(name, a)]\<rparr>)))"

text \<open>The closure \<open>record\<close> of \<open>callTool\<close>: audited only where the tool's policy asks for it.\<close>

definition record_outcome :: "call_env \<Rightarrow> Server \<Rightarrow> string \<Rightarrow> args \<Rightarrow> string \<Rightarrow> string \<Rightarrow> 'app world
    \<Rightarrow> 'app world" where
  "record_outcome env s name a status category w =
    (if (case Lookup (srv_registry s) name of None \<Rightarrow> False
         | Some tool \<Rightarrow> aud_RecordResult (tool_Audit tool))
     then w\<lparr>w_agent := recordExecution env s name (firstNonEmpty [stringArg a ''caller'', srv_role s])
            status category (w_agent w)\<rparr>
     else w)"

text \<open>After the parameters are read: authorize, claim, authorize again, run, record.\<close>

definition guarded_call :: "crypto \<Rightarrow> call_env \<Rightarrow> Server \<Rightarrow> 'app impl \<Rightarrow> string \<Rightarrow> args \<Rightarrow> 'app world
    \<Rightarrow> outcome \<times> 'app world" where
  "guarded_call C env s impl name a w =
    (let record = record_outcome env s name a;
         fail = (\<lambda>e w. (Failed e, record ExecutionErrored (executionErrorCategory (Some e)) w));
         request = \<lparr>req_Tool = name, req_Role = srv_role s, req_Confirmed = False,
           req_EnforceReviewed = boolArg a ''enforce_reviewed'' False\<rparr>;
         denied = (\<lambda>dec. jsonrpcError (-32001) (''tool_denied: '' @ deny_text (dec_Reason dec)));
         dispatch = (\<lambda>w. case run_handler C env s impl name a w of
             (Panic, w') \<Rightarrow> (Panic, record ExecutionPanicRecovered CategoryInternal w')
           | (Failed e, w') \<Rightarrow> fail e w'
           | (Done j, w') \<Rightarrow> (Done j, record ExecutionOK [] w'));
         decision = Authorize (srv_registry s) request
     in if \<not> dec_Allowed decision \<and> dec_Reason decision \<noteq> DenyConfirmationRequired
        then fail (denied decision) w
        else if dec_RequiresConfirmation decision
        then (case claimWriteConfirmation C env s name a (w_agent w) of
                (Some e, d') \<Rightarrow> fail e (w\<lparr>w_agent := d'\<rparr>)
              | (None, d') \<Rightarrow>
                 (let w1 = w\<lparr>w_agent := d'\<rparr>;
                      decision2 = Authorize (srv_registry s) (request\<lparr>req_Confirmed := True\<rparr>)
                  in if \<not> dec_Allowed decision2 then fail (denied decision2) w1 else dispatch w1))
        else if \<not> dec_Allowed decision then fail (denied decision) w
        else dispatch w)"

definition call_name :: "ToolCallParams \<Rightarrow> string \<times> args" where
  "call_name p =
    (let (name, a) = (if tcp_Name p = [] then (tcp_Tool p, tcp_Args p) else (tcp_Name p, tcp_Arguments p))
     in (name, case a of None \<Rightarrow> [] | Some kvs \<Rightarrow> kvs))"

definition callTool :: "crypto \<Rightarrow> call_env \<Rightarrow> Server \<Rightarrow> 'app impl \<Rightarrow> params \<Rightarrow> 'app world
    \<Rightarrow> outcome \<times> 'app world" where
  "callTool C env s impl ps w =
    (case ps of
       BadParams \<Rightarrow> (Failed (jsonrpcError (-32602) ''invalid_params''), w)
     | NoParams \<Rightarrow> (Failed (jsonrpcError (-32602) ''invalid_params: tool name is required''), w)
     | CallParams p \<Rightarrow>
        (let (name, a) = call_name p in
         if name = [] then (Failed (jsonrpcError (-32602) ''invalid_params: tool name is required''), w)
         else guarded_call C env s impl name a w))"

definition latestProtocolVersion :: string where "latestProtocolVersion = ''2025-06-18''"
definition supportedProtocolVersions :: "string list" where
  "supportedProtocolVersions = [''2025-06-18'', ''2025-03-26'', ''2024-11-05'']"

text \<open>\<open>None\<close> when the parameters are absent or unreadable, else the requested version.\<close>

definition negotiateProtocolVersion :: "string option \<Rightarrow> string" where
  "negotiateProtocolVersion requested =
    (case requested of None \<Rightarrow> latestProtocolVersion
     | Some v \<Rightarrow> (case List.find (\<lambda>x. x = v) supportedProtocolVersions of
         Some x \<Rightarrow> x | None \<Rightarrow> latestProtocolVersion))"

record Request =
  rq_JSONRPC :: string
  rq_ID :: "string option"
  rq_Method :: string
  rq_Version :: "string option"
  rq_Params :: params

definition IsNotification :: "Request \<Rightarrow> bool" where
  "IsNotification request \<longleftrightarrow> rq_ID request = None"

datatype rpc_result = RInitialize string | RTools "mcpTool list" | RCall json

record Response =
  rs_ID :: "string option"
  rs_Result :: "rpc_result option"
  rs_Error :: "rpc_error option"

definition Handle :: "crypto \<Rightarrow> call_env \<Rightarrow> Server \<Rightarrow> 'app impl \<Rightarrow> Request \<Rightarrow> 'app world
    \<Rightarrow> Response \<times> 'app world" where
  "Handle C env s impl request w =
    (let ok = (\<lambda>r. \<lparr>rs_ID = rq_ID request, rs_Result = Some r, rs_Error = None\<rparr>);
         err = (\<lambda>e. \<lparr>rs_ID = rq_ID request, rs_Result = None, rs_Error = Some e\<rparr>)
     in if rq_JSONRPC request \<noteq> [] \<and> rq_JSONRPC request \<noteq> ''2.0''
        then (err (jsonrpcError (-32600) ''invalid_request: jsonrpc must be 2.0''), w)
        else if rq_Method request = ''initialize''
        then (ok (RInitialize (negotiateProtocolVersion (rq_Version request))), w)
        else if rq_Method request = ''tools/list'' then (ok (RTools (listTools s)), w)
        else if rq_Method request = ''tools/call''
        then (case callTool C env s impl (rq_Params request) w of
                (Done j, w') \<Rightarrow> (ok (RCall j), w')
              | (Failed e, w') \<Rightarrow> (err e, w')
              | (Panic, w') \<Rightarrow> (err (jsonrpcError (-32603) ''internal_error''), w'))
        else (err (jsonrpcError (-32601) (''method_not_found: '' @ rq_Method request)), w))"

section \<open>What a call may do to the agent database\<close>

definition agent_stable :: "(agent_tables db \<Rightarrow> bool) \<Rightarrow> bool" where
  "agent_stable P \<longleftrightarrow> (\<forall>r. keeps P (conf_Save r)) \<and> (\<forall>i. keeps P (conf_Get i)) \<and>
     (\<forall>i at. keeps P (MarkUsed i at)) \<and> (\<forall>e. keeps P (audit_Save e))"

lemma agent_stable_inv: "agent_stable (\<lambda>d. conf_inv (tables d))"
  by (simp add: agent_stable_def keeps_conf_inv)

lemma agent_stable_spent: "agent_stable (\<lambda>d. conf_spent k (tables d))"
  by (simp add: agent_stable_def keeps_conf_spent)

lemma agent_stable_ops:
  assumes "agent_stable P"
  shows "keeps P (PrepareConfirmation C s rnd t1 t2 pin)"
    "keeps P (ClaimConfirmation C s t1 t2 t3 cin)" "keeps P (RecordExecution s e)"
  using assms keeps_ops [of P] unfolding agent_stable_def by blast+

lemma stable_prepare:
  assumes "agent_stable P" "P d"
  shows "P (snd (callPrepareConfirmation C env s a d))"
proof (cases "srv_confirmationPrep s")
  case (Some prep)
  obtain q d' where q: "PrepareConfirmation C prep (ce_rnd env) (ce_issue env) (ce_attempt env)
      (prepare_input a) d = (q, d')" by (metis surj_pair)
  have "P d'" by (rule keepsD [OF agent_stable_ops(1) [OF assms(1)] assms(2) q])
  with Some assms(2) q show ?thesis by (cases q) (simp_all add: callPrepareConfirmation_def)
qed (simp add: callPrepareConfirmation_def assms(2))

lemma stable_claim:
  assumes "agent_stable P" "P d"
  shows "P (snd (claimWriteConfirmation C env s name a d))"
proof (cases "srv_agentOps s")
  case (Some ops)
  obtain q d' where q: "ClaimConfirmation C ops (ce_verify env) (ce_used env) (ce_result env)
      (claim_input s name a) d = (q, d')" by (metis surj_pair)
  have "P d'" by (rule keepsD [OF agent_stable_ops(2) [OF assms(1)] assms(2) q])
  with Some assms(2) q show ?thesis
    by (cases q) (simp_all add: claimWriteConfirmation_def split: option.split)
qed (simp add: claimWriteConfirmation_def assms(2) split: option.split)

lemma stable_record:
  assumes "agent_stable P" "P d"
  shows "P (recordExecution env s tool caller status category d)"
  using agent_stable_ops(3) [OF assms(1)] assms(2) unfolding recordExecution_def keeps_def
  by (auto split: option.split)

lemma run_handler_cases:
  assumes "run_handler C env s impl name a w = (r, w')"
  shows "(w' = w \<and> name \<notin> implementedMCPTools) \<or>
     (w_log w' = w_log w @ [(name, a)] \<and> name \<in> implementedMCPTools)"
  using assms by (auto simp: run_handler_def Let_def split: if_splits prod.splits)

lemma stable_handler:
  assumes "agent_stable P" "P (w_agent w)" "run_handler C env s impl name a w = (r, w')"
  shows "P (w_agent w')"
  using stable_prepare [OF assms(1,2), of C env s a] assms(2,3)
  by (auto simp: run_handler_def Let_def split: if_splits prod.splits)

text \<open>The gate of a call: what must have happened before the handler.\<close>

definition gated :: "Server \<Rightarrow> string \<Rightarrow> bool" where
  "gated s name \<longleftrightarrow> (case Lookup (srv_registry s) name of None \<Rightarrow> False
     | Some tool \<Rightarrow> cap_Permission (tool_Capability tool) = PermissionRequiresConfirmation)"

definition passed_gate :: "crypto \<Rightarrow> call_env \<Rightarrow> Server \<Rightarrow> string \<Rightarrow> args \<Rightarrow> agent_tables db \<Rightarrow> agent_tables db
    \<Rightarrow> bool" where
  "passed_gate C env s name a d d1 \<longleftrightarrow>
     (\<exists>tool c. Lookup (srv_registry s) name = Some tool \<and>
        permitted tool \<lparr>req_Tool = name, req_Role = srv_role s, req_Confirmed = c,
          req_EnforceReviewed = boolArg a ''enforce_reviewed'' False\<rparr>) \<and>
     (gated s name \<longrightarrow> (\<exists>ops r. srv_agentOps s = Some ops \<and>
        ClaimConfirmation C ops (ce_verify env) (ce_used env) (ce_result env) (claim_input s name a) d =
          (Inr r, d1))) \<and>
     (\<not> gated s name \<longrightarrow> d1 = d)"

lemma claimWriteConfirmation_None:
  assumes "claimWriteConfirmation C env s name a d = (None, d1)" "gated s name"
  shows "\<exists>ops r. srv_agentOps s = Some ops \<and>
     ClaimConfirmation C ops (ce_verify env) (ce_used env) (ce_result env) (claim_input s name a) d = (Inr r, d1)"
  using assms unfolding claimWriteConfirmation_def gated_def
  by (auto split: option.splits if_splits prod.splits sum.splits)

definition outcome_recorded :: "call_env \<Rightarrow> Server \<Rightarrow> string \<Rightarrow> args \<Rightarrow> 'app world \<Rightarrow> 'app world \<Rightarrow> bool" where
  "outcome_recorded env s name a w w' \<longleftrightarrow> (\<exists>st cat. w' = record_outcome env s name a st cat w)"

lemma outcome_recordedI [intro]: "outcome_recorded env s name a w (record_outcome env s name a st cat w)"
  by (auto simp: outcome_recorded_def)

lemma outcome_recordedD:
  "outcome_recorded env s name a w w' \<Longrightarrow> w_app w' = w_app w \<and> w_log w' = w_log w"
  by (auto simp: outcome_recorded_def record_outcome_def split: option.splits if_splits)

lemma stable_recorded:
  "agent_stable P \<Longrightarrow> P (w_agent w) \<Longrightarrow> outcome_recorded env s name a w w' \<Longrightarrow> P (w_agent w')"
  by (auto simp: outcome_recorded_def record_outcome_def intro: stable_record)

abbreviation call_request :: "Server \<Rightarrow> string \<Rightarrow> args \<Rightarrow> bool \<Rightarrow> AuthorizeRequest" where
  "call_request s name a c \<equiv> \<lparr>req_Tool = name, req_Role = srv_role s, req_Confirmed = c,
     req_EnforceReviewed = boolArg a ''enforce_reviewed'' False\<rparr>"

text \<open>
  The four ways through a guarded call: refused, refused after the gate was asked, run behind a
  claimed confirmation, or run without one; each ends with recording the outcome.
\<close>

lemma guarded_call_shape:
  assumes "guarded_call C env s impl name a w = (r, w')"
  obtains (refused) "outcome_recorded env s name a w w'"
    | (stopped) e d1 where "claimWriteConfirmation C env s name a (w_agent w) = (e, d1)"
        "outcome_recorded env s name a (w\<lparr>w_agent := d1\<rparr>) w'"
    | (confirmed) d1 q w1 where "claimWriteConfirmation C env s name a (w_agent w) = (None, d1)"
        "dec_RequiresConfirmation (Authorize (srv_registry s) (call_request s name a False))"
        "dec_Allowed (Authorize (srv_registry s) (call_request s name a True))"
        "run_handler C env s impl name a (w\<lparr>w_agent := d1\<rparr>) = (q, w1)"
        "outcome_recorded env s name a w1 w'"
    | (plain) q w1 where "dec_Allowed (Authorize (srv_registry s) (call_request s name a False))"
        "run_handler C env s impl name a w = (q, w1)" "outcome_recorded env s name a w1 w'"
proof -
  let ?dec = "\<lambda>c. Authorize (srv_registry s) (call_request s name a c)"
  have dispatch: "outcome_recorded env s name a w1 w2"
    if "(case (q, w1) of (Panic, v) \<Rightarrow> (Panic, record_outcome env s name a ExecutionPanicRecovered CategoryInternal v)
          | (Failed e, v) \<Rightarrow> (Failed e, record_outcome env s name a ExecutionErrored (executionErrorCategory (Some e)) v)
          | (Done j, v) \<Rightarrow> (Done j, record_outcome env s name a ExecutionOK [] v)) = (r, w2)" for q w1 w2
    using that by (cases q) auto
  show ?thesis
  proof (cases "dec_RequiresConfirmation (?dec False)")
    case req: True
    then have reason: "dec_Reason (?dec False) = DenyConfirmationRequired"
      by (simp add: Authorize_reasons(1))
    obtain e d1 where cl: "claimWriteConfirmation C env s name a (w_agent w) = (e, d1)" by (metis surj_pair)
    show ?thesis
    proof (cases "e = None \<and> dec_Allowed (?dec True)")
      case True
      obtain q w1 where "run_handler C env s impl name a (w\<lparr>w_agent := d1\<rparr>) = (q, w1)" by (metis surj_pair)
      with True cl req reason assms dispatch [of q w1 w'] show ?thesis
        by (intro confirmed) (simp_all add: guarded_call_def Let_def)
    next
      case False
      with cl req reason assms show ?thesis
        by (intro stopped [OF cl]) (cases e; auto simp: guarded_call_def Let_def)
    qed
  next
    case False
    show ?thesis
    proof (cases "dec_Allowed (?dec False)")
      case True
      obtain q w1 where "run_handler C env s impl name a w = (q, w1)" by (metis surj_pair)
      with True False assms dispatch [of q w1 w'] show ?thesis
        by (intro plain) (simp_all add: guarded_call_def Let_def)
    next
      case denied: False
      with False assms show ?thesis
        by (intro refused) (auto simp: guarded_call_def Let_def split: if_splits)
    qed
  qed
qed

lemma guarded_call_cases:
  assumes "guarded_call C env s impl name a w = (r, w')"
  shows "(w_app w' = w_app w \<and> w_log w' = w_log w) \<or>
    (\<exists>d1 q w1. passed_gate C env s name a (w_agent w) d1 \<and>
       run_handler C env s impl name a (w\<lparr>w_agent := d1\<rparr>) = (q, w1) \<and>
       w_app w' = w_app w1 \<and> w_log w' = w_log w1)"
  using assms
proof (cases rule: guarded_call_shape)
  case (confirmed d1 q w1)
  have g: "gated s name" using confirmed(2) unfolding Authorize_reasons by (auto simp: gated_def)
  obtain tool where "Lookup (srv_registry s) name = Some tool" "permitted tool (call_request s name a True)"
    using confirmed(3) unfolding Authorize_allowed_iff by auto
  with claimWriteConfirmation_None [OF confirmed(1) g] g
  have "passed_gate C env s name a (w_agent w) d1" unfolding passed_gate_def by blast
  with confirmed(4) outcome_recordedD [OF confirmed(5)] show ?thesis by blast
next
  case (plain q w1)
  obtain tool where "Lookup (srv_registry s) name = Some tool" "permitted tool (call_request s name a False)"
    using plain(1) unfolding Authorize_allowed_iff by auto
  then have "passed_gate C env s name a (w_agent w) (w_agent w)"
    unfolding passed_gate_def by (auto simp: gated_def permitted_def)
  moreover have "w\<lparr>w_agent := w_agent w\<rparr> = w" by simp
  ultimately show ?thesis using plain(2) outcome_recordedD [OF plain(3)] by metis
qed (auto dest!: outcome_recordedD)

lemma stable_guarded:
  assumes "agent_stable P" "P (w_agent w)" "guarded_call C env s impl name a w = (r, w')"
  shows "P (w_agent w')"
proof -
  have claim: "P d1" if "claimWriteConfirmation C env s name a (w_agent w) = (e, d1)" for e d1
    using stable_claim [OF assms(1,2), of C env s name a] that by simp
  from assms(3) show ?thesis
  proof (cases rule: guarded_call_shape)
    case refused
    then show ?thesis by (rule stable_recorded [OF assms(1,2)])
  next
    case (stopped e d1)
    from stable_recorded [OF assms(1) _ stopped(2)] claim [OF stopped(1)] show ?thesis by simp
  next
    case (confirmed d1 q w1)
    have "P (w_agent w1)" using stable_handler [OF assms(1) _ confirmed(4)] claim [OF confirmed(1)] by simp
    then show ?thesis by (rule stable_recorded [OF assms(1) _ confirmed(5)])
  next
    case (plain q w1)
    from stable_handler [OF assms(1,2) plain(2)] show ?thesis by (rule stable_recorded [OF assms(1) _ plain(3)])
  qed
qed

text \<open>Handling one request, with the handlers it ran as a ghost result.\<close>

definition mcp_step :: "crypto \<Rightarrow> Server \<Rightarrow> 'app impl \<Rightarrow> call_env \<times> Request \<Rightarrow> 'app world
    \<Rightarrow> (Response \<times> (string \<times> args) list) \<times> 'app world" where
  "mcp_step C s impl e w = (case Handle C (fst e) s impl (snd e) w of
     (r, w') \<Rightarrow> ((r, drop (length (w_log w)) (w_log w')), w'))"

lemma Handle_cases:
  assumes "Handle C env s impl rq w = (r, w')"
  shows "w' = w \<or> (\<exists>name a q. guarded_call C env s impl name a w = (q, w'))"
  using assms unfolding Handle_def callTool_def Let_def
  by (auto split: if_splits params.splits prod.splits outcome.splits)

lemma mcp_step_ran:
  assumes "mcp_step C s impl e w = ((r, exd), w')" "exd \<noteq> []"
  obtains name a q d1 where "exd = [(name, a)]" "name \<in> implementedMCPTools"
    "passed_gate C (fst e) s name a (w_agent w) d1"
    "guarded_call C (fst e) s impl name a w = (q, w')"
proof -
  from assms(1) have h: "Handle C (fst e) s impl (snd e) w = (r, w')"
    and exd: "exd = drop (length (w_log w)) (w_log w')"
    unfolding mcp_step_def by (auto split: prod.splits)
  from assms(2) exd have "w_log w' \<noteq> w_log w" by auto
  then obtain name a q where g: "guarded_call C (fst e) s impl name a w = (q, w')"
    using Handle_cases [OF h] by auto
  from guarded_call_cases [OF g] \<open>w_log w' \<noteq> w_log w\<close> obtain d1 q1 w1 where
    pg: "passed_gate C (fst e) s name a (w_agent w) d1"
    and rh: "run_handler C (fst e) s impl name a (w\<lparr>w_agent := d1\<rparr>) = (q1, w1)"
    and log: "w_log w' = w_log w1" by blast
  from run_handler_cases [OF rh] log \<open>w_log w' \<noteq> w_log w\<close>
  have "w_log w' = w_log w @ [(name, a)]" "name \<in> implementedMCPTools" by auto
  with exd pg g show thesis by (intro that [of name a d1 q]) simp_all
qed

text \<open>A request wins a confirmation when it ran a gated handler under that confirmation id.\<close>

definition runs_gated :: "Server \<Rightarrow> int \<Rightarrow> call_env \<times> Request \<Rightarrow> Response \<times> (string \<times> args) list \<Rightarrow> bool" where
  "runs_gated s k e r \<longleftrightarrow>
     list_ex (\<lambda>(name, a). gated s name \<and> intArg a ''confirmation_id'' 0 = k) (snd r)"

lemma mcp_step_stable:
  assumes "agent_stable P" "P (w_agent w)" "mcp_step C s impl e w = (r, w')"
  shows "P (w_agent w')"
proof -
  from assms(3) have "Handle C (fst e) s impl (snd e) w = (fst r, w')"
    unfolding mcp_step_def by (auto split: prod.splits)
  from Handle_cases [OF this] stable_guarded [OF assms(1,2)] assms(2) show ?thesis by auto
qed

lemma guarded_call_spends:
  assumes "guarded_call C env s impl name a w = (q, w')" "w_log w' \<noteq> w_log w" "gated s name"
    and "conf_inv (tables (w_agent w))"
  shows "\<not> conf_spent (intArg a ''confirmation_id'' 0) (tables (w_agent w)) \<and>
         conf_spent (intArg a ''confirmation_id'' 0) (tables (w_agent w'))"
proof -
  let ?k = "intArg a ''confirmation_id'' 0"
  have claim: "\<not> conf_spent ?k (tables d) \<and> conf_spent ?k (tables d1)"
    if "claimWriteConfirmation C env s name a d = (None, d1)" "conf_inv (tables d)" for d d1
  proof -
    from claimWriteConfirmation_None [OF that(1) assms(3)] obtain ops r where
      c: "ClaimConfirmation C ops (ce_verify env) (ce_used env) (ce_result env) (claim_input s name a) d =
        (Inr r, d1)" by blast
    have wins: "wins_confirmation ?k (OClaim (ce_verify env) (ce_used env) (ce_result env) (claim_input s name a))
        (OClaimed (Inr r))" by (simp add: claim_input_def claimed_def)
    have "ops_step C ops (OClaim (ce_verify env) (ce_used env) (ce_result env) (claim_input s name a)) d =
        (OClaimed (Inr r), d1)" by (simp add: c)
    from ledger.win_spends [OF that(2) this wins] show ?thesis .
  qed
  from assms(1) show ?thesis
  proof (cases rule: guarded_call_shape)
    case (confirmed d1 q1 w1)
    have "conf_spent ?k (tables (w_agent w1))"
      using stable_handler [OF agent_stable_spent _ confirmed(4)] claim [OF confirmed(1) assms(4)] by simp
    then have "conf_spent ?k (tables (w_agent w'))" by (rule stable_recorded [OF agent_stable_spent _ confirmed(5)])
    with claim [OF confirmed(1) assms(4)] show ?thesis by blast
  next
    case (plain q1 w1)
    then show ?thesis using assms(3) unfolding Authorize_allowed_iff by (auto simp: gated_def permitted_def)
  qed (use assms(2) in \<open>auto dest!: outcome_recordedD\<close>)
qed

interpretation mcp_gate: single_use "mcp_step C s impl" "\<lambda>w. conf_inv (tables (w_agent w))" "runs_gated s"
    "\<lambda>k w. conf_spent k (tables (w_agent w))" for C s impl
proof (unfold_locales, goal_cases)
  case (1 w e r w')
  from agent_stable_inv 1 show ?case by (rule mcp_step_stable)
next
  case (2 w k e r w')
  show ?case by (rule mcp_step_stable [OF agent_stable_spent 2(2,3)])
next
  case (3 w e r w' k)
  obtain rsp exd where r: "r = (rsp, exd)" by (metis surj_pair)
  with 3(3) have "exd \<noteq> []" by (auto simp: runs_gated_def)
  obtain name a q where exd: "exd = [(name, a)]" and g: "guarded_call C (fst e) s impl name a w = (q, w')"
    by (rule mcp_step_ran [OF 3(2) [unfolded r] \<open>exd \<noteq> []\<close>])
  have "w_log w' \<noteq> w_log w" using 3(2) r \<open>exd \<noteq> []\<close>
    by (auto simp: mcp_step_def split: prod.splits)
  moreover have "gated s name" and k: "intArg a ''confirmation_id'' 0 = k"
    using 3(3) exd r by (simp_all add: runs_gated_def)
  ultimately show ?case using guarded_call_spends [OF g _ _ 3(1)] by simp
qed

text \<open>
  C2. No write without a confirmation, and no confirmation for two writes: over any sequence of
  MCP requests, with any handlers, clocks and database failures, the handlers of
  confirmation-gated tools run at most once per confirmation id, and not at all for an id that
  is already used.
\<close>

theorem gated_write_at_most_once:
  assumes "conf_inv (tables (w_agent w))" "run_steps (mcp_step C s impl) es w = (rs, w')"
  shows "length (filter (\<lambda>(e, r). runs_gated s k e r) (zip es rs)) \<le>
     (if conf_spent k (tables (w_agent w)) then 0 else 1)"
  using mcp_gate.at_most_once [OF assms(2,1)] .

text \<open>
  C13. What a request may run: a request runs at most one handler, of an implemented tool that the
  server's role may use and that is not disabled; if the tool is gated, a claim of the
  confirmation named in its arguments succeeded first, for this tool, this role and exactly the
  arguments of the call without the confirmation fields.
\<close>

theorem handler_runs_behind_gate:
  assumes "mcp_step C s impl e w = ((r, exd), w')"
  shows "exd = [] \<or> (\<exists>name a tool. exd = [(name, a)] \<and> name \<in> implementedMCPTools \<and>
     Lookup (srv_registry s) name = Some tool \<and> \<not> is_disabled tool \<and>
     RoleAllowsScope (srv_role s) (cap_Scope (tool_Capability tool)) \<and>
     (cap_Permission (tool_Capability tool) = PermissionRequiresConfirmation \<longrightarrow>
        (\<exists>ops c d1. srv_agentOps s = Some ops \<and>
           ClaimConfirmation C ops (ce_verify (fst e)) (ce_used (fst e)) (ce_result (fst e))
             (claim_input s name a) (w_agent w) = (Inr c, d1))))"
proof (cases "exd = []")
  case False
  obtain name a d1 where exd: "exd = [(name, a)]"
    "name \<in> implementedMCPTools" "passed_gate C (fst e) s name a (w_agent w) d1"
    by (rule mcp_step_ran [OF assms False])
  then obtain tool c where tool: "Lookup (srv_registry s) name = Some tool"
    "permitted tool \<lparr>req_Tool = name, req_Role = srv_role s, req_Confirmed = c,
       req_EnforceReviewed = boolArg a ''enforce_reviewed'' False\<rparr>"
    and claim: "gated s name \<longrightarrow> (\<exists>ops r. srv_agentOps s = Some ops \<and>
      ClaimConfirmation C ops (ce_verify (fst e)) (ce_used (fst e)) (ce_result (fst e)) (claim_input s name a)
        (w_agent w) = (Inr r, d1))"
    unfolding passed_gate_def by blast
  have "gated s name \<longleftrightarrow> cap_Permission (tool_Capability tool) = PermissionRequiresConfirmation"
    using tool(1) by (simp add: gated_def)
  with exd(1,2) tool claim show ?thesis unfolding permitted_def by auto
qed simp

section \<open>Discovery, audit and errors\<close>

text \<open>
  The advertised surface is executable: a tool that \<open>tools/list\<close> shows is implemented, and a
  call of it (without insisting on review) is authorized outright, or needs a confirmation on a
  server whose confirmation flow is wired and whose role can complete it - unless the registry
  marks the permission itself as disabled.
\<close>

theorem advertised_executable:
  assumes "distinct (map tool_Name (reg_Tools (srv_registry s)))"
    and "t \<in> set (listTools s)"
  shows "mt_Name t \<in> implementedMCPTools \<and>
    (let dec = Authorize (srv_registry s) \<lparr>req_Tool = mt_Name t, req_Role = srv_role s,
           req_Confirmed = False, req_EnforceReviewed = False\<rparr>
     in dec_Allowed dec \<or> dec_Permission dec = PermissionDisabled \<or>
        (dec_RequiresConfirmation dec \<and> srv_agentOps s \<noteq> None \<and> srv_role s = RoleOperator))"
proof -
  from assms(2) obtain tool where tool: "tool \<in> set (reg_Tools (srv_registry s))" "advertised s tool"
    "mt_Name t = tool_Name tool" by (auto simp: listTools_def)
  have "Lookup (srv_registry s) (mt_Name t) = Some tool"
    using Lookup_Some_iff [OF assms(1)] tool by simp
  moreover have "RoleAllowsScope (srv_role s) (cap_Scope (tool_Capability tool))"
    using tool(2) by (simp add: advertised_def)
  moreover from this have "cap_Scope (tool_Capability tool) \<noteq> ScopeDisabled"
    unfolding RoleAllowsScope_iff by (auto simp: least_level_def scope_defs)
  ultimately show ?thesis using tool
    by (auto simp: Authorize_def Let_def empty_decision_def advertised_def confirmationCompletable_def)
qed

lemma run_handler_audit:
  "run_handler C env (s\<lparr>srv_executionAudit := x\<rparr>) impl name a w = run_handler C env s impl name a w"
  by (simp add: run_handler_def callPrepareConfirmation_def)

lemma claim_audit:
  "claimWriteConfirmation C env (s\<lparr>srv_executionAudit := x\<rparr>) name a d = claimWriteConfirmation C env s name a d"
proof -
  have "claim_input (s\<lparr>srv_executionAudit := x\<rparr>) name a = claim_input s name a" by (simp add: claim_input_def)
  then show ?thesis by (simp add: claimWriteConfirmation_def cong: option.case_cong if_cong)
qed

lemma record_audit [simp]:
  "w_app (record_outcome env s name a st cat w) = w_app w"
  "w_log (record_outcome env s name a st cat w) = w_log w"
  by (simp_all add: record_outcome_def split: option.split)

lemma guarded_call_audit:
  "fst (guarded_call C env (s\<lparr>srv_executionAudit := x\<rparr>) impl name a w) = fst (guarded_call C env s impl name a w) \<and>
   w_app (snd (guarded_call C env (s\<lparr>srv_executionAudit := x\<rparr>) impl name a w)) =
     w_app (snd (guarded_call C env s impl name a w)) \<and>
   w_log (snd (guarded_call C env (s\<lparr>srv_executionAudit := x\<rparr>) impl name a w)) =
     w_log (snd (guarded_call C env s impl name a w))"
  unfolding guarded_call_def Let_def run_handler_audit claim_audit
  by (simp split: prod.split option.split outcome.split)

text \<open>
  The execution audit is a side channel only: whichever audit sink is wired, or none, and
  whether its writes fail or not, the response, the effect on the application and the handlers
  run are the same.
\<close>

theorem audit_never_changes_response:
  "fst (mcp_step C (s\<lparr>srv_executionAudit := x\<rparr>) impl e w) = fst (mcp_step C s impl e w) \<and>
   w_app (snd (mcp_step C (s\<lparr>srv_executionAudit := x\<rparr>) impl e w)) = w_app (snd (mcp_step C s impl e w))"
proof -
  have list: "listTools (s\<lparr>srv_executionAudit := x\<rparr>) = listTools s"
  proof -
    have "advertised (s\<lparr>srv_executionAudit := x\<rparr>) = advertised s"
      by (rule ext) (simp add: advertised_def confirmationCompletable_def)
    then show ?thesis by (simp add: listTools_def)
  qed
  have call: "fst (callTool C env (s\<lparr>srv_executionAudit := x\<rparr>) impl ps w) = fst (callTool C env s impl ps w) \<and>
     w_app (snd (callTool C env (s\<lparr>srv_executionAudit := x\<rparr>) impl ps w)) = w_app (snd (callTool C env s impl ps w)) \<and>
     w_log (snd (callTool C env (s\<lparr>srv_executionAudit := x\<rparr>) impl ps w)) = w_log (snd (callTool C env s impl ps w))"
    for env ps
    by (simp add: callTool_def guarded_call_audit split: params.split prod.split)
  obtain q1 v1 q2 v2 where 1: "callTool C (fst e) (s\<lparr>srv_executionAudit := x\<rparr>) impl (rq_Params (snd e)) w = (q1, v1)"
    and 2: "callTool C (fst e) s impl (rq_Params (snd e)) w = (q2, v2)" by (metis surj_pair)
  from call [of "fst e" "rq_Params (snd e)"] 1 2 have "q1 = q2" "w_app v1 = w_app v2" "w_log v1 = w_log v2"
    by simp_all
  with 1 2 list show ?thesis
    by (cases q2) (simp_all add: mcp_step_def Handle_def Let_def)
qed

lemma error_markers_ok: "\<not> list_ex (\<lambda>marker. Contains (ToLower ''internal_error'') marker) error_markers"
  unfolding error_markers_def Contains_def by code_simp

text \<open>
  Tool errors leak nothing technical: the message a client sees is short, contains no storage,
  driver, network or path marker in any case and no bracket, and is either the fixed
  \<open>internal_error\<close> or the trimmed text itself; sanitizing twice changes nothing.
\<close>

theorem sanitized_message_clean:
  "let m = sanitizedToolErrorMessage raw in
     length m \<le> 120 \<and> \<not> list_ex (\<lambda>marker. Contains (ToLower m) marker) error_markers \<and>
     \<not> ContainsAny m ''{}[]'' \<and> (m = ''internal_error'' \<or> m = TrimSpace raw) \<and>
     sanitizedToolErrorMessage m = m"
proof -
  have fixed: "sanitizedToolErrorMessage ''internal_error'' = ''internal_error''" by code_simp
  have "sanitizedToolErrorMessage raw = ''internal_error'' \<or>
    (sanitizedToolErrorMessage raw = TrimSpace raw \<and> length (TrimSpace raw) \<le> 120 \<and>
     \<not> list_ex (\<lambda>marker. Contains (ToLower (TrimSpace raw)) marker) error_markers \<and>
     \<not> ContainsAny (TrimSpace raw) ''{}[]'' \<and>
     sanitizedToolErrorMessage (TrimSpace raw) = TrimSpace raw)"
    by (simp add: sanitizedToolErrorMessage_def Let_def)
  then show ?thesis
    unfolding Let_def using error_markers_ok fixed by (auto simp: ContainsAny_def)
qed

section \<open>Witnesses\<close>

definition ex_server :: Server where
  "ex_server = \<lparr>srv_registry = \<lparr>reg_SchemaVersion = ''tool-registry-v1'', reg_GeneratedAt = [],
       reg_Tools = [ex_write_tool]\<rparr>, srv_agentOps = Some ex_ops, srv_confirmationPrep = Some ex_ops,
     srv_executionAudit = None, srv_role = RoleOperator\<rparr>"

definition ex_env :: call_env where
  "ex_env = \<lparr>ce_rnd = None, ce_issue = 0, ce_attempt = 0, ce_verify = Second, ce_used = Second,
     ce_result = Second, ce_recorded = Second, ce_duration = 0, ce_requestID = []\<rparr>"

definition ex_args :: args where
  "ex_args = [(''confirmation_id'', JNum ''1''), (''confirmation_token'', JStr ''YWJj'')]"

definition ex_request :: Request where
  "ex_request = \<lparr>rq_JSONRPC = ''2.0'', rq_ID = Some ''1'', rq_Method = ''tools/call'', rq_Version = None,
     rq_Params = CallParams \<lparr>tcp_Name = ''add_fund'', tcp_Arguments = Some ex_args, tcp_Tool = [], tcp_Args = None\<rparr>\<rparr>"

definition ex_world :: "nat world" where
  "ex_world = \<lparr>w_agent = snd (ex_prepared (Some [])), w_app = 0, w_log = []\<rparr>"

definition ex_impl :: "nat impl" where
  "ex_impl name a n = (Done JNull, n + 1)"

theorem gated_write_at_most_once_witness:
  "length (filter (\<lambda>(e, r). runs_gated ex_server 1 e r) (zip [(ex_env, ex_request), (ex_env, ex_request)]
     (fst (run_steps (mcp_step ex_crypto ex_server ex_impl) [(ex_env, ex_request), (ex_env, ex_request)] ex_world)))) \<le> 1"
proof -
  have "conf_inv (tables (w_agent ex_world))" by (simp add: ex_world_def ex_prepared_inv)
  from gated_write_at_most_once [OF this surjective_pairing,
    of ex_server 1 "[(ex_env, ex_request), (ex_env, ex_request)]" ex_crypto ex_impl] show ?thesis by (rule order_trans) simp
qed

lemma ex_claim_input:
  "claim_input ex_server ''add_fund'' ex_args = (ex_claim (Some []))\<lparr>cin_ResultSummary := Some
     [(''authorization'', JStr ''claimed'')]\<rparr>" "intArg ex_args ''confirmation_id'' 0 = 1"
  "stringArg ex_args ''confirmation_token'' = ''YWJj''"
  by (simp_all add: claim_input_def ex_args_def ex_claim_def ex_server_def intArg_def stringArg_def boolArg_def
      confirmationPayload_def positive_int_def arg_def is_digit_def in_range_def byte_def digits_val_def digit_val_def)

lemma ex_claim_tool:
  "Lookup (srv_registry ex_server) ''add_fund'' = Some ex_write_tool"
  "cap_Permission (tool_Capability ex_write_tool) = PermissionRequiresConfirmation"
  by code_simp+

lemma ex_claim_ok: "fst (claimWriteConfirmation ex_crypto ex_env ex_server ''add_fund'' ex_args (w_agent ex_world)) = None"
proof -
  have "case fst (ex_prepared (Some [])) of Inr q \<Rightarrow> pre_ConfirmationID q = 1 \<and> pre_Token q = ''YWJj'' \<and>
      pre_ExpiresAt q = 900 * Second | Inl _ \<Rightarrow> False" by code_simp
  from ex_prepared_ok [OF this] obtain q where q:
    "PrepareConfirmation ex_crypto ex_ops (Some ''abc'') 0 0 (ex_prepare (Some [])) (empty_agent []) =
      (Inr q, snd (ex_prepared (Some [])))" "pre_ConfirmationID q = 1" "pre_Token q = ''YWJj''"
    "pre_ExpiresAt q = 900 * Second" by blast
  let ?i = "(ex_claim (Some []))\<lparr>cin_ResultSummary := Some [(''authorization'', JStr ''claimed'')]\<rparr>"
  from prepared_claims [OF q(1) empty_agent_inv ex_prepared_faults, of Second ?i Second Second] q(2-4)
  obtain c d2 where "ClaimConfirmation ex_crypto ex_ops Second Second Second ?i (snd (ex_prepared (Some []))) =
      (Inr c, d2)"
    by (auto simp: ex_prepare_def ex_claim_def identityTooLong_def maxAgentIdentityLength_def Second_def)
  moreover have "srv_agentOps ex_server = Some ex_ops" "ce_verify ex_env = Second" "ce_used ex_env = Second"
    "ce_result ex_env = Second" "w_agent ex_world = snd (ex_prepared (Some []))"
    by (simp_all add: ex_server_def ex_env_def ex_world_def)
  ultimately show ?thesis
    by (simp add: claimWriteConfirmation_def ex_claim_input ex_claim_tool)
qed

theorem handler_runs_behind_gate_witness:
  "snd (fst (mcp_step ex_crypto ex_server ex_impl (ex_env, ex_request) ex_world)) = [(''add_fund'', ex_args)] \<and>
   (\<exists>ops c d1. srv_agentOps ex_server = Some ops \<and>
      ClaimConfirmation ex_crypto ops (ce_verify ex_env) (ce_used ex_env) (ce_result ex_env)
        (claim_input ex_server ''add_fund'' ex_args) (w_agent ex_world) = (Inr c, d1))"
proof -
  let ?s = "mcp_step ex_crypto ex_server ex_impl (ex_env, ex_request) ex_world"
  let ?claim = "claimWriteConfirmation ex_crypto ex_env ex_server ''add_fund'' ex_args (w_agent ex_world)"
  obtain d1 where claim: "?claim = (None, d1)" using ex_claim_ok by (metis prod.collapse)
  have first: "dec_Reason (Authorize (srv_registry ex_server) (call_request ex_server ''add_fund'' ex_args False)) =
      DenyConfirmationRequired"
    "dec_RequiresConfirmation (Authorize (srv_registry ex_server) (call_request ex_server ''add_fund'' ex_args False))"
    and second: "dec_Allowed (Authorize (srv_registry ex_server) (call_request ex_server ''add_fund'' ex_args True))"
    by code_simp+
  have "''add_fund'' \<in> implementedMCPTools" by code_simp
  moreover have "w_log ex_world = []" by (simp add: ex_world_def)
  ultimately have exd: "snd (fst ?s) = [(''add_fund'', ex_args)]"
    using claim first second by (simp add: mcp_step_def Handle_def callTool_def guarded_call_def Let_def ex_request_def call_name_def
        run_handler_def ex_impl_def)
  have s: "?s = ((fst (fst ?s), snd (fst ?s)), snd ?s)" by (simp only: prod.collapse)
  from handler_runs_behind_gate [OF s [unfolded exd]] ex_claim_tool have
    "\<exists>ops c d1. srv_agentOps ex_server = Some ops \<and>
      ClaimConfirmation ex_crypto ops (ce_verify ex_env) (ce_used ex_env) (ce_result ex_env)
        (claim_input ex_server ''add_fund'' ex_args) (w_agent ex_world) = (Inr c, d1)" by simp
  with exd show ?thesis by simp
qed

theorem advertised_executable_witness:
  "''add_fund'' \<in> implementedMCPTools \<and> dec_RequiresConfirmation (Authorize (srv_registry ex_server)
     \<lparr>req_Tool = ''add_fund'', req_Role = RoleOperator, req_Confirmed = False, req_EnforceReviewed = False\<rparr>)"
proof -
  let ?t = "hd (listTools ex_server)"
  have n: "mt_Name ?t = ''add_fund''" and l: "length (listTools ex_server) = 1" by code_simp+
  then have t: "?t \<in> set (listTools ex_server)" by (cases "listTools ex_server") simp_all
  have d: "distinct (map tool_Name (reg_Tools (srv_registry ex_server)))" by (simp add: ex_server_def)
  have no: "\<not> dec_Allowed (Authorize (srv_registry ex_server) \<lparr>req_Tool = ''add_fund'', req_Role = RoleOperator,
      req_Confirmed = False, req_EnforceReviewed = False\<rparr>)"
    "dec_Permission (Authorize (srv_registry ex_server) \<lparr>req_Tool = ''add_fund'', req_Role = RoleOperator,
      req_Confirmed = False, req_EnforceReviewed = False\<rparr>) \<noteq> PermissionDisabled" by code_simp+
  from advertised_executable [OF d t] n no show ?thesis by (simp add: ex_server_def)
qed

end
