(* ===== verification/HttpMcp.thy ===== *)
theory HttpMcp
  imports HttpGuards McpServer
begin

text \<open>
  The MCP endpoint, \<open>src/internal/httpapi/mcp.go\<close>: the bearer guard decides the role of the request,
  a server is built with that role, and the request is handled by it.

  The answers of the two token buckets are arguments, and so is the body as decoded: \<open>None\<close> when it
  is not a request. The request id is the one that the middleware attached.
\<close>

section \<open>The endpoint\<close>

record mcp_config =
  mc_AdminKey :: string
  mc_PublicMCPKey :: string
  mc_oauth :: "(OAuthOptions \<times> signingKey option) option"
  mc_registry :: "Registry option"
  mc_portfolio :: bool
  mc_agentOps :: "AgentService option"

datatype mcp_reply = McpRejected nat string | McpError nat rpc_error | McpAccepted | McpAnswer Response

definition mcpRateLimitKeyFn :: "(string \<Rightarrow> string) \<Rightarrow> http_request \<Rightarrow> string" where
  "mcpRateLimitKeyFn H r = ''mcp:'' @ take 16 (HexEncode (H (bearerToken (header r ''Authorization''))))"

definition mcpPreAuthKeyFn :: "(string \<Rightarrow> nat list option) \<Rightarrow> IPNet list \<Rightarrow> http_request \<Rightarrow> string" where
  "mcpPreAuthKeyFn parse_ip trusted r = ''mcpip:'' @ clientIP parse_ip r trusted"

text \<open>The body of the route, behind the guards.\<close>

definition mcp_handler :: "crypto \<Rightarrow> mcp_config \<Rightarrow> 'app impl \<Rightarrow> call_env \<Rightarrow> string \<Rightarrow> Request option \<Rightarrow> 'app world
    \<Rightarrow> mcp_reply \<times> 'app world" where
  "mcp_handler C cfg impl env role body w =
    (case NewServer None (mc_registry cfg) (mc_portfolio cfg) (mc_agentOps cfg) (mc_agentOps cfg) (mc_agentOps cfg) role of
       None \<Rightarrow> (McpError 500 (jsonrpcError (-32000) ''internal_error''), w)
     | Some server \<Rightarrow>
        (case body of None \<Rightarrow> (McpError 400 (jsonrpcError (-32700) ''parse_error''), w)
         | Some request \<Rightarrow>
            if IsNotification request then (McpAccepted, w)
            else (case Handle C env server impl request w of (r, w') \<Rightarrow> (McpAnswer r, w'))))"

definition mcp_endpoint :: "jwt_lib \<Rightarrow> crypto \<Rightarrow> mcp_config \<Rightarrow> 'app impl \<Rightarrow> call_env \<Rightarrow> time \<Rightarrow> bool \<Rightarrow> bool
    \<Rightarrow> http_request \<Rightarrow> Request option \<Rightarrow> 'app world \<Rightarrow> mcp_reply \<times> 'app world" where
  "mcp_endpoint L C cfg impl env now pre_ok key_ok r body w =
    (if \<not> pre_ok then (McpRejected 429 ''rate_limited'', w)
     else (case MCPAuth L (mc_AdminKey cfg) (mc_PublicMCPKey cfg) (mc_oauth cfg) now r of
       Reject status code \<Rightarrow> (McpRejected status code, w)
     | Admit scope \<Rightarrow>
         if \<not> key_ok then (McpRejected 429 ''rate_limited'', w)
         else mcp_handler C cfg impl env (ma_Role scope) body w))"

section \<open>Who can run what\<close>

lemma MCPAuth_role: "MCPAuth L a p oauthSvc now r = Admit scope \<Longrightarrow> ma_Role scope \<in> {RoleAnalyst, RoleOperator}"
  unfolding MCPAuth_Admit Let_def by auto

lemma mcp_handler_ran:
  assumes "mcp_handler C cfg impl env role body w = (reply, w')" "w_log w' \<noteq> w_log w" "role \<noteq> []"
  shows "\<exists>server request rs. srv_role server = role \<and> mc_registry cfg = Some (srv_registry server) \<and>
    Handle C env server impl request w = (rs, w')"
proof -
  define server where "server registry = \<lparr>srv_registry = registry, srv_agentOps = mc_agentOps cfg,
     srv_confirmationPrep = mc_agentOps cfg, srv_executionAudit = mc_agentOps cfg, srv_role = role\<rparr>" for registry
  from assms obtain registry request rs where
    "mc_registry cfg = Some registry" "Handle C env (server registry) impl request w = (rs, w')"
    by (auto simp: mcp_handler_def NewServer_def server_def split: option.splits if_splits prod.splits)
  then show ?thesis by (intro exI [of _ "server registry"] exI [of _ request] exI [of _ rs]) (simp add: server_def)
qed

text \<open>What an admitted credential is, and what the operator's role takes.\<close>

definition verified_as :: "jwt_lib \<Rightarrow> mcp_config \<Rightarrow> time \<Rightarrow> http_request \<Rightarrow> OAuthOptions \<Rightarrow> AccessToken \<Rightarrow> bool" where
  "verified_as L cfg now r opts v \<longleftrightarrow> (\<exists>key. mc_oauth cfg = Some (opts, key) \<and>
     VerifyAccessToken L key now (bearerToken (header r ''Authorization'')) (resolveOAuthIssuer r opts)
       (Resource opts (resolveOAuthIssuer r opts)) = Inr v)"

lemma MCPAuth_strength:
  assumes "MCPAuth L (mc_AdminKey cfg) (mc_PublicMCPKey cfg) (mc_oauth cfg) now r = Admit scope"
    and "token = bearerToken (header r ''Authorization'')"
  shows "token \<noteq> []"
    and "token \<in> {TrimSpace (mc_AdminKey cfg), TrimSpace (mc_PublicMCPKey cfg)} \<or> (\<exists>opts v. verified_as L cfg now r opts v)"
    and "ma_Role scope = RoleOperator \<Longrightarrow> token = TrimSpace (mc_AdminKey cfg) \<or>
      (\<exists>opts v. verified_as L cfg now r opts v \<and> OAuthScopeWrite \<in> set (at_Scopes v) \<and> oo_AllowWriteScope opts)"
  using assms(1) unfolding MCPAuth_Admit Let_def assms(2) [symmetric] verified_as_def
  by (simp, blast, force split: if_splits)

lemma log_grows:
  assumes "guarded_call C env s impl name a w = (q, w')" "w_log w' \<noteq> w_log w"
  shows "w_log w' = w_log w @ [(name, a)]"
proof -
  from guarded_call_cases [OF assms(1)] assms(2) obtain d1 q1 w1 where
    rh: "run_handler C env s impl name a (w\<lparr>w_agent := d1\<rparr>) = (q1, w1)" and log: "w_log w' = w_log w1" by blast
  from run_handler_cases [OF rh] log assms(2) show ?thesis by auto
qed

lemma analyst_scopes: "RoleAllowsScope RoleAnalyst scope \<longleftrightarrow> scope \<in> {ScopeRead, ScopeExternalContext}"
  by (simp add: RoleAllowsScope_def role_defs)

text \<open>
  C3. Who can run what through \<open>/mcp\<close>: if a request makes a tool's handler run, then it ran once;
  its bearer token is a configured key or a verified access token; and a tool that does more than
  read - one outside the read and external-context scopes - ran only for the administrator's key
  or for an access token with the write scope on a deployment that allows writing.
\<close>

theorem mcp_endpoint_sound:
  assumes "mcp_endpoint L C cfg impl env now pre_ok key_ok r body w = (reply, w')"
    and "w_log w' \<noteq> w_log w"
  shows "\<exists>name a tool registry. w_log w' = w_log w @ [(name, a)] \<and> mc_registry cfg = Some registry \<and>
     Lookup registry name = Some tool \<and> \<not> is_disabled tool \<and>
     (let token = bearerToken (header r ''Authorization''); scope = cap_Scope (tool_Capability tool)
      in token \<noteq> [] \<and>
         (token \<in> {TrimSpace (mc_AdminKey cfg), TrimSpace (mc_PublicMCPKey cfg)} \<or>
            (\<exists>opts v. verified_as L cfg now r opts v)) \<and>
         (scope \<in> {ScopeRead, ScopeExternalContext} \<or> token = TrimSpace (mc_AdminKey cfg) \<or>
            (\<exists>opts v. verified_as L cfg now r opts v \<and> OAuthScopeWrite \<in> set (at_Scopes v) \<and> oo_AllowWriteScope opts)))"
proof -
  from assms obtain scope where auth: "MCPAuth L (mc_AdminKey cfg) (mc_PublicMCPKey cfg) (mc_oauth cfg) now r = Admit scope"
    and h: "mcp_handler C cfg impl env (ma_Role scope) body w = (reply, w')"
    by (auto simp: mcp_endpoint_def split: if_splits guarded.splits)
  have role: "ma_Role scope \<in> {RoleAnalyst, RoleOperator}" using auth by (rule MCPAuth_role)
  then have "ma_Role scope \<noteq> []" by (auto simp: RoleAnalyst_def RoleOperator_def)
  from mcp_handler_ran [OF h assms(2) this] obtain server request rs where
    s: "srv_role server = ma_Role scope" "mc_registry cfg = Some (srv_registry server)"
    and run: "Handle C env server impl request w = (rs, w')" by blast
  obtain name a q where g: "guarded_call C env server impl name a w = (q, w')"
    using Handle_cases [OF run] assms(2) by auto
  from guarded_call_cases [OF g] assms(2) obtain d1 where "passed_gate C env server name a (w_agent w) d1" by blast
  then obtain tool c where tool: "Lookup (srv_registry server) name = Some tool"
    and ok: "permitted tool \<lparr>req_Tool = name, req_Role = srv_role server, req_Confirmed = c,
      req_EnforceReviewed = boolArg a ''enforce_reviewed'' False\<rparr>"
    unfolding passed_gate_def by blast
  from ok have live: "\<not> is_disabled tool" and scope: "RoleAllowsScope (ma_Role scope) (cap_Scope (tool_Capability tool))"
    by (simp_all add: permitted_def s(1))
  have more: "cap_Scope (tool_Capability tool) \<in> {ScopeRead, ScopeExternalContext} \<or> ma_Role scope = RoleOperator"
  proof (cases "ma_Role scope = RoleOperator")
    case False
    with role have "ma_Role scope = RoleAnalyst" by blast
    with scope have "RoleAllowsScope RoleAnalyst (cap_Scope (tool_Capability tool))" by simp
    then show ?thesis unfolding analyst_scopes by (rule disjI1)
  qed simp
  note cred = MCPAuth_strength [OF auth refl]
  have strong: "cap_Scope (tool_Capability tool) \<in> {ScopeRead, ScopeExternalContext} \<or>
      bearerToken (header r ''Authorization'') = TrimSpace (mc_AdminKey cfg) \<or>
      (\<exists>opts v. verified_as L cfg now r opts v \<and> OAuthScopeWrite \<in> set (at_Scopes v) \<and> oo_AllowWriteScope opts)"
    using more cred(3) by (elim disjE) (simp_all only: simp_thms)
  show ?thesis unfolding Let_def
    by (intro exI [of _ name] exI [of _ a] exI [of _ tool] exI [of _ "srv_registry server"] conjI
        log_grows [OF g assms(2)] s(2) tool live cred(1,2) strong)
qed

section \<open>Witness\<close>

text \<open>A write with the administrator's key, of a tool that needs no confirmation, on a server without agent service.\<close>

definition ex_lib :: jwt_lib where
  "ex_lib = \<lparr>jl_sha = (\<lambda>s. s), jl_sign = (\<lambda>_ _ _. None), jl_verify = (\<lambda>_ _ _. False), jl_header = (\<lambda>_. None),
     jl_claims = (\<lambda>_. None), jl_public = (\<lambda>_. (0, 0)), jl_parse_pem = (\<lambda>_. None), jl_encode_pem = (\<lambda>s. s)\<rparr>"

definition ex_mcp :: mcp_config where
  "ex_mcp = \<lparr>mc_AdminKey = ''k'', mc_PublicMCPKey = [], mc_oauth = None,
     mc_registry = Some \<lparr>reg_SchemaVersion = ''tool-registry-v1'', reg_GeneratedAt = [],
       reg_Tools = [(disabledBoundaryTool ''add_fund'' ''d'')\<lparr>tool_Capability := \<lparr>cap_Tool = ''add_fund'',
         cap_Scope = ScopeWrite, cap_Permission = PermissionAllowed, cap_RiskLevel = ''high'', cap_UseFor = ''d''\<rparr>\<rparr>]\<rparr>,
     mc_portfolio = True, mc_agentOps = None\<rparr>"

definition ex_post :: http_request where
  "ex_post = \<lparr>hr_Method = ''POST'', hr_Path = ''/mcp'', hr_Headers = [(''Authorization'', ''Bearer k'')],
     hr_Cookies = [], hr_Host = [], hr_TLS = False, hr_RemoteAddr = []\<rparr>"

definition ex_mcp_world :: "nat world" where
  "ex_mcp_world = \<lparr>w_agent = empty_agent [], w_app = 0, w_log = []\<rparr>"

theorem mcp_endpoint_sound_witness:
  "w_log (snd (mcp_endpoint ex_lib ex_crypto ex_mcp ex_impl McpServer.ex_env 0 True True ex_post (Some ex_request)
      ex_mcp_world)) = [(''add_fund'', ex_args)] \<and>
   bearerToken (header ex_post ''Authorization'') \<noteq> [] \<and>
   (\<exists>tool registry. mc_registry ex_mcp = Some registry \<and> Lookup registry ''add_fund'' = Some tool \<and> \<not> is_disabled tool)"
proof -
  let ?e = "mcp_endpoint ex_lib ex_crypto ex_mcp ex_impl McpServer.ex_env 0 True True ex_post (Some ex_request) ex_mcp_world"
  have ran: "w_log (snd ?e) = [(''add_fund'', ex_args)]" by code_simp
  have start: "w_log ex_mcp_world = []" by (simp add: ex_mcp_world_def)
  from ran start have "w_log (snd ?e) \<noteq> w_log ex_mcp_world" by simp
  from mcp_endpoint_sound [OF surjective_pairing this] obtain name a tool registry where
    "w_log (snd ?e) = w_log ex_mcp_world @ [(name, a)]" "mc_registry ex_mcp = Some registry"
    "Lookup registry name = Some tool" "\<not> is_disabled tool" "bearerToken (header ex_post ''Authorization'') \<noteq> []"
    unfolding Let_def by blast
  with ran start show ?thesis by auto
qed

end
