(* ===== verification/Runes.thy ===== *)
theory Runes
  imports GoText
begin

text \<open>
  Runes of a text, as Go decodes UTF-8, and \<open>textutil.Clamp\<close> (\<open>src/internal/textutil\<close>), which bounds
  free text by runes. Each byte of an invalid encoding is the rune U+FFFD.
\<close>

definition cont :: "nat \<Rightarrow> nat \<Rightarrow> char \<Rightarrow> bool" where
  "cont lo hi c \<longleftrightarrow> lo \<le> of_char c \<and> of_char c \<le> hi"

definition low6 :: "char \<Rightarrow> nat" where "low6 c = of_char c mod 64"

text \<open>The range of the second byte, by the first.\<close>

definition second_range :: "nat \<Rightarrow> nat \<times> nat" where
  "second_range b = (if b = 0xE0 then (0xA0, 0xBF) else if b = 0xED then (0x80, 0x9F)
     else if b = 0xF0 then (0x90, 0xBF) else if b = 0xF4 then (0x80, 0x8F) else (0x80, 0xBF))"

text \<open>\<open>utf8.DecodeRuneInString\<close> of a text that is not empty: the rune and its width.\<close>

fun decode_rune :: "char \<Rightarrow> string \<Rightarrow> nat \<times> nat" where
  "decode_rune c cs =
    (let b = of_char c; (lo, hi) = second_range b; bad = (0xFFFD, 1) in
     if b < 0x80 then (b, 1)
     else if b < 0xC2 \<or> 0xF4 < b then bad
     else if b < 0xE0 then
       (case cs of d # _ \<Rightarrow> if cont lo hi d then ((b mod 32) * 64 + low6 d, 2) else bad | _ \<Rightarrow> bad)
     else if b < 0xF0 then
       (case cs of d # e # _ \<Rightarrow> if cont lo hi d \<and> cont 0x80 0xBF e
            then ((b mod 16) * 4096 + low6 d * 64 + low6 e, 3) else bad | _ \<Rightarrow> bad)
     else
       (case cs of d # e # f # _ \<Rightarrow> if cont lo hi d \<and> cont 0x80 0xBF e \<and> cont 0x80 0xBF f
            then ((b mod 8) * 262144 + low6 d * 4096 + low6 e * 64 + low6 f, 4) else bad | _ \<Rightarrow> bad))"

declare decode_rune.simps [simp del]

function runes :: "string \<Rightarrow> nat list" where
  "runes [] = []"
| "runes (c # cs) = (case decode_rune c cs of (r, n) \<Rightarrow> r # runes (drop (n - 1) cs))"
  by pat_completeness auto
termination by (relation "measure length") auto

definition encode_rune :: "nat \<Rightarrow> string" where
  "encode_rune r = map byte
    (if r < 0x80 then [r]
     else if r < 0x800 then [0xC0 + r div 64, 0x80 + r mod 64]
     else if r < 0x10000 then [0xE0 + r div 4096, 0x80 + r div 64 mod 64, 0x80 + r mod 64]
     else [0xF0 + r div 262144, 0x80 + r div 4096 mod 64, 0x80 + r div 64 mod 64, 0x80 + r mod 64])"

definition Clamp :: "string \<Rightarrow> int \<Rightarrow> string" where
  "Clamp s0 limit =
    (let s = TrimSpace s0 in
     if limit \<le> 0 \<or> int (length s) \<le> limit then s
     else (let rs = runes s in
       if int (length rs) > limit then concat (map encode_rune (take (nat limit) rs)) else s))"

lemma Clamp_examples:
  "Clamp (''  ab '') 10 = ''ab''"
  "Clamp (map byte [0xE5, 0x9F, 0xBA, 0xE5, 0x9F, 0xBA, 0xE5, 0x9F, 0xBA]) 2 =
     map byte [0xE5, 0x9F, 0xBA, 0xE5, 0x9F, 0xBA]"
  "runes (map byte [0xE5, 0x41]) = [0xFFFD, 0x41]"
  by code_simp+

lemma length_runes: "length (runes s) \<le> length s"
proof (induction s rule: runes.induct)
  case (2 c cs)
  obtain r n where d: "decode_rune c cs = (r, n)" by (metis surj_pair)
  have "length (runes (drop (n - 1) cs)) \<le> length (drop (n - 1) cs)" using 2 d by simp
  also have "\<dots> \<le> length cs" by simp
  finally show ?case by (simp add: d)
qed simp

lemma Clamp_short: "int (length (TrimSpace s)) \<le> limit \<Longrightarrow> Clamp s limit = TrimSpace s"
  by (simp add: Clamp_def Let_def)

text \<open>A text without a byte of a space is trimmed.\<close>

lemma leading_plain:
  assumes "list_all P s" "list_all (list_all (\<lambda>c. \<not> P c)) seqs"
  shows "leading seqs s = None"
proof -
  have "\<not> prefix (c # p) s" if "c # p \<in> set seqs" for c p
  proof
    assume "prefix (c # p) s"
    then have "c \<in> set s" by (auto simp: prefix_def)
    with that assms show False by (auto simp: list_all_iff)
  qed
  then have "\<not> (p \<noteq> [] \<and> prefix p s)" if "p \<in> set seqs" for p using that by (cases p) auto
  then show ?thesis by (simp add: leading_def find_None_iff)
qed

lemma TrimSpace_plain:
  assumes "list_all P s" and seqs: "list_all (list_all (\<lambda>c. \<not> P c)) space_seqs"
  shows "TrimSpace s = s"
proof -
  from seqs have "list_all (list_all (\<lambda>c. \<not> P c)) (map rev space_seqs)" by (simp add: list_all_iff)
  with leading_plain [OF assms(1) seqs] leading_plain [of P "rev s" "map rev space_seqs"] assms(1)
  show ?thesis by (simp add: TrimSpace_def strip_right_def strip_left_fix list_all_iff)
qed

text \<open>\<open>strings.ToUpper\<close> on the ASCII letters; other runes are left as they are.\<close>

definition ToUpper :: "string \<Rightarrow> string" where
  "ToUpper s = map (\<lambda>c. if is_lower c then byte (of_char c - 32) else c) s"

lemma length_ToUpper [simp]: "length (ToUpper s) = length s"
  by (simp add: ToUpper_def)

end
