(* ===== verification/Config.thy ===== *)
theory Config
  imports HttpMcp Runes
begin

text \<open>
  The configuration of the server, \<open>src/internal/config/config.go\<close>, and what \<open>src/internal/app/app.go\<close>
  hands on: the environment with its defaults, the checks of a deployment that is open to the
  network, and the redacted view.

  \<open>time.ParseDuration\<close>, \<open>url.Parse\<close>, \<open>net.ParseIP\<close> and \<open>net.ParseCIDR\<close> are arguments. Warnings in the log
  are not modelled.
\<close>

section \<open>Text helpers of the parser\<close>

definition Atoi :: "string \<Rightarrow> int option" where
  "Atoi s =
    (let neg = HasPrefix s ''-''; ds = (if neg \<or> HasPrefix s ''+'' then tl s else s); n = int (digits_val ds);
         v = (if neg then - n else n)
     in if ds \<noteq> [] \<and> list_all is_digit ds \<and> - (2 ^ 63) \<le> v \<and> v < 2 ^ 63 then Some v else None)"

text \<open>\<open>strings.Cut\<close> with a longer separator.\<close>

fun cut_text :: "string \<Rightarrow> string \<Rightarrow> (string \<times> string) option" where
  "cut_text sep s = (if prefix sep s then Some ([], drop (length sep) s)
     else (case s of [] \<Rightarrow> None | c # cs \<Rightarrow> map_option (\<lambda>(a, b). (c # a, b)) (cut_text sep cs)))"

declare cut_text.simps [simp del]

definition TrimChar :: "char \<Rightarrow> string \<Rightarrow> string" where
  "TrimChar c s = TrimRightChar c (dropWhile (\<lambda>x. x = c) s)"

section \<open>The parts of the environment\<close>

type_synonym env = "string \<rightharpoonup> string"

record config_lib =
  cl_duration :: "string \<Rightarrow> duration option"
  cl_url :: "string \<Rightarrow> URL option"
  cl_ip :: "string \<Rightarrow> nat list option"
  cl_ip_text :: "nat list \<Rightarrow> string"
  cl_cidr :: "string \<Rightarrow> IPNet option"

definition valueOrDefault :: "string \<Rightarrow> string \<Rightarrow> string" where
  "valueOrDefault value fallback = (if TrimSpace value = [] then fallback else value)"

definition parseBoolValue :: "string \<Rightarrow> bool \<times> bool" where
  "parseBoolValue value =
    (let v = ToLower (TrimSpace value) in
     if v \<in> {''1'', ''true'', ''yes'', ''on'', ''enabled''} then (True, True)
     else if v \<in> {[], ''0'', ''false'', ''no'', ''off'', ''disabled''} then (False, True) else (False, False))"

definition parseBoolEnv :: "string \<Rightarrow> bool" where "parseBoolEnv value = fst (parseBoolValue value)"

definition parseBoolEnvDefault :: "string \<Rightarrow> bool \<Rightarrow> bool" where
  "parseBoolEnvDefault value fallback = (if TrimSpace value = [] then fallback else parseBoolEnv value)"

definition parseDurationEnv :: "config_lib \<Rightarrow> string \<Rightarrow> duration \<Rightarrow> duration" where
  "parseDurationEnv L value fallback =
    (let t = TrimSpace value in
     if t = [] then fallback
     else (case cl_duration L t of None \<Rightarrow> fallback | Some d \<Rightarrow> if d \<le> 0 then fallback else d))"

definition parseRPM :: "string \<Rightarrow> int \<Rightarrow> int" where
  "parseRPM value fallback =
    (let t = TrimSpace value in
     if t = [] then fallback
     else (case Atoi t of None \<Rightarrow> fallback | Some n \<Rightarrow> if n \<le> 0 then fallback else n))"

text \<open>One part of the list: a network, or an address made one; anything else is dropped.\<close>

definition proxy_net :: "config_lib \<Rightarrow> string \<Rightarrow> IPNet option" where
  "proxy_net L part = (case cl_cidr L part of Some n \<Rightarrow> Some n
     | None \<Rightarrow> (case cl_ip L part of None \<Rightarrow> None
        | Some ip \<Rightarrow>
           (case (case To4 ip of None \<Rightarrow> None | Some _ \<Rightarrow> cl_cidr L (cl_ip_text L ip @ ''/32'')) of Some n \<Rightarrow> Some n
            | None \<Rightarrow> cl_cidr L (cl_ip_text L ip @ ''/128''))))"

definition parseTrustedProxies :: "config_lib \<Rightarrow> string \<Rightarrow> IPNet list" where
  "parseTrustedProxies L value = (if TrimSpace value = [] then []
     else List.map_filter (\<lambda>part. let t = TrimSpace part in if t = [] then None else proxy_net L t) (Split CHR '','' value))"

definition parseOrigins :: "string \<Rightarrow> string list" where
  "parseOrigins value = (if TrimSpace value = [] then [''http://localhost:5173'', ''http://127.0.0.1:5173'']
     else filter (\<lambda>p. p \<noteq> []) (map TrimSpace (Split CHR '','' value)))"

definition cimd_host :: "string \<Rightarrow> string" where
  "cimd_host part = TrimChar CHR ''/'' (TrimPrefix (TrimPrefix (ToLower (TrimSpace part)) ''https://'') ''http://'')"

definition parseCIMDHosts :: "string \<Rightarrow> string list" where
  "parseCIMDHosts value = (if TrimSpace value = [] then []
     else filter (\<lambda>h. h \<noteq> []) (map cimd_host (Split CHR '','' value)))"

text \<open>The first origin that qualifies.\<close>

definition origin_base1 :: "string \<Rightarrow> string option" where
  "origin_base1 origin =
    (let t = TrimSpace origin in
     if t = [] \<or> \<not> HasPrefix t ''https://'' \<and> \<not> HasPrefix t ''http://'' then None
     else (case cut_text ''://'' t of None \<Rightarrow> None
       | Some (scheme, rest) \<Rightarrow>
          (let host = takeWhile (\<lambda>c. c \<notin> {CHR ''/'', CHR ''?'', CHR ''#''}) rest;
               host = (if HasSuffix host '':'' then butlast host else host)
           in if host = [] \<or> ContainsAny host (CHR '' '' # byte 9 # ''@'') then None
              else Some (scheme @ ''://'' @ host))))"

definition originBase :: "string list \<Rightarrow> string" where
  "originBase origins = (case List.map_filter origin_base1 origins of [] \<Rightarrow> [] | b # _ \<Rightarrow> b)"

section \<open>The configuration\<close>

record Config =
  cf_Addr :: string
  cf_DBDriver :: string
  cf_DBPath :: string
  cf_PGDSN :: string
  cf_StaticDir :: string
  cf_BackupDir :: string
  cf_ServiceName :: string
  cf_Version :: string
  cf_Environment :: string
  cf_AdminKey :: string
  cf_PublicMCPKey :: string
  cf_EdgeKey :: string
  cf_AgentOpsEnabled :: bool
  cf_AgentConfirmationSecret :: string
  cf_AuthPasswordHash :: string
  cf_AuthSessionTTL :: duration
  cf_AuthSessionMaxAge :: duration
  cf_AuthSecureCookie :: bool
  cf_EdgeAuthEnabled :: bool
  cf_AllowedOrigins :: "string list"
  cf_APIRPM :: int
  cf_MCPRPM :: int
  cf_MCPPreAuthRPM :: int
  cf_OAuthRPM :: int
  cf_OAuthEnabled :: bool
  cf_OAuthPublicBaseURL :: string
  cf_OAuthSigningKey :: string
  cf_OAuthAccessTTL :: duration
  cf_OAuthRefreshTTL :: duration
  cf_OAuthCodeTTL :: duration
  cf_OAuthAutoApprove :: bool
  cf_OAuthAllowWriteScope :: bool
  cf_OAuthCIMDHosts :: "string list"
  cf_TrustedProxies :: "IPNet list"
  cf_raw :: env

datatype config_error = BackupProducer | AgentSecretMissing | SecretEmpty string | SecretShort string
  | SecretPlaceholder string | PublicKeyIsAdminKey | IssuerMissing | IssuerNotHttps string

definition var :: "env \<Rightarrow> string \<Rightarrow> string" where "var env k = mget env k []"

text \<open>The struct literal of \<open>Parse\<close>.\<close>

definition parse_env :: "config_lib \<Rightarrow> env \<Rightarrow> Config" where
  "parse_env L env = \<lparr>
     cf_Addr = valueOrDefault (var env ''FUND_HTTP_ADDR'') ''127.0.0.1:8765'',
     cf_DBDriver = ToLower (TrimSpace (var env ''FUND_DB_DRIVER'')),
     cf_DBPath = valueOrDefault (valueOrDefault (var env ''FUND_DB_PATH'') (var env ''DB_PATH'')) ''data/fund.db'',
     cf_PGDSN = TrimSpace (var env ''FUND_PG_DSN''),
     cf_StaticDir = valueOrDefault (var env ''FUND_STATIC_DIR'') (var env ''WEB_ROOT''),
     cf_BackupDir = valueOrDefault (var env ''FUND_BACKUP_DIR'') (var env ''BACKUP_DIR''),
     cf_ServiceName = valueOrDefault (var env ''FUND_SERVICE_NAME'') ''fund-dashboard-go'',
     cf_Version = valueOrDefault (var env ''FUND_VERSION'') ''dev'',
     cf_Environment = valueOrDefault (var env ''FUND_ENV'') ''development'',
     cf_AdminKey = TrimSpace (var env ''MCP_API_KEY''),
     cf_PublicMCPKey = TrimSpace (var env ''PUBLIC_MCP_KEY''),
     cf_EdgeKey = TrimSpace (var env ''FUND_EDGE_KEY''),
     cf_AgentOpsEnabled = parseBoolEnv (var env ''FUND_AGENT_OPS_ENABLED''),
     cf_AgentConfirmationSecret = [],
     cf_AuthPasswordHash = TrimSpace (var env ''FUND_AUTH_PASSWORD_HASH''),
     cf_AuthSessionTTL = parseDurationEnv L (var env ''FUND_AUTH_SESSION_TTL'') (720 * Hour),
     cf_AuthSessionMaxAge = parseDurationEnv L (var env ''FUND_AUTH_SESSION_MAX_AGE'') (2160 * Hour),
     cf_AuthSecureCookie = parseBoolEnvDefault (var env ''FUND_AUTH_SECURE_COOKIE'') True,
     cf_EdgeAuthEnabled = parseBoolEnvDefault (var env ''FUND_EDGE_AUTH_ENABLED'') False,
     cf_AllowedOrigins = parseOrigins (var env ''FUND_ALLOWED_ORIGINS''),
     cf_APIRPM = parseRPM (var env ''FUND_API_RPM'') 600,
     cf_MCPRPM = parseRPM (var env ''FUND_MCP_RPM'') 120,
     cf_MCPPreAuthRPM = parseRPM (var env ''FUND_MCP_PREAUTH_RPM'') 600,
     cf_OAuthRPM = parseRPM (var env ''FUND_OAUTH_RPM'') 60,
     cf_OAuthEnabled = parseBoolEnvDefault (var env ''FUND_OAUTH_ENABLED'') True,
     cf_OAuthPublicBaseURL = TrimRightChar CHR ''/'' (TrimSpace (var env ''FUND_PUBLIC_BASE_URL'')),
     cf_OAuthSigningKey = TrimSpace (var env ''FUND_OAUTH_SIGNING_KEY''),
     cf_OAuthAccessTTL = parseDurationEnv L (var env ''FUND_OAUTH_ACCESS_TTL'') Hour,
     cf_OAuthRefreshTTL = parseDurationEnv L (var env ''FUND_OAUTH_REFRESH_TTL'') (720 * Hour),
     cf_OAuthCodeTTL = parseDurationEnv L (var env ''FUND_OAUTH_CODE_TTL'') (60 * Second),
     cf_OAuthAutoApprove = parseBoolEnvDefault (var env ''FUND_OAUTH_AUTO_APPROVE'') True,
     cf_OAuthAllowWriteScope = parseBoolEnv (var env ''FUND_OAUTH_ALLOW_WRITE_SCOPE''),
     cf_OAuthCIMDHosts = parseCIMDHosts (var env ''FUND_OAUTH_CIMD_HOSTS''),
     cf_TrustedProxies = parseTrustedProxies L (var env ''FUND_TRUSTED_PROXIES''),
     cf_raw = env\<rparr>"

definition isProductionEnv :: "string \<Rightarrow> bool" where
  "isProductionEnv e \<longleftrightarrow> ToLower (TrimSpace e) \<in> {''production'', ''prod''}"

definition hostIsNonLoopback :: "config_lib \<Rightarrow> string \<Rightarrow> bool" where
  "hostIsNonLoopback L raw0 =
    (let raw = TrimSpace raw0 in
     if raw = [] then False
     else (case cut_text ''://'' raw of None \<Rightarrow> False
       | Some (scheme, _) \<Rightarrow>
          if scheme \<noteq> ''http'' \<and> scheme \<noteq> ''https'' then False
          else (case cl_url L raw of None \<Rightarrow> False
            | Some u \<Rightarrow>
               if url_Host u = [] then False
               else (let host = ToLower (Hostname u) in
                 if host = [] \<or> host = ''localhost'' then False
                 else (case cl_ip L host of Some ip \<Rightarrow> \<not> IsLoopback ip | None \<Rightarrow> True)))))"

definition needsProductionHardening :: "config_lib \<Rightarrow> Config \<Rightarrow> bool" where
  "needsProductionHardening L cfg \<longleftrightarrow> isProductionEnv (cf_Environment cfg) \<or>
     hostIsNonLoopback L (cf_OAuthPublicBaseURL cfg) \<or> list_ex (hostIsNonLoopback L) (cf_AllowedOrigins cfg)"

definition requireStrongSecret :: "string \<Rightarrow> string \<Rightarrow> config_error option" where
  "requireStrongSecret name value =
    (if value = [] then Some (SecretEmpty name)
     else if length value < 16 then Some (SecretShort name)
     else if ToLower value \<in> {''change-me'', ''ci-test-key''} then Some (SecretPlaceholder name) else None)"

text \<open>The checks in their order; the first that fails is the answer.\<close>

fun first_error :: "config_error option list \<Rightarrow> config_error option" where
  "first_error [] = None"
| "first_error (e # es) = (case e of None \<Rightarrow> first_error es | Some x \<Rightarrow> Some x)"

definition validateProductionSecrets :: "Config \<Rightarrow> config_error option" where
  "validateProductionSecrets cfg = first_error
    [requireStrongSecret ''MCP_API_KEY'' (cf_AdminKey cfg),
     if cf_EdgeAuthEnabled cfg then requireStrongSecret ''FUND_EDGE_KEY'' (cf_EdgeKey cfg) else None,
     if cf_PublicMCPKey cfg \<noteq> [] then requireStrongSecret ''PUBLIC_MCP_KEY'' (cf_PublicMCPKey cfg) else None,
     if cf_PublicMCPKey cfg \<noteq> [] \<and> same_secret (cf_PublicMCPKey cfg) (cf_AdminKey cfg) then Some PublicKeyIsAdminKey else None,
     if cf_AgentOpsEnabled cfg then requireStrongSecret ''FUND_AGENT_CONFIRMATION_SECRET'' (cf_AgentConfirmationSecret cfg)
     else None,
     if cf_OAuthEnabled cfg \<and> cf_OAuthPublicBaseURL cfg = [] then Some IssuerMissing else None,
     if cf_OAuthEnabled cfg \<and> \<not> HasPrefix (cf_OAuthPublicBaseURL cfg) ''https://''
     then Some (IssuerNotHttps (cf_OAuthPublicBaseURL cfg)) else None]"

definition with_agent_secret :: "env \<Rightarrow> Config \<Rightarrow> Config" where
  "with_agent_secret env cfg = (if cf_AgentOpsEnabled cfg
     then cfg\<lparr>cf_AgentConfirmationSecret := TrimSpace (var env ''FUND_AGENT_CONFIRMATION_SECRET'')\<rparr> else cfg)"

definition with_issuer :: "Config \<Rightarrow> Config" where
  "with_issuer cfg = (if cf_OAuthEnabled cfg \<and> cf_OAuthPublicBaseURL cfg = [] \<and> originBase (cf_AllowedOrigins cfg) \<noteq> []
     then cfg\<lparr>cf_OAuthPublicBaseURL := originBase (cf_AllowedOrigins cfg)\<rparr> else cfg)"

definition Parse :: "config_lib \<Rightarrow> env \<Rightarrow> config_error + Config" where
  "Parse L env =
    (let cfg = with_agent_secret env (parse_env L env) in
     if parseBoolEnv (var env ''FUND_BACKUP_PRODUCER_ENABLED'') then Inl BackupProducer
     else if cf_AgentOpsEnabled cfg \<and> cf_AgentConfirmationSecret cfg = [] then Inl AgentSecretMissing
     else (let cfg = with_issuer cfg in
       if needsProductionHardening L cfg
       then (case validateProductionSecrets cfg of Some e \<Rightarrow> Inl e | None \<Rightarrow> Inr cfg)
       else Inr cfg))"

section \<open>The redacted view\<close>

definition isSecretKey :: "string \<Rightarrow> bool" where
  "isSecretKey key \<longleftrightarrow> list_ex (Contains (ToUpper key)) [''SECRET'', ''TOKEN'', ''KEY'', ''PASSWORD'', ''DATABASE_URL'', ''DSN'']"

definition shown_vars :: "Config \<Rightarrow> (string \<times> string) list" where
  "shown_vars c = [(''FUND_HTTP_ADDR'', cf_Addr c), (''FUND_DB_DRIVER'', cf_DBDriver c), (''FUND_DB_PATH'', cf_DBPath c),
     (''FUND_STATIC_DIR'', cf_StaticDir c), (''FUND_BACKUP_DIR'', cf_BackupDir c), (''FUND_SERVICE_NAME'', cf_ServiceName c),
     (''FUND_VERSION'', cf_Version c), (''FUND_ENV'', cf_Environment c), (''FUND_BACKUP_PRODUCER_ENABLED'', ''false''),
     (''FUND_AGENT_OPS_ENABLED'', if cf_AgentOpsEnabled c then ''true'' else ''false'')]"

definition Redacted :: "Config \<Rightarrow> env" where
  "Redacted c = (\<lambda>k. map_option (\<lambda>v. if isSecretKey k then ''[redacted]'' else v)
     ((cf_raw c ++ map_of ((''FUND_PG_DSN'', cf_PGDSN c) # shown_vars c)) k))"

section \<open>Wiring\<close>

definition oauth_options :: "Config \<Rightarrow> OAuthOptions" where
  "oauth_options cfg = withDefaults \<lparr>oo_PublicBaseURL = cf_OAuthPublicBaseURL cfg, oo_ResourcePath = [],
     oo_SigningKeyPEM = cf_OAuthSigningKey cfg, oo_AccessTTL = cf_OAuthAccessTTL cfg,
     oo_RefreshTTL = cf_OAuthRefreshTTL cfg, oo_CodeTTL = cf_OAuthCodeTTL cfg, oo_AutoApprove = cf_OAuthAutoApprove cfg,
     oo_AllowWriteScope = cf_OAuthAllowWriteScope cfg, oo_CIMDHosts = cf_OAuthCIMDHosts cfg\<rparr>"

definition auth_options :: "Config \<Rightarrow> Options" where
  "auth_options cfg = \<lparr>opt_EnvHash = cf_AuthPasswordHash cfg, opt_TTL = cf_AuthSessionTTL cfg,
     opt_MaxAge = cf_AuthSessionMaxAge cfg\<rparr>"

definition resolveDriver :: "Config \<Rightarrow> string" where
  "resolveDriver cfg = (if cf_DBDriver cfg \<noteq> [] then cf_DBDriver cfg else if cf_PGDSN cfg \<noteq> [] then ''pg'' else ''sqlite'')"

text \<open>The guard of \<open>/mcp\<close> as the server mounts it.\<close>

definition mounted_mcp_auth :: "jwt_lib \<Rightarrow> Config \<Rightarrow> signingKey option \<Rightarrow> time \<Rightarrow> http_request \<Rightarrow> mcpAuthScope guarded" where
  "mounted_mcp_auth L cfg key now r = MCPAuth L (cf_AdminKey cfg) (cf_PublicMCPKey cfg)
     (if cf_OAuthEnabled cfg then Some (oauth_options cfg, key) else None) now r"


section \<open>Every configuration is in range\<close>

lemma parseDurationEnv_pos: "0 < fallback \<Longrightarrow> 0 < parseDurationEnv L value fallback"
  by (simp add: parseDurationEnv_def Let_def split: option.split)

lemma parseRPM_pos: "0 < fallback \<Longrightarrow> 0 < parseRPM value fallback"
  by (simp add: parseRPM_def Let_def split: option.split)

lemma Parse_InrD:
  assumes "Parse L env = Inr cfg"
  shows "cfg = with_issuer (with_agent_secret env (parse_env L env))"
    "cf_AgentOpsEnabled cfg \<Longrightarrow> cf_AgentConfirmationSecret cfg \<noteq> []"
    "needsProductionHardening L cfg \<Longrightarrow> validateProductionSecrets cfg = None"
    "\<not> parseBoolEnv (var env ''FUND_BACKUP_PRODUCER_ENABLED'')"
  using assms by (auto simp: Parse_def Let_def with_issuer_def split: if_splits option.splits)

lemma config_frame [simp]:
  "cf_AdminKey (with_issuer (with_agent_secret env c)) = cf_AdminKey c"
  "cf_PublicMCPKey (with_issuer (with_agent_secret env c)) = cf_PublicMCPKey c"
  "cf_AuthSessionTTL (with_issuer (with_agent_secret env c)) = cf_AuthSessionTTL c"
  "cf_AuthSessionMaxAge (with_issuer (with_agent_secret env c)) = cf_AuthSessionMaxAge c"
  "cf_OAuthAccessTTL (with_issuer (with_agent_secret env c)) = cf_OAuthAccessTTL c"
  "cf_OAuthRefreshTTL (with_issuer (with_agent_secret env c)) = cf_OAuthRefreshTTL c"
  "cf_OAuthCodeTTL (with_issuer (with_agent_secret env c)) = cf_OAuthCodeTTL c"
  "cf_APIRPM (with_issuer (with_agent_secret env c)) = cf_APIRPM c"
  "cf_MCPRPM (with_issuer (with_agent_secret env c)) = cf_MCPRPM c"
  "cf_MCPPreAuthRPM (with_issuer (with_agent_secret env c)) = cf_MCPPreAuthRPM c"
  "cf_OAuthRPM (with_issuer (with_agent_secret env c)) = cf_OAuthRPM c"
  "cf_AllowedOrigins (with_issuer (with_agent_secret env c)) = cf_AllowedOrigins c"
  "cf_raw (with_issuer (with_agent_secret env c)) = cf_raw c"
  by (simp_all add: with_issuer_def with_agent_secret_def)

lemma config_ranges:
  assumes "Parse L env = Inr cfg"
  shows "0 < cf_AuthSessionTTL cfg" "0 < cf_AuthSessionMaxAge cfg" "0 < cf_OAuthAccessTTL cfg" "0 < cf_OAuthRefreshTTL cfg"
    "0 < cf_OAuthCodeTTL cfg" "0 < cf_APIRPM cfg" "0 < cf_MCPRPM cfg" "0 < cf_MCPPreAuthRPM cfg" "0 < cf_OAuthRPM cfg"
  unfolding Parse_InrD(1) [OF assms] config_frame
  by (simp_all add: parse_env_def parseDurationEnv_pos parseRPM_pos duration_defs)

lemma auth_service_lifetimes:
  assumes "Parse L env = Inr cfg"
  shows "maxAge (NewService (auth_options cfg)) = cf_AuthSessionMaxAge cfg"
    "ttl (NewService (auth_options cfg)) = min (cf_AuthSessionTTL cfg) (cf_AuthSessionMaxAge cfg)"
  using config_ranges [OF assms] by (simp_all add: NewService_def auth_options_def Let_def min_def)

section \<open>A deployment that is open to the network\<close>

lemma first_error_None: "first_error es = None \<longleftrightarrow> (\<forall>e \<in> set es. e = None)"
  by (induction es) (auto split: option.splits)

lemma requireStrongSecret_None:
  "requireStrongSecret name value = None \<longleftrightarrow> 16 \<le> length value \<and> ToLower value \<notin> {''change-me'', ''ci-test-key''}"
  by (auto simp: requireStrongSecret_def)

lemma hardened_secrets:
  assumes "validateProductionSecrets cfg = None"
  shows "16 \<le> length (cf_AdminKey cfg)" "cf_PublicMCPKey cfg \<noteq> [] \<Longrightarrow> 16 \<le> length (cf_PublicMCPKey cfg)"
    "cf_PublicMCPKey cfg \<noteq> cf_AdminKey cfg" "cf_EdgeAuthEnabled cfg \<Longrightarrow> 16 \<le> length (cf_EdgeKey cfg)"
    "cf_AgentOpsEnabled cfg \<Longrightarrow> 16 \<le> length (cf_AgentConfirmationSecret cfg)"
    "cf_OAuthEnabled cfg \<Longrightarrow> HasPrefix (cf_OAuthPublicBaseURL cfg) ''https://''"
  using assms unfolding validateProductionSecrets_def first_error_None
  by (auto simp: requireStrongSecret_None same_secret_def split: if_splits)

lemma strip_left_keeps:
  assumes "c \<notin> set (concat seqs)" "c \<in> set s"
  shows "c \<in> set (strip_left seqs s)"
  using assms
proof (induction seqs s rule: strip_left.induct)
  case (1 seqs s)
  show ?case
  proof (cases "leading seqs s")
    case None
    with 1 show ?thesis by (simp add: strip_left_fix)
  next
    case (Some p)
    from leading_SomeD [OF this] obtain t where t: "s = p @ t" "p \<in> set seqs" by (auto simp: prefix_def)
    then have "c \<in> set (drop (length p) s)" using 1(2,3) by auto
    with 1 Some show ?thesis by (subst strip_left.simps) simp
  qed
qed

lemma TrimSpace_keeps: "c \<notin> set (concat space_seqs) \<Longrightarrow> c \<in> set s \<Longrightarrow> c \<in> set (TrimSpace s)"
  using strip_left_keeps [of c space_seqs s] strip_left_keeps [of c "map rev space_seqs" "rev (strip_left space_seqs s)"]
  by (auto simp: TrimSpace_def strip_right_def)

lemma TrimRightChar_keeps: "d \<noteq> c \<Longrightarrow> d \<in> set s \<Longrightarrow> d \<in> set (TrimRightChar c s)"
proof -
  assume d: "d \<noteq> c" "d \<in> set s"
  have "set xs \<subseteq> set (dropWhile (\<lambda>x. x = c) xs) \<union> {c}" for xs by (induction xs) auto
  from this [of "rev s"] d show ?thesis by (auto simp: TrimRightChar_def)
qed

definition fixed_issuer :: "Config \<Rightarrow> string" where
  "fixed_issuer cfg = TrimRightChar CHR ''/'' (TrimSpace (TrimRightChar CHR ''/'' (TrimSpace (cf_OAuthPublicBaseURL cfg))))"

lemma issuer_from_config:
  assumes "HasPrefix (cf_OAuthPublicBaseURL cfg) ''https://''"
  shows "resolveOAuthIssuer r (oauth_options cfg) = fixed_issuer cfg"
proof -
  have c: "CHR ''h'' \<notin> set (concat space_seqs)" by code_simp
  have "CHR ''h'' \<in> set (cf_OAuthPublicBaseURL cfg)" using assms by (auto simp: HasPrefix_def prefix_def)
  then have "CHR ''h'' \<in> set (TrimSpace (TrimRightChar CHR ''/'' (TrimSpace (cf_OAuthPublicBaseURL cfg))))"
    by (intro TrimSpace_keeps [OF c] TrimRightChar_keeps) simp_all
  then show ?thesis
    by (auto simp: resolveOAuthIssuer_def oauth_options_def withDefaults_def Let_def fixed_issuer_def)
qed

text \<open>
  C31. What opens \<open>/mcp\<close> on a server that is open to the network - production by name, or a public
  issuer or origin - once its configuration is accepted: the administrator's key or the public key,
  each of at least 16 bytes and different from each other, the second with the analyst role only, or
  an access token for the issuer the configuration names, an https URL, whatever host the request
  claims.
\<close>

theorem open_server_mcp_sound:
  assumes "Parse C env = Inr cfg" "needsProductionHardening C cfg" "mounted_mcp_auth L cfg key now r = Admit scope"
  shows "let token = bearerToken (header r ''Authorization'') in
    token = cf_AdminKey cfg \<and> 16 \<le> length token \<and> ma_Role scope = RoleOperator \<or>
    token = cf_PublicMCPKey cfg \<and> token \<noteq> cf_AdminKey cfg \<and> 16 \<le> length token \<and> ma_Role scope = RoleAnalyst \<or>
    cf_OAuthEnabled cfg \<and> HasPrefix (cf_OAuthPublicBaseURL cfg) ''https://'' \<and>
      (\<exists>verified. VerifyAccessToken L key now token (fixed_issuer cfg) (Resource (oauth_options cfg) (fixed_issuer cfg)) = Inr verified \<and>
        (ma_Role scope = RoleOperator \<longrightarrow> OAuthScopeWrite \<in> set (at_Scopes verified) \<and> cf_OAuthAllowWriteScope cfg))"
proof -
  define token where "token = bearerToken (header r ''Authorization'')"
  note parsed = Parse_InrD [OF assms(1)]
  note strong = hardened_secrets [OF parsed(3) [OF assms(2)]]
  have trimmed: "TrimSpace (cf_AdminKey cfg) = cf_AdminKey cfg" "TrimSpace (cf_PublicMCPKey cfg) = cf_PublicMCPKey cfg"
    unfolding parsed(1) config_frame by (simp_all add: parse_env_def)
  have allow: "oo_AllowWriteScope (oauth_options cfg) = cf_OAuthAllowWriteScope cfg"
    by (simp add: oauth_options_def withDefaults_def Let_def)
  have roles: "RoleAnalyst \<noteq> RoleOperator" by code_simp
  from assms(3) show ?thesis
    unfolding mounted_mcp_auth_def MCPAuth_Admit Let_def trimmed token_def [symmetric]
    using strong issuer_from_config [of cfg r] roles by (auto simp: allow split: if_splits)
qed

text \<open>A scheme in capitals, which is the same scheme, passes for no public exposure.\<close>

lemma capital_scheme_not_hardened: "\<not> hostIsNonLoopback L ''HTTPS://fund.example.com''"
proof -
  have "cut_text ''://'' (TrimSpace ''HTTPS://fund.example.com'') = Some (''HTTPS'', ''fund.example.com'')" by code_simp
  moreover have "TrimSpace ''HTTPS://fund.example.com'' \<noteq> []" by code_simp
  ultimately show ?thesis by (simp add: hostIsNonLoopback_def)
qed

section \<open>The redacted view does not depend on secrets\<close>

lemma secret_names:
  "list_all isSecretKey [''MCP_API_KEY'', ''PUBLIC_MCP_KEY'', ''FUND_EDGE_KEY'', ''FUND_AGENT_CONFIRMATION_SECRET'',
     ''FUND_AUTH_PASSWORD_HASH'', ''FUND_OAUTH_SIGNING_KEY'', ''FUND_PG_DSN'']"
  by code_simp

definition shown_inputs :: "string list" where
  "shown_inputs = [''FUND_HTTP_ADDR'', ''FUND_DB_DRIVER'', ''FUND_DB_PATH'', ''DB_PATH'', ''FUND_STATIC_DIR'', ''WEB_ROOT'',
     ''FUND_BACKUP_DIR'', ''BACKUP_DIR'', ''FUND_SERVICE_NAME'', ''FUND_VERSION'', ''FUND_ENV'', ''FUND_AGENT_OPS_ENABLED'']"

lemma shown_names: "list_all (\<lambda>k. \<not> isSecretKey k) shown_inputs"
  by code_simp

definition shown_of :: "(string \<Rightarrow> string) \<Rightarrow> (string \<times> string) list" where
  "shown_of g = [(''FUND_HTTP_ADDR'', valueOrDefault (g ''FUND_HTTP_ADDR'') ''127.0.0.1:8765''),
     (''FUND_DB_DRIVER'', ToLower (TrimSpace (g ''FUND_DB_DRIVER''))),
     (''FUND_DB_PATH'', valueOrDefault (valueOrDefault (g ''FUND_DB_PATH'') (g ''DB_PATH'')) ''data/fund.db''),
     (''FUND_STATIC_DIR'', valueOrDefault (g ''FUND_STATIC_DIR'') (g ''WEB_ROOT'')),
     (''FUND_BACKUP_DIR'', valueOrDefault (g ''FUND_BACKUP_DIR'') (g ''BACKUP_DIR'')),
     (''FUND_SERVICE_NAME'', valueOrDefault (g ''FUND_SERVICE_NAME'') ''fund-dashboard-go''),
     (''FUND_VERSION'', valueOrDefault (g ''FUND_VERSION'') ''dev''),
     (''FUND_ENV'', valueOrDefault (g ''FUND_ENV'') ''development''), (''FUND_BACKUP_PRODUCER_ENABLED'', ''false''),
     (''FUND_AGENT_OPS_ENABLED'', if parseBoolEnv (g ''FUND_AGENT_OPS_ENABLED'') then ''true'' else ''false'')]"

lemma shown_vars_parse_env: "shown_vars (parse_env L env) = shown_of (var env)"
  by (simp only: shown_vars_def parse_env_def shown_of_def Config.select_convs)

lemma shown_of_cong: "list_all (\<lambda>k. g k = h k) shown_inputs \<Longrightarrow> shown_of g = shown_of h"
  unfolding shown_of_def shown_inputs_def list.pred_inject by (elim conjE) (simp only:)

lemma shown_vars_cong:
  assumes "\<forall>k. \<not> isSecretKey k \<longrightarrow> env k = env' k"
  shows "shown_vars (parse_env L env) = shown_vars (parse_env L env')"
proof -
  have "var env k = var env' k" if "\<not> isSecretKey k" for k using assms that by (simp add: var_def mget_def)
  note var_eq = this
  have "list_all (\<lambda>k. var env k = var env' k) shown_inputs"
    by (rule list.pred_mono_strong [OF shown_names]) (rule var_eq)
  from shown_of_cong [OF this] show ?thesis unfolding shown_vars_parse_env .
qed

lemma shown_vars_frame: "shown_vars (with_issuer c) = shown_vars c" "shown_vars (with_agent_secret env c) = shown_vars c"
  by (simp_all add: shown_vars_def with_issuer_def with_agent_secret_def)

lemma shown_vars_Parse:
  assumes "Parse L env = Inr cfg"
  shows "shown_vars cfg = shown_vars (parse_env L env)" "cf_raw cfg = env"
  unfolding Parse_InrD(1) [OF assms] config_frame shown_vars_frame by (simp_all add: parse_env_def)

lemma Redacted_cong:
  assumes "shown_vars c = shown_vars c'" "dom (cf_raw c) = dom (cf_raw c')" "\<forall>k. \<not> isSecretKey k \<longrightarrow> cf_raw c k = cf_raw c' k"
  shows "Redacted c k = Redacted c' k"
proof -
  let ?m = "\<lambda>c. map_of ((''FUND_PG_DSN'', cf_PGDSN c) # shown_vars c)"
  have raw: "(cf_raw c k = None) = (cf_raw c' k = None)" using assms(2) by (metis domIff)
  have shown: "(?m c k = None) = (?m c' k = None)" by (simp add: assms(1) del: map_of_eq_None_iff)
  show ?thesis
  proof (cases "isSecretKey k")
    case True
    have "((cf_raw c ++ ?m c) k = None) = ((cf_raw c' ++ ?m c') k = None)"
      unfolding map_add_None using raw shown by simp
    with True show ?thesis unfolding Redacted_def
      by (cases "(cf_raw c ++ ?m c) k"; cases "(cf_raw c' ++ ?m c') k") simp_all
  next
    case False
    have "isSecretKey ''FUND_PG_DSN''" using secret_names by simp
    with False have "k \<noteq> ''FUND_PG_DSN''" by blast
    then have "?m c k = ?m c' k" using assms(1) by simp
    moreover have "cf_raw c k = cf_raw c' k" using assms(3) False by simp
    ultimately have "(cf_raw c ++ ?m c) k = (cf_raw c' ++ ?m c') k" by (simp only: map_add_def)
    then show ?thesis unfolding Redacted_def by (simp only:)
  qed
qed

text \<open>
  The redacted view tells nothing about a secret: two environments that set the same variables
  and agree on all whose name carries no marker of a secret have the same redacted view, and every
  variable that holds one - the keys, the password hash, the signing key, the confirmation secret,
  the DSN - is such a name.
\<close>

theorem redacted_view_independent:
  assumes "Parse L env = Inr cfg" "Parse L env' = Inr cfg'" "dom env = dom env'"
    and "\<forall>k. \<not> isSecretKey k \<longrightarrow> env k = env' k"
  shows "Redacted cfg = Redacted cfg' \<and>
    list_all isSecretKey [''MCP_API_KEY'', ''PUBLIC_MCP_KEY'', ''FUND_EDGE_KEY'', ''FUND_AGENT_CONFIRMATION_SECRET'',
      ''FUND_AUTH_PASSWORD_HASH'', ''FUND_OAUTH_SIGNING_KEY'', ''FUND_PG_DSN'']"
proof -
  note p = shown_vars_Parse [OF assms(1)] and p' = shown_vars_Parse [OF assms(2)]
  have "shown_vars cfg = shown_vars cfg'" using p p' shown_vars_cong [OF assms(4), of L] by simp
  note shown = this
  have "Redacted cfg k = Redacted cfg' k" for k
    by (rule Redacted_cong [OF shown]) (use p(2) p'(2) assms(3,4) in \<open>simp_all only:\<close>)
  then have "Redacted cfg = Redacted cfg'" by (rule ext)
  then show ?thesis using secret_names by (rule conjI)
qed

section \<open>Two small deployments\<close>

definition deploy_lib :: config_lib where
  "deploy_lib = \<lparr>cl_duration = (\<lambda>_. None), cl_url = (\<lambda>_. None), cl_ip = (\<lambda>_. None), cl_ip_text = (\<lambda>_. []),
     cl_cidr = (\<lambda>_. None)\<rparr>"

definition deploy_env :: "string \<Rightarrow> env" where
  "deploy_env k = [''FUND_ENV'' \<mapsto> ''production'', ''MCP_API_KEY'' \<mapsto> k, ''FUND_OAUTH_ENABLED'' \<mapsto> ''false'']"

definition deploy_request :: http_request where
  "deploy_request = \<lparr>hr_Method = ''POST'', hr_Path = ''/mcp'', hr_Headers = [(''Authorization'', ''Bearer 0123456789abcdef'')],
     hr_Cookies = [], hr_Host = ''evil.example'', hr_TLS = False, hr_RemoteAddr = ''192.0.2.1:1''\<rparr>"

definition accepted :: "string \<Rightarrow> bool" where
  "accepted k = (case Parse deploy_lib (deploy_env k) of Inl _ \<Rightarrow> False
     | Inr cfg \<Rightarrow> needsProductionHardening deploy_lib cfg \<and> \<not> cf_OAuthEnabled cfg \<and> cf_AdminKey cfg = k)"

lemma deploy_vars:
  "cf_AgentOpsEnabled (parse_env deploy_lib (deploy_env k)) = False" "cf_OAuthEnabled (parse_env deploy_lib (deploy_env k)) = False"
  "cf_EdgeAuthEnabled (parse_env deploy_lib (deploy_env k)) = False" "cf_PublicMCPKey (parse_env deploy_lib (deploy_env k)) = []"
  "isProductionEnv (cf_Environment (parse_env deploy_lib (deploy_env k)))"
  "cf_AdminKey (parse_env deploy_lib (deploy_env k)) = TrimSpace k"
  "\<not> parseBoolEnv (var (deploy_env k) ''FUND_BACKUP_PRODUCER_ENABLED'')"
proof -
  have v: "var (deploy_env k) ''FUND_AGENT_OPS_ENABLED'' = []" "var (deploy_env k) ''FUND_OAUTH_ENABLED'' = ''false''"
    "var (deploy_env k) ''FUND_EDGE_AUTH_ENABLED'' = []" "var (deploy_env k) ''PUBLIC_MCP_KEY'' = []"
    "var (deploy_env k) ''FUND_ENV'' = ''production''" "var (deploy_env k) ''MCP_API_KEY'' = k"
    "var (deploy_env k) ''FUND_BACKUP_PRODUCER_ENABLED'' = []" by (simp_all add: var_def deploy_env_def)
  have p: "\<not> parseBoolEnv []" "\<not> parseBoolEnvDefault ''false'' True" "\<not> parseBoolEnvDefault [] False"
    "isProductionEnv (valueOrDefault ''production'' ''development'')" by code_simp+
  show "cf_AgentOpsEnabled (parse_env deploy_lib (deploy_env k)) = False" "cf_OAuthEnabled (parse_env deploy_lib (deploy_env k)) = False"
    "cf_EdgeAuthEnabled (parse_env deploy_lib (deploy_env k)) = False" "cf_PublicMCPKey (parse_env deploy_lib (deploy_env k)) = []"
    "isProductionEnv (cf_Environment (parse_env deploy_lib (deploy_env k)))"
    "cf_AdminKey (parse_env deploy_lib (deploy_env k)) = TrimSpace k"
    "\<not> parseBoolEnv (var (deploy_env k) ''FUND_BACKUP_PRODUCER_ENABLED'')"
    by (simp_all only: parse_env_def Config.select_convs v p TrimSpace_Nil) simp_all
qed

lemma deploy_accepted:
  assumes "TrimSpace k = k" "16 \<le> length k" "ToLower k \<notin> {''change-me'', ''ci-test-key''}"
  shows "accepted k"
proof -
  let ?c = "parse_env deploy_lib (deploy_env k)"
  note v = deploy_vars [of k]
  have c: "with_issuer (with_agent_secret (deploy_env k) ?c) = ?c" "with_agent_secret (deploy_env k) ?c = ?c"
    by (simp_all add: with_issuer_def with_agent_secret_def v)
  have "validateProductionSecrets ?c = None"
    using assms unfolding validateProductionSecrets_def first_error_None by (simp add: v requireStrongSecret_None)
  moreover have "needsProductionHardening deploy_lib ?c" by (simp add: needsProductionHardening_def v)
  moreover have "with_issuer ?c = ?c" using c by simp
  ultimately show ?thesis by (simp add: accepted_def Parse_def Let_def c v assms(1))
qed

lemma deploy_keys: "accepted ''0123456789abcdef''" "accepted ''fedcba9876543210''"
  by (rule deploy_accepted; code_simp)+

lemma acceptedE:
  assumes "accepted k"
  obtains cfg where "Parse deploy_lib (deploy_env k) = Inr cfg" "needsProductionHardening deploy_lib cfg"
    "\<not> cf_OAuthEnabled cfg" "cf_AdminKey cfg = k"
  using assms by (auto simp: accepted_def split: sum.splits)

theorem open_server_mcp_sound_witness:
  "\<exists>cfg. Parse deploy_lib (deploy_env ''0123456789abcdef'') = Inr cfg \<and> (\<forall>L key now. \<exists>scope.
     mounted_mcp_auth L cfg key now deploy_request = Admit scope \<and>
     (bearerToken (header deploy_request ''Authorization'') = cf_AdminKey cfg \<or> ma_Role scope = RoleAnalyst))"
proof -
  from acceptedE [OF deploy_keys(1)] obtain cfg where cfg: "Parse deploy_lib (deploy_env ''0123456789abcdef'') = Inr cfg"
    "needsProductionHardening deploy_lib cfg" "\<not> cf_OAuthEnabled cfg" "cf_AdminKey cfg = ''0123456789abcdef''" by metis
  have b: "bearerToken (header deploy_request ''Authorization'') = ''0123456789abcdef''"
    "TrimSpace ''0123456789abcdef'' = ''0123456789abcdef''" by code_simp+
  have "mounted_mcp_auth L cfg key now deploy_request =
      Admit \<lparr>ma_Role = RoleOperator, ma_Key = ''admin'', ma_ClientID = []\<rparr>" for L key now
    unfolding mounted_mcp_auth_def MCPAuth_Admit Let_def b cfg(4) by simp
  moreover from open_server_mcp_sound [OF cfg(1,2) this] cfg(3)
  have "bearerToken (header deploy_request ''Authorization'') = cf_AdminKey cfg \<or> RoleOperator = RoleAnalyst"
    by (auto simp: Let_def)
  ultimately show ?thesis using cfg(1) by fastforce
qed

theorem redacted_view_independent_witness:
  "\<exists>cfg cfg'. Parse deploy_lib (deploy_env ''0123456789abcdef'') = Inr cfg \<and>
     Parse deploy_lib (deploy_env ''fedcba9876543210'') = Inr cfg' \<and> cf_AdminKey cfg \<noteq> cf_AdminKey cfg' \<and>
     Redacted cfg = Redacted cfg'"
proof -
  from acceptedE [OF deploy_keys(1)] obtain cfg where c: "Parse deploy_lib (deploy_env ''0123456789abcdef'') = Inr cfg"
    "cf_AdminKey cfg = ''0123456789abcdef''" by metis
  from acceptedE [OF deploy_keys(2)] obtain cfg' where c': "Parse deploy_lib (deploy_env ''fedcba9876543210'') = Inr cfg'"
    "cf_AdminKey cfg' = ''fedcba9876543210''" by metis
  have "isSecretKey ''MCP_API_KEY''" using secret_names by simp
  then have "\<forall>k. \<not> isSecretKey k \<longrightarrow> deploy_env x k = deploy_env y k" for x y by (auto simp: deploy_env_def)
  moreover have "dom (deploy_env x) = dom (deploy_env y)" for x y by (simp add: deploy_env_def)
  ultimately have "Redacted cfg = Redacted cfg'" using redacted_view_independent [OF c(1) c'(1)] by blast
  with c c' show ?thesis by (auto intro!: exI)
qed

end
