(* ===== verification/OAuthFlow.thy ===== *)
theory OAuthFlow
  imports OAuthClients
begin

text \<open>
  The authorization and token endpoints of the OAuth server, \<open>src/internal/oauth/flow.go\<close>, with
  the consent operations of \<open>consent.go\<close> that build on them.

  A call reads several clocks, random sources and answers from outside; they are the fields of
  \<open>flow_env\<close>, named after the place that reads them. A URL that the server redirects to is
  returned parsed, with the query the code wrote into it.
\<close>

section \<open>Authorization endpoint\<close>

record flow_env =
  fe_cimd_now :: time
  fe_answer :: "(nat \<times> string) option"
  fe_now :: time
  fe_code_rnd :: "string option"
  fe_code_now :: time
  fe_consent_rnd :: "string option"
  fe_consent_now :: time
  fe_jti_rnd :: "string option"
  fe_sign_rnd :: "string option"
  fe_refresh_rnd :: "string option"
  fe_lookup_now :: time
  fe_revoke_now :: time

datatype DecisionKind = DecisionRedirect | DecisionLogin | DecisionConsent | DecisionErrorPage

record AuthzRequest =
  az_ClientID :: string
  az_RedirectURI :: string
  az_ResponseType :: string
  az_Scope :: string
  az_State :: string
  az_CodeChallenge :: string
  az_CodeChallengeMethod :: string
  az_Resource :: string
  az_Authenticated :: bool
  az_SessionID :: string

record AuthzDecision =
  ad_Kind :: DecisionKind
  ad_RedirectURI :: "URL option"
  ad_Client :: "Client option"
  ad_Scopes :: "string list"
  ad_Grant :: "AuthorizationGrant option"
  ad_Resource :: string
  ad_Error :: "OAuthFailure option"
  ad_ReturnPath :: string

definition setIfNotEmpty :: "string \<Rightarrow> string \<Rightarrow> Values \<Rightarrow> Values" where
  "setIfNotEmpty k v q = (if TrimSpace v \<noteq> [] then Set_val k v q else q)"

definition authorizeReturnPath :: "AuthzRequest \<Rightarrow> string" where
  "authorizeReturnPath req = ''/oauth/authorize?'' @ Encode
    (setIfNotEmpty ''resource'' (az_Resource req)
    (setIfNotEmpty ''code_challenge_method'' (az_CodeChallengeMethod req)
    (setIfNotEmpty ''code_challenge'' (az_CodeChallenge req)
    (setIfNotEmpty ''state'' (az_State req)
    (setIfNotEmpty ''scope'' (az_Scope req)
    (setIfNotEmpty ''response_type'' (az_ResponseType req)
    (setIfNotEmpty ''redirect_uri'' (az_RedirectURI req)
    (setIfNotEmpty ''client_id'' (az_ClientID req) []))))))))"

definition unsafeFailure :: "AuthzRequest \<Rightarrow> OAuthFailure \<Rightarrow> AuthzDecision" where
  "unsafeFailure req failure = \<lparr>ad_Kind = DecisionErrorPage, ad_RedirectURI = None, ad_Client = None,
     ad_Scopes = [], ad_Grant = None, ad_Resource = [], ad_Error = Some (failure\<lparr>fl_Redirectable := False\<rparr>),
     ad_ReturnPath = authorizeReturnPath req\<rparr>"

definition validateResource :: "OAuthOptions \<Rightarrow> string \<Rightarrow> string \<Rightarrow> OAuthFailure + string" where
  "validateResource o1 issuer requested0 =
    (let canonical = Resource o1 issuer; requested = TrimSpace requested0 in
     if requested = [] then Inr canonical
     else if requested \<noteq> canonical \<and> TrimRightChar CHR ''/'' requested \<noteq> canonical
     then Inl (fail ErrInvalidRequest 400) else Inr canonical)"

definition issueCode :: "oauth_lib \<Rightarrow> OAuthService \<Rightarrow> string option \<Rightarrow> time \<Rightarrow> string \<Rightarrow> string
    \<Rightarrow> AuthorizationGrant \<Rightarrow> URL oauth_proc" where
  "issueCode X svc rnd now redirectURI state grant s =
    (case code_Issue (oo_CodeTTL (os_opts svc)) rnd now grant (st_codes s) of
       (None, m) \<Rightarrow> (Inl server_error, s\<lparr>st_codes := m\<rparr>)
     | (Some code, m) \<Rightarrow>
        (case xl_url X redirectURI of None \<Rightarrow> (Inl server_error, s\<lparr>st_codes := m\<rparr>)
         | Some target \<Rightarrow> (Inr (with_query target
              ((''code'', code) # (if state = [] then [] else [(''state'', state)]))), s\<lparr>st_codes := m\<rparr>)))"

text \<open>Without a store there is no memory of consents, and the answer is that a click is needed.\<close>

definition consentRequired :: "OAuthService \<Rightarrow> string \<Rightarrow> string list \<Rightarrow> bool oauth_proc" where
  "consentRequired svc clientID scopes =
    (if \<not> oo_AutoApprove (os_opts svc) then ret True
     else if list_ex (\<lambda>s. s \<noteq> OAuthScopeRead) scopes then ret True
     else if \<not> os_store svc then ret True
     else andThen (on_db (HasClientConsent clientID scopes)) (\<lambda>approved. ret (\<not> approved)))"

definition authorize_steps :: "oauth_lib \<Rightarrow> OAuthService \<Rightarrow> flow_env \<Rightarrow> string \<Rightarrow> AuthzRequest
    \<Rightarrow> AuthzDecision oauth_proc" where
  "authorize_steps X svc E issuer req =
    andThen (check (validateResource (os_opts svc) issuer (az_Resource req))) (\<lambda>resource.
    if TrimSpace (az_ResponseType req) = [] then throw (fail ErrInvalidRequest 400)
    else if az_ResponseType req \<noteq> ''code'' then throw (fail ErrUnsupportedResponseType 400)
    else if ValidateCodeChallenge (az_CodeChallenge req) (az_CodeChallengeMethod req) \<noteq> Inr ()
    then throw (fail ErrInvalidRequest 400)
    else andThen (ResolveClient X svc (fe_cimd_now E) (fe_answer E) (az_ClientID req)) (\<lambda>client.
      case ValidateRedirectURI (xl_url X) client (az_RedirectURI req) of
        None \<Rightarrow> ret \<lparr>ad_Kind = DecisionErrorPage, ad_RedirectURI = None, ad_Client = Some client, ad_Scopes = [],
          ad_Grant = None, ad_Resource = [], ad_Error = Some (fail ErrInvalidRedirectURI 400), ad_ReturnPath = []\<rparr>
      | Some redirectURI \<Rightarrow>
         (let m = TrimSpace (az_CodeChallengeMethod req);
              scopes = NegotiateScopes (os_opts svc) (az_Scope req);
              grant = \<lparr>gr_ClientID = cl_ID client, gr_RedirectURI = redirectURI, gr_Scopes = scopes,
                gr_Resource = resource, gr_CodeChallenge = az_CodeChallenge req,
                gr_CodeChallengeMethod = (if m = [] then CodeChallengeMethodS256 else m),
                gr_SessionID = az_SessionID req, gr_AuthorizedAt = unix (fe_now E)\<rparr>;
              decision = (\<lambda>kind target path. \<lparr>ad_Kind = kind, ad_RedirectURI = target, ad_Client = Some client,
                ad_Scopes = scopes, ad_Grant = Some grant, ad_Resource = resource, ad_Error = None,
                ad_ReturnPath = path\<rparr>)
          in if \<not> az_Authenticated req then ret (decision DecisionLogin None (authorizeReturnPath req))
             else andThen (consentRequired svc (cl_ID client) scopes) (\<lambda>required.
               if required then ret (decision DecisionConsent None [])
               else andThen (issueCode X svc (fe_code_rnd E) (fe_code_now E) redirectURI (az_State req) grant)
                 (\<lambda>target. ret (decision DecisionRedirect (Some target) []))))))"

definition oauth_Authorize :: "oauth_lib \<Rightarrow> OAuthService \<Rightarrow> flow_env \<Rightarrow> string \<Rightarrow> AuthzRequest \<Rightarrow> oauth_state
    \<Rightarrow> AuthzDecision \<times> oauth_state" where
  "oauth_Authorize X svc E issuer req s = (case authorize_steps X svc E issuer req s of
     (Inl f, s') \<Rightarrow> (unsafeFailure req f, s') | (Inr d, s') \<Rightarrow> (d, s'))"

section \<open>Consent\<close>

fun record_consents :: "OAuthService \<Rightarrow> string \<Rightarrow> time \<Rightarrow> string list \<Rightarrow> unit oauth_proc" where
  "record_consents svc clientID now [] = ret ()"
| "record_consents svc clientID now (scope # scopes) =
    andThen (if os_store svc then on_db (RecordClientConsent clientID scope (unix now)) else ret ())
      (\<lambda>_. record_consents svc clientID now scopes)"

definition ApproveGrant :: "oauth_lib \<Rightarrow> OAuthService \<Rightarrow> flow_env \<Rightarrow> AuthorizationGrant \<Rightarrow> string \<Rightarrow> URL oauth_proc" where
  "ApproveGrant X svc E grant state =
    andThen (record_consents svc (gr_ClientID grant) (fe_now E) (gr_Scopes grant))
      (\<lambda>_. issueCode X svc (fe_code_rnd E) (fe_code_now E) (gr_RedirectURI grant) state grant)"

definition buildErrorRedirect :: "oauth_lib \<Rightarrow> string \<Rightarrow> string \<Rightarrow> string \<Rightarrow> string \<Rightarrow> URL oauth_proc" where
  "buildErrorRedirect X redirectURI code description state =
    (case xl_url X redirectURI of None \<Rightarrow> throw server_error
     | Some target \<Rightarrow> ret (with_query target ((''error'', code) #
         (if description = [] then [] else [(''error_description'', description)]) @
         (if state = [] then [] else [(''state'', state)]))))"

definition DenyRedirect :: "oauth_lib \<Rightarrow> AuthorizationGrant \<Rightarrow> string \<Rightarrow> URL oauth_proc" where
  "DenyRedirect X grant state = buildErrorRedirect X (gr_RedirectURI grant) ''access_denied''
     ''the resource owner denied the request'' state"

definition BeginConsent :: "flow_env \<Rightarrow> AuthorizationGrant \<Rightarrow> string \<Rightarrow> oauth_state \<Rightarrow> string option \<times> oauth_state" where
  "BeginConsent E grant state s =
    (case consent_Begin (fe_consent_rnd E) (fe_consent_now E) grant state (st_consents s) of
       (r, m) \<Rightarrow> (r, s\<lparr>st_consents := m\<rparr>))"

definition FinalizeConsent :: "oauth_lib \<Rightarrow> OAuthService \<Rightarrow> flow_env \<Rightarrow> string \<Rightarrow> string
    \<Rightarrow> (oauth_state, OAuthFailure, URL option) proc" where
  "FinalizeConsent X svc E token decision s =
    (case consent_Finalize (fe_consent_now E) token
       (\<lambda>grant state. if decision = ''deny'' then DenyRedirect X grant state else ApproveGrant X svc E grant state)
       (st_consents s, s) of
       (r, (m, s')) \<Rightarrow> (r, s'\<lparr>st_consents := m\<rparr>))"

section \<open>Token endpoint\<close>

record TokenRequest =
  tr_GrantType :: string
  tr_Code :: string
  tr_RedirectURI :: string
  tr_ClientID :: string
  tr_CodeVerifier :: string
  tr_RefreshToken :: string
  tr_Scope :: string
  tr_Resource :: string

record TokenResponse =
  tk_AccessToken :: string
  tk_TokenType :: string
  tk_ExpiresIn :: int
  tk_RefreshToken :: string
  tk_Scope :: string

definition access_claims :: "OAuthService \<Rightarrow> string \<Rightarrow> string \<Rightarrow> string list \<Rightarrow> string \<Rightarrow> time \<Rightarrow> string
    \<Rightarrow> accessTokenClaims" where
  "access_claims svc issuer clientID scopes resource now jti =
    \<lparr>cm_Issuer = issuer, cm_Subject = OAuthSubject, cm_Audience = resource, cm_ClientID = clientID,
     cm_Scope = joinScopes scopes, cm_Expiry = unix (now + oo_AccessTTL (os_opts svc)), cm_IssuedAt = unix now,
     cm_JWTID = jti, cm_TokenType = ''at+jwt''\<rparr>"

definition new_refresh_row :: "OAuthService \<Rightarrow> string \<Rightarrow> string \<Rightarrow> string list \<Rightarrow> string \<Rightarrow> time \<Rightarrow> StoredRefreshToken" where
  "new_refresh_row svc tid clientID scopes resource now =
    \<lparr>rt_ID = tid, rt_ClientID = clientID, rt_Scope = joinScopes scopes, rt_Resource = resource,
     rt_CreatedAt = unix now, rt_ExpiresAt = unix (now + oo_RefreshTTL (os_opts svc)), rt_RevokedAt = None\<rparr>"

text \<open>A refresh token that cannot be stored is not an error: the response then carries none.\<close>

definition issueTokens :: "oauth_lib \<Rightarrow> OAuthService \<Rightarrow> flow_env \<Rightarrow> string \<Rightarrow> string \<Rightarrow> string list \<Rightarrow> string
    \<Rightarrow> TokenResponse oauth_proc" where
  "issueTokens X svc E issuer clientID scopes0 resource s =
    (let scopes = (if scopes0 = [] then [OAuthScopeRead] else scopes0); now = fe_now E in
     case randomID (fe_jti_rnd E) of None \<Rightarrow> (Inl server_error, s)
     | Some jti \<Rightarrow>
        (case SignAccessToken (jwt_lib.truncate X) (st_key s) (fe_sign_rnd E)
            (access_claims svc issuer clientID scopes resource now jti) of
           None \<Rightarrow> (Inl server_error, s)
         | Some access \<Rightarrow>
            (let response = (\<lambda>refresh. \<lparr>tk_AccessToken = access, tk_TokenType = ''Bearer'',
                   tk_ExpiresIn = seconds (oo_AccessTTL (os_opts svc)), tk_RefreshToken = refresh,
                   tk_Scope = joinScopes scopes\<rparr>)
             in if \<not> os_store svc then (Inr (response []), s)
                else (case NewRefreshToken (jl_sha X) (fe_refresh_rnd E) of None \<Rightarrow> (Inl server_error, s)
                  | Some (raw, tid) \<Rightarrow>
                     (case on_store (InsertRefreshToken (new_refresh_row svc tid clientID scopes resource now)) s of
                        (Inl _, s') \<Rightarrow> (Inr (response []), s')
                      | (Inr _, s') \<Rightarrow> (Inr (response raw), s'))))))"

definition exchangeCode :: "oauth_lib \<Rightarrow> OAuthService \<Rightarrow> flow_env \<Rightarrow> string \<Rightarrow> TokenRequest \<Rightarrow> TokenResponse oauth_proc" where
  "exchangeCode X svc E issuer req s =
    (let bad = fail ErrInvalidGrant 400 in
     if TrimSpace (tr_Code req) = [] then (Inl (fail ErrInvalidRequest 400), s)
     else (case code_Redeem (fe_code_now E) (tr_Code req) (st_codes s) of
        (None, m) \<Rightarrow> (Inl bad, s\<lparr>st_codes := m\<rparr>)
      | (Some grant, m) \<Rightarrow>
         (let s1 = s\<lparr>st_codes := m\<rparr> in
          if TrimSpace (tr_ClientID req) \<noteq> [] \<and> TrimSpace (tr_ClientID req) \<noteq> gr_ClientID grant then (Inl bad, s1)
          else if TrimSpace (tr_RedirectURI req) \<noteq> [] \<and> TrimSpace (tr_RedirectURI req) \<noteq> gr_RedirectURI grant
          then (Inl bad, s1)
          else if \<not> VerifyCodeVerifier (jl_sha X) (tr_CodeVerifier req) (gr_CodeChallenge grant) then (Inl bad, s1)
          else (case validateResource (os_opts svc) issuer (tr_Resource req) of Inl f \<Rightarrow> (Inl f, s1)
            | Inr _ \<Rightarrow> issueTokens X svc E issuer (gr_ClientID grant) (gr_Scopes grant) (gr_Resource grant) s1))))"

text \<open>\<open>refresh\<close> in two halves: what it reads and checks, and the rotation that follows.\<close>

definition refresh_check :: "oauth_lib \<Rightarrow> OAuthService \<Rightarrow> flow_env \<Rightarrow> string \<Rightarrow> TokenRequest
    \<Rightarrow> StoredRefreshToken oauth_proc" where
  "refresh_check X svc E issuer req =
    (let raw = TrimSpace (tr_RefreshToken req) in
     if raw = [] then throw (fail ErrInvalidRequest 400)
     else if \<not> os_store svc then throw server_error
     else andThen (on_db (RefreshTokenByID (oauth_tokenID (jl_sha X) raw) (unix (fe_lookup_now E)))) (\<lambda>found.
       case found of None \<Rightarrow> throw (fail ErrInvalidGrant 400)
       | Some stored \<Rightarrow>
          if TrimSpace (tr_ClientID req) \<noteq> [] \<and> TrimSpace (tr_ClientID req) \<noteq> rt_ClientID stored
          then throw (fail ErrInvalidGrant 400)
          else (case validateResource (os_opts svc) issuer (tr_Resource req) of Inl f \<Rightarrow> throw f
            | Inr _ \<Rightarrow> ret stored)))"

definition refresh_rotate :: "oauth_lib \<Rightarrow> OAuthService \<Rightarrow> flow_env \<Rightarrow> string \<Rightarrow> StoredRefreshToken
    \<Rightarrow> TokenResponse oauth_proc" where
  "refresh_rotate X svc E issuer stored =
    andThen (on_db (RevokeRefreshToken (rt_ID stored) (unix (fe_revoke_now E)))) (\<lambda>_.
      issueTokens X svc E issuer (rt_ClientID stored) (splitScopes (rt_Scope stored)) (rt_Resource stored))"

definition refresh_grant :: "oauth_lib \<Rightarrow> OAuthService \<Rightarrow> flow_env \<Rightarrow> string \<Rightarrow> TokenRequest \<Rightarrow> TokenResponse oauth_proc" where
  "refresh_grant X svc E issuer req =
    andThen (refresh_check X svc E issuer req) (refresh_rotate X svc E issuer)"

definition IssueToken :: "oauth_lib \<Rightarrow> OAuthService \<Rightarrow> flow_env \<Rightarrow> string \<Rightarrow> TokenRequest \<Rightarrow> TokenResponse oauth_proc" where
  "IssueToken X svc E issuer req =
    (let g = TrimSpace (tr_GrantType req) in
     if g = ''authorization_code'' then exchangeCode X svc E issuer req
     else if g = ''refresh_token'' then refresh_grant X svc E issuer req
     else if g = [] then throw (fail ErrInvalidRequest 400)
     else throw (fail ErrUnsupportedGrantType 400))"

definition svc_RevokeRefreshToken :: "oauth_lib \<Rightarrow> OAuthService \<Rightarrow> flow_env \<Rightarrow> string \<Rightarrow> (oauth_state, db_error, unit) proc" where
  "svc_RevokeRefreshToken X svc E token =
    (if TrimSpace token = [] \<or> \<not> os_store svc then ret ()
     else on_store (RevokeRefreshToken (oauth_tokenID (jl_sha X) (TrimSpace token)) (unix (fe_revoke_now E))))"

definition svc_RevokeClient :: "OAuthService \<Rightarrow> flow_env \<Rightarrow> string \<Rightarrow> (oauth_state, db_error, unit) proc" where
  "svc_RevokeClient svc E clientID =
    (if \<not> os_store svc then throw DriverError
     else on_store (RevokeClientTokens clientID (unix (fe_revoke_now E))))"

end
