(* ===== verification/OAuthRuns.thy ===== *)
theory OAuthRuns
  imports OAuthFlow
begin

text \<open>
  Runs of the OAuth server: the calls its HTTP handlers make, in any order, with any environment,
  and what holds of all of them. One lemma per operation says what it may change; the properties
  follow by induction on the run or from the interpretations of \<open>counted_use\<close>.
\<close>

section \<open>What each operation does\<close>

definition draws :: "flow_env \<Rightarrow> string \<Rightarrow> bool" where
  "draws E k \<longleftrightarrow> (\<exists>buf. fe_code_rnd E = Some buf \<and> k = B64Encode url_alphabet buf)"

definition codes_from :: "(AuthorizationGrant \<Rightarrow> bool) \<Rightarrow> flow_env \<Rightarrow> oauth_state \<Rightarrow> oauth_state \<Rightarrow> bool" where
  "codes_from P E s s' \<longleftrightarrow> (\<forall>k e. st_codes s' k = Some e \<longrightarrow>
     st_codes s k = Some e \<or> (P (ce_grant e) \<and> draws E k))"

lemma codes_from_refl: "st_codes s' = st_codes s \<Longrightarrow> codes_from P E s s'"
  by (simp add: codes_from_def)

text \<open>A successful redirect with a code: the parsed target, with code and state in its query.\<close>

definition code_redirect :: "oauth_lib \<Rightarrow> flow_env \<Rightarrow> AuthorizationGrant \<Rightarrow> string \<Rightarrow> URL \<Rightarrow> bool" where
  "code_redirect X E g state u \<longleftrightarrow> (\<exists>t buf. xl_url X (gr_RedirectURI g) = Some t \<and> fe_code_rnd E = Some buf \<and>
     u = with_query t ((''code'', B64Encode url_alphabet buf) # (if state = [] then [] else [(''state'', state)])))"

lemma issueCode_D:
  assumes "issueCode X svc (fe_code_rnd E) (fe_code_now E) (gr_RedirectURI g) state g s = (r, s')"
  shows "st_db s' = st_db s" "st_consents s' = st_consents s" "st_key s' = st_key s" "st_cimd s' = st_cimd s"
    "codes_from (\<lambda>h. h = g) E s s'" "\<And>u. r = Inr u \<Longrightarrow> code_redirect X E g state u"
proof -
  have "st_db s' = st_db s \<and> st_consents s' = st_consents s \<and> st_key s' = st_key s \<and> st_cimd s' = st_cimd s"
    using assms by (auto simp: issueCode_def split: prod.splits option.splits)
  then show "st_db s' = st_db s" "st_consents s' = st_consents s" "st_key s' = st_key s" "st_cimd s' = st_cimd s"
    by blast+
  show "codes_from (\<lambda>h. h = g) E s s'"
    using assms by (auto simp: issueCode_def codes_from_def code_Issue_def sweepExpiredLocked_def draws_def Let_def
      split: prod.splits option.splits if_splits)
  show "code_redirect X E g state u" if "r = Inr u" for u
    using assms that by (auto simp: issueCode_def code_redirect_def code_Issue_def Let_def split: prod.splits option.splits)
qed

lemma HasClientConsent_Inr:
  assumes "HasClientConsent cid scopes d = (Inr b, d')" "scopes \<noteq> []"
  shows "tables d' = tables d \<and> b = (count_where (\<lambda>(c, s, _). c = cid \<and> s \<in> set scopes) (ot_consents (tables d)) = length scopes)"
  using assms unfolding HasClientConsent_def
  by (auto elim!: andThenE dest!: stmt_Inr_tables)

lemma HasClientConsent_tables: "HasClientConsent cid scopes d = (r, d') \<Longrightarrow> tables d' = tables d"
  unfolding HasClientConsent_def by (auto elim!: andThenE dest!: stmt_Inr_tables stmt_Inl_tables split: if_splits)

definition consents_distinct :: "oauth_state \<Rightarrow> bool" where
  "consents_distinct s \<longleftrightarrow> distinct (map (\<lambda>(c, sc, _). (c, sc)) (ot_consents (tables (st_db s))))"

lemma consentRequired_D:
  assumes "consentRequired svc cid scopes s = (r, s')"
  shows "st_codes s' = st_codes s \<and> st_consents s' = st_consents s \<and> st_key s' = st_key s \<and>
    st_cimd s' = st_cimd s \<and> tables (st_db s') = tables (st_db s)"
  using assms unfolding consentRequired_def
  by (auto elim!: andThenE on_db_cases dest!: HasClientConsent_tables split: if_splits)

lemma not_consentRequired:
  assumes "consentRequired svc cid scopes s = (Inr False, s')" "consents_distinct s" "distinct scopes" "scopes \<noteq> []"
  shows "oo_AutoApprove (os_opts svc) \<and> os_store svc \<and> (\<forall>sc \<in> set scopes. sc = OAuthScopeRead \<and>
    (\<exists>t. (cid, sc, t) \<in> set (ot_consents (tables (st_db s)))))"
proof -
  from assms(1) have c: "oo_AutoApprove (os_opts svc)" "os_store svc" "\<forall>sc \<in> set scopes. sc = OAuthScopeRead"
    and r: "andThen (on_db (HasClientConsent cid scopes)) (\<lambda>approved. ret (\<not> approved)) s = (Inr False, s')"
    by (auto simp: consentRequired_def list_ex_iff split: if_splits)
  from r obtain d where "HasClientConsent cid scopes (st_db s) = (Inr True, d)"
    by (auto elim!: andThenE simp: on_db_Inr)
  from HasClientConsent_Inr [OF this assms(4)] c
    count_consents [OF assms(2) [unfolded consents_distinct_def] assms(3), of cid] show ?thesis by simp
qed

section \<open>The authorization endpoint\<close>

definition good_grant :: "oauth_lib \<Rightarrow> OAuthService \<Rightarrow> string \<Rightarrow> AuthorizationGrant \<Rightarrow> bool" where
  "good_grant X svc resource g \<longleftrightarrow> gr_Scopes g \<noteq> [] \<and> distinct (gr_Scopes g) \<and>
     set (gr_Scopes g) \<subseteq> set (ScopesSupported (os_opts svc)) \<and> gr_Resource g = resource"

text \<open>
  The outcomes of \<open>authorize_steps\<close> after the client is known; \<open>s1\<close> is the state after the client
  was resolved, which differs from the first one in the cache and the fault schedule only.
\<close>

lemma authorize_stepsE:
  assumes "authorize_steps X svc E issuer req s = (r, s')"
  obtains (failed) f where "r = Inl f" "s' = s"
    | (unresolved) f where "r = Inl f" "ResolveClient X svc (fe_cimd_now E) (fe_answer E) (az_ClientID req) s = (Inl f, s')"
    | (unregistered) d c where "r = Inr d" "ResolveClient X svc (fe_cimd_now E) (fe_answer E) (az_ClientID req) s = (Inr c, s')"
        "ad_Kind d = DecisionErrorPage" "ad_RedirectURI d = None" "ad_Grant d = None"
    | (resolved) c uri g s1 where
        "ResolveClient X svc (fe_cimd_now E) (fe_answer E) (az_ClientID req) s = (Inr c, s1)"
        "ValidateRedirectURI (xl_url X) c (az_RedirectURI req) = Some uri"
        "gr_ClientID g = cl_ID c" "gr_RedirectURI g = uri" "gr_CodeChallenge g = az_CodeChallenge req"
        "gr_Scopes g = NegotiateScopes (os_opts svc) (az_Scope req)"
        "good_grant X svc (Resource (os_opts svc) issuer) g"
        "(\<exists>d. r = Inr d \<and> s' = s1 \<and> ad_Kind d = DecisionLogin \<and> \<not> az_Authenticated req \<and> ad_RedirectURI d = None \<and>
            ad_Grant d = Some g \<and> ad_Client d = Some c) \<or>
         (\<exists>f. r = Inl f \<and> consentRequired svc (cl_ID c) (gr_Scopes g) s1 = (Inl f, s')) \<or>
         (\<exists>d. r = Inr d \<and> consentRequired svc (cl_ID c) (gr_Scopes g) s1 = (Inr True, s') \<and> az_Authenticated req \<and>
            ad_Kind d = DecisionConsent \<and> ad_RedirectURI d = None \<and> ad_Grant d = Some g \<and> ad_Client d = Some c) \<or>
         (\<exists>s2 q. consentRequired svc (cl_ID c) (gr_Scopes g) s1 = (Inr False, s2) \<and> az_Authenticated req \<and>
            issueCode X svc (fe_code_rnd E) (fe_code_now E) uri (az_State req) g s2 = (q, s') \<and>
            (\<forall>f. q = Inl f \<longrightarrow> r = Inl f) \<and>
            (\<forall>u. q = Inr u \<longrightarrow> (\<exists>d. r = Inr d \<and> ad_Kind d = DecisionRedirect \<and> ad_RedirectURI d = Some u \<and>
               ad_Grant d = Some g \<and> ad_Client d = Some c)))"
proof -
  let ?R = "ResolveClient X svc (fe_cimd_now E) (fe_answer E) (az_ClientID req)"
  from assms consider (f) f where "r = Inl f" "s' = s"
    | (c) resource m where "validateResource (os_opts svc) issuer (az_Resource req) = Inr resource"
        "andThen ?R m s = (r, s')"
        "m = (\<lambda>client. case ValidateRedirectURI (xl_url X) client (az_RedirectURI req) of
        None \<Rightarrow> ret \<lparr>ad_Kind = DecisionErrorPage, ad_RedirectURI = None, ad_Client = Some client, ad_Scopes = [],
          ad_Grant = None, ad_Resource = [], ad_Error = Some (fail ErrInvalidRedirectURI 400), ad_ReturnPath = []\<rparr>
      | Some redirectURI \<Rightarrow>
         (let m = TrimSpace (az_CodeChallengeMethod req);
              scopes = NegotiateScopes (os_opts svc) (az_Scope req);
              grant = \<lparr>gr_ClientID = cl_ID client, gr_RedirectURI = redirectURI, gr_Scopes = scopes,
                gr_Resource = resource, gr_CodeChallenge = az_CodeChallenge req,
                gr_CodeChallengeMethod = (if m = [] then CodeChallengeMethodS256 else m),
                gr_SessionID = az_SessionID req, gr_AuthorizedAt = unix (fe_now E)\<rparr>;
              decision = (\<lambda>kind target path. \<lparr>ad_Kind = kind, ad_RedirectURI = target, ad_Client = Some client,
                ad_Scopes = scopes, ad_Grant = Some grant, ad_Resource = resource, ad_Error = None,
                ad_ReturnPath = path\<rparr>)
          in if \<not> az_Authenticated req then ret (decision DecisionLogin None (authorizeReturnPath req))
             else andThen (consentRequired svc (cl_ID client) scopes) (\<lambda>required.
               if required then ret (decision DecisionConsent None [])
               else andThen (issueCode X svc (fe_code_rnd E) (fe_code_now E) redirectURI (az_State req) grant)
                 (\<lambda>target. ret (decision DecisionRedirect (Some target) [])))))"
    unfolding authorize_steps_def by (auto elim!: andThenE split: if_splits)
  then show ?thesis
  proof cases
    case f
    then show ?thesis by (rule failed)
  next
    case c
    have res: "resource = Resource (os_opts svc) issuer"
      using c(1) by (auto simp: validateResource_def Let_def split: if_splits)
    from c(2) show ?thesis
    proof (cases rule: andThenE)
      case (failed f)
      from unresolved [OF failed(2) failed(1)] show ?thesis .
    next
      case (succeeded cl s1)
      show ?thesis
      proof (cases "ValidateRedirectURI (xl_url X) cl (az_RedirectURI req)")
        case None
        with succeeded(2) obtain d where d: "r = Inr d" "s1 = s'" "ad_Kind d = DecisionErrorPage"
          "ad_RedirectURI d = None" "ad_Grant d = None" unfolding c(3) by auto
        show ?thesis by (rule unregistered [OF d(1) succeeded(1) [unfolded d(2)] d(3-5)])
      next
        case (Some uri)
        define g where "g = \<lparr>gr_ClientID = cl_ID cl, gr_RedirectURI = uri,
          gr_Scopes = NegotiateScopes (os_opts svc) (az_Scope req), gr_Resource = resource,
          gr_CodeChallenge = az_CodeChallenge req, gr_CodeChallengeMethod =
            (if TrimSpace (az_CodeChallengeMethod req) = [] then CodeChallengeMethodS256
             else TrimSpace (az_CodeChallengeMethod req)),
          gr_SessionID = az_SessionID req, gr_AuthorizedAt = unix (fe_now E)\<rparr>"
        have g: "gr_ClientID g = cl_ID cl" "gr_RedirectURI g = uri" "gr_CodeChallenge g = az_CodeChallenge req"
          "gr_Scopes g = NegotiateScopes (os_opts svc) (az_Scope req)"
          "good_grant X svc (Resource (os_opts svc) issuer) g"
          by (simp_all add: g_def good_grant_def NegotiateScopes_props res)
        show ?thesis
          by (rule resolved [OF succeeded(1) Some g], insert succeeded(2),
              unfold c(3) g(4) Some option.case Let_def g_def [symmetric])
            (auto elim!: andThenE split: if_splits)
      qed
    qed
  qed
qed

end
