(* ===== verification/OAuthProps.thy ===== *)
theory OAuthProps
  imports OAuthRuns
begin

text \<open>
  The calls of the OAuth handlers as one step function, the invariant of its runs, and the
  properties of the authorization server: where it redirects, what a code and a refresh token are
  good for and how often, what tokens may say, and when a grant may be silent.
\<close>

section \<open>Steps\<close>

datatype flow_call =
    FRegister "string option" time RegisterClientRequest
  | FAuthorize flow_env string AuthzRequest
  | FConsent flow_env string string
  | FToken flow_env string TokenRequest
  | FRevoke flow_env string
  | FRevokeClient flow_env string

datatype flow_result =
    RRegister "OAuthFailure + (Client \<times> RegisterClientResponse)"
  | RAuthorize AuthzDecision "string option"
  | RConsent "OAuthFailure + URL option"
  | RToken "OAuthFailure + TokenResponse"
  | RRevoke

text \<open>The handler of the authorization endpoint: a consent decision opens a consent screen.\<close>

definition authorize_and_begin :: "oauth_lib \<Rightarrow> OAuthService \<Rightarrow> flow_env \<Rightarrow> string \<Rightarrow> AuthzRequest \<Rightarrow> oauth_state
    \<Rightarrow> (AuthzDecision \<times> string option) \<times> oauth_state" where
  "authorize_and_begin X svc E issuer req s =
    (let (d, s1) = oauth_Authorize X svc E issuer req s in
     case (ad_Kind d, ad_Grant d) of
       (DecisionConsent, Some g) \<Rightarrow> (let (token, s2) = BeginConsent E g (az_State req) s1 in ((d, token), s2))
     | _ \<Rightarrow> ((d, None), s1))"

fun flow_step :: "oauth_lib \<Rightarrow> OAuthService \<Rightarrow> flow_call \<Rightarrow> oauth_state \<Rightarrow> flow_result \<times> oauth_state" where
  "flow_step X svc (FRegister rnd now req) s = map_prod RRegister id (RegisterClient X svc rnd now req s)"
| "flow_step X svc (FAuthorize E origin req) s =
     map_prod (\<lambda>(d, token). RAuthorize d token) id
       (authorize_and_begin X svc E (Issuer (os_opts svc) origin) req s)"
| "flow_step X svc (FConsent E token decision) s = map_prod RConsent id (FinalizeConsent X svc E token decision s)"
| "flow_step X svc (FToken E origin req) s =
     map_prod RToken id (IssueToken X svc E (Issuer (os_opts svc) origin) req s)"
| "flow_step X svc (FRevoke E token) s = (RRevoke, snd (svc_RevokeRefreshToken X svc E token s))"
| "flow_step X svc (FRevokeClient E cid) s = (RRevoke, snd (svc_RevokeClient svc E cid s))"

section \<open>The invariant\<close>

definition code_target :: "URL \<Rightarrow> bool" where
  "code_target u \<longleftrightarrow> ToLower (url_Scheme u) = ''https'' \<or>
     (ToLower (url_Scheme u) = ''http'' \<and> isLoopbackHost (Hostname u))"

definition safe_grant :: "oauth_lib \<Rightarrow> OAuthService \<Rightarrow> AuthorizationGrant \<Rightarrow> bool" where
  "safe_grant X svc g \<longleftrightarrow>
     (\<exists>origin. good_grant X svc (Resource (os_opts svc) (Issuer (os_opts svc) origin)) g) \<and>
     (\<exists>u. xl_url X (gr_RedirectURI g) = Some u \<and> code_target u)"

definition granted_scopes :: "OAuthService \<Rightarrow> string list \<Rightarrow> bool" where
  "granted_scopes svc ss \<longleftrightarrow> ss \<noteq> [] \<and> distinct ss \<and> set ss \<subseteq> set (ScopesSupported (os_opts svc))"

definition safe_row :: "OAuthService \<Rightarrow> StoredRefreshToken \<Rightarrow> bool" where
  "safe_row svc r \<longleftrightarrow> (\<exists>ss origin. granted_scopes svc ss \<and> rt_Scope r = joinScopes ss \<and>
     rt_Resource r = Resource (os_opts svc) (Issuer (os_opts svc) origin))"

definition flow_inv :: "oauth_lib \<Rightarrow> OAuthService \<Rightarrow> oauth_state \<Rightarrow> bool" where
  "flow_inv X svc s \<longleftrightarrow> clients_safe X s \<and> consents_distinct s \<and>
     (\<forall>k e. st_codes s k = Some e \<longrightarrow> safe_grant X svc (ce_grant e)) \<and>
     (\<forall>k e. st_consents s k = Some e \<longrightarrow> safe_grant X svc (cs_grant e)) \<and>
     (\<forall>r \<in> set (ot_refresh (tables (st_db s))). safe_row svc r)"

text \<open>Part of the state may change without touching the invariant.\<close>

lemma flow_inv_frame:
  assumes "flow_inv X svc s" "st_codes s' = st_codes s" "st_consents s' = st_consents s"
    "clients_safe X s'" "ot_consents (tables (st_db s')) = ot_consents (tables (st_db s))"
    "ot_refresh (tables (st_db s')) = ot_refresh (tables (st_db s))"
  shows "flow_inv X svc s'"
  using assms by (simp add: flow_inv_def consents_distinct_def)

lemma clients_safe_frame:
  "clients_safe X s \<Longrightarrow> ot_clients (tables (st_db s')) = ot_clients (tables (st_db s)) \<Longrightarrow> st_cimd s' = st_cimd s \<Longrightarrow>
   clients_safe X s'"
  by (simp add: clients_safe_def)

lemma flow_inv_issueCode:
  fixes E :: flow_env
  assumes "flow_inv X svc s" "safe_grant X svc g"
    "issueCode X svc (fe_code_rnd E) (fe_code_now E) (gr_RedirectURI g) state g s = (r, s')"
  shows "flow_inv X svc s'"
proof -
  note D = issueCode_D [OF assms(3)]
  have "clients_safe X s'" using assms(1) D(1,4) clients_safe_frame [of X s s'] by (simp add: flow_inv_def)
  moreover have "safe_grant X svc (ce_grant e)" if "st_codes s' k = Some e" for k e
    using D(5) that assms(1,2) by (auto simp: codes_from_def flow_inv_def)
  ultimately show ?thesis using assms(1) D(1,2) by (auto simp: flow_inv_def consents_distinct_def)
qed

lemma ValidateRedirectURI_safe:
  assumes "ValidateRedirectURI (xl_url X) c uri0 = Some uri"
    and "\<forall>uri \<in> set (cl_RedirectURIs c). safe_redirect (xl_url X) uri"
  shows "\<exists>u. xl_url X uri = Some u \<and> code_target u"
proof -
  from ValidateRedirectURI_SomeD [OF assms(1)] obtain q where q: "q \<in> set (cl_RedirectURIs c)"
    "uri = q \<or> loopbackEquivalent (xl_url X) q uri" by blast
  from q(2) show ?thesis
  proof
    assume "uri = q"
    with q(1) assms(2) show ?thesis by (auto simp: safe_redirect_def code_target_def)
  next
    assume "loopbackEquivalent (xl_url X) q uri"
    from loopbackEquivalentD [OF this] show ?thesis
      by (auto simp: code_target_def ToLower_def lower_char_def char_class_defs)
  qed
qed

lemma flow_inv_resolve:
  assumes "ResolveClient X svc now answer cid s = (r, s')" "flow_inv X svc s"
  shows "flow_inv X svc s'" "r = Inr c \<Longrightarrow> \<forall>uri \<in> set (cl_RedirectURIs c). safe_redirect (xl_url X) uri"
proof -
  from assms(2) have "clients_safe X s" by (simp add: flow_inv_def)
  note D = ResolveClient_D [OF assms(1) this]
  then show "flow_inv X svc s'" by (intro flow_inv_frame [OF assms(2)]) simp_all
  show "r = Inr c \<Longrightarrow> \<forall>uri \<in> set (cl_RedirectURIs c). safe_redirect (xl_url X) uri" using D by blast
qed

lemma flow_inv_required:
  assumes "consentRequired svc cid ss s = (r, s')" "flow_inv X svc s"
  shows "flow_inv X svc s'"
  using consentRequired_D [OF assms(1)] assms(2)
  by (intro flow_inv_frame [OF assms(2)]) (auto simp: flow_inv_def clients_safe_def)

lemma flow_inv_authorize:
  assumes "authorize_steps X svc E (Issuer (os_opts svc) origin) req s = (r, s')" "flow_inv X svc s"
  shows "flow_inv X svc s' \<and> (\<forall>d g. r = Inr d \<longrightarrow> ad_Grant d = Some g \<longrightarrow> safe_grant X svc g)"
  using assms(1)
proof (cases rule: authorize_stepsE)
  case (failed f)
  then show ?thesis using assms(2) by simp
next
  case (unresolved f)
  then show ?thesis using flow_inv_resolve(1) [OF _ assms(2)] by simp
next
  case (unregistered d c)
  then show ?thesis using flow_inv_resolve(1) [OF unregistered(2) assms(2)] by simp
next
  case (resolved c uri g s1)
  have inv1: "flow_inv X svc s1" by (rule flow_inv_resolve(1) [OF resolved(1) assms(2)])
  have "\<exists>u. xl_url X (gr_RedirectURI g) = Some u \<and> code_target u"
    using ValidateRedirectURI_safe [OF resolved(2) flow_inv_resolve(2) [OF resolved(1) assms(2)]] resolved(4) by simp
  with resolved(7) have g: "safe_grant X svc g" by (auto simp: safe_grant_def)
  from resolved(8) show ?thesis
  proof (elim disjE exE conjE)
    fix s2 q assume a: "consentRequired svc (cl_ID c) (gr_Scopes g) s1 = (Inr False, s2)"
      "issueCode X svc (fe_code_rnd E) (fe_code_now E) uri (az_State req) g s2 = (q, s')"
      "\<forall>f. q = Inl f \<longrightarrow> r = Inl f"
      "\<forall>u. q = Inr u \<longrightarrow> (\<exists>d. r = Inr d \<and> ad_Kind d = DecisionRedirect \<and> ad_RedirectURI d = Some u \<and>
         ad_Grant d = Some g \<and> ad_Client d = Some c)"
    have "flow_inv X svc s'"
      using flow_inv_issueCode [OF flow_inv_required [OF a(1) inv1] g] a(2) resolved(4) by blast
    with a(3,4) g show ?thesis by (cases q) auto
  qed (use inv1 g flow_inv_required [OF _ inv1] in auto)
qed

lemma record_consents_D:
  assumes "record_consents svc cid now ss s = (r, s')"
  shows "st_codes s' = st_codes s \<and> st_consents s' = st_consents s \<and> st_key s' = st_key s \<and> st_cimd s' = st_cimd s \<and>
    ot_clients (tables (st_db s')) = ot_clients (tables (st_db s)) \<and>
    ot_refresh (tables (st_db s')) = ot_refresh (tables (st_db s)) \<and>
    (consents_distinct s \<longrightarrow> consents_distinct s') \<and>
    set (ot_consents (tables (st_db s'))) \<subseteq>
      set (ot_consents (tables (st_db s))) \<union> {(c, sc, t). c = cid \<and> sc \<in> set ss}"
  using assms
proof (induction ss arbitrary: s)
  case (Cons sc ss)
  let ?m = "if os_store svc then on_db (RecordClientConsent cid sc (unix now)) else ret ()"
  have one: "st_codes t = st_codes s \<and> st_consents t = st_consents s \<and> st_key t = st_key s \<and> st_cimd t = st_cimd s \<and>
      ot_clients (tables (st_db t)) = ot_clients (tables (st_db s)) \<and>
      ot_refresh (tables (st_db t)) = ot_refresh (tables (st_db s)) \<and>
      (consents_distinct s \<longrightarrow> consents_distinct t) \<and>
      set (ot_consents (tables (st_db t))) \<subseteq> set (ot_consents (tables (st_db s))) \<union> {(c, x, t). c = cid \<and> x = sc}"
    if "?m s = (q, t)" for q t
    using that
    by (auto simp: RecordClientConsent_def consents_distinct_def list_ex_iff image_iff
      elim!: on_db_cases dest!: stmt_tablesD split: if_splits)
  from Cons.prems show ?case
  proof (unfold record_consents.simps, elim andThenE)
    fix e assume "?m s = (Inl e, s')"
    from one [OF this] show ?case by auto
  next
    fix a t assume t: "?m s = (Inr a, t)" "record_consents svc cid now ss t = (r, s')"
    from one [OF t(1)] Cons.IH [OF t(2)] show ?case by auto
  qed
qed simp

lemma ApproveGrant_D:
  assumes "ApproveGrant X svc E g state s = (r, s')"
  shows "st_consents s' = st_consents s" "codes_from (\<lambda>h. h = g) E s s'"
    "ot_refresh (tables (st_db s')) = ot_refresh (tables (st_db s))"
    "set (ot_consents (tables (st_db s'))) \<subseteq>
      set (ot_consents (tables (st_db s))) \<union> {(c, sc, t). c = gr_ClientID g \<and> sc \<in> set (gr_Scopes g)}"
    "\<And>u. r = Inr u \<Longrightarrow> code_redirect X E g state u"
proof -
  have all: "st_consents s' = st_consents s \<and> codes_from (\<lambda>h. h = g) E s s' \<and>
    ot_refresh (tables (st_db s')) = ot_refresh (tables (st_db s)) \<and>
    set (ot_consents (tables (st_db s'))) \<subseteq>
      set (ot_consents (tables (st_db s))) \<union> {(c, sc, t). c = gr_ClientID g \<and> sc \<in> set (gr_Scopes g)} \<and>
    (\<forall>u. r = Inr u \<longrightarrow> code_redirect X E g state u)"
    using assms unfolding ApproveGrant_def
  proof (elim andThenE)
    fix e assume e: "record_consents svc (gr_ClientID g) (fe_now E) (gr_Scopes g) s = (Inl e, s')" "r = Inl e"
    from record_consents_D [OF e(1)] e(2) show ?thesis by (simp add: codes_from_refl)
  next
    fix a t assume "record_consents svc (gr_ClientID g) (fe_now E) (gr_Scopes g) s = (Inr a, t)"
      and i: "issueCode X svc (fe_code_rnd E) (fe_code_now E) (gr_RedirectURI g) state g t = (r, s')"
    from record_consents_D [OF this(1)] issueCode_D [OF i] show ?thesis by (simp add: codes_from_def)
  qed
  then show "st_consents s' = st_consents s" "codes_from (\<lambda>h. h = g) E s s'"
    "ot_refresh (tables (st_db s')) = ot_refresh (tables (st_db s))"
    "set (ot_consents (tables (st_db s'))) \<subseteq>
      set (ot_consents (tables (st_db s))) \<union> {(c, sc, t). c = gr_ClientID g \<and> sc \<in> set (gr_Scopes g)}"
    "\<And>u. r = Inr u \<Longrightarrow> code_redirect X E g state u" by blast+
qed

lemma flow_inv_approve:
  fixes E :: flow_env
  assumes "ApproveGrant X svc E g state s = (r, s')" "flow_inv X svc s" "safe_grant X svc g"
  shows "flow_inv X svc s'"
  using assms(1) unfolding ApproveGrant_def
proof (elim andThenE)
  have frame: "flow_inv X svc t" if "record_consents svc (gr_ClientID g) (fe_now E) (gr_Scopes g) s = (q, t)" for q t
  proof -
    note D = record_consents_D [OF that]
    then show ?thesis using assms(2) by (auto simp: flow_inv_def intro: clients_safe_frame)
  qed
  fix e assume "record_consents svc (gr_ClientID g) (fe_now E) (gr_Scopes g) s = (Inl e, s')"
  then show ?thesis by (rule frame)
next
  fix a t assume r: "record_consents svc (gr_ClientID g) (fe_now E) (gr_Scopes g) s = (Inr a, t)"
    and i: "issueCode X svc (fe_code_rnd E) (fe_code_now E) (gr_RedirectURI g) state g t = (r, s')"
  have "flow_inv X svc t"
    using record_consents_D [OF r] assms(2) by (auto simp: flow_inv_def intro: clients_safe_frame)
  then show ?thesis by (rule flow_inv_issueCode [OF _ assms(3) i])
qed

lemma DenyRedirect_state: "DenyRedirect X g state s = (r, s') \<Longrightarrow> s' = s"
  by (auto simp: DenyRedirect_def buildErrorRedirect_def split: option.splits)

text \<open>Finalizing a consent: replay, failure, denial or approval of the pending grant.\<close>

lemma FinalizeConsentE:
  assumes "FinalizeConsent X svc E token decision s = (r, s')"
  obtains (idle) m where "s' = s\<lparr>st_consents := m\<rparr>" "m = sweepConsents (fe_consent_now E) (st_consents s)"
        "r = Inr None \<or> (\<exists>e u. m token = Some e \<and> cs_redirect e = Some u \<and> r = Inr (Some u))"
    | (denied) e m where "sweepConsents (fe_consent_now E) (st_consents s) token = Some e" "cs_redirect e = None"
        "decision = ''deny''" "s' = s\<lparr>st_consents := m\<rparr>"
        "\<forall>k x. m k = Some x \<longrightarrow> (\<exists>y. st_consents s k = Some y \<and> cs_grant y = cs_grant x)"
    | (approved) e q s1 m where "sweepConsents (fe_consent_now E) (st_consents s) token = Some e" "cs_redirect e = None"
        "decision \<noteq> ''deny''" "ApproveGrant X svc E (cs_grant e) (cs_state e) s = (q, s1)"
        "s' = s1\<lparr>st_consents := m\<rparr>" "\<forall>k x. m k = Some x \<longrightarrow> (\<exists>y. st_consents s k = Some y \<and> cs_grant y = cs_grant x)"
proof -
  let ?b = "\<lambda>grant state. if decision = ''deny'' then DenyRedirect X grant state else ApproveGrant X svc E grant state"
  let ?sw = "sweepConsents (fe_consent_now E) (st_consents s)"
  obtain m t where f: "consent_Finalize (fe_consent_now E) token ?b (st_consents s, s) = (r, (m, t))"
    and s': "s' = t\<lparr>st_consents := m\<rparr>"
    using assms by (auto simp: FinalizeConsent_def split: prod.splits)
  have sw: "\<forall>k x. ?sw k = Some x \<longrightarrow> (\<exists>y. st_consents s k = Some y \<and> cs_grant y = cs_grant x)"
    by (auto simp: sweepConsents_def)
  from f show ?thesis
  proof (cases rule: consent_FinalizeE)
    case unknown
    show ?thesis by (rule idle [of m]) (simp_all add: s' unknown)
  next
    case (replay e u)
    have "m token = Some e" using replay(1,4) by simp
    with replay(2,3) have *: "r = Inr None \<or> (\<exists>e u. m token = Some e \<and> cs_redirect e = Some u \<and> r = Inr (Some u))" by blast
    have "s' = s\<lparr>st_consents := m\<rparr>" using s' replay(5) by simp
    from idle [OF this replay(4) *] show ?thesis .
  next
    case (failed e x)
    show ?thesis
    proof (cases "decision = ''deny''")
      case True
      with failed(3) have "t = s" using DenyRedirect_state by simp
      show ?thesis by (rule denied [of e m]) (use True failed s' sw \<open>t = s\<close> in simp_all)
    next
      case False
      show ?thesis by (rule approved [of e "Inl x" t m]) (use False failed s' sw in simp_all)
    qed
  next
    case (first e u)
    have sw2: "\<forall>k x. m k = Some x \<longrightarrow> (\<exists>y. st_consents s k = Some y \<and> cs_grant y = cs_grant x)"
      using sw first(1,5) by (auto split: if_splits)
    show ?thesis
    proof (cases "decision = ''deny''")
      case True
      with first(3) have "t = s" using DenyRedirect_state by simp
      show ?thesis by (rule denied [of e m]) (use True first s' sw2 \<open>t = s\<close> in simp_all)
    next
      case False
      show ?thesis by (rule approved [of e "Inr u" t m]) (use False first s' sw2 in simp_all)
    qed
  qed
qed

lemma flow_inv_consents:
  assumes "flow_inv X svc s" "\<forall>k x. m k = Some x \<longrightarrow> safe_grant X svc (cs_grant x)"
  shows "flow_inv X svc (s\<lparr>st_consents := m\<rparr>)"
  using assms by (auto simp: flow_inv_def clients_safe_def consents_distinct_def)

lemma flow_inv_finalize:
  assumes "FinalizeConsent X svc E token decision s = (r, s')" "flow_inv X svc s"
  shows "flow_inv X svc s'"
proof -
  have g: "safe_grant X svc (cs_grant y)" if "st_consents s k = Some y" for k y
    using assms(2) that by (auto simp: flow_inv_def)
  have from_pending: "\<forall>k x. m k = Some x \<longrightarrow> safe_grant X svc (cs_grant x)"
    if *: "\<forall>k x. m k = Some x \<longrightarrow> (\<exists>y. st_consents s k = Some y \<and> cs_grant y = cs_grant x)" for m
  proof (intro allI impI)
    fix k x assume "m k = Some x"
    with * obtain y where "st_consents s k = Some y" "cs_grant y = cs_grant x" by blast
    with g show "safe_grant X svc (cs_grant x)" by metis
  qed
  from assms(1) show ?thesis
  proof (cases rule: FinalizeConsentE)
    case (idle m)
    then show ?thesis using g by (auto intro!: flow_inv_consents [OF assms(2)] simp: sweepConsents_def)
  next
    case (denied e m)
    have "\<forall>k x. m k = Some x \<longrightarrow> safe_grant X svc (cs_grant x)" by (rule from_pending [OF denied(5)])
    then show ?thesis unfolding denied(4) by (rule flow_inv_consents [OF assms(2)])
  next
    case (approved e q s1 m)
    then have "safe_grant X svc (cs_grant e)" using g by (auto simp: sweepConsents_def)
    from flow_inv_approve [OF approved(4) assms(2) this] from_pending [OF approved(6)] show ?thesis
      unfolding approved(5) by (rule flow_inv_consents)
  qed
qed

section \<open>The token endpoint\<close>

text \<open>What the access token of a response says.\<close>

definition minted :: "oauth_lib \<Rightarrow> OAuthService \<Rightarrow> flow_env \<Rightarrow> signingKey option \<Rightarrow> string \<Rightarrow> string \<Rightarrow> string list
    \<Rightarrow> string \<Rightarrow> TokenResponse \<Rightarrow> bool" where
  "minted X svc E key issuer cid ss resource resp \<longleftrightarrow> tk_Scope resp = joinScopes ss \<and>
     (\<exists>jti. SignAccessToken (jwt_lib.truncate X) key (fe_sign_rnd E)
        (access_claims svc issuer cid ss resource (fe_now E) jti) = Some (tk_AccessToken resp))"

lemma issueTokens_D:
  assumes "issueTokens X svc E issuer cid ss resource s = (r, s')" "ss \<noteq> []"
  shows "st_codes s' = st_codes s \<and> st_consents s' = st_consents s \<and> st_key s' = st_key s \<and> st_cimd s' = st_cimd s \<and>
    ot_clients (tables (st_db s')) = ot_clients (tables (st_db s)) \<and>
    ot_consents (tables (st_db s')) = ot_consents (tables (st_db s)) \<and>
    (\<forall>q \<in> set (ot_refresh (tables (st_db s'))). q \<in> set (ot_refresh (tables (st_db s))) \<or>
       (\<exists>raw tid. NewRefreshToken (jl_sha X) (fe_refresh_rnd E) = Some (raw, tid) \<and>
          q = new_refresh_row svc tid cid ss resource (fe_now E))) \<and>
    (\<forall>resp. r = Inr resp \<longrightarrow> minted X svc E (st_key s) issuer cid ss resource resp)"
proof -
  have row: "ot_clients (tables d) = ot_clients (tables (st_db s)) \<and> ot_consents (tables d) = ot_consents (tables (st_db s)) \<and>
      (\<forall>q \<in> set (ot_refresh (tables d)). q \<in> set (ot_refresh (tables (st_db s))) \<or>
        q = new_refresh_row svc tid cid ss resource (fe_now E))"
    if "InsertRefreshToken (new_refresh_row svc tid cid ss resource (fe_now E)) (st_db s) = (x, d)" for tid x d
  proof -
    have "rt_RevokedAt (new_refresh_row svc tid cid ss resource (fe_now E)) = None" by (simp add: new_refresh_row_def)
    from InsertRefreshToken_D [OF that this] show ?thesis by (auto split: if_splits)
  qed
  from assms show ?thesis
    unfolding issueTokens_def Let_def minted_def
    by (auto simp: on_store_def split: option.splits prod.splits sum.splits if_splits) (use row in blast)+
qed

lemma flow_inv_tokens:
  assumes "issueTokens X svc E issuer cid ss resource s = (r, s')" "flow_inv X svc s" "granted_scopes svc ss"
    "\<exists>origin. resource = Resource (os_opts svc) (Issuer (os_opts svc) origin)"
  shows "flow_inv X svc s'"
proof -
  from assms(3) have "ss \<noteq> []" by (simp add: granted_scopes_def)
  note D = issueTokens_D [OF assms(1) this]
  have "safe_row svc (new_refresh_row svc tid cid ss resource now)" for tid now
    using assms(3,4) by (auto simp: safe_row_def new_refresh_row_def)
  with D assms(2) show ?thesis
    by (auto simp: flow_inv_def consents_distinct_def intro: clients_safe_frame)
qed

lemma exchangeCodeE:
  assumes "exchangeCode X svc E issuer req s = (r, s')"
  obtains (failed) f where "r = Inl f" "s' = s \<or> s' = s\<lparr>st_codes := (st_codes s)(tr_Code req := None)\<rparr>"
    | (redeemed) e where "st_codes s (tr_Code req) = Some e" "fe_code_now E < ce_expiresAt e"
        "TrimSpace (tr_ClientID req) = [] \<or> TrimSpace (tr_ClientID req) = gr_ClientID (ce_grant e)"
        "TrimSpace (tr_RedirectURI req) = [] \<or> TrimSpace (tr_RedirectURI req) = gr_RedirectURI (ce_grant e)"
        "VerifyCodeVerifier (jl_sha X) (tr_CodeVerifier req) (gr_CodeChallenge (ce_grant e))"
        "issueTokens X svc E issuer (gr_ClientID (ce_grant e)) (gr_Scopes (ce_grant e)) (gr_Resource (ce_grant e))
           (s\<lparr>st_codes := (st_codes s)(tr_Code req := None)\<rparr>) = (r, s')"
proof (cases "TrimSpace (tr_Code req) = []")
  case True
  with assms show ?thesis by (intro failed) (auto simp: exchangeCode_def)
next
  case False
  obtain q m where red: "code_Redeem (fe_code_now E) (tr_Code req) (st_codes s) = (q, m)" by (metis surj_pair)
  then have m: "m = (st_codes s)(tr_Code req := None)" by (rule code_Redeem_store)
  show ?thesis
  proof (cases q)
    case None
    with False red m assms show ?thesis by (intro failed) (auto simp: exchangeCode_def Let_def)
  next
    case (Some g)
    with red obtain e where e: "st_codes s (tr_Code req) = Some e" "ce_grant e = g" "fe_code_now E < ce_expiresAt e"
      using code_Redeem_SomeD by blast
    let ?s1 = "s\<lparr>st_codes := (st_codes s)(tr_Code req := None)\<rparr>"
    from assms False red Some m have
      "(\<exists>f. r = Inl f \<and> s' = ?s1) \<or>
       ((TrimSpace (tr_ClientID req) = [] \<or> TrimSpace (tr_ClientID req) = gr_ClientID g) \<and>
        (TrimSpace (tr_RedirectURI req) = [] \<or> TrimSpace (tr_RedirectURI req) = gr_RedirectURI g) \<and>
        VerifyCodeVerifier (jl_sha X) (tr_CodeVerifier req) (gr_CodeChallenge g) \<and>
        issueTokens X svc E issuer (gr_ClientID g) (gr_Scopes g) (gr_Resource g) ?s1 = (r, s'))"
      by (auto simp: exchangeCode_def Let_def split: if_splits sum.splits)
    then show ?thesis using e by (auto intro: failed redeemed)
  qed
qed

lemma refresh_checkE:
  assumes "refresh_check X svc E issuer req s = (r, s')"
  obtains (failed) f where "r = Inl f" "tables (st_db s') = tables (st_db s)" "st_codes s' = st_codes s"
        "st_consents s' = st_consents s" "st_key s' = st_key s" "st_cimd s' = st_cimd s"
    | (found) row where "r = Inr row" "row \<in> set (ot_refresh (tables (st_db s)))" "os_store svc"
        "rt_ID row = oauth_tokenID (jl_sha X) (TrimSpace (tr_RefreshToken req))" "live_token (unix (fe_lookup_now E)) row"
        "tables (st_db s') = tables (st_db s)" "st_codes s' = st_codes s"
        "st_consents s' = st_consents s" "st_key s' = st_key s" "st_cimd s' = st_cimd s"
proof -
  let ?L = "RefreshTokenByID (oauth_tokenID (jl_sha X) (TrimSpace (tr_RefreshToken req))) (unix (fe_lookup_now E))"
  have "(\<exists>f. r = Inl f \<and> s' = s) \<or> (\<exists>x d. ?L (st_db s) = (x, d) \<and> s' = s\<lparr>st_db := d\<rparr> \<and>
      ((\<exists>f. r = Inl f) \<or> (\<exists>row. x = Inr (Some row) \<and> r = Inr row \<and> os_store svc)))"
    using assms unfolding refresh_check_def Let_def
    by (auto elim!: andThenE on_db_cases split: if_splits option.splits sum.splits)
  then show ?thesis
  proof (elim disjE exE conjE)
    fix f assume "r = Inl f" "s' = s"
    then show ?thesis by (intro failed [of f]) simp_all
  next
    fix x d f assume "?L (st_db s) = (x, d)" "s' = s\<lparr>st_db := d\<rparr>" "r = Inl f"
    then show ?thesis using RefreshTokenByID_tables by (intro failed [of f]) simp_all
  next
    fix x d row assume a: "?L (st_db s) = (x, d)" "s' = s\<lparr>st_db := d\<rparr>" "x = Inr (Some row)" "r = Inr row" "os_store svc"
    from RefreshTokenByID_Inr [OF a(1) [unfolded a(3)]] a show ?thesis by (intro found [of row]) simp_all
  qed
qed

end
