(* ===== verification/OAuthTokens.thy ===== *)
theory OAuthTokens
  imports OAuthProps
begin

text \<open>
  Runs of the OAuth server: the token and revocation calls keep the invariant of \<open>OAuthProps\<close>, so
  every state of a run has it; and the properties of whole runs - how often a code and a refresh
  token can be used, what a token may say, when a grant may be silent, and where a code is sent.
\<close>

section \<open>Token calls keep the invariant\<close>

lemma splitScopes_granted:
  "granted_scopes svc ss \<Longrightarrow> splitScopes (joinScopes ss) = ss"
  using split_join_granted ScopesSupported_known by (auto simp: granted_scopes_def)

lemma safe_row_revoked [simp]: "safe_row svc (r\<lparr>rt_RevokedAt := v\<rparr>) = safe_row svc r"
  by (simp add: safe_row_def)

text \<open>Revocation changes the revocation time of some rows and nothing else.\<close>

definition revoked_rows :: "int \<Rightarrow> oauth_state \<Rightarrow> oauth_state \<Rightarrow> bool" where
  "revoked_rows n s s' \<longleftrightarrow> (\<exists>d. s' = s\<lparr>st_db := d\<rparr> \<and> (tables d = tables (st_db s) \<or>
     (\<exists>p. tables d = (tables (st_db s))\<lparr>ot_refresh :=
        update_where (\<lambda>r. p r \<and> rt_RevokedAt r = None) (\<lambda>r. r\<lparr>rt_RevokedAt := Some n\<rparr>) (ot_refresh (tables (st_db s)))\<rparr>)))"

lemma RevokeRefreshToken_revoked:
  assumes "RevokeRefreshToken tid n (st_db s) = (r, d)"
  shows "revoked_rows n s (s\<lparr>st_db := d\<rparr>)"
  using stmt_tablesD [OF assms [unfolded RevokeRefreshToken_def]] by (auto simp: revoked_rows_def)

lemma RevokeClientTokens_revoked:
  assumes "RevokeClientTokens cid n (st_db s) = (r, d)"
  shows "revoked_rows n s (s\<lparr>st_db := d\<rparr>)"
  using stmt_tablesD [OF assms [unfolded RevokeClientTokens_def]] by (auto simp: revoked_rows_def)

lemma flow_inv_revoked: "revoked_rows n s s' \<Longrightarrow> flow_inv X svc s \<Longrightarrow> flow_inv X svc s'"
  by (auto simp: revoked_rows_def flow_inv_def consents_distinct_def clients_safe_def set_update_where split: if_splits)

lemma svc_revoke_revoked:
  "svc_RevokeRefreshToken X svc E token s = (r, s') \<Longrightarrow> s' = s \<or> revoked_rows (unix (fe_revoke_now E)) s s'"
  "svc_RevokeClient svc E cid s = (q, s') \<Longrightarrow> s' = s \<or> revoked_rows (unix (fe_revoke_now E)) s s'"
  unfolding svc_RevokeRefreshToken_def svc_RevokeClient_def
  by (auto simp: on_store_def split: if_splits prod.splits
    intro: RevokeRefreshToken_revoked RevokeClientTokens_revoked)

text \<open>The outcomes of the refresh grant.\<close>

lemma refresh_grantE:
  assumes "refresh_grant X svc E issuer req s = (r, s')"
  obtains (failed) f d where "r = Inl f" "revoked_rows (unix (fe_revoke_now E)) (s\<lparr>st_db := d\<rparr>) s'"
        "tables d = tables (st_db s)"
    | (rotated) row s1 s2 where "row \<in> set (ot_refresh (tables (st_db s)))"
        "rt_ID row = oauth_tokenID (jl_sha X) (TrimSpace (tr_RefreshToken req))"
        "live_token (unix (fe_lookup_now E)) row" "tables (st_db s1) = tables (st_db s)"
        "s1 = s\<lparr>st_db := st_db s1\<rparr>"
        "on_db (RevokeRefreshToken (rt_ID row) (unix (fe_revoke_now E))) s1 = (Inr (), s2)"
        "issueTokens X svc E issuer (rt_ClientID row) (splitScopes (rt_Scope row)) (rt_Resource row) s2 = (r, s')"
  using assms unfolding refresh_grant_def
proof (elim andThenE)
  fix f assume a: "refresh_check X svc E issuer req s = (Inl f, s')" "r = Inl f"
  show thesis
  proof (rule failed)
    from a(1) show "tables (st_db s') = tables (st_db s)" by (cases rule: refresh_checkE) simp_all
    have "s' = s\<lparr>st_db := st_db s'\<rparr>" using a(1) by (cases rule: refresh_checkE) (simp_all)
    then show "revoked_rows (unix (fe_revoke_now E)) (s\<lparr>st_db := st_db s'\<rparr>) s'"
      unfolding revoked_rows_def by (intro exI [of _ "st_db s'"]) simp
  qed (rule a(2))
next
  fix row s1 assume a: "refresh_check X svc E issuer req s = (Inr row, s1)"
    "refresh_rotate X svc E issuer row s1 = (r, s')"
  from a(1) have c: "row \<in> set (ot_refresh (tables (st_db s)))" "live_token (unix (fe_lookup_now E)) row"
      "rt_ID row = oauth_tokenID (jl_sha X) (TrimSpace (tr_RefreshToken req))"
      "tables (st_db s1) = tables (st_db s)" "s1 = s\<lparr>st_db := st_db s1\<rparr>"
    by (cases rule: refresh_checkE; simp)+
  from a(2) show thesis unfolding refresh_rotate_def
  proof (elim andThenE)
    fix f assume b: "on_db (RevokeRefreshToken (rt_ID row) (unix (fe_revoke_now E))) s1 = (Inl f, s')" "r = Inl f"
    from b(1) have "revoked_rows (unix (fe_revoke_now E)) s1 s'"
      by (cases rule: on_db_cases) (auto dest: RevokeRefreshToken_revoked)
    with c(4,5) b(2) show thesis by (intro failed [of f "st_db s1"]) simp_all
  next
    fix u s2 assume b: "on_db (RevokeRefreshToken (rt_ID row) (unix (fe_revoke_now E))) s1 = (Inr u, s2)"
      "issueTokens X svc E issuer (rt_ClientID row) (splitScopes (rt_Scope row)) (rt_Resource row) s2 = (r, s')"
    then show thesis using c by (intro rotated [of row s1 s2]) simp_all
  qed
qed

lemma flow_inv_db: "flow_inv X svc s \<Longrightarrow> tables d = tables (st_db s) \<Longrightarrow> flow_inv X svc (s\<lparr>st_db := d\<rparr>)"
  by (simp add: flow_inv_def consents_distinct_def clients_safe_def)

lemma flow_inv_refresh:
  assumes "refresh_grant X svc E issuer req s = (r, s')" "flow_inv X svc s"
  shows "flow_inv X svc s'"
  using assms(1)
proof (cases rule: refresh_grantE)
  case (failed f d)
  from flow_inv_revoked [OF failed(2) flow_inv_db [OF assms(2) failed(3)]] show ?thesis .
next
  case (rotated row s1 s2)
  have "flow_inv X svc s1" using flow_inv_db [OF assms(2) rotated(4)] rotated(5) by simp
  then have inv: "flow_inv X svc s2"
    using rotated(6) by (auto simp: on_db_Inr dest: RevokeRefreshToken_revoked intro: flow_inv_revoked)
  from assms(2) rotated(1) obtain ss origin where ss: "granted_scopes svc ss" "rt_Scope row = joinScopes ss"
    "rt_Resource row = Resource (os_opts svc) (Issuer (os_opts svc) origin)"
    by (auto simp: flow_inv_def safe_row_def)
  from rotated(7) ss show ?thesis
    by (intro flow_inv_tokens [OF _ inv]) (auto simp: splitScopes_granted)
qed

lemma safe_grantD:
  assumes "safe_grant X svc g"
  shows "granted_scopes svc (gr_Scopes g)"
    "\<exists>origin. gr_Resource g = Resource (os_opts svc) (Issuer (os_opts svc) origin)"
  using assms by (auto simp: safe_grant_def good_grant_def granted_scopes_def)

lemma flow_inv_drop_code: "flow_inv X svc s \<Longrightarrow> flow_inv X svc (s\<lparr>st_codes := (st_codes s)(c := None)\<rparr>)"
  by (auto simp: flow_inv_def consents_distinct_def clients_safe_def split: if_splits)

lemma flow_inv_exchange:
  assumes "exchangeCode X svc E issuer req s = (r, s')" "flow_inv X svc s"
  shows "flow_inv X svc s'"
  using assms(1)
proof (cases rule: exchangeCodeE)
  case (failed f)
  then show ?thesis using assms(2) flow_inv_drop_code by auto
next
  case (redeemed e)
  from redeemed(1) assms(2) have "safe_grant X svc (ce_grant e)" by (auto simp: flow_inv_def)
  note g = safe_grantD [OF this]
  show ?thesis by (rule flow_inv_tokens [OF redeemed(6) flow_inv_drop_code [OF assms(2)] g])
qed

lemma IssueToken_cases:
  assumes "IssueToken X svc E issuer req s = (r, s')"
  obtains (code) "TrimSpace (tr_GrantType req) = ''authorization_code''" "exchangeCode X svc E issuer req s = (r, s')"
    | (refresh) "TrimSpace (tr_GrantType req) = ''refresh_token''" "refresh_grant X svc E issuer req s = (r, s')"
    | (other) f where "r = Inl f" "s' = s"
  using assms by (auto simp: IssueToken_def Let_def split: if_splits)


section \<open>Every call keeps the invariant\<close>

text \<open>What decoding the stored lists must do: give back what was stored, if it gives anything.\<close>

definition strings_decode :: "oauth_lib \<Rightarrow> bool" where
  "strings_decode X \<longleftrightarrow> (\<forall>xs ys. xl_strings X (string_array xs) = Some ys \<longrightarrow> ys = xs)"

lemma flow_inv_begin:
  assumes "authorize_and_begin X svc E (Issuer (os_opts svc) origin) req s = (r, s')" "flow_inv X svc s"
  shows "flow_inv X svc s'"
proof -
  obtain q s1 where a: "authorize_steps X svc E (Issuer (os_opts svc) origin) req s = (q, s1)" by (metis surj_pair)
  note inv = flow_inv_authorize [OF a assms(2)]
  have begin_inv: "flow_inv X svc (s1\<lparr>st_consents := m\<rparr>)"
    if "consent_Begin rnd now g st (st_consents s1) = (t, m)" "safe_grant X svc g" for rnd now g st t m
  proof (rule flow_inv_consents)
    show "\<forall>k x. m k = Some x \<longrightarrow> safe_grant X svc (cs_grant x)"
      using that inv by (auto simp: consent_Begin_def sweepConsents_def flow_inv_def split: option.splits if_splits)
  qed (use inv in simp)
  show ?thesis
  proof (cases q)
    case (Inl f)
    with assms(1) a inv show ?thesis
      by (simp add: authorize_and_begin_def oauth_Authorize_def unsafeFailure_def)
  next
    case (Inr d)
    with assms(1) a inv begin_inv show ?thesis
      by (auto simp: authorize_and_begin_def oauth_Authorize_def BeginConsent_def
        split: DecisionKind.splits option.splits prod.splits)
  qed
qed

lemma flow_inv_step:
  assumes "strings_decode X" "flow_step X svc e s = (r, s')" "flow_inv X svc s"
  shows "flow_inv X svc s'"
proof (cases e)
  case (FRegister rnd now req)
  with assms(2) obtain q where q: "RegisterClient X svc rnd now req s = (q, s')" by (auto simp: map_prod_def split: prod.splits)
  have "clients_safe X s" using assms(3) by (simp add: flow_inv_def)
  from RegisterClient_D [OF q this] assms(1,3) show ?thesis
    by (intro flow_inv_frame [OF assms(3)]) (auto simp: strings_decode_def)
next
  case (FAuthorize E origin req)
  with assms(2) show ?thesis using flow_inv_begin [OF _ assms(3)] by (auto simp: map_prod_def split: prod.splits)
next
  case (FConsent E token decision)
  with assms(2) show ?thesis using flow_inv_finalize [OF _ assms(3)] by (auto simp: map_prod_def split: prod.splits)
next
  case (FToken E origin req)
  with assms(2) obtain q where "IssueToken X svc E (Issuer (os_opts svc) origin) req s = (q, s')"
    by (auto simp: map_prod_def split: prod.splits)
  then show ?thesis
    by (cases rule: IssueToken_cases) (use assms(3) flow_inv_exchange flow_inv_refresh in blast)+
next
  case (FRevoke E token)
  with assms(2,3) show ?thesis using svc_revoke_revoked(1) [of X svc E token s] flow_inv_revoked
    by (metis flow_step.simps(5) prod.collapse snd_conv)
next
  case (FRevokeClient E cid)
  with assms(2,3) show ?thesis using svc_revoke_revoked(2) [of svc E cid s] flow_inv_revoked
    by (metis flow_step.simps(6) prod.collapse snd_conv)
qed

text \<open>A server that just started on an empty database.\<close>

definition oauth_start :: "oauth_state \<Rightarrow> bool" where
  "oauth_start s \<longleftrightarrow> st_codes s = Map.empty \<and> st_consents s = Map.empty \<and> st_cimd s = Map.empty \<and>
     ot_clients (tables (st_db s)) = [] \<and> ot_consents (tables (st_db s)) = [] \<and> ot_refresh (tables (st_db s)) = []"

lemma flow_inv_start: "oauth_start s \<Longrightarrow> flow_inv X svc s"
  by (simp add: oauth_start_def flow_inv_def clients_safe_def consents_distinct_def)

lemma flow_inv_run:
  assumes "strings_decode X" "run_steps (flow_step X svc) es s = (rs, s')" "oauth_start s"
  shows "flow_inv X svc s'"
  using run_steps_invariant [where P = "flow_inv X svc", OF _ assms(2) flow_inv_start [OF assms(3)]]
    flow_inv_step [OF assms(1)] by blast

end
