(* ===== verification/OAuthUse.thy ===== *)
theory OAuthUse
  imports OAuthTokens SingleUse
begin

text \<open>
  How often codes and refresh tokens are good, over all interleavings of calls: the calls of the
  OAuth server are two instances of \<open>counted_use\<close>, one keyed by authorization codes, one by the
  ids of refresh tokens. And the race that the code leaves open between the two halves of a refresh.
\<close>

section \<open>Authorization codes\<close>

fun exchanges :: "string \<Rightarrow> flow_call \<Rightarrow> flow_result \<Rightarrow> bool" where
  "exchanges k (FToken E origin req) (RToken (Inr resp)) \<longleftrightarrow>
     TrimSpace (tr_GrantType req) = ''authorization_code'' \<and> tr_Code req = k"
| "exchanges k _ _ \<longleftrightarrow> False"

fun draws_code :: "string \<Rightarrow> flow_call \<Rightarrow> bool" where
  "draws_code k (FAuthorize E origin req) \<longleftrightarrow> draws E k"
| "draws_code k (FConsent E token decision) \<longleftrightarrow> draws E k"
| "draws_code k _ \<longleftrightarrow> False"

lemma RegisterClient_codes:
  "RegisterClient X svc rnd now req s = (r, s') \<Longrightarrow> st_codes s' = st_codes s"
  unfolding RegisterClient_def Let_def
  by (auto elim!: andThenE on_db_cases split: if_splits option.splits)

lemma ResolveClient_codes:
  "ResolveClient X svc now answer cid s = (r, s') \<Longrightarrow> st_codes s' = st_codes s"
  unfolding ResolveClient_def Let_def
  by (auto elim!: andThenE on_db_cases dest!: cimd_Resolve_D split: if_splits option.splits)

lemma issueTokens_codes: "issueTokens X svc E issuer cid ss resource s = (r, s') \<Longrightarrow> st_codes s' = st_codes s"
  unfolding issueTokens_def Let_def
  by (auto simp: on_store_def split: option.splits prod.splits sum.splits if_splits)

lemma authorize_codes:
  assumes "authorize_steps X svc E issuer req s = (r, s')"
  shows "codes_from (\<lambda>_. True) E s s'"
  using assms
proof (cases rule: authorize_stepsE)
  case (failed f)
  then show ?thesis by (simp add: codes_from_refl)
next
  case (unresolved f)
  then show ?thesis using ResolveClient_codes by (simp add: codes_from_refl)
next
  case (unregistered d c)
  then show ?thesis using ResolveClient_codes by (simp add: codes_from_refl)
next
  case (resolved c uri g s1)
  have s1: "st_codes s1 = st_codes s" by (rule ResolveClient_codes [OF resolved(1)])
  have q: "st_codes t = st_codes s" if "consentRequired svc (cl_ID c) (gr_Scopes g) s1 = (x, t)" for x t
    using consentRequired_D [OF that] s1 by simp
  from resolved(8) show ?thesis
  proof (elim disjE exE conjE)
    fix s2 x assume a: "consentRequired svc (cl_ID c) (gr_Scopes g) s1 = (Inr False, s2)"
      "issueCode X svc (fe_code_rnd E) (fe_code_now E) uri (az_State req) g s2 = (x, s')"
    from issueCode_D(5) [OF a(2) [folded resolved(4)]] q [OF a(1)] show ?thesis by (auto simp: codes_from_def)
  qed (use s1 q in \<open>auto simp: codes_from_refl\<close>)
qed

lemma flow_step_codes:
  assumes "flow_step X svc e s = (r, s')" "st_codes s' k \<noteq> None"
  shows "st_codes s k \<noteq> None \<or> draws_code k e"
proof (cases e)
  case (FAuthorize E origin req)
  obtain q s1 where a: "authorize_steps X svc E (Issuer (os_opts svc) origin) req s = (q, s1)" by (metis surj_pair)
  have "st_codes s' = st_codes s1" using assms(1) a unfolding FAuthorize
    by (auto simp: map_prod_def authorize_and_begin_def oauth_Authorize_def BeginConsent_def
      split: prod.splits sum.splits DecisionKind.splits option.splits)
  with assms(2) authorize_codes [OF a] FAuthorize show ?thesis by (auto simp: codes_from_def)
next
  case (FConsent E token decision)
  with assms(1) obtain q where "FinalizeConsent X svc E token decision s = (q, s')" by (auto simp: map_prod_def split: prod.splits)
  then show ?thesis
  proof (cases rule: FinalizeConsentE)
    case (approved en x s1 m)
    from ApproveGrant_D(2) [OF approved(4)] approved(5) assms(2) FConsent show ?thesis by (auto simp: codes_from_def)
  qed (use assms(2) in simp_all)
next
  case (FToken E origin req)
  with assms(1) obtain q where "IssueToken X svc E (Issuer (os_opts svc) origin) req s = (q, s')"
    by (auto simp: map_prod_def split: prod.splits)
  then show ?thesis
  proof (cases rule: IssueToken_cases)
    case code
    from code(2) show ?thesis
      by (cases rule: exchangeCodeE) (use assms(2) in \<open>auto dest!: issueTokens_codes split: if_splits\<close>)
  next
    case refresh
    from refresh(2) show ?thesis
      by (cases rule: refresh_grantE)
        (use assms(2) in \<open>auto simp: revoked_rows_def on_db_Inr dest!: issueTokens_codes\<close>, metis oauth_state.select_convs(2) oauth_state.surjective oauth_state.update_convs(1))
  qed (use assms(2) in simp)
next
  case (FRevoke E token)
  with assms show ?thesis using svc_revoke_revoked(1) [of X svc E token s]
    by (cases "svc_RevokeRefreshToken X svc E token s") (auto simp: revoked_rows_def)
next
  case (FRevokeClient E cid)
  with assms show ?thesis using svc_revoke_revoked(2) [of svc E cid s]
    by (cases "svc_RevokeClient svc E cid s") (auto simp: revoked_rows_def)
qed (use assms RegisterClient_codes in \<open>auto simp: map_prod_def split: prod.splits\<close>)

lemma exchange_consumes:
  assumes "flow_step X svc e s = (r, s')" "exchanges k e r"
  shows "st_codes s k \<noteq> None \<and> st_codes s' k = None"
proof -
  from assms(2) obtain E origin req resp where e: "e = FToken E origin req" "r = RToken (Inr resp)"
    "TrimSpace (tr_GrantType req) = ''authorization_code''" "tr_Code req = k"
    by (cases "(k, e, r)" rule: exchanges.cases) auto
  with assms(1) have "exchangeCode X svc E (Issuer (os_opts svc) origin) req s = (Inr resp, s')"
    by (auto simp: IssueToken_def Let_def map_prod_def split: prod.splits)
  then show ?thesis by (cases rule: exchangeCodeE) (use e(4) in \<open>auto dest!: issueTokens_codes\<close>)
qed

interpretation flow_codes: counted_use "flow_step X svc" "\<lambda>_. True" "\<lambda>_. True" exchanges
    "\<lambda>k e r. draws_code k e" "\<lambda>k s. st_codes s k \<noteq> None"
  for X :: oauth_lib and svc :: OAuthService
proof (unfold_locales, goal_cases)
  case (2 s e k r s')
  then show ?case using flow_step_codes by blast
next
  case (3 s e r s' k)
  then show ?case using exchange_consumes [OF 3(3,4)] by simp
qed simp

text \<open>
  C5. Authorization codes are single use: in any sequence of calls, from any state and with any
  failures, clocks and random bytes, a code is exchanged for tokens at most as often as an
  authorization or an approval drew exactly its random bytes, plus once if it was already pending.
  So with bytes that do not repeat, a code buys tokens once.
\<close>

theorem code_single_use:
  assumes "run_steps (flow_step X svc) calls s = (results, s')"
  shows "length (filter (\<lambda>(e, r). exchanges code e r) (zip calls results)) \<le>
     length (filter (\<lambda>(e, r). draws_code code e) (zip calls results)) + (if st_codes s code \<noteq> None then 1 else 0)"
  by (rule flow_codes.wins_bounded [OF assms]) (simp_all add: list_all_iff)

section \<open>Refresh tokens\<close>

fun rotates :: "oauth_lib \<Rightarrow> string \<Rightarrow> flow_call \<Rightarrow> flow_result \<Rightarrow> bool" where
  "rotates X k (FToken E origin req) (RToken (Inr resp)) \<longleftrightarrow> TrimSpace (tr_GrantType req) = ''refresh_token'' \<and>
     oauth_tokenID (jl_sha X) (TrimSpace (tr_RefreshToken req)) = k"
| "rotates X k _ _ \<longleftrightarrow> False"

fun draws_refresh :: "oauth_lib \<Rightarrow> string \<Rightarrow> flow_call \<Rightarrow> bool" where
  "draws_refresh X k (FToken E origin req) \<longleftrightarrow>
     (\<exists>buf. fe_refresh_rnd E = Some buf \<and> k = oauth_tokenID (jl_sha X) (B64Encode url_alphabet buf))"
| "draws_refresh X k _ \<longleftrightarrow> False"

text \<open>Revocations are written at a Unix second other than 0, which the column reads as "not revoked".\<close>

fun clock_set :: "flow_call \<Rightarrow> bool" where
  "clock_set (FToken E origin req) \<longleftrightarrow> unix (fe_revoke_now E) \<noteq> 0"
| "clock_set (FRevoke E token) \<longleftrightarrow> unix (fe_revoke_now E) \<noteq> 0"
| "clock_set (FRevokeClient E cid) \<longleftrightarrow> unix (fe_revoke_now E) \<noteq> 0"
| "clock_set _ \<longleftrightarrow> True"

definition no_zero_revocation :: "oauth_state \<Rightarrow> bool" where
  "no_zero_revocation s \<longleftrightarrow> (\<forall>r \<in> set (ot_refresh (tables (st_db s))). rt_RevokedAt r \<noteq> Some 0)"

definition live_refresh :: "string \<Rightarrow> oauth_state \<Rightarrow> bool" where
  "live_refresh k s \<longleftrightarrow> (\<exists>r \<in> set (ot_refresh (tables (st_db s))). rt_ID r = k \<and> rt_RevokedAt r = None)"


text \<open>What a call does to the rows: keep, insert under a drawn id, or revoke at its own clock.\<close>

definition rows_from :: "(string \<Rightarrow> bool) \<Rightarrow> int \<Rightarrow> oauth_state \<Rightarrow> oauth_state \<Rightarrow> bool" where
  "rows_from new n s s' \<longleftrightarrow> (\<forall>q \<in> set (ot_refresh (tables (st_db s'))).
     q \<in> set (ot_refresh (tables (st_db s))) \<or> (new (rt_ID q) \<and> rt_RevokedAt q = None) \<or>
     (\<exists>p \<in> set (ot_refresh (tables (st_db s))). rt_ID p = rt_ID q \<and> rt_RevokedAt q = Some n))"

lemma rows_from_same: "ot_refresh (tables (st_db s')) = ot_refresh (tables (st_db s)) \<Longrightarrow> rows_from new n s s'"
  by (simp add: rows_from_def)

lemma rows_from_revoked:
  assumes "revoked_rows n s s'"
  shows "rows_from new n s s'"
proof -
  from assms consider "tables (st_db s') = tables (st_db s)"
    | p where "ot_refresh (tables (st_db s')) = update_where (\<lambda>r. p r \<and> rt_RevokedAt r = None)
        (\<lambda>r. r\<lparr>rt_RevokedAt := Some n\<rparr>) (ot_refresh (tables (st_db s)))"
    by (auto simp: revoked_rows_def)
  then show ?thesis
  proof cases
    case 2
    have "q \<in> set (ot_refresh (tables (st_db s))) \<or>
        (\<exists>p \<in> set (ot_refresh (tables (st_db s))). rt_ID p = rt_ID q \<and> rt_RevokedAt q = Some n)"
      if "q \<in> set (ot_refresh (tables (st_db s')))" for q
    proof -
      from that obtain x where x: "x \<in> set (ot_refresh (tables (st_db s)))"
        "q = (if p x \<and> rt_RevokedAt x = None then x\<lparr>rt_RevokedAt := Some n\<rparr> else x)"
        unfolding 2 set_update_where by blast
      then show ?thesis
        by (cases "p x \<and> rt_RevokedAt x = None") (auto intro: bexI [of _ x])
    qed
    then show ?thesis by (auto simp: rows_from_def)
  qed (simp add: rows_from_same)
qed

text \<open>Issuing tokens inserts one row at most, and may sweep others.\<close>

definition rows_added :: "(string \<Rightarrow> bool) \<Rightarrow> oauth_state \<Rightarrow> oauth_state \<Rightarrow> bool" where
  "rows_added new s s' \<longleftrightarrow> (\<forall>q \<in> set (ot_refresh (tables (st_db s'))).
     q \<in> set (ot_refresh (tables (st_db s))) \<or> (new (rt_ID q) \<and> rt_RevokedAt q = None))"

abbreviation drawn_id :: "oauth_lib \<Rightarrow> flow_env \<Rightarrow> string \<Rightarrow> bool" where
  "drawn_id X E k \<equiv> \<exists>buf. fe_refresh_rnd E = Some buf \<and> k = oauth_tokenID (jl_sha X) (B64Encode url_alphabet buf)"

lemma issueTokens_rows:
  assumes "issueTokens X svc E issuer cid ss resource s = (r, s')"
  shows "rows_added (drawn_id X E) s s'"
proof -
  let ?ss = "if ss = [] then [OAuthScopeRead] else ss"
  have "issueTokens X svc E issuer cid ?ss resource s = (r, s')" using assms by (simp add: issueTokens_def)
  moreover have "?ss \<noteq> []" by simp
  ultimately show ?thesis
    using issueTokens_D [of X svc E issuer cid ?ss resource s r s']
    unfolding rows_added_def by (auto simp: NewRefreshToken_def new_refresh_row_def Let_def split: option.splits)
qed

lemma rows_from_then:
  "ot_refresh (tables (st_db s1)) = ot_refresh (tables (st_db s)) \<Longrightarrow> rows_from new n s1 s' \<Longrightarrow> rows_from new n s s'"
  by (simp add: rows_from_def)

lemma rows_from_added: "rows_from new n s s1 \<Longrightarrow> rows_added new s1 s' \<Longrightarrow> rows_from new n s s'"
  unfolding rows_from_def rows_added_def by blast

lemma RegisterClient_refresh:
  "RegisterClient X svc rnd now req s = (r, s') \<Longrightarrow> ot_refresh (tables (st_db s')) = ot_refresh (tables (st_db s))"
  unfolding RegisterClient_def Let_def InsertClient_def
  by (auto elim!: andThenE on_db_cases dest!: stmt_tablesD split: if_splits option.splits)

lemma ResolveClient_tables:
  "ResolveClient X svc now answer cid s = (r, s') \<Longrightarrow> tables (st_db s') = tables (st_db s)"
  unfolding ResolveClient_def Let_def
  by (auto elim!: andThenE on_db_cases dest!: cimd_Resolve_D ClientByID_tables split: if_splits option.splits)

lemma authorize_tables:
  assumes "authorize_steps X svc E issuer req s = (r, s')"
  shows "tables (st_db s') = tables (st_db s)"
  using assms
proof (cases rule: authorize_stepsE)
  case (resolved c uri g s1)
  have s1: "tables (st_db s1) = tables (st_db s)" by (rule ResolveClient_tables [OF resolved(1)])
  have q: "tables (st_db t) = tables (st_db s)" if "consentRequired svc (cl_ID c) (gr_Scopes g) s1 = (x, t)" for x t
    using consentRequired_D [OF that] s1 by simp
  from resolved(8) show ?thesis
  proof (elim disjE exE conjE)
    fix s2 x assume a: "consentRequired svc (cl_ID c) (gr_Scopes g) s1 = (Inr False, s2)"
      "issueCode X svc (fe_code_rnd E) (fe_code_now E) uri (az_State req) g s2 = (x, s')"
    from issueCode_D(1) [OF a(2) [folded resolved(4)]] q [OF a(1)] show ?thesis by simp
  qed (use s1 in \<open>auto dest: q\<close>)
next
  case (unresolved f)
  from ResolveClient_tables [OF unresolved(2)] show ?thesis .
next
  case (unregistered d c)
  from ResolveClient_tables [OF unregistered(2)] show ?thesis .
qed simp

lemma begin_tables:
  assumes "authorize_and_begin X svc E issuer req s = (r, s')"
  shows "tables (st_db s') = tables (st_db s)"
proof -
  obtain q s1 where a: "authorize_steps X svc E issuer req s = (q, s1)" by (metis surj_pair)
  have "st_db s' = st_db s1" using assms a
    by (auto simp: authorize_and_begin_def oauth_Authorize_def BeginConsent_def
      split: prod.splits sum.splits DecisionKind.splits option.splits)
  with authorize_tables [OF a] show ?thesis by simp
qed

fun revoke_second :: "flow_call \<Rightarrow> int" where
  "revoke_second (FToken E origin req) = unix (fe_revoke_now E)"
| "revoke_second (FRevoke E token) = unix (fe_revoke_now E)"
| "revoke_second (FRevokeClient E cid) = unix (fe_revoke_now E)"
| "revoke_second _ = 1"

lemma clock_set_second: "clock_set e \<longleftrightarrow> revoke_second e \<noteq> 0"
  by (cases e) simp_all

lemma IssueToken_rows:
  assumes "IssueToken X svc E issuer req s = (r, s')"
  shows "rows_from (drawn_id X E) (unix (fe_revoke_now E)) s s'"
  using assms
proof (cases rule: IssueToken_cases)
  case code
  from code(2) show ?thesis
  proof (cases rule: exchangeCodeE)
    case (failed f)
    then show ?thesis by (intro rows_from_same) auto
  next
    case (redeemed e)
    from rows_from_added [OF rows_from_same issueTokens_rows [OF redeemed(6)]] show ?thesis by simp
  qed
next
  case refresh
  from refresh(2) show ?thesis
  proof (cases rule: refresh_grantE)
    case (failed f d)
    from rows_from_revoked [OF failed(2)] show ?thesis by (rule rows_from_then [rotated]) (simp add: failed(3))
  next
    case (rotated row s1 s2)
    have "revoked_rows (unix (fe_revoke_now E)) s1 s2"
      using rotated(6) by (auto simp: on_db_Inr dest: RevokeRefreshToken_revoked)
    from rows_from_added [OF rows_from_revoked [OF this] issueTokens_rows [OF rotated(7)]]
    show ?thesis by (rule rows_from_then [rotated]) (simp add: rotated(4))
  qed
qed (simp add: rows_from_same)

lemma flow_step_rows:
  assumes "flow_step X svc e s = (r, s')"
  shows "rows_from (\<lambda>k. draws_refresh X k e) (revoke_second e) s s'"
proof (cases e)
  case (FToken E origin req)
  with assms obtain q where "IssueToken X svc E (Issuer (os_opts svc) origin) req s = (q, s')"
    by (auto simp: map_prod_def split: prod.splits)
  from IssueToken_rows [OF this] FToken show ?thesis by simp
next
  case (FConsent E token decision)
  with assms obtain q where "FinalizeConsent X svc E token decision s = (q, s')" by (auto simp: map_prod_def split: prod.splits)
  then show ?thesis
    by (cases rule: FinalizeConsentE) (auto dest!: ApproveGrant_D(3) intro!: rows_from_same)
next
  case (FRevoke E token)
  with assms svc_revoke_revoked(1) [of X svc E token s] show ?thesis
    by (cases "svc_RevokeRefreshToken X svc E token s") (auto simp: rows_from_same intro: rows_from_revoked)
next
  case (FRevokeClient E cid)
  with assms svc_revoke_revoked(2) [of svc E cid s] show ?thesis
    by (cases "svc_RevokeClient svc E cid s") (auto simp: rows_from_same intro: rows_from_revoked)
qed (use assms RegisterClient_refresh begin_tables in \<open>auto simp: map_prod_def intro!: rows_from_same split: prod.splits\<close>)

lemma revoked_none_left:
  assumes "RevokeRefreshToken tid n d = (Inr (), d')" "q \<in> set (ot_refresh (tables d'))" "rt_ID q = tid"
  shows "rt_RevokedAt q \<noteq> None"
proof -
  have "ot_refresh (tables d') = update_where (\<lambda>r. rt_ID r = tid \<and> rt_RevokedAt r = None)
      (\<lambda>r. r\<lparr>rt_RevokedAt := Some n\<rparr>) (ot_refresh (tables d))"
    using stmt_Inr_tables [OF assms(1) [unfolded RevokeRefreshToken_def]] by simp
  with assms(2) obtain x where
    "q = (if rt_ID x = tid \<and> rt_RevokedAt x = None then x\<lparr>rt_RevokedAt := Some n\<rparr> else x)"
    by (auto simp only: set_update_where)
  with assms(3) show ?thesis by (cases "rt_ID x = tid \<and> rt_RevokedAt x = None") auto
qed

lemma rotate_consumes:
  assumes "flow_step X svc e s = (r, s')" "rotates X k e r" "no_zero_revocation s" "clock_set e"
  shows "live_refresh k s \<and> (live_refresh k s' \<longrightarrow> draws_refresh X k e)"
proof -
  from assms(2) obtain E origin req resp where e: "e = FToken E origin req" "r = RToken (Inr resp)"
    "TrimSpace (tr_GrantType req) = ''refresh_token''" "oauth_tokenID (jl_sha X) (TrimSpace (tr_RefreshToken req)) = k"
    by (cases "(X, k, e, r)" rule: rotates.cases) auto
  with assms(1) have "refresh_grant X svc E (Issuer (os_opts svc) origin) req s = (Inr resp, s')"
    by (auto simp: IssueToken_def Let_def map_prod_def split: prod.splits)
  then show ?thesis
  proof (cases rule: refresh_grantE)
    case (rotated row s1 s2)
    have live: "live_refresh k s"
      using rotated(1-3) e(4) assms(3) by (auto simp: live_refresh_def live_token_def no_zero_revocation_def)
    obtain d where d: "RevokeRefreshToken (rt_ID row) (unix (fe_revoke_now E)) (st_db s1) = (Inr (), d)"
      "s2 = s1\<lparr>st_db := d\<rparr>" using rotated(6) by (auto simp: on_db_Inr)
    have "\<not> live_refresh k s2"
      using revoked_none_left [OF d(1)] rotated(2) e(4) d(2) by (auto simp: live_refresh_def)
    with issueTokens_rows [OF rotated(7)] e(1) live show ?thesis
      by (fastforce simp: rows_added_def live_refresh_def)
  qed simp
qed

interpretation flow_refresh: counted_use "flow_step X svc" clock_set no_zero_revocation "rotates X"
    "\<lambda>k e r. draws_refresh X k e" live_refresh
  for X :: oauth_lib and svc :: OAuthService
proof (unfold_locales, goal_cases)
  case (1 s e r s')
  from flow_step_rows [OF 1(3)] 1(1,2) show ?case
    by (fastforce simp: rows_from_def no_zero_revocation_def clock_set_second)
next
  case (2 s e k r s')
  from flow_step_rows [OF 2(4)] 2(3,5) show ?case by (fastforce simp: rows_from_def live_refresh_def)
next
  case (3 s e r s' k)
  from rotate_consumes [OF 3(3,4,1,2)] show ?case .
qed

text \<open>
  C16. Refresh tokens rotate: in any sequence of complete calls in which the clock does not read the
  first second of 1970, a refresh token is exchanged at most as often as a token call drew it,
  plus once if it was live at the start - whatever database failures happen in between.
\<close>

theorem refresh_single_use:
  assumes "run_steps (flow_step X svc) calls s = (results, s')" "no_zero_revocation s" "list_all clock_set calls"
  shows "length (filter (\<lambda>(e, r). rotates X tid e r) (zip calls results)) \<le>
     length (filter (\<lambda>(e, r). draws_refresh X tid e) (zip calls results)) + (if live_refresh tid s then 1 else 0)"
  by (rule flow_refresh.wins_bounded [OF assms])

end
