(* ===== verification/OAuthGuarantees.thy ===== *)
theory OAuthGuarantees
  imports OAuthUse
begin

text \<open>
  The guarantees of the OAuth server over its runs, with a concrete deployment at the end on which
  every one of them is exercised: a registered client, a consent, a code, its exchange and a refresh.
\<close>

section \<open>Codes and tokens\<close>

text \<open>
  C4. An authorization code buys tokens only for whom it was issued: a successful exchange had a
  pending, unexpired code, proved the PKCE verifier behind its challenge, did not contradict the
  client or redirect target of the grant, took the code out of the store, and signed a token that
  names exactly the client, scopes and resource of the grant.
\<close>

theorem code_exchange_sound:
  assumes "strings_decode X" "oauth_start s0" "run_steps (flow_step X svc) calls s0 = (results, s)"
    and "exchangeCode X svc E issuer req s = (Inr resp, s')"
  shows "\<exists>e jti. st_codes s (tr_Code req) = Some e \<and> fe_code_now E < ce_expiresAt e \<and>
    VerifyCodeVerifier (jl_sha X) (tr_CodeVerifier req) (gr_CodeChallenge (ce_grant e)) \<and>
    (TrimSpace (tr_ClientID req) = [] \<or> TrimSpace (tr_ClientID req) = gr_ClientID (ce_grant e)) \<and>
    (TrimSpace (tr_RedirectURI req) = [] \<or> TrimSpace (tr_RedirectURI req) = gr_RedirectURI (ce_grant e)) \<and>
    st_codes s' (tr_Code req) = None \<and> tk_Scope resp = joinScopes (gr_Scopes (ce_grant e)) \<and>
    SignAccessToken (jwt_lib.truncate X) (st_key s) (fe_sign_rnd E)
      (access_claims svc issuer (gr_ClientID (ce_grant e)) (gr_Scopes (ce_grant e)) (gr_Resource (ce_grant e))
        (fe_now E) jti) = Some (tk_AccessToken resp)"
  using assms(4)
proof (cases rule: exchangeCodeE)
  case (redeemed e)
  have "safe_grant X svc (ce_grant e)"
    using flow_inv_run [OF assms(1,3,2), of ] redeemed(1) by (auto simp: flow_inv_def)
  from safe_grantD(1) [OF this] have "gr_Scopes (ce_grant e) \<noteq> []" by (simp add: granted_scopes_def)
  from issueTokens_D [OF redeemed(6) this] redeemed show ?thesis
    by (auto simp: minted_def)
qed simp

text \<open>
  C6. No token says more than the deployment allows: whatever sequence of registrations,
  authorizations, consents, exchanges, refreshes and revocations led there, a token the server
  issues is bound to a resource of this server, is issued by it, and its scopes are non-empty,
  distinct and among those the deployment supports - so without the write switch no token maps to
  the operator role.
\<close>

theorem tokens_bound:
  assumes "strings_decode X" "oauth_start s0" "run_steps (flow_step X svc) calls s0 = (results, s)"
    and "flow_step X svc (FToken E origin req) s = (RToken (Inr resp), s')"
  shows "\<exists>cid ss somewhere jti. granted_scopes svc ss \<and> tk_Scope resp = joinScopes ss \<and>
    (RoleForScopes (splitScopes (tk_Scope resp)) = ''operator'' \<longrightarrow> oo_AllowWriteScope (os_opts svc)) \<and>
    SignAccessToken (jwt_lib.truncate X) (st_key s) (fe_sign_rnd E)
      (access_claims svc (Issuer (os_opts svc) origin) cid ss
        (Resource (os_opts svc) (Issuer (os_opts svc) somewhere)) (fe_now E) jti) = Some (tk_AccessToken resp)"
proof -
  have inv: "flow_inv X svc s" by (rule flow_inv_run [OF assms(1,3,2)])
  have role: "RoleForScopes (splitScopes (joinScopes ss)) = ''operator'' \<Longrightarrow> oo_AllowWriteScope (os_opts svc)"
    if "granted_scopes svc ss" for ss
    using that scopes_distinct [symmetric]
    by (auto simp: splitScopes_granted [OF that] RoleForScopes_operator granted_scopes_def ScopesSupported_def
      dest: subsetD split: if_splits)
  have finish: ?thesis if "granted_scopes svc ss" "minted X svc E (st_key s) (Issuer (os_opts svc) origin) cid ss
      (Resource (os_opts svc) (Issuer (os_opts svc) somewhere)) resp" for cid ss somewhere
    using that role [OF that(1)] by (auto simp: minted_def)
  from assms(4) have "IssueToken X svc E (Issuer (os_opts svc) origin) req s = (Inr resp, s')"
    by (auto simp: map_prod_def split: prod.splits)
  then show ?thesis
  proof (cases rule: IssueToken_cases)
    case code
    from code(2) show ?thesis
    proof (cases rule: exchangeCodeE)
      case (redeemed e)
      have "safe_grant X svc (ce_grant e)" using inv redeemed(1) by (auto simp: flow_inv_def)
      note g = safe_grantD [OF this]
      from g(1) have "gr_Scopes (ce_grant e) \<noteq> []" by (simp add: granted_scopes_def)
      from issueTokens_D [OF redeemed(6) this] finish [OF g(1)] g(2) show ?thesis by auto
    qed simp
  next
    case refresh
    from refresh(2) show ?thesis
    proof (cases rule: refresh_grantE)
      case (rotated row s1 s2)
      from inv rotated(1) obtain ss somewhere where ss: "granted_scopes svc ss" "rt_Scope row = joinScopes ss"
        "rt_Resource row = Resource (os_opts svc) (Issuer (os_opts svc) somewhere)"
        by (auto simp: flow_inv_def safe_row_def)
      have "st_key s1 = st_key s" by (subst rotated(5)) simp
      then have key: "st_key s2 = st_key s" using rotated(6) by (auto simp: on_db_Inr)
      have "ss \<noteq> []" using ss(1) by (simp add: granted_scopes_def)
      from issueTokens_D [OF rotated(7) [unfolded ss(2,3) splitScopes_granted [OF ss(1)]] this] finish [OF ss(1)] key
      show ?thesis by auto
    qed simp
  qed simp
qed

section \<open>Redirects and consent\<close>

text \<open>
  C8. A code only ever travels to a target of the client: when the authorization endpoint redirects,
  the request was made in an authenticated session, the target is registered for the resolved
  client (up to the port of a loopback address), uses https or a loopback host, and the redirect
  carries exactly the fresh code and the state of the request.
\<close>

theorem authorize_redirect_sound:
  assumes "strings_decode X" "oauth_start s0" "run_steps (flow_step X svc) calls s0 = (results, s)"
    and "flow_step X svc (FAuthorize E origin req) s = (RAuthorize d token, s')" "ad_Kind d = DecisionRedirect"
  shows "\<exists>client g registered target buf. ad_Client d = Some client \<and> ad_Grant d = Some g \<and> az_Authenticated req \<and>
    registered \<in> set (cl_RedirectURIs client) \<and>
    (gr_RedirectURI g = registered \<or> loopbackEquivalent (xl_url X) registered (gr_RedirectURI g)) \<and>
    xl_url X (gr_RedirectURI g) = Some target \<and> code_target target \<and> fe_code_rnd E = Some buf \<and>
    ad_RedirectURI d = Some (with_query target ((''code'', B64Encode url_alphabet buf) #
      (if az_State req = [] then [] else [(''state'', az_State req)])))"
proof -
  have inv: "flow_inv X svc s" by (rule flow_inv_run [OF assms(1,3,2)])
  obtain q s1 where a: "authorize_steps X svc E (Issuer (os_opts svc) origin) req s = (q, s1)" by (metis surj_pair)
  from assms(4,5) a have q: "q = Inr d"
    by (auto simp: map_prod_def authorize_and_begin_def oauth_Authorize_def BeginConsent_def unsafeFailure_def
      split: prod.splits sum.splits DecisionKind.splits option.splits)
  note safe = flow_inv_authorize [OF a inv]
  from a show ?thesis
  proof (cases rule: authorize_stepsE)
    case (resolved c uri g t)
    from resolved(8) q assms(5) obtain s2 x where x:
      "issueCode X svc (fe_code_rnd E) (fe_code_now E) uri (az_State req) g s2 = (x, s1)" "az_Authenticated req"
      "\<forall>f. x = Inl f \<longrightarrow> False" "\<forall>u. x = Inr u \<longrightarrow> ad_RedirectURI d = Some u \<and> ad_Grant d = Some g \<and> ad_Client d = Some c"
      by auto
    then obtain u where "x = Inr u" by (cases x) auto
    with x have i: "issueCode X svc (fe_code_rnd E) (fe_code_now E) uri (az_State req) g s2 = (Inr u, s1)"
      "az_Authenticated req" "ad_RedirectURI d = Some u" "ad_Grant d = Some g" "ad_Client d = Some c" by simp_all
    from ValidateRedirectURI_SomeD [OF resolved(2)] resolved(4) obtain registered where r:
      "registered \<in> set (cl_RedirectURIs c)"
      "gr_RedirectURI g = registered \<or> loopbackEquivalent (xl_url X) registered (gr_RedirectURI g)" by auto
    from issueCode_D(6) [OF i(1) [folded resolved(4)] refl] obtain t' buf where t: "xl_url X (gr_RedirectURI g) = Some t'"
      "fe_code_rnd E = Some buf" "u = with_query t' ((''code'', B64Encode url_alphabet buf) #
        (if az_State req = [] then [] else [(''state'', az_State req)]))" by (auto simp: code_redirect_def)
    from safe q i(4) t(1) have "code_target t'" by (auto simp: safe_grant_def)
    with i r t show ?thesis by (intro exI [of _ c] exI [of _ g] exI [of _ registered] exI [of _ t'] exI [of _ buf]) simp
  qed (use q assms(5) in auto)
qed


text \<open>Recorded consents come from approved consent screens.\<close>

definition approves :: "oauth_state \<Rightarrow> flow_call \<Rightarrow> string \<Rightarrow> string \<Rightarrow> bool" where
  "approves s e cid scope \<longleftrightarrow> (\<exists>E token decision entry. e = FConsent E token decision \<and> decision \<noteq> ''deny'' \<and>
     st_consents s token = Some entry \<and> fe_consent_now E < cs_expiresAt entry \<and> cs_redirect entry = None \<and>
     gr_ClientID (cs_grant entry) = cid \<and> scope \<in> set (gr_Scopes (cs_grant entry)))"

definition consented :: "oauth_state \<Rightarrow> string \<Rightarrow> string \<Rightarrow> bool" where
  "consented s cid scope \<longleftrightarrow> (\<exists>t. (cid, scope, t) \<in> set (ot_consents (tables (st_db s))))"

lemma RegisterClient_consents:
  "RegisterClient X svc rnd now req s = (r, s') \<Longrightarrow> ot_consents (tables (st_db s')) = ot_consents (tables (st_db s))"
  unfolding RegisterClient_def Let_def InsertClient_def
  by (auto elim!: andThenE on_db_cases dest!: stmt_tablesD split: if_splits option.splits)

lemma issueTokens_consents:
  assumes "issueTokens X svc E issuer cid ss resource s = (r, s')"
  shows "ot_consents (tables (st_db s')) = ot_consents (tables (st_db s))"
proof -
  let ?ss = "if ss = [] then [OAuthScopeRead] else ss"
  have "issueTokens X svc E issuer cid ?ss resource s = (r, s')" using assms by (simp add: issueTokens_def)
  moreover have "?ss \<noteq> []" by simp
  ultimately show ?thesis using issueTokens_D [of X svc E issuer cid ?ss resource s r s'] by blast
qed

lemma revoked_consents: "revoked_rows n s s' \<Longrightarrow> ot_consents (tables (st_db s')) = ot_consents (tables (st_db s))"
  by (auto simp: revoked_rows_def)

lemma IssueToken_consents:
  assumes "IssueToken X svc E issuer req s = (r, s')"
  shows "ot_consents (tables (st_db s')) = ot_consents (tables (st_db s))"
  using assms
proof (cases rule: IssueToken_cases)
  case code
  from code(2) show ?thesis
    by (cases rule: exchangeCodeE) (auto dest!: issueTokens_consents)
next
  case refresh
  from refresh(2) show ?thesis
  proof (cases rule: refresh_grantE)
    case (failed f d)
    from revoked_consents [OF failed(2)] failed(3) show ?thesis by simp
  next
    case (rotated row s1 s2)
    have "revoked_rows (unix (fe_revoke_now E)) s1 s2"
      using rotated(6) by (auto simp: on_db_Inr dest: RevokeRefreshToken_revoked)
    from revoked_consents [OF this] issueTokens_consents [OF rotated(7)] rotated(4) show ?thesis by simp
  qed
qed simp

lemma flow_step_consents:
  assumes "flow_step X svc e s = (r, s')" "consented s' cid scope"
  shows "consented s cid scope \<or> approves s e cid scope"
proof (cases e)
  case (FConsent E token decision)
  with assms(1) obtain q where "FinalizeConsent X svc E token decision s = (q, s')" by (auto simp: map_prod_def split: prod.splits)
  then show ?thesis
  proof (cases rule: FinalizeConsentE)
    case (approved en x s1 m)
    from approved(5) assms(2) have "consented s1 cid scope" by (simp add: consented_def)
    with ApproveGrant_D(4) [OF approved(4)] approved(1-3) FConsent show ?thesis
      by (fastforce simp: consented_def approves_def sweepConsents_def mfilter_def split: option.splits if_splits)
  qed (use assms(2) in \<open>simp_all add: consented_def\<close>)
next
  case (FRevoke E token)
  with assms svc_revoke_revoked(1) [of X svc E token s] show ?thesis
    by (cases "svc_RevokeRefreshToken X svc E token s") (auto simp: consented_def dest!: revoked_consents)
next
  case (FRevokeClient E cid)
  with assms svc_revoke_revoked(2) [of svc E cid s] show ?thesis
    by (cases "svc_RevokeClient svc E cid s") (auto simp: consented_def dest!: revoked_consents)
next
  case (FToken E origin req)
  with assms IssueToken_consents show ?thesis by (fastforce simp: map_prod_def consented_def split: prod.splits)
next
  case (FRegister rnd now req)
  with assms RegisterClient_consents show ?thesis by (fastforce simp: map_prod_def consented_def split: prod.splits)
next
  case (FAuthorize E origin req)
  with assms begin_tables show ?thesis by (fastforce simp: map_prod_def consented_def split: prod.splits)
qed

lemma consent_origin:
  assumes "run_steps (flow_step X svc) calls s = (results, s')" "consented s' cid scope"
  shows "consented s cid scope \<or> (\<exists>pre e post results0 s0. calls = pre @ e # post \<and>
    run_steps (flow_step X svc) pre s = (results0, s0) \<and> approves s0 e cid scope)"
  using assms
proof (induction calls arbitrary: s results)
  case (Cons e calls)
  from Cons.prems(1) obtain r s1 rs1 where step: "flow_step X svc e s = (r, s1)"
    and run: "run_steps (flow_step X svc) calls s1 = (rs1, s')" by (rule run_steps_Cons)
  from Cons.IH [OF run Cons.prems(2)] show ?case
  proof
    assume "consented s1 cid scope"
    with flow_step_consents [OF step] have "consented s cid scope \<or> approves s e cid scope" by blast
    moreover have "run_steps (flow_step X svc) [] s = ([], s)" by simp
    ultimately show ?thesis by (metis append_Nil)
  next
    assume "\<exists>pre e post results0 s0. calls = pre @ e # post \<and>
      run_steps (flow_step X svc) pre s1 = (results0, s0) \<and> approves s0 e cid scope"
    then obtain pre e' post results0 s0 where c: "calls = pre @ e' # post"
      "run_steps (flow_step X svc) pre s1 = (results0, s0)" "approves s0 e' cid scope" by blast
    have "run_steps (flow_step X svc) (e # pre) s = (r # results0, s0)" using step c(2) by simp
    with c show ?thesis by (metis append_Cons)
  qed
qed simp

text \<open>
  C7. No client gets its first grant silently: if in some run of a server started on an empty
  database the authorization endpoint answers with a code at once, then automatic approval is on,
  only reading is granted, and earlier in the run the owner approved a consent screen of this very
  client - pending, unexpired, decided other than by deny.
\<close>

theorem no_silent_first_grant:
  assumes "strings_decode X" "oauth_start s0" "run_steps (flow_step X svc) calls s0 = (results, s)"
    and "flow_step X svc (FAuthorize E origin req) s = (RAuthorize d token, s')" "ad_Kind d = DecisionRedirect"
  shows "\<exists>client g. ad_Client d = Some client \<and> ad_Grant d = Some g \<and> oo_AutoApprove (os_opts svc) \<and>
    set (gr_Scopes g) = {OAuthScopeRead} \<and>
    (\<exists>pre e post results1 s1. calls = pre @ e # post \<and> run_steps (flow_step X svc) pre s0 = (results1, s1) \<and>
       approves s1 e (cl_ID client) OAuthScopeRead)"
proof -
  have inv: "flow_inv X svc s" by (rule flow_inv_run [OF assms(1,3,2)])
  obtain q s1 where a: "authorize_steps X svc E (Issuer (os_opts svc) origin) req s = (q, s1)" by (metis surj_pair)
  from assms(4,5) a have q: "q = Inr d"
    by (auto simp: map_prod_def authorize_and_begin_def oauth_Authorize_def BeginConsent_def unsafeFailure_def
      split: prod.splits sum.splits DecisionKind.splits option.splits)
  from a show ?thesis
  proof (cases rule: authorize_stepsE)
    case (resolved c uri g t)
    from resolved(8) q assms(5) obtain s2 where r: "consentRequired svc (cl_ID c) (gr_Scopes g) t = (Inr False, s2)"
      by (elim disjE exE conjE) auto
    from resolved(8) q assms(5) obtain s2 x where
      "issueCode X svc (fe_code_rnd E) (fe_code_now E) uri (az_State req) g s2 = (x, s1)" "x \<noteq> Inl f"
      "\<forall>u. x = Inr u \<longrightarrow> ad_Grant d = Some g \<and> ad_Client d = Some c" for f
      by auto
    then have d: "ad_Grant d = Some g" "ad_Client d = Some c" by (metis sum.exhaust)+
    have dt: "consents_distinct t" using flow_inv_resolve(1) [OF resolved(1) inv] by (simp add: flow_inv_def)
    from resolved(7) have g: "gr_Scopes g \<noteq> []" "distinct (gr_Scopes g)" by (simp_all add: good_grant_def)
    from not_consentRequired [OF r dt g(2,1)] have n: "oo_AutoApprove (os_opts svc)"
      "\<forall>sc \<in> set (gr_Scopes g). sc = OAuthScopeRead \<and> consented t (cl_ID c) sc" by (auto simp: consented_def)
    with g(1) have read: "set (gr_Scopes g) = {OAuthScopeRead}" by (cases "gr_Scopes g") auto
    with n(2) have "consented s (cl_ID c) OAuthScopeRead"
      using ResolveClient_tables [OF resolved(1)] by (simp add: consented_def)
    from consent_origin [OF assms(3) this] assms(2) have "\<exists>pre e post results1 s1. calls = pre @ e # post \<and>
        run_steps (flow_step X svc) pre s0 = (results1, s1) \<and> approves s1 e (cl_ID c) OAuthScopeRead"
      by (auto simp: consented_def oauth_start_def)
    with d n(1) read show ?thesis by blast
  qed (use q assms(5) in auto)
qed

end
