(* ===== verification/OAuthExamples.thy ===== *)
theory OAuthExamples
  imports OAuthGuarantees
begin

text \<open>
  A concrete deployment of the OAuth server, with a registered client, and a run over it: register,
  authorize, approve, exchange, refresh, authorize again. It shows that the guarantees of
  \<open>OAuthUse\<close> and \<open>OAuthGuarantees\<close> are about something, and that the two halves of a refresh race.
\<close>

section \<open>Lists of plain texts are encoded without ambiguity\<close>

definition plain_text :: "string \<Rightarrow> bool" where
  "plain_text s \<longleftrightarrow> escape s = s \<and> byte 34 \<notin> set s \<and> byte 92 \<notin> set s"

lemma escape_char_cases: "(\<exists>r. escape_char c = byte 92 # r) \<or> (escape_char c = [c] \<and> c \<noteq> byte 34)"
  by (auto simp: escape_char_def)

lemma byte_distinct [simp]: "byte 92 \<noteq> byte 34" "byte 34 \<noteq> byte 226"
  by code_simp+

lemma escape_first_quote:
  "byte 92 \<in> set (takeWhile (\<lambda>c. c \<noteq> byte 34) (escape x @ r)) \<or> (escape x = x \<and> byte 34 \<notin> set x)"
proof (induction x)
  case (Cons c cs)
  show ?case
  proof (cases "\<exists>d e rest. cs = d # e # rest \<and> c = byte 0xE2 \<and> d = byte 0x80 \<and> (e = byte 0xA8 \<or> e = byte 0xA9)")
    case True
    then obtain d e rest where "cs = d # e # rest" "c = byte 0xE2 \<and> d = byte 0x80 \<and> (e = byte 0xA8 \<or> e = byte 0xA9)"
      by blast
    then have "\<exists>r. escape (c # cs) = byte 92 # r" by simp
    then show ?thesis by auto
  next
    case False
    have s: "escape (c # cs) = escape_char c @ escape cs"
    proof (cases cs rule: remdups_adj.cases)
      case (3 d e rest)
      with False have "\<not> (c = byte 0xE2 \<and> d = byte 0x80 \<and> (e = byte 0xA8 \<or> e = byte 0xA9))" by blast
      then show ?thesis unfolding 3 by (subst escape.simps) (simp only: list.case if_False)
    qed simp_all
    from escape_char_cases [of c] Cons show ?thesis unfolding s by auto
  qed
qed simp

lemma quoted_plain:
  assumes "quoted x @ r = quoted y @ q" "plain_text y"
  shows "x = y \<and> r = q"
proof -
  from assms have e: "escape x @ byte 34 # r = y @ byte 34 # q" by (simp add: quoted_def plain_text_def)
  have y: "takeWhile (\<lambda>c. c \<noteq> byte 34) (y @ byte 34 # q) = y"
    using assms(2) by (subst takeWhile_append2) (auto simp: plain_text_def)
  with escape_first_quote [of x "byte 34 # r"] assms(2) e have x: "escape x = x" "byte 34 \<notin> set x"
    by (auto simp: plain_text_def)
  then have "takeWhile (\<lambda>c. c \<noteq> byte 34) (escape x @ byte 34 # r) = x"
    by (subst takeWhile_append2) auto
  with y e have "x = y" by simp
  with e x(1) show ?thesis by simp
qed

lemma join_plain:
  assumes "Join (map quoted xs) '','' @ '']'' = Join (map quoted ys) '','' @ '']''" "list_all plain_text ys"
  shows "xs = ys"
  using assms
proof (induction xs arbitrary: ys)
  case Nil
  then show ?case by (cases ys rule: remdups_adj.cases) (auto simp: quoted_def)
next
  case (Cons x xs)
  show ?case
  proof (cases ys)
    case Nil
    with Cons.prems show ?thesis by (cases xs) (auto simp: quoted_def)
  next
    case (Cons y zs)
    let ?tail = "\<lambda>l. if l = [] then '']'' else '','' @ Join (map quoted l) '','' @ '']''"
    have "quoted x @ ?tail xs = quoted y @ ?tail zs"
      using Cons.prems(1) Cons by (cases xs; cases zs) (simp_all)
    with quoted_plain [of x "?tail xs" y "?tail zs"] Cons.prems(2) Cons have e: "x = y" "?tail xs = ?tail zs" by simp_all
    show ?thesis
    proof (cases "xs = [] \<or> zs = []")
      case True
      with e Cons show ?thesis by (auto split: if_splits)
    next
      case False
      with e(2) Cons.IH [of zs] Cons.prems(2) Cons e(1) show ?thesis by auto
    qed
  qed
qed

lemma string_array_plain: "string_array xs = string_array ys \<Longrightarrow> list_all plain_text ys \<Longrightarrow> xs = ys"
  using join_plain by (simp add: string_array_def comp_def)


section \<open>The deployment\<close>

definition ox_strings :: "string \<Rightarrow> string list option" where
  "ox_strings t = (if t = string_array [''u''] then Some [''u'']
     else if t = string_array [''authorization_code'', ''refresh_token''] then Some [''authorization_code'', ''refresh_token'']
     else None)"

definition ox_lib :: oauth_lib where
  "ox_lib = jwt_lib.extend (ex_jwt\<lparr>jl_sha := (\<lambda>s. take 32 (s @ replicate 32 CHR ''A''))\<rparr>)
     \<lparr>xl_url = (\<lambda>s. Some \<lparr>url_Scheme = ''https'', url_User = None, url_Host = s, url_Path = ''/'',
        url_RawQuery = [], url_Fragment = []\<rparr>),
      xl_strings = ox_strings, xl_document = (\<lambda>_. None)\<rparr>"

definition ox_opts :: OAuthOptions where
  "ox_opts = \<lparr>oo_PublicBaseURL = ''i'', oo_ResourcePath = ''/mcp'', oo_SigningKeyPEM = [], oo_AccessTTL = 1000 * Second,
     oo_RefreshTTL = 9000 * Second, oo_CodeTTL = 60 * Second, oo_AutoApprove = True, oo_AllowWriteScope = False,
     oo_CIMDHosts = [''h'']\<rparr>"

definition ox_svc :: OAuthService where
  "ox_svc = \<lparr>os_opts = ox_opts, os_store = True, os_hosts = [''h'']\<rparr>"

definition ox_env :: "int \<Rightarrow> string \<Rightarrow> flow_env" where
  "ox_env t k = \<lparr>fe_cimd_now = t * Second, fe_answer = None, fe_now = t * Second, fe_code_rnd = Some k,
     fe_code_now = t * Second, fe_consent_rnd = Some k, fe_consent_now = t * Second, fe_jti_rnd = Some k,
     fe_sign_rnd = None, fe_refresh_rnd = Some k, fe_lookup_now = t * Second, fe_revoke_now = t * Second\<rparr>"

definition ox_start :: oauth_state where
  "ox_start = \<lparr>st_db = \<lparr>tables = \<lparr>ot_clients = [], ot_refresh = [], ot_key = None, ot_consents = []\<rparr>, faults = []\<rparr>,
     st_codes = Map.empty, st_consents = Map.empty, st_cimd = Map.empty, st_key = Some ex_key\<rparr>"

definition ox_verifier :: string where "ox_verifier = replicate 43 CHR ''A''"
definition ox_challenge :: string where "ox_challenge = B64Encode url_alphabet (replicate 32 CHR ''A'')"

definition ox_register :: flow_call where
  "ox_register = FRegister (Some ''abc'') (10 * Second)
     \<lparr>rr_ClientName = ''n'', rr_RedirectURIs = [''u''], rr_GrantTypes = [], rr_TokenEndpointAuthMethod = [],
      rr_Scope = [], rr_ClientURI = []\<rparr>"

definition ox_request :: AuthzRequest where
  "ox_request = \<lparr>az_ClientID = ''YWJj'', az_RedirectURI = ''u'', az_ResponseType = ''code'', az_Scope = ''fund.read'',
     az_State = ''st'', az_CodeChallenge = ox_challenge, az_CodeChallengeMethod = ''S256'', az_Resource = [],
     az_Authenticated = True, az_SessionID = ''s''\<rparr>"

definition ox_exchange :: TokenRequest where
  "ox_exchange = \<lparr>tr_GrantType = ''authorization_code'', tr_Code = ''YWJj'', tr_RedirectURI = ''u'', tr_ClientID = ''YWJj'',
     tr_CodeVerifier = ox_verifier, tr_RefreshToken = [], tr_Scope = [], tr_Resource = []\<rparr>"

definition ox_refresh :: TokenRequest where
  "ox_refresh = \<lparr>tr_GrantType = ''refresh_token'', tr_Code = [], tr_RedirectURI = [], tr_ClientID = [],
     tr_CodeVerifier = [], tr_RefreshToken = ''ZGVm'', tr_Scope = [], tr_Resource = []\<rparr>"

definition ox_calls :: "flow_call list" where
  "ox_calls = [ox_register, FAuthorize (ox_env 11 ''abc'') ''o'' ox_request, FConsent (ox_env 12 ''abc'') ''YWJj'' ''approve'']"

lemma ox_xl [simp]: "xl_url ox_lib s = Some \<lparr>url_Scheme = ''https'', url_User = None, url_Host = s, url_Path = ''/'',
    url_RawQuery = [], url_Fragment = []\<rparr>" "xl_strings ox_lib = ox_strings"
  by (simp_all add: ox_lib_def jwt_lib.defs)

lemma byte_values: "byte 34 = CHR 0x22" "byte 92 = CHR 0x5C" "byte 8 = CHR 0x08" "byte 12 = CHR 0x0C"
    "byte 10 = CHR 0x0A" "byte 13 = CHR 0x0D" "byte 9 = CHR 0x09" "byte 0xE2 = CHR 0xE2" "byte 0x80 = CHR 0x80"
    "byte 0xA8 = CHR 0xA8" "byte 0xA9 = CHR 0xA9"
  by code_simp+

text \<open>An equation of \<open>escape\<close> that evaluates one branch at a time.\<close>

lemma escape_code [code]:
  "escape [] = []"
  "escape (c # cs) = (if c = byte 0xE2 then (case cs of
       d # e # rest \<Rightarrow>
         if d = byte 0x80 \<and> (e = byte 0xA8 \<or> e = byte 0xA9)
         then [byte 92, CHR ''u''] @ hex4 (if e = byte 0xA8 then 0x2028 else 0x2029) @ escape rest
         else escape_char c @ escape cs
     | _ \<Rightarrow> escape_char c @ escape cs) else escape_char c @ escape cs)"
  by (simp_all split: list.split)

declare byte_values [code_unfold]

lemma escape_plain: "list_all (\<lambda>c. escape_char c = [c] \<and> c \<noteq> byte 0xE2) s \<Longrightarrow> escape s = s"
proof (induction s)
  case (Cons c cs)
  then show ?case by (cases cs rule: remdups_adj.cases) simp_all
qed simp

lemma ox_decode: "strings_decode ox_lib"
  unfolding strings_decode_def
proof (intro allI impI)
  fix xs ys assume a: "xl_strings ox_lib (string_array xs) = Some ys"
  have p: "list_all plain_text [''u'']" "list_all plain_text [''authorization_code'', ''refresh_token'']"
    by (simp_all add: plain_text_def escape_plain escape_char_def byte_values del: escape.simps)
  from a consider "string_array xs = string_array [''u'']" "ys = [''u'']"
    | "string_array xs = string_array [''authorization_code'', ''refresh_token'']"
      "ys = [''authorization_code'', ''refresh_token'']"
    unfolding ox_xl(2) ox_strings_def by (metis option.distinct(1) option.inject)
  then show "ys = xs" by cases (use string_array_plain p in blast)+
qed

lemma ox_fresh: "oauth_start ox_start"
  by (simp add: oauth_start_def ox_start_def)


section \<open>Its run\<close>

text \<open>
  After registration, authorization and approval, the code is exchanged, its refresh token is
  rotated, and the next authorization of the client redirects at once.
\<close>

definition ox_client :: Client where
  "ox_client = \<lparr>cl_ID = ''YWJj'', cl_Name = ''n'', cl_RedirectURIs = [''u''],
     cl_GrantTypes = [''authorization_code'', ''refresh_token''], cl_TokenEndpointAuthMethod = ''none'', cl_Scope = [],
     cl_ClientURI = [], cl_RegistrationAccessToken = [], cl_CreatedAt = 10, cl_MetadataDocument = False\<rparr>"

definition ox_grant :: "int \<Rightarrow> AuthorizationGrant" where
  "ox_grant t = \<lparr>gr_ClientID = ''YWJj'', gr_RedirectURI = ''u'', gr_Scopes = [OAuthScopeRead], gr_Resource = ''i/mcp'',
     gr_CodeChallenge = ox_challenge, gr_CodeChallengeMethod = ''S256'', gr_SessionID = ''s'', gr_AuthorizedAt = t\<rparr>"

definition ox_db :: "StoredRefreshToken list \<Rightarrow> (string \<times> string \<times> int) list \<Rightarrow> oauth_tables db" where
  "ox_db refresh consents = \<lparr>tables = \<lparr>ot_clients = [new_client_row ox_client], ot_refresh = refresh, ot_key = None,
     ot_consents = consents\<rparr>, faults = []\<rparr>"

definition ox_s1 :: oauth_state where "ox_s1 = ox_start\<lparr>st_db := ox_db [] []\<rparr>"

definition ox_s2 :: oauth_state where
  "ox_s2 = ox_s1\<lparr>st_consents := [''YWJj'' \<mapsto> \<lparr>cs_grant = ox_grant 11, cs_state = ''st'',
     cs_expiresAt = 611 * Second, cs_redirect = None\<rparr>]\<rparr>"

lemma ox_pieces [simp]:
  "TrimSpace ''u'' = ''u''" "TrimSpace ''n'' = ''n''" "TrimSpace ''YWJj'' = ''YWJj''" "TrimSpace [] = []"
  "TrimSpace ''none'' = ''none''" "TrimSpace ''code'' = ''code''" "TrimSpace ''S256'' = ''S256''"
  "TrimSpace ''authorization_code'' = ''authorization_code''" "TrimSpace ''refresh_token'' = ''refresh_token''"
  "TrimSpace ''ZGVm'' = ''ZGVm''" "TrimSpace ''fund.read'' = ''fund.read''"
  "B64Encode url_alphabet ''abc'' = ''YWJj''" "B64Encode url_alphabet ''def'' = ''ZGVm''"
  "normalizeGrantTypes [] = [''authorization_code'', ''refresh_token'']"
  "Resource ox_opts ''i'' = ''i/mcp''" "Issuer ox_opts ''o'' = ''i''"
  "NegotiateScopes ox_opts ''fund.read'' = [OAuthScopeRead]" "ValidateCodeChallenge ox_challenge ''S256'' = Inr ()"
  "VerifyCodeVerifier (jl_sha ox_lib) ox_verifier ox_challenge"
  by code_simp+

lemma ox_url [simp]: "normalizeRedirectURI (xl_url ox_lib) ''u'' = Some ''u''"
  by code_simp

lemma ox_arrays [simp]: "ox_strings (string_array [''u'']) = Some [''u'']"
  "ox_strings (string_array [''authorization_code'', ''refresh_token'']) = Some [''authorization_code'', ''refresh_token'']"
  using string_array_plain [of "[''authorization_code'', ''refresh_token'']" "[''u'']"]
  by (auto simp: ox_strings_def plain_text_def escape_plain escape_char_def byte_values simp del: escape.simps)

lemmas ox_defs = ox_svc_def ox_env_def ox_db_def on_db_def on_store_def wrap_def andThen_def stmt_def select1_def ret_def throw_def Let_def

lemma ox_svc_simps [simp]: "os_opts ox_svc = ox_opts" "os_store ox_svc"
  by (simp_all add: ox_svc_def)

lemma seconds_unix [simp]: "unix (t * Second) = t"
  by (simp add: unix_def Second_def)

lemma Second_pos [simp]: "0 < Second" "Second \<noteq> 0"
  by (simp_all add: Second_def)

lemma mfilter_single [simp]: "mfilter p [k \<mapsto> v] = (if p k v then [k \<mapsto> v] else Map.empty)" "mfilter p Map.empty = Map.empty"
  by (auto simp: mfilter_def)

lemma ox_opts_simps [simp]: "oo_CodeTTL ox_opts = 60 * Second" "oo_AutoApprove ox_opts" "oo_RefreshTTL ox_opts = 9000 * Second"
  by (simp_all add: ox_opts_def)

lemma ox_client_simps [simp]: "cl_ID ox_client = ''YWJj''" "cl_RedirectURIs ox_client = [''u'']"
    "cr_client (new_client_row c) = c"
  by (simp_all add: ox_client_def new_client_row_def)

lemma ox_client_found [simp]: "decode_client ox_strings (new_client_row ox_client) = Some ox_client"
  by (simp add: decode_client_def new_client_row_def ox_client_def)

lemma ox_resolve:
  assumes "tables (st_db s) = tables (ox_db r c)" "faults (st_db s) = []"
  shows "ResolveClient ox_lib ox_svc now answer ''YWJj'' s = (Inr ox_client, s)"
  using assms by (simp add: ResolveClient_def ClientByID_def ox_defs)

lemma ox_step1: "flow_step ox_lib ox_svc ox_register ox_start = (RRegister (Inr (ox_client, registration_response ox_client)), ox_s1)"
  by (simp add: ox_register_def RegisterClient_def Let_def keep_first.simps newClientID_def truncate_text_def
    InsertClient_def ox_defs ox_start_def ox_s1_def ox_client_def unix_def Second_def)

lemma ox_step2: "\<exists>d. flow_step ox_lib ox_svc (FAuthorize (ox_env 11 ''abc'') ''o'' ox_request) ox_s1 =
    (RAuthorize d (Some ''YWJj''), ox_s2)"
proof -
  have r: "ResolveClient ox_lib ox_svc now answer ''YWJj'' ox_s1 = (Inr ox_client, ox_s1)" for now answer
    by (rule ox_resolve) (simp_all add: ox_s1_def ox_db_def)
  have v: "ValidateRedirectURI (xl_url ox_lib) ox_client ''u'' = Some ''u''"
    by (simp add: ValidateRedirectURI_def ox_client_def)
  have c: "consentRequired ox_svc ''YWJj'' [OAuthScopeRead] ox_s1 = (Inr True, ox_s1)"
    by (simp add: consentRequired_def HasClientConsent_def ox_defs ox_s1_def ox_start_def count_where_def)
  show ?thesis
    by (simp add: ox_request_def authorize_and_begin_def oauth_Authorize_def authorize_steps_def validateResource_def
      BeginConsent_def consent_Begin_def randomID_def sweepConsents_def consentTTL_def
      andThen_def ret_def check_def Let_def r v c ox_env_def ox_grant_def)
   (simp add: ox_s1_def ox_s2_def ox_start_def ox_grant_def Minute_def)
qed

definition ox_s3 :: oauth_state where
  "ox_s3 = ox_s2\<lparr>st_db := ox_db [] [(''YWJj'', OAuthScopeRead, 12)],
     st_codes := [''YWJj'' \<mapsto> \<lparr>ce_grant = ox_grant 11, ce_expiresAt = 72 * Second\<rparr>],
     st_consents := [''YWJj'' \<mapsto> \<lparr>cs_grant = ox_grant 11, cs_state = ''st'', cs_expiresAt = 611 * Second,
       cs_redirect = Some (with_query \<lparr>url_Scheme = ''https'', url_User = None, url_Host = ''u'', url_Path = ''/'',
         url_RawQuery = [], url_Fragment = []\<rparr> [(''code'', ''YWJj''), (''state'', ''st'')])\<rparr>]\<rparr>"

lemma ox_step3: "\<exists>u. flow_step ox_lib ox_svc (FConsent (ox_env 12 ''abc'') ''YWJj'' ''approve'') ox_s2 =
    (RConsent (Inr (Some u)), ox_s3)"
  by (simp add: FinalizeConsent_def consent_Finalize_def sweepConsents_def ApproveGrant_def issueCode_def
      code_Issue_def sweepExpiredLocked_def RecordClientConsent_def ox_defs ox_grant_def ox_s1_def ox_s2_def ox_s3_def
      ox_start_def)

definition ox_next :: flow_call where "ox_next = FAuthorize (ox_env 14 ''ghi'') ''o'' ox_request"

lemma ox_run: "\<exists>results. run_steps (flow_step ox_lib ox_svc) ox_calls ox_start = (results, ox_s3)"
  using ox_step1 ox_step2 ox_step3 by (auto simp: ox_calls_def)

lemma ox_signs [simp]: "\<exists>token. SignAccessToken (jwt_lib.truncate ox_lib) (Some ex_key) None claims = Some token"
proof -
  have "length (int_bytes 1) \<le> 32" "length (int_bytes 2) \<le> 32" by code_simp+
  then show ?thesis
    by (simp add: SignAccessToken_def ox_lib_def jwt_lib.defs ex_jwt_def asn1ToRawES256_def Let_def)
qed

definition ox_row :: "string \<Rightarrow> int \<Rightarrow> StoredRefreshToken" where
  "ox_row tid t = \<lparr>rt_ID = tid, rt_ClientID = ''YWJj'', rt_Scope = ''fund.read'', rt_Resource = ''i/mcp'',
     rt_CreatedAt = t, rt_ExpiresAt = t + 9000, rt_RevokedAt = None\<rparr>"

abbreviation ox_tid :: "string \<Rightarrow> string" where
  "ox_tid k \<equiv> oauth_tokenID (jl_sha ox_lib) (B64Encode url_alphabet k)"

lemma joinScopes_read [simp]: "joinScopes [OAuthScopeRead] = ''fund.read''" "splitScopes ''fund.read'' = [OAuthScopeRead]"
  by code_simp+

lemma ox_tokens:
  assumes "st_db s = ox_db rows c" "st_key s = Some ex_key" "\<forall>q \<in> set rows. rt_ID q \<noteq> ox_tid k" "t < 100"
  shows "\<exists>resp. issueTokens ox_lib ox_svc (ox_env t k) ''i'' ''YWJj'' [OAuthScopeRead] ''i/mcp'' s = (Inr resp,
    s\<lparr>st_db := ox_db (rows @ [ox_row (ox_tid k) t]) c\<rparr>) \<and> tk_RefreshToken resp = B64Encode url_alphabet k"
proof -
  obtain token where "SignAccessToken (jwt_lib.truncate ox_lib) (Some ex_key) None
      (access_claims ox_svc ''i'' ''YWJj'' [OAuthScopeRead] ''i/mcp'' (t * Second) (B64Encode url_alphabet k)) = Some token"
    using ox_signs by blast
  moreover have "unix (t * Second + 9000 * Second) = t + 9000"
    using seconds_unix [of "t + 9000"] by (simp only: distrib_right)
  moreover have "find (\<lambda>r. rt_ID r = ox_tid k) rows = None" using assms(3) by (simp add: find_None_iff)
  ultimately show ?thesis using assms(1,2,4)
    by (simp add: issueTokens_def randomID_def ox_env_def NewRefreshToken_def on_store_def InsertRefreshToken_def
      new_refresh_row_def ox_row_def ox_db_def andThen_def stmt_def select1_def sweepExpiredRefreshTokens_def
      refreshTokenRetention_def Let_def)
qed

lemma ox_env_now: "fe_code_now (ox_env t k) = t * Second" "fe_lookup_now (ox_env t k) = t * Second"
    "fe_revoke_now (ox_env t k) = t * Second"
  by (simp_all add: ox_env_def)

lemma ox_step4: "\<exists>resp. flow_step ox_lib ox_svc (FToken (ox_env 13 ''def'') ''o'' ox_exchange) ox_s3 = (RToken (Inr resp),
    ox_s3\<lparr>st_codes := Map.empty, st_db := ox_db [ox_row (ox_tid ''def'') 13] [(''YWJj'', OAuthScopeRead, 12)]\<rparr>)"
proof -
  obtain resp where "issueTokens ox_lib ox_svc (ox_env 13 ''def'') ''i'' ''YWJj'' [OAuthScopeRead] ''i/mcp''
      (ox_s3\<lparr>st_codes := Map.empty\<rparr>) = (Inr resp, ox_s3\<lparr>st_codes := Map.empty,
        st_db := ox_db [ox_row (ox_tid ''def'') 13] [(''YWJj'', OAuthScopeRead, 12)]\<rparr>)"
    using ox_tokens [of "ox_s3\<lparr>st_codes := Map.empty\<rparr>" "[]" "[(''YWJj'', OAuthScopeRead, 12)]" "''def''" 13]
    by (auto simp: ox_s3_def ox_s2_def ox_s1_def ox_start_def)
  moreover have "code_Redeem (13 * Second) ''YWJj'' (st_codes ox_s3) = (Some (ox_grant 11), Map.empty)"
    by (simp add: code_Redeem_def ox_s3_def)
  ultimately show ?thesis
    by (simp add: ox_exchange_def IssueToken_def exchangeCode_def validateResource_def Let_def ox_grant_def
      ox_env_now)
qed

text \<open>The next authorization of the client redirects at once.\<close>

lemma ox_step5: "\<exists>d s'. flow_step ox_lib ox_svc ox_next ox_s3 = (RAuthorize d None, s') \<and> ad_Kind d = DecisionRedirect"
proof -
  have r: "ResolveClient ox_lib ox_svc now answer ''YWJj'' ox_s3 = (Inr ox_client, ox_s3)" for now answer
    by (rule ox_resolve) (simp_all add: ox_s3_def ox_db_def)
  have v: "ValidateRedirectURI (xl_url ox_lib) ox_client ''u'' = Some ''u''"
    by (simp add: ValidateRedirectURI_def ox_client_def)
  have c: "consentRequired ox_svc ''YWJj'' [OAuthScopeRead] ox_s3 = (Inr False, ox_s3)"
    by (simp add: consentRequired_def HasClientConsent_def ox_defs ox_s3_def count_where_def)
  show ?thesis
    by (simp add: ox_next_def ox_request_def authorize_and_begin_def oauth_Authorize_def authorize_steps_def validateResource_def
      andThen_def ret_def check_def Let_def r v c ox_env_def issueCode_def code_Issue_def)
qed

section \<open>Rotation, and its race\<close>

definition ox_s4 :: oauth_state where
  "ox_s4 = ox_s3\<lparr>st_codes := Map.empty, st_db := ox_db [ox_row (ox_tid ''def'') 13] [(''YWJj'', OAuthScopeRead, 12)]\<rparr>"

definition ox_revoked :: "StoredRefreshToken" where
  "ox_revoked = (ox_row (ox_tid ''def'') 13)\<lparr>rt_RevokedAt := Some 15\<rparr>"

definition ox_s5 :: oauth_state where
  "ox_s5 = ox_s4\<lparr>st_db := ox_db [ox_revoked, ox_row (ox_tid ''jkl'') 15] [(''YWJj'', OAuthScopeRead, 12)]\<rparr>"

lemma ox_tids: "ox_tid ''jkl'' \<noteq> ox_tid ''def''" "ox_tid ''mno'' \<noteq> ox_tid ''def''" "ox_tid ''mno'' \<noteq> ox_tid ''jkl''"
  by code_simp+

lemma ox_check:
  assumes "t < 100"
  shows "refresh_check ox_lib ox_svc (ox_env t k) ''i'' ox_refresh ox_s4 = (Inr (ox_row (ox_tid ''def'') 13), ox_s4)"
  using assms
  by (simp add: refresh_check_def ox_refresh_def RefreshTokenByID_def ox_defs ox_s4_def ox_row_def live_token_def
    validateResource_def check_def)

lemma ox_rotate1:
  "\<exists>resp. refresh_rotate ox_lib ox_svc (ox_env 15 ''jkl'') ''i'' (ox_row (ox_tid ''def'') 13) ox_s4 = (Inr resp, ox_s5) \<and>
     tk_RefreshToken resp = B64Encode url_alphabet ''jkl''"
proof -
  let ?s = "ox_s4\<lparr>st_db := ox_db [ox_revoked] [(''YWJj'', OAuthScopeRead, 12)]\<rparr>"
  have "on_db (RevokeRefreshToken (ox_tid ''def'') 15) ox_s4 = (Inr (), ?s)"
    by (simp add: RevokeRefreshToken_def ox_defs ox_s4_def ox_row_def ox_revoked_def update_where_def)
  moreover obtain resp where "issueTokens ox_lib ox_svc (ox_env 15 ''jkl'') ''i'' ''YWJj'' [OAuthScopeRead] ''i/mcp'' ?s =
      (Inr resp, ox_s5)" "tk_RefreshToken resp = B64Encode url_alphabet ''jkl''"
    using ox_tokens [of ?s "[ox_revoked]" "[(''YWJj'', OAuthScopeRead, 12)]" "''jkl''" 15] ox_tids
    by (auto simp: ox_s5_def ox_s4_def ox_s3_def ox_s2_def ox_s1_def ox_start_def ox_revoked_def ox_row_def)
  ultimately show ?thesis
    by (simp add: refresh_rotate_def andThen_def ox_env_now ox_row_def)
qed

lemma ox_rotate2:
  "\<exists>resp s6. refresh_rotate ox_lib ox_svc (ox_env 16 ''mno'') ''i'' (ox_row (ox_tid ''def'') 13) ox_s5 = (Inr resp, s6) \<and>
     tk_RefreshToken resp = B64Encode url_alphabet ''mno''"
proof -
  have "on_db (RevokeRefreshToken (ox_tid ''def'') 16) ox_s5 = (Inr (), ox_s5)"
    using ox_tids by (simp add: RevokeRefreshToken_def ox_defs ox_s5_def ox_row_def ox_revoked_def update_where_def)
  moreover obtain resp s6 where "issueTokens ox_lib ox_svc (ox_env 16 ''mno'') ''i'' ''YWJj'' [OAuthScopeRead] ''i/mcp'' ox_s5 =
      (Inr resp, s6)" "tk_RefreshToken resp = B64Encode url_alphabet ''mno''"
    using ox_tokens [of ox_s5 "[ox_revoked, ox_row (ox_tid ''jkl'') 15]" "[(''YWJj'', OAuthScopeRead, 12)]" "''mno''" 16] ox_tids
    by (auto simp: ox_s5_def ox_s4_def ox_s3_def ox_s2_def ox_s1_def ox_start_def ox_revoked_def ox_row_def)
  ultimately show ?thesis
    by (simp add: refresh_rotate_def andThen_def ox_env_now ox_row_def)
qed

lemma ox_step6: "\<exists>resp. flow_step ox_lib ox_svc (FToken (ox_env 15 ''jkl'') ''o'' ox_refresh) ox_s4 = (RToken (Inr resp), ox_s5)"
  using ox_rotate1 ox_check [of 15 "''jkl''"]
  by (auto simp: IssueToken_def refresh_grant_def andThen_def ox_refresh_def Let_def)


section \<open>Witnesses\<close>

theorem code_exchange_sound_witness:
  "\<exists>results resp s'. run_steps (flow_step ox_lib ox_svc) ox_calls ox_start = (results, ox_s3) \<and>
     exchangeCode ox_lib ox_svc (ox_env 13 ''def'') ''i'' ox_exchange ox_s3 = (Inr resp, s') \<and>
     st_codes s' (tr_Code ox_exchange) = None"
proof -
  obtain results where run: "run_steps (flow_step ox_lib ox_svc) ox_calls ox_start = (results, ox_s3)" using ox_run by blast
  obtain resp s' where x: "exchangeCode ox_lib ox_svc (ox_env 13 ''def'') ''i'' ox_exchange ox_s3 = (Inr resp, s')"
    using ox_step4 by (auto simp: IssueToken_def Let_def ox_exchange_def map_prod_def split: prod.splits)
  from code_exchange_sound [OF ox_decode ox_fresh run x] run x show ?thesis by blast
qed

theorem tokens_bound_witness:
  "\<exists>resp s' ss. flow_step ox_lib ox_svc (FToken (ox_env 13 ''def'') ''o'' ox_exchange) ox_s3 = (RToken (Inr resp), s') \<and>
     granted_scopes ox_svc ss \<and> tk_Scope resp = joinScopes ss"
proof -
  obtain results where run: "run_steps (flow_step ox_lib ox_svc) ox_calls ox_start = (results, ox_s3)" using ox_run by blast
  obtain resp s' where x: "flow_step ox_lib ox_svc (FToken (ox_env 13 ''def'') ''o'' ox_exchange) ox_s3 = (RToken (Inr resp), s')"
    using ox_step4 by blast
  from tokens_bound [OF ox_decode ox_fresh run x] x show ?thesis by blast
qed

theorem authorize_redirect_sound_witness:
  "\<exists>d s' client registered. flow_step ox_lib ox_svc ox_next ox_s3 = (RAuthorize d None, s') \<and>
     ad_Client d = Some client \<and> registered \<in> set (cl_RedirectURIs client)"
proof -
  obtain results where run: "run_steps (flow_step ox_lib ox_svc) ox_calls ox_start = (results, ox_s3)" using ox_run by blast
  obtain d s' where d: "flow_step ox_lib ox_svc ox_next ox_s3 = (RAuthorize d None, s')" "ad_Kind d = DecisionRedirect"
    using ox_step5 by blast
  from authorize_redirect_sound [OF ox_decode ox_fresh run d(1) [unfolded ox_next_def] d(2)] d(1) show ?thesis by blast
qed

theorem no_silent_first_grant_witness:
  "\<exists>d s' client. flow_step ox_lib ox_svc ox_next ox_s3 = (RAuthorize d None, s') \<and> ad_Client d = Some client \<and>
     oo_AutoApprove (os_opts ox_svc)"
proof -
  obtain results where run: "run_steps (flow_step ox_lib ox_svc) ox_calls ox_start = (results, ox_s3)" using ox_run by blast
  obtain d s' where d: "flow_step ox_lib ox_svc ox_next ox_s3 = (RAuthorize d None, s')" "ad_Kind d = DecisionRedirect"
    using ox_step5 by blast
  from no_silent_first_grant [OF ox_decode ox_fresh run d(1) [unfolded ox_next_def] d(2)] d(1) show ?thesis by blast
qed

theorem code_single_use_witness:
  "\<exists>results s. run_steps (flow_step ox_lib ox_svc) [FToken (ox_env 13 ''def'') ''o'' ox_exchange] ox_s3 = (results, s) \<and>
     length (filter (\<lambda>(e, r). exchanges ''YWJj'' e r)
       (zip [FToken (ox_env 13 ''def'') ''o'' ox_exchange] results)) = 1"
proof -
  let ?calls = "[FToken (ox_env 13 ''def'') ''o'' ox_exchange]"
  obtain resp s where "flow_step ox_lib ox_svc (hd ?calls) ox_s3 = (RToken (Inr resp), s)" using ox_step4 by auto
  then have run: "run_steps (flow_step ox_lib ox_svc) ?calls ox_s3 = ([RToken (Inr resp)], s)" by simp
  have "length (filter (\<lambda>(e, r). exchanges ''YWJj'' e r) (zip ?calls [RToken (Inr resp)])) \<le> 1"
    using code_single_use [OF run, of "''YWJj''"] by (simp split: if_splits)
  moreover have "exchanges ''YWJj'' (hd ?calls) (RToken (Inr resp))" by (simp add: ox_exchange_def)
  ultimately show ?thesis using run by auto
qed

theorem refresh_single_use_witness:
  "\<exists>results s. run_steps (flow_step ox_lib ox_svc) [FToken (ox_env 15 ''jkl'') ''o'' ox_refresh] ox_s4 = (results, s) \<and>
     length (filter (\<lambda>(e, r). rotates ox_lib (ox_tid ''def'') e r)
       (zip [FToken (ox_env 15 ''jkl'') ''o'' ox_refresh] results)) = 1"
proof -
  let ?calls = "[FToken (ox_env 15 ''jkl'') ''o'' ox_refresh]"
  obtain resp where "flow_step ox_lib ox_svc (hd ?calls) ox_s4 = (RToken (Inr resp), ox_s5)" using ox_step6 by auto
  then have run: "run_steps (flow_step ox_lib ox_svc) ?calls ox_s4 = ([RToken (Inr resp)], ox_s5)" by simp
  have zero: "no_zero_revocation ox_s4" "list_all clock_set ?calls"
    by (simp_all add: no_zero_revocation_def ox_s4_def ox_db_def ox_row_def ox_env_now)
  have "\<not> draws_refresh ox_lib (ox_tid ''def'') (hd ?calls)" using ox_tids by (simp add: ox_env_def)
  with refresh_single_use [OF run zero, of "ox_tid ''def''"] have
    "length (filter (\<lambda>(e, r). rotates ox_lib (ox_tid ''def'') e r) (zip ?calls [RToken (Inr resp)])) \<le> 1"
    by (simp split: if_splits)
  moreover have "rotates ox_lib (ox_tid ''def'') (hd ?calls) (RToken (Inr resp))" by (simp add: ox_refresh_def)
  ultimately show ?thesis using run by auto
qed

end
