(* ===== verification/Rebind.thy ===== *)
theory Rebind
  imports GoText
begin

text \<open>
  The placeholder rewriting of the PostgreSQL driver, \<open>src/internal/repository/db/open.go\<close>: the
  application writes \<open>?\<close>, the server reads \<open>$1\<close>, \<open>$2\<close>, ... The scanner skips the constructs that
  can hold a \<open>?\<close> as literal text.

  The Go code walks an index \<open>i\<close> over the query and copies slices; here each function takes the rest
  of the query, and the index is kept only for the error messages. A scanner returns the text it
  copied and what follows it.

  The second half states what the rewriting is for: a grammar of tokens of a query (\<open>lexes\<close>), and
  that \<open>rebind\<close> accepts exactly the texts of the grammar, copies every token but the placeholders,
  and numbers those from 1.
\<close>

section \<open>Scanners\<close>

datatype rebind_error = UnterminatedString nat | UnterminatedIdent nat | UnterminatedComment nat
  | UnterminatedDollar string nat

definition quote1 :: char where "quote1 = byte 39"
definition quote2 :: char where "quote2 = byte 34"
definition newline :: char where "newline = byte 10"

lemma special_chars [simp]:
  "newline \<noteq> CHR ''-''" "CHR ''-'' \<noteq> newline" "quote1 \<noteq> quote2" "quote2 \<noteq> quote1"
  "quote1 \<noteq> CHR ''-''" "quote2 \<noteq> CHR ''-''" "quote1 \<noteq> CHR ''/''" "quote2 \<noteq> CHR ''/''"
  "quote1 \<noteq> CHR ''$''" "quote2 \<noteq> CHR ''$''" "quote1 \<noteq> CHR ''?''" "quote2 \<noteq> CHR ''?''"
  "CHR ''-'' \<noteq> quote1" "CHR ''-'' \<noteq> quote2" "CHR ''/'' \<noteq> quote1" "CHR ''/'' \<noteq> quote2"
  "CHR ''$'' \<noteq> quote1" "CHR ''$'' \<noteq> quote2" "CHR ''?'' \<noteq> quote1" "CHR ''?'' \<noteq> quote2"
  by code_simp+

text \<open>Behind the opening quote \<open>q\<close>, up to and including the closing one.\<close>

fun scan_quoted :: "char \<Rightarrow> string \<Rightarrow> (string \<times> string) option" where
  "scan_quoted q [] = None"
| "scan_quoted q (c # cs) =
    (if c \<noteq> q then map_option (\<lambda>(a, b). (c # a, b)) (scan_quoted q cs)
     else (case cs of
         d # ds \<Rightarrow> if d = q then map_option (\<lambda>(a, b). (c # d # a, b)) (scan_quoted q ds) else Some ([c], cs)
       | [] \<Rightarrow> Some ([c], [])))"

definition scanSQLString :: "string \<Rightarrow> (string \<times> string) option" where
  "scanSQLString cs = scan_quoted quote1 cs"

definition scanQuotedIdent :: "string \<Rightarrow> (string \<times> string) option" where
  "scanQuotedIdent cs = scan_quoted quote2 cs"

definition scanLineComment :: "string \<Rightarrow> string \<times> string" where
  "scanLineComment s = (takeWhile (\<lambda>c. c \<noteq> newline) s, dropWhile (\<lambda>c. c \<noteq> newline) s)"

text \<open>The first round of the loop of \<open>scanBlockComment\<close> sees the opening \<open>/*\<close> at depth 0.\<close>

fun scan_block :: "nat \<Rightarrow> string \<Rightarrow> (string \<times> string) option" where
  "scan_block depth [] = None"
| "scan_block depth [c] = None"
| "scan_block depth (c # d # cs) =
    (if c = CHR ''/'' \<and> d = CHR ''*'' then map_option (\<lambda>(a, b). (c # d # a, b)) (scan_block (depth + 1) cs)
     else if c = CHR ''*'' \<and> d = CHR ''/'' then
       (if depth - 1 = 0 then Some ([c, d], cs) else map_option (\<lambda>(a, b). (c # d # a, b)) (scan_block (depth - 1) cs))
     else map_option (\<lambda>(a, b). (c # a, b)) (scan_block depth (d # cs)))"

definition scanBlockComment :: "string \<Rightarrow> (string \<times> string) option" where
  "scanBlockComment s = scan_block 0 s"

definition isDollarTagStart :: "char \<Rightarrow> bool" where
  "isDollarTagStart c \<longleftrightarrow> c = CHR ''_'' \<or> is_letter c"

definition isDollarTagPart :: "char \<Rightarrow> bool" where
  "isDollarTagPart c \<longleftrightarrow> isDollarTagStart c \<or> is_digit c"

fun dollarQuoteTagAt :: "string \<Rightarrow> string option" where
  "dollarQuoteTagAt (c # d # cs) =
    (if c \<noteq> CHR ''$'' then None
     else if d = CHR ''$'' then Some []
     else if \<not> isDollarTagStart d then None
     else (let tag = d # takeWhile isDollarTagPart cs in
       (case dropWhile isDollarTagPart cs of [] \<Rightarrow> None | e # _ \<Rightarrow> if e = CHR ''$'' then Some tag else None)))"
| "dollarQuoteTagAt _ = None"

definition dollar_delim :: "string \<Rightarrow> string" where
  "dollar_delim tag = CHR ''$'' # tag @ ''$''"

text \<open>\<open>strings.Index\<close>, as the text before the first occurrence and the rest from it on.\<close>

fun split_at :: "string \<Rightarrow> string \<Rightarrow> (string \<times> string) option" where
  "split_at p s = (if prefix p s then Some ([], s)
     else (case s of [] \<Rightarrow> None | c # cs \<Rightarrow> map_option (\<lambda>(a, b). (c # a, b)) (split_at p cs)))"

declare split_at.simps [simp del]

definition scanDollarQuote :: "string \<Rightarrow> string \<Rightarrow> (string \<times> string) option" where
  "scanDollarQuote s tag =
    (let delim = dollar_delim tag in
     map_option (\<lambda>(body, rest). (delim @ body @ delim, drop (length delim) rest)) (split_at delim (drop (length delim) s)))"

section \<open>The loop\<close>

lemma scan_quoted_split: "scan_quoted q s = Some (a, b) \<Longrightarrow> s = a @ b"
  by (induction q s arbitrary: a b rule: scan_quoted.induct) (auto split: if_splits list.splits)

lemma scan_quoted_nonempty: "scan_quoted q s = Some (a, b) \<Longrightarrow> a \<noteq> []"
  by (cases s) (auto split: if_splits list.splits)

lemma scan_block_split: "scan_block n s = Some (a, b) \<Longrightarrow> s = a @ b"
  by (induction n s arbitrary: a b rule: scan_block.induct) (auto split: if_splits)

lemma scan_block_nonempty: "scan_block n s = Some (a, b) \<Longrightarrow> a \<noteq> []"
  by (cases "(n, s)" rule: scan_block.cases) (auto split: if_splits)

lemma split_at_Some: "split_at p s = Some (a, b) \<Longrightarrow> s = a @ b \<and> prefix p b"
proof (induction p s arbitrary: a b rule: split_at.induct)
  case (1 p s)
  then show ?case by (subst (asm) (2) split_at.simps) (auto split: if_splits list.splits)
qed

lemma dollar_tag_shape:
  assumes "dollarQuoteTagAt s = Some tag"
  shows "\<exists>rest. s = dollar_delim tag @ rest \<and> CHR ''$'' \<notin> set tag"
proof (cases s rule: dollarQuoteTagAt.cases)
  case (1 c d cs)
  show ?thesis
  proof (cases "d = CHR ''$''")
    case True
    with assms 1 show ?thesis by (auto simp: dollar_delim_def split: if_splits)
  next
    case False
    with assms 1 obtain r where r: "c = CHR ''$''" "isDollarTagStart d" "dropWhile isDollarTagPart cs = CHR ''$'' # r"
      and tag: "tag = d # takeWhile isDollarTagPart cs"
      by (auto simp: Let_def split: if_splits list.splits)
    have "cs = takeWhile isDollarTagPart cs @ CHR ''$'' # r"
      using takeWhile_dropWhile_id [of isDollarTagPart cs] by (simp add: r(3))
    then have "s = dollar_delim tag @ r" by (simp add: 1 r(1) tag dollar_delim_def)
    moreover have "CHR ''$'' \<notin> set tag"
      using False by (auto simp: tag isDollarTagPart_def isDollarTagStart_def is_letter_def is_lower_def is_upper_def
          is_digit_def in_range_def dest: set_takeWhileD)
    ultimately show ?thesis by blast
  qed
qed (use assms in simp_all)

lemma dollar_tag_prefix: "dollarQuoteTagAt s = Some tag \<Longrightarrow> prefix (dollar_delim tag) s"
  using dollar_tag_shape by (auto simp: prefix_def)

lemma scanDollarQuote_split:
  assumes "scanDollarQuote s tag = Some (a, b)" "dollarQuoteTagAt s = Some tag"
  shows "s = a @ b"
proof -
  obtain t where s: "s = dollar_delim tag @ t"
    using dollar_tag_prefix [OF assms(2)] by (auto simp: prefix_def)
  with assms(1) show ?thesis
    by (auto simp: scanDollarQuote_def Let_def prefix_def dest!: split_at_Some)
qed

lemma scanDollarQuote_nonempty: "scanDollarQuote s tag = Some (a, b) \<Longrightarrow> a \<noteq> []"
  by (auto simp: scanDollarQuote_def Let_def dollar_delim_def)

lemma scanSQLString_le: "scanSQLString cs = Some (a, b) \<Longrightarrow> length b < Suc (length cs)"
  unfolding scanSQLString_def by (drule scan_quoted_split) simp

lemma scanQuotedIdent_le: "scanQuotedIdent cs = Some (a, b) \<Longrightarrow> length b < Suc (length cs)"
  unfolding scanQuotedIdent_def by (drule scan_quoted_split) simp

lemma scanLineComment_less: "scanLineComment (c # cs) = (a, b) \<Longrightarrow> c = CHR ''-'' \<Longrightarrow> length b < Suc (length cs)"
  using length_dropWhile_le [of "\<lambda>c. c \<noteq> newline" cs] by (auto simp: scanLineComment_def)

lemma scanBlockComment_less: "scanBlockComment (c # cs) = Some (a, b) \<Longrightarrow> length b < Suc (length cs)"
  unfolding scanBlockComment_def using scan_block_split [of 0 "c # cs" a b] scan_block_nonempty [of 0 "c # cs" a b]
  by (cases a) auto

lemma scanDollarQuote_less:
  "scanDollarQuote (c # cs) tag = Some (a, b) \<Longrightarrow> dollarQuoteTagAt (c # cs) = Some tag \<Longrightarrow> length b < Suc (length cs)"
  using scanDollarQuote_split [of "c # cs" tag a b] scanDollarQuote_nonempty [of "c # cs" tag a b]
  by (cases a) auto

definition emit :: "string \<Rightarrow> rebind_error + string \<Rightarrow> rebind_error + string" where
  "emit s r = map_sum id ((@) s) r"

text \<open>The body of the loop: \<open>i\<close> is the offset, \<open>n\<close> the number of placeholders so far.\<close>

function (sequential) rebind_loop :: "nat \<Rightarrow> nat \<Rightarrow> string \<Rightarrow> rebind_error + string" where
  "rebind_loop i n [] = Inr []"
| "rebind_loop i n (c # cs) =
    (if c = quote1 then
       (case scanSQLString cs of None \<Rightarrow> Inl (UnterminatedString i)
        | Some (body, rest) \<Rightarrow> emit (c # body) (rebind_loop (i + 1 + length body) n rest))
     else if c = quote2 then
       (case scanQuotedIdent cs of None \<Rightarrow> Inl (UnterminatedIdent i)
        | Some (body, rest) \<Rightarrow> emit (c # body) (rebind_loop (i + 1 + length body) n rest))
     else if prefix ''--'' (c # cs) then
       (case scanLineComment (c # cs) of (body, rest) \<Rightarrow> emit body (rebind_loop (i + length body) n rest))
     else if prefix ''/*'' (c # cs) then
       (case scanBlockComment (c # cs) of None \<Rightarrow> Inl (UnterminatedComment i)
        | Some (body, rest) \<Rightarrow> emit body (rebind_loop (i + length body) n rest))
     else if c = CHR ''$'' then
       (case dollarQuoteTagAt (c # cs) of
          Some tag \<Rightarrow> (case scanDollarQuote (c # cs) tag of None \<Rightarrow> Inl (UnterminatedDollar (dollar_delim tag) i)
            | Some (body, rest) \<Rightarrow> emit body (rebind_loop (i + length body) n rest))
        | None \<Rightarrow> emit [c] (rebind_loop (i + 1) n cs))
     else if c = CHR ''?'' then emit (CHR ''$'' # itoa (n + 1)) (rebind_loop (i + 1) (n + 1) cs)
     else emit [c] (rebind_loop (i + 1) n cs))"
  by pat_completeness auto

termination
  by (relation "measure (\<lambda>(i, n, s). length s)")
    (auto simp: scanSQLString_le scanQuotedIdent_le scanLineComment_less [OF sym] scanBlockComment_less scanDollarQuote_less)

definition rebind :: "string \<Rightarrow> rebind_error + string" where
  "rebind query = (if CHR ''?'' \<notin> set query then Inr query else rebind_loop 0 0 query)"

section \<open>The grammar\<close>

datatype token = Literal string | Plain char | Param

text \<open>The text between two quotes, with the quote doubled.\<close>

inductive doubled :: "char \<Rightarrow> string \<Rightarrow> bool" for q where
  doubled_Nil: "doubled q []"
| doubled_char: "c \<noteq> q \<Longrightarrow> doubled q s \<Longrightarrow> doubled q (c # s)"
| doubled_quote: "doubled q s \<Longrightarrow> doubled q (q # q # s)"

text \<open>The rest of a comment inside \<open>n\<close> open ones.\<close>

inductive closes :: "nat \<Rightarrow> string \<Rightarrow> bool" where
  closes_last: "closes (Suc 0) ''*/''"
| closes_down: "closes (Suc n) s \<Longrightarrow> closes (Suc (Suc n)) (''*/'' @ s)"
| closes_up: "closes (Suc (Suc n)) s \<Longrightarrow> closes (Suc n) (''/*'' @ s)"
| closes_char: "closes (Suc n) s \<Longrightarrow> \<not> prefix ''/*'' (c # s) \<Longrightarrow> \<not> prefix ''*/'' (c # s) \<Longrightarrow> closes (Suc n) (c # s)"

definition tag_ok :: "string \<Rightarrow> bool" where
  "tag_ok tag \<longleftrightarrow> tag = [] \<or> isDollarTagStart (hd tag) \<and> list_all isDollarTagPart (tl tag)"

definition no_early :: "string \<Rightarrow> string \<Rightarrow> bool" where
  "no_early p b \<longleftrightarrow> (\<forall>k < length b. \<not> prefix p (drop k (b @ p)))"

text \<open>\<open>literal s rest\<close>: the text \<open>s\<close> is one complete construct when \<open>rest\<close> follows.\<close>

inductive literal :: "string \<Rightarrow> string \<Rightarrow> bool" where
  literal_quoted: "q \<in> {quote1, quote2} \<Longrightarrow> doubled q b \<Longrightarrow> rest = [] \<or> hd rest \<noteq> q \<Longrightarrow> literal (q # b @ [q]) rest"
| literal_line: "newline \<notin> set b \<Longrightarrow> rest = [] \<or> hd rest = newline \<Longrightarrow> literal (''--'' @ b) rest"
| literal_block: "closes (Suc 0) b \<Longrightarrow> literal (''/*'' @ b) rest"
| literal_dollar: "tag_ok tag \<Longrightarrow> no_early (dollar_delim tag) b \<Longrightarrow>
    literal (dollar_delim tag @ b @ dollar_delim tag) rest"

definition starts_literal :: "string \<Rightarrow> bool" where
  "starts_literal s \<longleftrightarrow> prefix [quote1] s \<or> prefix [quote2] s \<or> prefix ''--'' s \<or> prefix ''/*'' s \<or>
     (\<exists>tag. tag_ok tag \<and> prefix (dollar_delim tag) s)"

inductive lexes :: "string \<Rightarrow> token list \<Rightarrow> bool" where
  lexes_Nil: "lexes [] []"
| lexes_literal: "literal s rest \<Longrightarrow> lexes rest ts \<Longrightarrow> lexes (s @ rest) (Literal s # ts)"
| lexes_param: "lexes rest ts \<Longrightarrow> lexes (CHR ''?'' # rest) (Param # ts)"
| lexes_plain: "c \<noteq> CHR ''?'' \<Longrightarrow> \<not> starts_literal (c # rest) \<Longrightarrow> lexes rest ts \<Longrightarrow> lexes (c # rest) (Plain c # ts)"

text \<open>What the server is to see: the placeholders numbered, everything else as it is.\<close>

fun render :: "nat \<Rightarrow> token list \<Rightarrow> string" where
  "render n [] = []"
| "render n (Literal s # ts) = s @ render n ts"
| "render n (Plain c # ts) = c # render n ts"
| "render n (Param # ts) = CHR ''$'' # itoa (n + 1) @ render (n + 1) ts"

section \<open>The scanners find the constructs\<close>

lemma scan_quoted_sound:
  "scan_quoted q s = Some (a, b) \<Longrightarrow> \<exists>i. a = i @ [q] \<and> doubled q i \<and> (b = [] \<or> hd b \<noteq> q)"
proof (induction q s arbitrary: a b rule: scan_quoted.induct)
  case (2 q c cs)
  consider (char) "c \<noteq> q" | (double) ds where "c = q" "cs = q # ds" | (close) "c = q" "cs = [] \<or> hd cs \<noteq> q"
    by (cases cs) auto
  then show ?case
  proof cases
    case char
    with 2(3) obtain a' where a': "scan_quoted q cs = Some (a', b)" "a = c # a'" by auto
    from 2(1) [OF char a'(1)] char a'(2) show ?thesis by (auto intro: doubled_char)
  next
    case double
    with 2(3) obtain a' where a': "scan_quoted q ds = Some (a', b)" "a = q # q # a'" by auto
    from 2(2) [of q ds] double a'(1) obtain i where "a' = i @ [q]" "doubled q i" "b = [] \<or> hd b \<noteq> q" by auto
    with a'(2) show ?thesis by (auto intro: doubled_quote)
  next
    case close
    with 2(3) have "a = [q]" "b = cs" by (auto split: list.splits)
    with close show ?thesis by (auto intro: doubled_Nil)
  qed
qed simp

lemma scan_quoted_complete:
  "doubled q i \<Longrightarrow> b = [] \<or> hd b \<noteq> q \<Longrightarrow> scan_quoted q (i @ q # b) = Some (i @ [q], b)"
  by (induction rule: doubled.induct) (auto split: list.split)

lemma scan_block_sound: "scan_block (Suc n) s = Some (a, b) \<Longrightarrow> closes (Suc n) a"
proof (induction "Suc n" s arbitrary: n a b rule: scan_block.induct)
  case (3 c d cs)
  consider (up) "c = CHR ''/''" "d = CHR ''*''" | (last) "c = CHR ''*''" "d = CHR ''/''" "n = 0"
    | (down) m where "c = CHR ''*''" "d = CHR ''/''" "n = Suc m"
    | (char) "\<not> (c = CHR ''/'' \<and> d = CHR ''*'')" "\<not> (c = CHR ''*'' \<and> d = CHR ''/'')"
    by (cases n) auto
  then show ?case
  proof cases
    case up
    with 3 show ?thesis using closes_up [of n] by fastforce
  next
    case last
    with 3 show ?thesis using closes_last by auto
  next
    case down
    with 3 show ?thesis using closes_down [of m] by fastforce
  next
    case char
    with 3(4) obtain a' where a': "scan_block (Suc n) (d # cs) = Some (a', b)" "a = c # a'" by auto
    have "a' \<noteq> []" "d # cs = a' @ b" using a'(1) by (auto dest: scan_block_nonempty scan_block_split)
    then have "hd a' = d" by (cases a') auto
    then have "\<not> prefix ''/*'' (c # a')" "\<not> prefix ''*/'' (c # a')"
      using char \<open>a' \<noteq> []\<close> by (cases a'; auto)+
    with 3(3) [OF _ _ a'(1)] char a'(2) show ?thesis by (auto intro: closes_char)
  qed
qed simp_all

lemma closes_length: "closes n s \<Longrightarrow> s \<noteq> []"
  by (cases rule: closes.cases) auto

lemma scan_block_complete: "closes n a \<Longrightarrow> scan_block n (a @ b) = Some (a, b)"
proof (induction rule: closes.induct)
  case (closes_char n s c)
  obtain d ds where s: "s = d # ds" using closes_length [OF closes_char(1)] by (cases s) auto
  from closes_char(2,3) have "\<not> (c = CHR ''/'' \<and> d = CHR ''*'')" "\<not> (c = CHR ''*'' \<and> d = CHR ''/'')"
    by (auto simp: s)
  with closes_char(4) show ?case by (auto simp: s)
qed simp_all

lemma prefix_cut: "prefix p (x @ r) \<Longrightarrow> length p \<le> length x \<Longrightarrow> prefix p x"
  using prefix_length_prefix [of p "x @ r" x] by simp

lemma no_early_Cons: "no_early p (c # b) \<longleftrightarrow> \<not> prefix p (c # b @ p) \<and> no_early p b"
proof
  assume n: "no_early p (c # b)"
  then have "\<not> prefix p (drop 0 ((c # b) @ p))" unfolding no_early_def by blast
  moreover have "no_early p b" unfolding no_early_def
  proof (intro allI impI)
    fix k assume "k < length b"
    then have "\<not> prefix p (drop (Suc k) ((c # b) @ p))" using n unfolding no_early_def by (metis Suc_less_eq length_Cons)
    then show "\<not> prefix p (drop k (b @ p))" by simp
  qed
  ultimately show "\<not> prefix p (c # b @ p) \<and> no_early p b" by simp
next
  assume "\<not> prefix p (c # b @ p) \<and> no_early p b"
  then show "no_early p (c # b)" unfolding no_early_def by (auto simp: less_Suc_eq_0_disj)
qed

lemma split_at_sound: "split_at p s = Some (a, b) \<Longrightarrow> no_early p a"
proof (induction s arbitrary: a b)
  case Nil
  then show ?case by (subst (asm) split_at.simps) (auto simp: no_early_def split: if_splits)
next
  case (Cons c s)
  show ?case
  proof (cases "prefix p (c # s)")
    case True
    with Cons.prems show ?thesis by (subst (asm) split_at.simps) (simp add: no_early_def)
  next
    case False
    with Cons.prems obtain a' where a': "split_at p s = Some (a', b)" "a = c # a'"
      by (subst (asm) split_at.simps) auto
    from split_at_Some [OF a'(1)] obtain r where "s = a' @ p @ r" by (auto simp: prefix_def)
    with False have "\<not> prefix p (c # a' @ p)" by (metis append_Cons append_assoc prefix_order.trans prefixI)
    with Cons.IH [OF a'(1)] a'(2) show ?thesis by (simp add: no_early_Cons)
  qed
qed

lemma split_at_complete: "no_early p b \<Longrightarrow> split_at p (b @ p @ r) = Some (b, p @ r)"
proof (induction b)
  case (Cons c b)
  then have "\<not> prefix p (c # b @ p)" "no_early p b" by (simp_all add: no_early_Cons)
  then have "\<not> prefix p (c # b @ p @ r)" using prefix_cut [of p "c # b @ p" r] by auto
  with Cons.IH [OF \<open>no_early p b\<close>] show ?case by (subst split_at.simps) simp
qed (subst split_at.simps, simp)

lemma dollar_not_part [simp]: "\<not> isDollarTagPart CHR ''$''" "\<not> isDollarTagStart CHR ''$''"
  by code_simp+

lemma dollar_tag_sound: "dollarQuoteTagAt s = Some tag \<Longrightarrow> tag_ok tag"
  by (cases s rule: dollarQuoteTagAt.cases)
    (auto simp: tag_ok_def Let_def list_all_iff dest: set_takeWhileD split: if_splits list.splits)

lemma dollar_tag_complete:
  assumes "tag_ok tag"
  shows "dollarQuoteTagAt (dollar_delim tag @ rest) = Some tag"
proof (cases tag)
  case (Cons d ds)
  have part: "list_all isDollarTagPart ds" "isDollarTagStart d" using assms Cons by (simp_all add: tag_ok_def)
  then have "d \<noteq> CHR ''$''" by auto
  moreover have "takeWhile isDollarTagPart (ds @ CHR ''$'' # rest) = ds"
    "dropWhile isDollarTagPart (ds @ CHR ''$'' # rest) = CHR ''$'' # rest"
    using part by (simp_all add: takeWhile_append2 dropWhile_append2 list_all_iff)
  ultimately show ?thesis using part by (simp add: dollar_delim_def Cons)
qed (simp add: dollar_delim_def)

lemma scanDollarQuote_sound:
  assumes "scanDollarQuote s tag = Some (a, b)" "tag_ok tag"
  shows "literal a b"
proof -
  obtain body rest where "split_at (dollar_delim tag) (drop (length (dollar_delim tag)) s) = Some (body, rest)"
    "a = dollar_delim tag @ body @ dollar_delim tag"
    using assms(1) by (auto simp: scanDollarQuote_def Let_def)
  with split_at_sound assms(2) show ?thesis by (simp add: literal_dollar)
qed

lemma scanDollarQuote_complete:
  "no_early (dollar_delim tag) b \<Longrightarrow>
   scanDollarQuote (dollar_delim tag @ b @ dollar_delim tag @ rest) tag = Some (dollar_delim tag @ b @ dollar_delim tag, rest)"
  by (simp add: scanDollarQuote_def Let_def split_at_complete)

section \<open>The loop follows the grammar\<close>

lemma starts_literal_dollar:
  "(\<exists>tag. tag_ok tag \<and> prefix (dollar_delim tag) s) \<longleftrightarrow> dollarQuoteTagAt s \<noteq> None"
  using dollar_tag_complete dollar_tag_prefix dollar_tag_sound by (fastforce simp: prefix_def)

lemma plain_char:
  assumes "c \<noteq> quote1" "c \<noteq> quote2" "\<not> prefix ''--'' (c # cs)" "\<not> prefix ''/*'' (c # cs)"
    and "c = CHR ''$'' \<longrightarrow> dollarQuoteTagAt (c # cs) = None"
  shows "\<not> starts_literal (c # cs)"
  using assms unfolding starts_literal_def starts_literal_dollar
  by (cases cs) auto

lemma emit_Inr: "emit s r = Inr out \<longleftrightarrow> (\<exists>t. r = Inr t \<and> out = s @ t)"
  by (cases r) (auto simp: emit_def)

lemma lexes_scanned:
  assumes "\<exists>ts. lexes b ts \<and> t = render n ts" "literal a b" "s = a @ b"
  shows "\<exists>ts. lexes s ts \<and> a @ t = render n ts"
  using assms lexes_literal [of a b] by (metis render.simps(2))

lemma rebind_loop_sound: "rebind_loop i n s = Inr out \<Longrightarrow> \<exists>ts. lexes s ts \<and> out = render n ts"
proof (induction i n s arbitrary: out rule: rebind_loop.induct)
  case (1 i n)
  then show ?case by (auto intro: lexes_Nil)
next
  case (2 i n c cs)
  note IH = 2(1-8) and prem = 2(9)
  consider (string) "c = quote1" | (ident) "c = quote2" | (line) "c \<noteq> quote1" "c \<noteq> quote2" "prefix ''--'' (c # cs)"
    | (block) "c \<noteq> quote1" "c \<noteq> quote2" "\<not> prefix ''--'' (c # cs)" "prefix ''/*'' (c # cs)"
    | (dollar) tag where "c = CHR ''$''" "dollarQuoteTagAt (c # cs) = Some tag"
    | (plain_dollar) "c = CHR ''$''" "dollarQuoteTagAt (c # cs) = None"
    | (param) "c = CHR ''?''"
    | (plain) "c \<noteq> quote1" "c \<noteq> quote2" "\<not> prefix ''--'' (c # cs)" "\<not> prefix ''/*'' (c # cs)"
        "c \<noteq> CHR ''$''" "c \<noteq> CHR ''?''"
    by (cases "dollarQuoteTagAt (c # cs)") auto
  then show ?case
  proof cases
    case string
    with prem obtain body rest t where b: "scan_quoted quote1 cs = Some (body, rest)"
      "rebind_loop (i + 1 + length body) n rest = Inr t" "out = (c # body) @ t"
      by (auto simp: scanSQLString_def emit_Inr split: option.splits)
    from scan_quoted_sound [OF b(1)] string have "literal (c # body) rest" by (auto intro: literal_quoted)
    moreover have "c # cs = (c # body) @ rest" using scan_quoted_split [OF b(1)] by simp
    ultimately show ?thesis
      unfolding b(3) using IH(1) [OF string _ refl b(2)] b(1) by (intro lexes_scanned) (simp_all add: scanSQLString_def)
  next
    case ident
    with prem obtain body rest t where b: "scan_quoted quote2 cs = Some (body, rest)"
      "rebind_loop (i + 1 + length body) n rest = Inr t" "out = (c # body) @ t"
      by (auto simp: scanQuotedIdent_def emit_Inr split: option.splits)
    from scan_quoted_sound [OF b(1)] ident have "literal (c # body) rest" by (auto intro: literal_quoted)
    moreover have "c # cs = (c # body) @ rest" using scan_quoted_split [OF b(1)] by simp
    ultimately show ?thesis
      unfolding b(3) using IH(2) [OF _ ident _ refl b(2)] b(1) ident
      by (intro lexes_scanned) (simp_all add: scanQuotedIdent_def)
  next
    case line
    obtain body rest where b: "scanLineComment (c # cs) = (body, rest)" by (metis surj_pair)
    with prem line obtain t where t: "rebind_loop (i + length body) n rest = Inr t" "out = body @ t"
      by (auto simp: emit_Inr)
    from line(3) obtain ds where ds: "c # cs = ''--'' @ ds" by (auto simp: prefix_def)
    have body: "body = ''--'' @ takeWhile (\<lambda>c. c \<noteq> newline) ds" "rest = dropWhile (\<lambda>c. c \<noteq> newline) ds"
      using b unfolding ds scanLineComment_def by auto
    have "rest = [] \<or> hd rest = newline" using hd_dropWhile [of "\<lambda>c. c \<noteq> newline" ds] by (auto simp: body)
    then have "literal body rest" unfolding body(1)
      by (intro literal_line) (auto dest: set_takeWhileD)
    moreover have "c # cs = body @ rest" unfolding ds body by simp
    ultimately show ?thesis unfolding t(2) using IH(3) [OF line(1,2,3) b [symmetric] t(1)]
      by (intro lexes_scanned)
  next
    case block
    with prem obtain body rest where b1: "scanBlockComment (c # cs) = Some (body, rest)"
      by (cases "scanBlockComment (c # cs)") auto
    with prem block obtain t where "rebind_loop (i + length body) n rest = Inr t" "out = body @ t"
      by (auto simp: emit_Inr)
    note b = b1 this
    from block(4) obtain ds where ds: "c # cs = ''/*'' @ ds" by (auto simp: prefix_def)
    then obtain body' where body': "scan_block (Suc 0) ds = Some (body', rest)" "body = ''/*'' @ body'"
      using b(1) by (auto simp: scanBlockComment_def)
    have "literal body rest" unfolding body'(2) using scan_block_sound [OF body'(1)] by (rule literal_block)
    moreover have "c # cs = body @ rest" using scan_block_split [OF body'(1)] by (simp add: ds body'(2))
    ultimately show ?thesis unfolding b(3) using IH(4) [OF block b(1) refl b(2)] by (intro lexes_scanned)
  next
    case dollar
    with prem obtain body rest where b1: "scanDollarQuote (c # cs) tag = Some (body, rest)"
      by (cases "scanDollarQuote (c # cs) tag") auto
    with prem dollar obtain t where "rebind_loop (i + length body) n rest = Inr t" "out = body @ t"
      by (auto simp: emit_Inr)
    note b = b1 this
    have "literal body rest" using scanDollarQuote_sound [OF b(1) dollar_tag_sound [OF dollar(2)]] .
    moreover have "c # cs = body @ rest" using scanDollarQuote_split [OF b(1) dollar(2)] .
    moreover from IH(6) [OF _ _ _ _ dollar b(1) refl b(2)] dollar(1) have "\<exists>ts. lexes rest ts \<and> t = render n ts" by simp
    ultimately show ?thesis unfolding b(3) by (intro lexes_scanned)
  next
    case plain_dollar
    with prem obtain t where t: "rebind_loop (i + 1) n cs = Inr t" "out = c # t" by (auto simp: emit_Inr)
    have "\<not> starts_literal (c # cs)" using plain_dollar by (intro plain_char) simp_all
    moreover from IH(5) [OF _ _ _ _ plain_dollar t(1)] plain_dollar obtain ts where "lexes cs ts" "t = render n ts"
      by auto
    ultimately show ?thesis using t(2) plain_dollar(1) by (intro exI [of _ "Plain c # ts"]) (simp add: lexes_plain)
  next
    case param
    with prem obtain t where t: "rebind_loop (i + 1) (n + 1) cs = Inr t" "out = CHR ''$'' # itoa (n + 1) @ t"
      by (auto simp: emit_Inr)
    from IH(7) [OF _ _ _ _ _ param t(1)] param obtain ts where "lexes cs ts" "t = render (n + 1) ts" by auto
    with t(2) param show ?thesis by (intro exI [of _ "Param # ts"]) (simp add: lexes_param)
  next
    case plain
    have "rebind_loop i n (c # cs) = emit [c] (rebind_loop (i + 1) n cs)"
      by (simp only: rebind_loop.simps plain if_False)
    with prem have "emit [c] (rebind_loop (i + 1) n cs) = Inr out" by (simp only:)
    then obtain t where t: "rebind_loop (i + 1) n cs = Inr t" "out = c # t" by (auto simp: emit_Inr)
    have "\<not> starts_literal (c # cs)" using plain by (intro plain_char) simp_all
    moreover from IH(8) [OF plain t(1)] obtain ts where "lexes cs ts" "t = render n ts" by auto
    ultimately show ?thesis using t(2) plain(6) by (intro exI [of _ "Plain c # ts"]) (simp add: lexes_plain)
  qed
qed

lemma rebind_loop_Plain:
  "c \<noteq> CHR ''?'' \<Longrightarrow> \<not> starts_literal (c # cs) \<Longrightarrow> rebind_loop i n (c # cs) = emit [c] (rebind_loop (i + 1) n cs)"
  using starts_literal_dollar [of "c # cs"] unfolding starts_literal_def by (auto simp: prefix_def)

lemma rebind_loop_literal:
  assumes "literal s rest"
  shows "rebind_loop i n (s @ rest) = emit s (rebind_loop (i + length s) n rest)"
  using assms
proof cases
  case (literal_quoted q b)
  then have "scan_quoted q (b @ q # rest) = Some (b @ [q], rest)" by (intro scan_quoted_complete)
  with literal_quoted show ?thesis by (auto simp: scanSQLString_def scanQuotedIdent_def)
next
  case (literal_line b)
  then have "takeWhile (\<lambda>c. c \<noteq> newline) (b @ rest) = b" "dropWhile (\<lambda>c. c \<noteq> newline) (b @ rest) = rest"
    by (auto simp: takeWhile_append dropWhile_append takeWhile_eq_Nil_iff dropWhile_eq_self_iff
        split: if_splits) 
  with literal_line show ?thesis by (simp add: scanLineComment_def)
next
  case (literal_block b)
  with scan_block_complete [OF literal_block(2), of rest] show ?thesis by (simp add: scanBlockComment_def)
next
  case (literal_dollar tag b)
  let ?d = "dollar_delim tag"
  have s: "s @ rest = ?d @ b @ ?d @ rest" by (simp add: literal_dollar(1))
  obtain cs where cs: "s @ rest = CHR ''$'' # cs" unfolding s by (simp add: dollar_delim_def)
  have "dollarQuoteTagAt (s @ rest) = Some tag" unfolding s using literal_dollar(2) by (rule dollar_tag_complete)
  moreover have "scanDollarQuote (s @ rest) tag = Some (s, rest)"
    unfolding s scanDollarQuote_complete [OF literal_dollar(3)] by (simp add: literal_dollar(1))
  ultimately show ?thesis unfolding cs by simp
qed

lemma rebind_loop_complete: "lexes s ts \<Longrightarrow> rebind_loop i n s = Inr (render n ts)"
  by (induction arbitrary: i n rule: lexes.induct)
    (simp_all add: rebind_loop_literal rebind_loop_Plain emit_def del: rebind_loop.simps(2), simp add: emit_def)

text \<open>
  C32. What the rewriting does, exactly: a query without \<open>?\<close> passes as it is; any other query is
  accepted exactly when it splits into tokens - string literals, quoted identifiers, comments and
  dollar-quoted strings, all of them closed, placeholders, and characters outside of these - and
  the result is the query with its placeholders, and nothing else, replaced by \<open>$1\<close>, \<open>$2\<close>, ... in
  their order.
\<close>

theorem rebind_refines_grammar:
  "rebind query = Inr out \<longleftrightarrow>
     (if CHR ''?'' \<in> set query then \<exists>ts. lexes query ts \<and> out = render 0 ts else out = query)"
  unfolding rebind_def using rebind_loop_sound [of 0 0 query out] rebind_loop_complete [of query _ 0 0] by auto

end
