(* ===== verification/Dates.thy ===== *)
theory Dates
  imports Calendar
begin

text \<open>
  Dates read back: \<open>time.Parse\<close> with the layout \<open>2006-01-02\<close>, the day number of a civil date, and
  that formatting and parsing are inverse to each other. The jobs of the server use the text of a
  date as the name of a day, so two days must not share a text.
\<close>

section \<open>Day numbers\<close>

definition days_of_civil :: "civil \<Rightarrow> int" where
  "days_of_civil c =
    (let y = (if month c \<le> 2 then year c - 1 else year c); yoe = y mod 400;
         mp = (if month c > 2 then month c - 3 else month c + 9);
         doy = (153 * mp + 2) div 5 + day c - 1
     in y div 400 * 146097 + (365 * yoe + yoe div 4 - yoe div 100 + doy) - 719468)"

definition is_leap :: "int \<Rightarrow> bool" where
  "is_leap y \<longleftrightarrow> y mod 4 = 0 \<and> (y mod 100 \<noteq> 0 \<or> y mod 400 = 0)"

definition days_in :: "int \<Rightarrow> int \<Rightarrow> int" where
  "days_in m y = (if m = 2 then if is_leap y then 29 else 28 else if m \<in> {4, 6, 9, 11} then 30 else 31)"

text \<open>The first day of year \<open>y\<close> of an era, years counted from March.\<close>

definition year_start :: "int \<Rightarrow> int" where
  "year_start y = 365 * y + y div 4 - y div 100 + y div 400"

definition year_calc :: "int \<Rightarrow> int" where
  "year_calc n = n - n div 1460 + n div 36524 - n div 146096"

lemma div_step: "m \<le> n \<Longrightarrow> 0 < k \<Longrightarrow> n div k \<le> m div k + (n - m)" for m n k :: int
proof -
  assume "m \<le> n" "0 < k"
  then have "(n - m) * 1 \<le> (n - m) * k" by (intro mult_left_mono) auto
  then have "n \<le> m + (n - m) * k" by simp
  then have "n div k \<le> (m + (n - m) * k) div k" using \<open>0 < k\<close> by (rule zdiv_mono1)
  also have "(m + (n - m) * k) div k = m div k + (n - m)" using \<open>0 < k\<close> by (simp add: div_mult_self3)
  finally show ?thesis .
qed

lemma year_calc_century:
  fixes n :: int
  assumes "0 \<le> n" "n \<le> 146096"
  shows "n div 36524 - n div 146096 = min (n div 36524) 3"
proof (cases "n = 146096")
  case False
  with assms have "n div 146096 = 0" "n div 36524 < 4" by simp_all
  then show ?thesis by simp
qed simp

lemma year_calc_mono:
  assumes "0 \<le> m" "m \<le> n" "n \<le> 146096"
  shows "year_calc m \<le> year_calc n"
proof -
  have "m div 36524 \<le> n div 36524" using assms by (simp add: zdiv_mono1)
  moreover have "m - a + min c 3 \<le> n - a' + min c' 3" if "a' \<le> a + (n - m)" "c \<le> c'" for a a' c c' :: int
    using that by linarith
  moreover have "n div 1460 \<le> m div 1460 + (n - m)" using assms(2) by (rule div_step) simp
  moreover have century: "year_calc x = x - x div 1460 + min (x div 36524) 3" if "0 \<le> x" "x \<le> 146096" for x
    unfolding year_calc_def year_calc_century [OF that, symmetric] by (simp only: algebra_simps)
  ultimately show ?thesis using assms by simp
qed

lemma year_calc_ends:
  "list_all (\<lambda>y. 365 * y \<le> year_calc (year_start y) \<and> year_calc (year_start (y + 1) - 1) < 365 * (y + 1)) [0..399]"
  by code_simp

lemma year_start_covers:
  "0 \<le> n \<Longrightarrow> n < year_start (int k) \<Longrightarrow> \<exists>y. 0 \<le> y \<and> y < int k \<and> year_start y \<le> n \<and> n < year_start (y + 1)"
proof (induction k)
  case 0
  then show ?case by (simp add: year_start_def)
next
  case (Suc k)
  show ?case
  proof (cases "n < year_start (int k)")
    case True
    with Suc show ?thesis by fastforce
  next
    case False
    with Suc.prems show ?thesis by (intro exI [of _ "int k"]) (simp add: add.commute)
  qed
qed

lemma year_start_mono: "x \<le> y \<Longrightarrow> year_start x \<le> year_start y"
proof -
  assume le: "x \<le> y"
  have "x div 4 \<le> y div 4" "x div 400 \<le> y div 400" using le by (simp_all add: zdiv_mono1)
  with div_step [OF le, of 100] le show ?thesis unfolding year_start_def by linarith
qed

lemma year_of_era:
  assumes "0 \<le> n" "n < 146097" "y = year_calc n div 365"
  shows "0 \<le> y \<and> y \<le> 399 \<and> year_start y \<le> n \<and> n < year_start (y + 1)"
proof -
  have "n < year_start (int 400)" using assms(2) by (simp add: year_start_def)
  from year_start_covers [OF assms(1) this] obtain z where z: "0 \<le> z" "z \<le> 399" "year_start z \<le> n" "n < year_start (z + 1)"
    by auto
  have ends: "365 * z \<le> year_calc (year_start z)" "year_calc (year_start (z + 1) - 1) < 365 * (z + 1)"
    using year_calc_ends z(1,2) by (auto simp: list_all_iff)
  have pos: "0 \<le> year_start z" using year_start_mono [OF z(1)] by (simp add: year_start_def)
  have top: "year_start (z + 1) \<le> 146097" using year_start_mono [of "z + 1" 400] z(2) by (simp add: year_start_def)
  have "365 * z \<le> year_calc n" using ends(1) year_calc_mono [OF pos z(3)] assms(2) by simp
  moreover have "year_calc n < 365 * (z + 1)" using ends(2) year_calc_mono [of n "year_start (z + 1) - 1"] z(4) assms(1) top
    by simp
  ultimately have "year_calc n div 365 = z" by simp
  with z assms(3) show ?thesis by simp
qed

section \<open>Dates and day numbers\<close>

definition valid_civil :: "civil \<Rightarrow> bool" where
  "valid_civil c \<longleftrightarrow> 1 \<le> month c \<and> month c \<le> 12 \<and> 1 \<le> day c \<and> day c \<le> days_in (month c) (year c)"

text \<open>A day of a year counted from March, and its month.\<close>

lemma month_day_bounds:
  assumes "0 \<le> doy" "doy \<le> (365 :: int)" "mp = (5 * doy + 2) div 153" "d = doy - (153 * mp + 2) div 5 + 1"
  shows "0 \<le> mp" "mp \<le> 11" "1 \<le> d" "d \<le> (if mp \<in> {1, 3, 6, 8} then 30 else 31)" "mp = 11 \<Longrightarrow> d = doy - 336"
proof -
  show mp: "0 \<le> mp" "mp \<le> 11" using assms(1-3) by simp_all
  have lo: "153 * mp \<le> 5 * doy + 2" and hi: "5 * doy + 2 < 153 * mp + 153" using assms(3) by simp_all
  from mp have "mp \<in> set [0..11]" by simp
  then consider "mp = 0" | "mp = 1" | "mp = 2" | "mp = 3" | "mp = 4" | "mp = 5" | "mp = 6" | "mp = 7" | "mp = 8"
    | "mp = 9" | "mp = 10" | "mp = 11" by (auto simp: upto_rec1 simp del: set_upto)
  then have "1 \<le> d \<and> d \<le> (if mp \<in> {1, 3, 6, 8} then 30 else 31) \<and> (mp = 11 \<longrightarrow> d = doy - 336)"
    by cases (use lo hi assms(4) in simp_all)
  then show "1 \<le> d" "d \<le> (if mp \<in> {1, 3, 6, 8} then 30 else 31)" "mp = 11 \<Longrightarrow> d = doy - 336" by simp_all
qed

lemma div_succ:
  assumes "0 < (k :: int)"
  shows "(y + 1) div k = y div k + (if (y + 1) mod k = 0 then 1 else 0)"
proof (cases "y mod k + 1 = k")
  case True
  have "y + 1 = k * (y div k) + (y mod k + 1)" by simp
  with True have "y + 1 = (y div k + 1) * k" by (simp add: algebra_simps)
  with assms show ?thesis by simp
next
  case False
  with assms have r: "0 \<le> y mod k + 1" "y mod k + 1 < k" "0 < y mod k + 1"
    using pos_mod_bound [of k y] pos_mod_sign [of k y] by linarith+
  have "y + 1 = k * (y div k) + (y mod k + 1)" by simp
  from int_div_pos_eq [OF this r(1,2)] int_mod_pos_eq [OF this r(1,2)] r(3) show ?thesis by simp
qed

lemma mod_dvd_zero: "y mod (k * n) = 0 \<Longrightarrow> y mod k = 0" for y k n :: int
  by (metis dvd_triv_left dvd_trans mod_0_imp_dvd mod_eq_0_iff_dvd)

lemma year_length: "year_start (y + 1) - year_start y = (if is_leap (y + 1) then 366 else 365)"
proof -
  define u4 u100 u400 where u: "u4 = ((y + 1) mod 4 = 0)" "u100 = ((y + 1) mod 100 = 0)" "u400 = ((y + 1) mod 400 = 0)"
  have divs: "(y + 1) div 4 = y div 4 + (if u4 then 1 else 0)" "(y + 1) div 100 = y div 100 + (if u100 then 1 else 0)"
    "(y + 1) div 400 = y div 400 + (if u400 then 1 else 0)"
    unfolding u by (rule div_succ, simp)+
  have sums: "365 * (y + 1) + (a + i) - (b + j) + (c + k) - (365 * y + a - b + c) = 365 + i - j + k"
    for a b c i j k :: int by simp
  have len: "year_start (y + 1) - year_start y = 365 + (if u4 then 1 else 0) - (if u100 then 1 else 0) + (if u400 then 1 else 0)"
    unfolding year_start_def divs sums ..
  have imps: "u100 \<Longrightarrow> u4" "u400 \<Longrightarrow> u100"
    unfolding u by (rule mod_dvd_zero [where n = 25], simp) (rule mod_dvd_zero [where n = 4], simp)
  have leap: "is_leap (y + 1) \<longleftrightarrow> u4 \<and> (\<not> u100 \<or> u400)" unfolding is_leap_def u by simp
  have count: "365 + (if a then 1 else 0) - (if b then 1 else 0) + (if c then 1 else 0) =
      (if a \<and> (\<not> b \<or> c) then 366 else (365 :: int))" if "b \<longrightarrow> a" "c \<longrightarrow> b" for a b c
    using that by (cases a; cases b; cases c) simp_all
  show ?thesis unfolding len leap by (rule count; rule impI; rule imps)
qed

lemma leap_mod: "is_leap (y + era * 400) = is_leap y"
proof -
  have "(y + era * 400) mod 4 = y mod 4" "(y + era * 400) mod 100 = y mod 100"
    using mod_mult_self1 [of y "era * 100" 4] mod_mult_self1 [of y "era * 4" 100] by (simp_all add: mult.assoc)
  then show ?thesis by (simp add: is_leap_def)
qed

lemma civil_of_day_props:
  "days_of_civil (civil_of_day z) = z \<and> valid_civil (civil_of_day z)"
proof -
  define n where "n = (z + 719468) mod 146097"
  define era where "era = (z + 719468) div 146097"
  define y where "y = year_calc n div 365"
  define doy where "doy = n - (365 * y + y div 4 - y div 100)"
  define mp where "mp = (5 * doy + 2) div 153"
  define d where "d = doy - (153 * mp + 2) div 5 + 1"
  have z: "z = era * 146097 + n - 719468" by (simp add: n_def era_def)
  have n: "0 \<le> n" "n < 146097" by (simp_all add: n_def)
  note y = year_of_era [OF n y_def]
  then have "y div 400 = 0" by simp
  then have start: "year_start y = 365 * y + y div 4 - y div 100" by (simp add: year_start_def)
  have doy: "0 \<le> doy" "doy \<le> 365" "doy \<le> 364 \<or> is_leap (y + 1)"
    using y year_length [of y] start unfolding doy_def by (auto split: if_splits)
  note b = month_day_bounds [OF doy(1,2) mp_def d_def]
  define c where "c = civil_of_day z"
  have c: "month c = (if mp < 10 then mp + 3 else mp - 9)" "day c = d"
    "year c = y + era * 400 + (if mp < 10 then 0 else 1)"
    using b(1,2) unfolding c_def civil_of_day_def Let_def n_def [symmetric] era_def [symmetric]
      y_def [unfolded year_calc_def, symmetric] doy_def [symmetric] mp_def [symmetric] d_def [symmetric] by simp_all
  have undo: "(if month c \<le> 2 then year c - 1 else year c) = y + era * 400"
    "(if month c > 2 then month c - 3 else month c + 9) = mp"
    using b(1,2) unfolding c by auto
  have "(y + era * 400) mod 400 = y" "(y + era * 400) div 400 = era" using y by simp_all
  then have "days_of_civil c = z"
    unfolding days_of_civil_def Let_def undo z c(2) d_def using doy_def by simp
  moreover have "d \<le> days_in (month c) (year c)"
  proof (cases "mp = 11")
    case True
    then have "d \<le> 29" "d \<le> 28 \<or> is_leap (y + 1)" using b(5) doy(2,3) by auto
    moreover have "is_leap (year c) = is_leap (y + 1)"
      using True leap_mod [of "y + 1" era] by (simp add: c(3) ac_simps)
    ultimately show ?thesis using True by (auto simp: days_in_def c(1))
  next
    case False
    with b(1,2,4) show ?thesis by (auto simp: days_in_def c(1) split: if_splits)
  qed
  ultimately show ?thesis using b(1-3) unfolding c_def [symmetric] by (simp add: valid_civil_def c(1,2))
qed

lemma civil_of_day_inj: "civil_of_day z = civil_of_day z' \<Longrightarrow> z = z'"
  using civil_of_day_props by metis

section \<open>Parsing\<close>

text \<open>\<open>time.Parse("2006-01-02", s)\<close>, the day number; \<open>None\<close> is the error.\<close>

definition parse_date :: "string \<Rightarrow> int option" where
  "parse_date s =
    (let ys = take 4 s; ms = take 2 (drop 5 s); ds = take 2 (drop 8 s);
         c = \<lparr>year = int (digits_val ys), month = int (digits_val ms), day = int (digits_val ds)\<rparr>
     in if length s = 10 \<and> s ! 4 = CHR ''-'' \<and> s ! 7 = CHR ''-'' \<and> list_all is_digit (ys @ ms @ ds) \<and> valid_civil c
        then Some (days_of_civil c) else None)"

lemma length_itoa: "n < 10 ^ Suc w \<Longrightarrow> length (itoa n) \<le> Suc w"
proof (induction w arbitrary: n)
  case 0
  then show ?case by (subst itoa.simps) simp
next
  case (Suc w)
  show ?case
  proof (cases "n < 10")
    case False
    have "n div 10 < 10 ^ Suc w" using Suc.prems by (simp add: less_mult_imp_div_less)
    with Suc.IH [of "n div 10"] False show ?thesis by (subst itoa.simps) simp
  qed (subst itoa.simps, simp)
qed

lemma digits_val_zeros: "digits_val (replicate k CHR ''0'' @ s) = digits_val s"
  by (induction k) (simp_all add: digits_val_def digit_val_def)

lemma pad_int_props:
  assumes "0 \<le> n" "n < 10 ^ Suc w"
  shows "length (pad_int (Suc w) n) = Suc w" "list_all is_digit (pad_int (Suc w) n)"
    "digits_val (pad_int (Suc w) n) = nat n"
proof -
  have "nat n < 10 ^ Suc w" using assms by (simp add: nat_less_iff)
  from length_itoa [OF this] show "length (pad_int (Suc w) n) = Suc w" by (simp add: pad_int_def)
  have "is_digit CHR ''0''" by code_simp
  then show "list_all is_digit (pad_int (Suc w) n)" "digits_val (pad_int (Suc w) n) = nat n"
    using itoa_props [of "nat n"] by (auto simp: pad_int_def digits_val_zeros list_all_iff)
qed

definition four_digit_year :: "int \<Rightarrow> bool" where
  "four_digit_year z \<longleftrightarrow> 0 \<le> year (civil_of_day z) \<and> year (civil_of_day z) < 10000"

lemma parse_format_date:
  assumes "four_digit_year z"
  shows "parse_date (format_date z) = Some z"
proof -
  define c where "c = civil_of_day z"
  have c: "days_of_civil c = z" "valid_civil c" using civil_of_day_props [of z] by (simp_all add: c_def)
  have y: "0 \<le> year c" "year c < 10 ^ Suc 3" using assms by (simp_all add: four_digit_year_def c_def)
  have m: "0 \<le> month c" "month c < 10 ^ Suc 1" and d: "0 \<le> day c" "day c < 10 ^ Suc 1"
    using c(2) by (auto simp: valid_civil_def days_in_def split: if_splits)
  note Y = pad_int_props [OF y] and M = pad_int_props [OF m] and D = pad_int_props [OF d]
  have numerals: "Suc 3 = 4" "Suc 1 = 2" by simp_all
  note Y' = Y [unfolded numerals] and M' = M [unfolded numerals] and D' = D [unfolded numerals]
  have f: "format_date z = pad_int 4 (year c) @ CHR ''-'' # pad_int 2 (month c) @ CHR ''-'' # pad_int 2 (day c)"
    by (simp add: format_date_def Let_def c_def)
  have parts: "take 4 (format_date z) = pad_int 4 (year c)" "take 2 (drop 5 (format_date z)) = pad_int 2 (month c)"
    "take 2 (drop 8 (format_date z)) = pad_int 2 (day c)" "length (format_date z) = 10"
    "format_date z ! 4 = CHR ''-''" "format_date z ! 7 = CHR ''-''"
    using Y'(1) M'(1) D'(1) unfolding f by (simp_all add: nth_append)
  have civil: "\<lparr>year = int (nat (year c)), month = int (nat (month c)), day = int (nat (day c))\<rparr> = c"
    using y m d by simp
  show ?thesis unfolding parse_date_def Let_def parts Y'(3) M'(3) D'(3) civil using c Y'(2) M'(2) D'(2) by simp
qed

lemma format_date_inj: "format_date z = format_date z' \<Longrightarrow> four_digit_year z \<Longrightarrow> four_digit_year z' \<Longrightarrow> z = z'"
  using parse_format_date by (metis option.inject)

end
