(* ===== verification/DcaPlans.thy ===== *)
theory DcaPlans
  imports Prelude Runes Dates
begin

text \<open>
  The plans of regular investment, \<open>src/internal/service/portfolio/dca.go\<close>: the list, the checked
  insert-or-update, and the switch that disables a plan.

  Amounts are float64. Their arithmetic is the record \<open>floats\<close>, an argument of every definition
  that computes with them: nothing is assumed of it, so NaN and rounding are covered.
\<close>

section \<open>Tables\<close>

record 'f floats =
  fl_of_int :: "int \<Rightarrow> 'f"
  fl_le :: "'f \<Rightarrow> 'f \<Rightarrow> bool"
  fl_less :: "'f \<Rightarrow> 'f \<Rightarrow> bool"
  fl_mul :: "'f \<Rightarrow> 'f \<Rightarrow> 'f"
  fl_div :: "'f \<Rightarrow> 'f \<Rightarrow> 'f"
  fl_neg :: "'f \<Rightarrow> 'f"
  fl_round :: "'f \<Rightarrow> 'f"

record 'f DCAPlan =
  dp_ID :: int
  dp_FundCode :: string
  dp_FundName :: "string option"
  dp_Amount :: 'f
  dp_Frequency :: string
  dp_WeekdayMask :: string
  dp_TradeType :: string
  dp_PortfolioID :: int
  dp_StartDate :: string
  dp_EndDate :: "string option"
  dp_Active :: int
  dp_Source :: string
  dp_CreatedAt :: string
  dp_UpdatedAt :: string

record 'f transaction =
  tx_order :: string
  tx_time :: string
  tx_confirm :: string
  tx_type :: string
  tx_direction :: string
  tx_code :: string
  tx_name :: string
  tx_amount :: 'f
  tx_share :: 'f
  tx_fee :: 'f
  tx_cash :: 'f
  tx_share_change :: 'f
  tx_days :: int

record 'f execution =
  ex_plan :: int
  ex_code :: string
  ex_date :: string
  ex_amount :: 'f
  ex_status :: string
  ex_order :: string
  ex_nav_date :: string
  ex_nav :: 'f
  ex_message :: "string option"
  ex_at :: string

text \<open>
  The execution ledger is absent (\<open>None\<close>) on old databases. \<open>lg_rest\<close> stands for the tables that
  only the recalculation of snapshots reads and writes.
\<close>

record ('f, 's) ledger =
  lg_plans :: "'f DCAPlan list"
  lg_next :: int
  lg_navs :: "(string \<times> string \<times> 'f option) list"
  lg_tx :: "'f transaction list"
  lg_exec :: "'f execution list option"
  lg_rest :: 's

datatype dca_error = InvalidInput | InternalError

type_synonym ('f, 's, 'a) dca_proc = "(('f, 's) ledger db, dca_error, 'a) proc"

definition query :: "(('f, 's) ledger \<Rightarrow> 'a \<times> ('f, 's) ledger) \<Rightarrow> ('f, 's, 'a) dca_proc" where
  "query f = wrap (\<lambda>_. InternalError) (stmt f)"

section \<open>Listing\<close>

definition clampPortfolioText :: "string \<Rightarrow> int \<Rightarrow> string" where
  "clampPortfolioText s limit = Clamp s limit"

definition clampPortfolioID :: "int \<Rightarrow> int" where
  "clampPortfolioID i = (if i \<le> 0 then 1 else if i > 1000 then 1000 else i)"

definition clamp_plan :: "'f DCAPlan \<Rightarrow> 'f DCAPlan" where
  "clamp_plan p = p\<lparr>dp_FundCode := clampPortfolioText (dp_FundCode p) 32,
     dp_Frequency := clampPortfolioText (dp_Frequency p) 32, dp_WeekdayMask := clampPortfolioText (dp_WeekdayMask p) 64,
     dp_TradeType := clampPortfolioText (dp_TradeType p) 32, dp_Source := clampPortfolioText (dp_Source p) 64,
     dp_FundName := map_option (\<lambda>v. clampPortfolioText v 200) (dp_FundName p),
     dp_EndDate := map_option (\<lambda>v. clampPortfolioText v 40) (dp_EndDate p),
     dp_StartDate := clampPortfolioText (dp_StartDate p) 40, dp_CreatedAt := clampPortfolioText (dp_CreatedAt p) 40,
     dp_UpdatedAt := clampPortfolioText (dp_UpdatedAt p) 40\<rparr>"

text \<open>\<open>sort_rows\<close> is the \<open>ORDER BY active DESC, fund_code\<close> of the engine, with its own choice on ties.\<close>

definition ListDCAPlans :: "('f DCAPlan list \<Rightarrow> 'f DCAPlan list) \<Rightarrow> bool \<Rightarrow> int
    \<Rightarrow> ('f, 's, 'f DCAPlan list) dca_proc" where
  "ListDCAPlans sort_rows ActiveOnly PortfolioID =
    query (\<lambda>t. (map clamp_plan (take 5000 (sort_rows (filter (\<lambda>p. (ActiveOnly \<longrightarrow> dp_Active p = 1) \<and>
       (PortfolioID > 0 \<longrightarrow> dp_PortfolioID p = (if PortfolioID > 1000 then 1000 else PortfolioID))) (lg_plans t)))), t))"

definition getDCAPlanByID :: "int \<Rightarrow> ('f, 's, 'f DCAPlan) dca_proc" where
  "getDCAPlanByID i =
    andThen (query (\<lambda>t. (select1 (\<lambda>p. dp_ID p = i) (lg_plans t), t)))
      (\<lambda>found. case found of None \<Rightarrow> throw InternalError | Some p \<Rightarrow> ret (clamp_plan p))"

section \<open>Insert or update\<close>

record 'f UpsertDCAPlanInput =
  up_ID :: int
  up_FundCode :: string
  up_FundName :: string
  up_Amount :: 'f
  up_Frequency :: string
  up_WeekdayMask :: string
  up_TradeType :: string
  up_PortfolioID :: int
  up_StartDate :: string
  up_EndDate :: string
  up_Active :: "int option"
  up_Source :: string

definition or_default :: "string \<Rightarrow> string \<Rightarrow> string" where
  "or_default s d = (let t = TrimSpace s in if t = [] then d else t)"

definition optional_text :: "string \<Rightarrow> string option" where
  "optional_text s = (let t = TrimSpace s in if t = [] then None else Some t)"

text \<open>The checks, in their order, and the row that is written; \<open>today\<close> and \<open>now\<close> are texts of the clock.\<close>

definition plan_row :: "'f floats \<Rightarrow> string \<Rightarrow> string \<Rightarrow> 'f UpsertDCAPlanInput \<Rightarrow> dca_error + 'f DCAPlan" where
  "plan_row F today now i =
    (let code = TrimSpace (up_FundCode i); freq = or_default (up_Frequency i) ''weekday'';
         mask = or_default (up_WeekdayMask i) ''1,2,3,4,5''; ttype = or_default (up_TradeType i) ''auto'';
         start = or_default (up_StartDate i) today; active = (case up_Active i of None \<Rightarrow> 1 | Some a \<Rightarrow> a);
         source = or_default (up_Source i) ''mcp''; name = optional_text (up_FundName i); ed = optional_text (up_EndDate i)
     in if code = [] then Inl InvalidInput
        else if fl_le F (up_Amount i) (fl_of_int F 0) then Inl InvalidInput
        else if fl_less F (fl_of_int F 1000000) (up_Amount i) then Inl InvalidInput
        else if length code > 32 then Inl InvalidInput
        else if length freq > 32 then Inl InvalidInput
        else if length mask > 64 then Inl InvalidInput
        else if length ttype > 64 then Inl InvalidInput
        else if active \<noteq> 0 \<and> active \<noteq> 1 then Inl InvalidInput
        else if length source > 64 then Inl InvalidInput
        else if (case name of None \<Rightarrow> False | Some n \<Rightarrow> length n > 200) then Inl InvalidInput
        else if (case ed of None \<Rightarrow> False | Some d \<Rightarrow> length d > 40) then Inl InvalidInput
        else if length start > 40 then Inl InvalidInput
        else Inr \<lparr>dp_ID = up_ID i, dp_FundCode = code, dp_FundName = name, dp_Amount = up_Amount i, dp_Frequency = freq,
          dp_WeekdayMask = mask, dp_TradeType = ttype, dp_PortfolioID = clampPortfolioID (up_PortfolioID i),
          dp_StartDate = start, dp_EndDate = ed, dp_Active = active, dp_Source = source, dp_CreatedAt = now,
          dp_UpdatedAt = now\<rparr>)"

definition update_plan :: "'f DCAPlan \<Rightarrow> ('f, 's) ledger \<Rightarrow> nat \<times> ('f, 's) ledger" where
  "update_plan p t = (let hit = (\<lambda>q. dp_ID q = dp_ID p) in
     (count_where hit (lg_plans t),
      t\<lparr>lg_plans := update_where hit (\<lambda>q. p\<lparr>dp_CreatedAt := dp_CreatedAt q\<rparr>) (lg_plans t)\<rparr>))"

definition insert_plan :: "'f DCAPlan \<Rightarrow> ('f, 's) ledger \<Rightarrow> int \<times> ('f, 's) ledger" where
  "insert_plan p t = (lg_next t, t\<lparr>lg_plans := lg_plans t @ [p\<lparr>dp_ID := lg_next t\<rparr>], lg_next := lg_next t + 1\<rparr>)"

definition UpsertDCAPlan :: "'f floats \<Rightarrow> string \<Rightarrow> string \<Rightarrow> 'f UpsertDCAPlanInput \<Rightarrow> ('f, 's, 'f DCAPlan) dca_proc" where
  "UpsertDCAPlan F today now i =
    andThen (check (plan_row F today now i)) (\<lambda>p.
      if up_ID i > 0 then
        andThen (query (update_plan p)) (\<lambda>n.
          if n = 0 then throw InvalidInput else getDCAPlanByID (up_ID i))
      else andThen (query (insert_plan p)) getDCAPlanByID)"

definition DisableDCAPlan :: "string \<Rightarrow> int \<Rightarrow> ('f, 's, bool) dca_proc" where
  "DisableDCAPlan now i =
    (if i \<le> 0 then throw InvalidInput
     else andThen (query (\<lambda>t. (count_where (\<lambda>p. dp_ID p = i) (lg_plans t),
            t\<lparr>lg_plans := update_where (\<lambda>p. dp_ID p = i) (\<lambda>p. p\<lparr>dp_Active := 0, dp_UpdatedAt := now\<rparr>) (lg_plans t)\<rparr>)))
       (\<lambda>n. ret (n > 0)))"

section \<open>Stored plans stay in range\<close>

definition plan_ok :: "'f floats \<Rightarrow> 'f DCAPlan \<Rightarrow> bool" where
  "plan_ok F p \<longleftrightarrow> dp_FundCode p \<noteq> [] \<and> length (dp_FundCode p) \<le> 32 \<and> TrimSpace (dp_FundCode p) = dp_FundCode p \<and>
     \<not> fl_le F (dp_Amount p) (fl_of_int F 0) \<and> \<not> fl_less F (fl_of_int F 1000000) (dp_Amount p) \<and>
     dp_WeekdayMask p \<noteq> [] \<and> length (dp_WeekdayMask p) \<le> 64 \<and>
     1 \<le> dp_PortfolioID p \<and> dp_PortfolioID p \<le> 1000 \<and> dp_Active p \<in> {0, 1}"

definition plans_inv :: "'f floats \<Rightarrow> ('f, 's) ledger \<Rightarrow> bool" where
  "plans_inv F t \<longleftrightarrow> (\<forall>p \<in> set (lg_plans t). plan_ok F p \<and> 0 < dp_ID p \<and> dp_ID p < lg_next t) \<and>
     distinct (map dp_ID (lg_plans t)) \<and> 0 < lg_next t"

lemma or_default_nonempty: "d \<noteq> [] \<Longrightarrow> or_default s d \<noteq> []"
  by (simp add: or_default_def Let_def)

lemma clampPortfolioID_range: "1 \<le> clampPortfolioID i" "clampPortfolioID i \<le> 1000"
  by (simp_all add: clampPortfolioID_def)

lemma plan_row_ok:
  assumes "plan_row F today now i = Inr p"
  shows "plan_ok F p" "dp_ID p = up_ID i"
proof -
  define mask where "mask = or_default (up_WeekdayMask i) ''1,2,3,4,5''"
  define active where "active = (case up_Active i of None \<Rightarrow> 1 | Some a \<Rightarrow> a)"
  note row = assms [unfolded plan_row_def Let_def, folded mask_def active_def]
  have "mask \<noteq> []" by (simp add: mask_def or_default_nonempty)
  moreover have "TrimSpace (up_FundCode i) \<noteq> []" "length (TrimSpace (up_FundCode i)) \<le> 32" "length mask \<le> 64"
    "\<not> fl_le F (up_Amount i) (fl_of_int F 0)" "\<not> fl_less F (fl_of_int F 1000000) (up_Amount i)" "active = 0 \<or> active = 1"
    using row by (simp_all split: if_splits)
  moreover have "dp_FundCode p = TrimSpace (up_FundCode i)" "dp_WeekdayMask p = mask" "dp_Amount p = up_Amount i"
    "dp_Active p = active" "dp_PortfolioID p = clampPortfolioID (up_PortfolioID i)" and id: "dp_ID p = up_ID i"
    using row by (auto split: if_splits)
  ultimately show "plan_ok F p" by (simp add: plan_ok_def TrimSpace_idem clampPortfolioID_range)
  show "dp_ID p = up_ID i" by (rule id)
qed

lemma plan_ok_frame [simp]:
  "plan_ok F (p\<lparr>dp_CreatedAt := x\<rparr>) = plan_ok F p" "plan_ok F (p\<lparr>dp_ID := n\<rparr>) = plan_ok F p"
  "plan_ok F p \<Longrightarrow> plan_ok F (p\<lparr>dp_Active := 0, dp_UpdatedAt := x\<rparr>)"
  by (simp_all add: plan_ok_def)

lemma plans_inv_update:
  assumes "plans_inv F t" "plan_ok F p"
  shows "plans_inv F (snd (update_plan p t))"
proof -
  have "map dp_ID (update_where (\<lambda>q. dp_ID q = dp_ID p) (\<lambda>q. p\<lparr>dp_CreatedAt := dp_CreatedAt q\<rparr>) (lg_plans t)) =
      map dp_ID (lg_plans t)" by (simp add: update_where_def)
  moreover have "0 < dp_ID q \<and> dp_ID q < lg_next t" if "q \<in> set (lg_plans t)" for q
    using assms(1) that by (auto simp: plans_inv_def)
  ultimately show ?thesis using assms by (fastforce simp: plans_inv_def update_plan_def Let_def set_update_where)
qed

lemma plans_inv_insert: "plans_inv F t \<Longrightarrow> plan_ok F p \<Longrightarrow> plans_inv F (snd (insert_plan p t))"
  by (force simp: plans_inv_def insert_plan_def)

lemma plans_inv_disable:
  assumes "plans_inv F t"
  shows "plans_inv F (t\<lparr>lg_plans := update_where (\<lambda>p. dp_ID p = i)
     (\<lambda>p. p\<lparr>dp_Active := 0, dp_UpdatedAt := now\<rparr>) (lg_plans t)\<rparr>)"
proof -
  have "map dp_ID (update_where (\<lambda>p. dp_ID p = i) (\<lambda>p. p\<lparr>dp_Active := 0, dp_UpdatedAt := now\<rparr>) (lg_plans t)) =
      map dp_ID (lg_plans t)" by (rule map_key_update_where) simp
  with assms show ?thesis by (auto simp: plans_inv_def set_update_where)
qed

lemma keeps_query: "(\<And>t. P t \<Longrightarrow> P (snd (f t))) \<Longrightarrow> keeps (\<lambda>d. P (tables d)) (query f)"
  unfolding query_def by (intro keeps_wrap keeps_stmt)

lemma keeps_getDCAPlanByID: "keeps (\<lambda>d. P (tables d)) (getDCAPlanByID i)"
  unfolding getDCAPlanByID_def by (intro keeps_intros keeps_query) simp_all

text \<open>
  Whatever calls are made, with whatever inputs and failing statements, every stored plan keeps
  a trimmed code of 1 to 32 bytes, an amount that is neither below or at zero nor above 1000000, a
  weekday mask, a portfolio between 1 and 1000 and a switch that is 0 or 1, under an id of its own.
\<close>

theorem plans_stay_valid:
  "keeps (\<lambda>d. plans_inv F (tables d)) (UpsertDCAPlan F today now i) \<and>
   keeps (\<lambda>d. plans_inv F (tables d)) (DisableDCAPlan now k) \<and>
   keeps (\<lambda>d. plans_inv F (tables d)) (ListDCAPlans sort_rows activeOnly pid)"
proof (intro conjI)
  show "keeps (\<lambda>d. plans_inv F (tables d)) (UpsertDCAPlan F today now i)"
  proof (cases "plan_row F today now i")
    case (Inl e)
    then show ?thesis by (simp add: UpsertDCAPlan_def andThen_def check_def keeps_def)
  next
    case (Inr p)
    have "keeps (\<lambda>d. plans_inv F (tables d)) (query (update_plan p))"
      "keeps (\<lambda>d. plans_inv F (tables d)) (query (insert_plan p))"
      by (rule keeps_query, rule plans_inv_update [OF _ plan_row_ok(1) [OF Inr]], assumption,
        rule keeps_query, rule plans_inv_insert [OF _ plan_row_ok(1) [OF Inr]], assumption)
    then have "keeps (\<lambda>d. plans_inv F (tables d)) (if up_ID i > 0
        then andThen (query (update_plan p)) (\<lambda>n. if n = 0 then throw InvalidInput else getDCAPlanByID (up_ID i))
        else andThen (query (insert_plan p)) getDCAPlanByID)"
      by (intro keeps_intros keeps_getDCAPlanByID)
    then show ?thesis by (simp add: UpsertDCAPlan_def Inr andThen_def check_def keeps_def)
  qed
  show "keeps (\<lambda>d. plans_inv F (tables d)) (DisableDCAPlan now k)"
    unfolding DisableDCAPlan_def by (intro keeps_intros keeps_query) (simp add: plans_inv_disable)
  show "keeps (\<lambda>d. plans_inv F (tables d)) (ListDCAPlans sort_rows activeOnly pid)"
    unfolding ListDCAPlans_def by (intro keeps_query) simp
qed

end
