(* ===== verification/DcaRun.thy ===== *)
theory DcaRun
  imports DcaPlans AuthStore
begin

text \<open>
  The materialization of due plans, \<open>src/internal/service/portfolio/dca_run.go\<close>: for every active plan
  the gates - date window, weekday mask, price, earlier order - and then one database transaction
  with the order and its ledger row.

  The transaction works on the tables and is undone by putting the tables back. Two parts are
  arguments: \<open>compute\<close>, the amount of the two computed modes (\<open>dca_compute.go\<close>, float analytics), and
  \<open>recalc\<close>, the recalculation of the snapshot (\<open>snapshot.go\<close>), which works on \<open>lg_rest\<close>.
\<close>

section \<open>Weekday masks\<close>

text \<open>\<open>fmt.Sscanf\<close> with \<open>%d\<close>: spaces are skipped, but a newline is not; \<open>int\<close> has 64 bits.\<close>

definition skip_spaces :: "string \<Rightarrow> string" where
  "skip_spaces s = strip_left (filter (\<lambda>p. p \<noteq> [byte 10]) space_seqs) s"

definition scan_int :: "string \<Rightarrow> (int \<times> string) option" where
  "scan_int s0 =
    (let s = skip_spaces s0; signed = s \<noteq> [] \<and> hd s \<in> {CHR ''+'', CHR ''-''};
         body = (if signed then tl s else s); ds = takeWhile is_digit body;
         n = (if signed \<and> hd s = CHR ''-'' then - int (digits_val ds) else int (digits_val ds))
     in if ds = [] \<or> n < - (2 ^ 63) \<or> n \<ge> 2 ^ 63 then None else Some (n, drop (length ds) body))"

definition scan_range :: "string \<Rightarrow> (int \<times> int) option" where
  "scan_range s = (case scan_int s of None \<Rightarrow> None
     | Some (a, rest) \<Rightarrow> (case rest of [] \<Rightarrow> None
        | c # cs \<Rightarrow> if c \<noteq> CHR ''-'' then None else map_option (\<lambda>(b, _). (a, b)) (scan_int cs)))"

definition mask_part_hit :: "int \<Rightarrow> string \<Rightarrow> bool" where
  "mask_part_hit d p0 =
    (let p = TrimSpace p0 in
     if p = [] then False
     else if Contains p ''-'' then (case scan_range p of None \<Rightarrow> False | Some (a, b) \<Rightarrow> a \<le> d \<and> d \<le> b)
     else (case scan_int p of None \<Rightarrow> False | Some (n, _) \<Rightarrow> n = d))"

definition weekdayMaskHitLocal :: "string \<Rightarrow> int \<Rightarrow> bool" where
  "weekdayMaskHitLocal mask0 d =
    (let mask = TrimSpace mask0 in
     if mask = [] then 1 \<le> d \<and> d \<le> 5 else list_ex (mask_part_hit d) (Split CHR '','' mask))"

definition mask_day :: "int \<Rightarrow> int" where
  "mask_day z = (let d = weekday z in if d = 0 then 7 else d)"

section \<open>Input, items, result\<close>

record 'f RunDCAAutoInvestInput =
  in_AsOf :: string
  in_PortfolioID :: int
  in_PlanID :: int
  in_FundCode :: string
  in_DryRun :: bool
  in_Mode :: string
  in_BaseAmount :: 'f

record 'f DCAExecutionItem =
  it_PlanID :: int
  it_FundCode :: string
  it_FundName :: string
  it_Amount :: 'f
  it_Shares :: "'f option"
  it_NAV :: "'f option"
  it_OrderID :: string
  it_Status :: string
  it_Message :: string
  it_TradeType :: string
  it_PortfolioID :: int
  it_WeekdayMask :: string

record 'f RunDCAAutoInvestResult =
  rr_AsOf :: string
  rr_DryRun :: bool
  rr_Executed :: nat
  rr_Skipped :: nat
  rr_Previewed :: nat
  rr_Items :: "'f DCAExecutionItem list"
  rr_SideEffects :: string

text \<open>What the run reads of its surroundings.\<close>

record ('f, 's) dca_env =
  de_floats :: "'f floats"
  de_dialect :: dialect
  de_today :: string
  de_now :: string
  de_default_type :: string
  de_compute :: "string \<Rightarrow> 'f \<Rightarrow> string \<Rightarrow> int \<Rightarrow> ('f, 's) ledger \<Rightarrow> 'f option"
  de_recalc :: "string \<Rightarrow> int \<Rightarrow> 'f transaction list \<Rightarrow> 's \<Rightarrow> bool \<times> 's"

definition order_id :: "int \<Rightarrow> string \<Rightarrow> string" where
  "order_id plan asOf = ''DCA-'' @ (if plan < 0 then CHR ''-'' # itoa (nat (- plan)) else itoa (nat plan)) @ ''-'' @
     filter (\<lambda>c. c \<noteq> CHR ''-'') asOf"

definition round4 :: "'f floats \<Rightarrow> 'f \<Rightarrow> 'f" where
  "round4 F x = fl_div F (fl_round F (fl_mul F x (fl_of_int F 10000))) (fl_of_int F 10000)"

text \<open>The comparison of texts in Go is by bytes.\<close>

definition text_less :: "string \<Rightarrow> string \<Rightarrow> bool" where
  "text_less a b \<longleftrightarrow> map (of_char :: char \<Rightarrow> nat) a < map of_char b"

section \<open>One plan\<close>

definition new_item :: "string \<Rightarrow> 'f DCAPlan \<Rightarrow> 'f DCAExecutionItem" where
  "new_item asOf p = \<lparr>it_PlanID = dp_ID p, it_FundCode = dp_FundCode p,
     it_FundName = (case dp_FundName p of None \<Rightarrow> [] | Some n \<Rightarrow> n), it_Amount = dp_Amount p, it_Shares = None,
     it_NAV = None, it_OrderID = order_id (dp_ID p) asOf, it_Status = [], it_Message = [], it_TradeType = dp_TradeType p,
     it_PortfolioID = dp_PortfolioID p, it_WeekdayMask = dp_WeekdayMask p\<rparr>"

definition set_status :: "string \<Rightarrow> string \<Rightarrow> 'f DCAExecutionItem \<Rightarrow> 'f DCAExecutionItem" where
  "set_status st msg i = i\<lparr>it_Status := st, it_Message := msg\<rparr>"

definition not_due :: "string \<Rightarrow> int \<Rightarrow> 'f DCAPlan \<Rightarrow> string option" where
  "not_due asOf maskDay p =
    (if dp_StartDate p \<noteq> [] \<and> text_less asOf (take 10 (dp_StartDate p)) then Some ''before start_date''
     else if (case dp_EndDate p of None \<Rightarrow> False | Some e \<Rightarrow> e \<noteq> [] \<and> text_less (take 10 e) asOf) then Some ''after end_date''
     else if \<not> weekdayMaskHitLocal (dp_WeekdayMask p) maskDay
     then Some (Clamp (''weekday '' @ itoa (nat maskDay) @ '' not in mask '' @ dp_WeekdayMask p) 200)
     else None)"

definition plan_amount :: "('f, 's) dca_env \<Rightarrow> 'f RunDCAAutoInvestInput \<Rightarrow> int \<Rightarrow> 'f DCAPlan \<Rightarrow> ('f, 's) ledger \<Rightarrow> 'f" where
  "plan_amount E i pid p t =
    (let F = de_floats E in
     if in_Mode i = ''nav_deviation'' \<or> in_Mode i = ''change_pct'' then
       (let base = (if fl_le F (in_BaseAmount i) (fl_of_int F 0) then dp_Amount p else in_BaseAmount i) in
        case de_compute E (dp_FundCode p) base (in_Mode i) pid t of None \<Rightarrow> dp_Amount p
        | Some a \<Rightarrow> if fl_less F (fl_of_int F 0) a then a else dp_Amount p)
     else dp_Amount p)"

text \<open>The row of the greatest date; a \<open>NULL\<close> price and no row read alike.\<close>

definition latest_nav :: "string \<Rightarrow> ('f, 's) ledger \<Rightarrow> 'f option" where
  "latest_nav code t =
    (case sort_key (\<lambda>(_, date, _). map (of_char :: char \<Rightarrow> nat) date) (filter (\<lambda>(c, _). c = code) (lg_navs t)) of
       [] \<Rightarrow> None | rows \<Rightarrow> snd (snd (last rows)))"

definition has_order :: "string \<Rightarrow> string \<Rightarrow> ('f, 's) ledger \<Rightarrow> bool" where
  "has_order oid code t \<longleftrightarrow> list_ex (\<lambda>r. tx_order r = oid \<and> tx_code r = code) (lg_tx t)"

definition done_status :: "string \<Rightarrow> bool" where
  "done_status s \<longleftrightarrow> s \<in> {''executed'', ''success'', ''ok''}"

definition has_execution :: "int \<Rightarrow> string \<Rightarrow> ('f, 's) ledger \<Rightarrow> bool" where
  "has_execution plan date t \<longleftrightarrow> (case lg_exec t of None \<Rightarrow> False
     | Some es \<Rightarrow> list_ex (\<lambda>e. ex_plan e = plan \<and> ex_date e = date \<and> done_status (ex_status e)) es)"

definition order_row :: "('f, 's) dca_env \<Rightarrow> string \<Rightarrow> 'f \<Rightarrow> 'f \<Rightarrow> 'f DCAPlan \<Rightarrow> 'f transaction" where
  "order_row E asOf amount shares p = (let F = de_floats E in
     \<lparr>tx_order = order_id (dp_ID p) asOf, tx_time = asOf @ ''T09:30:00+08:00'', tx_confirm = asOf,
      tx_type = (if dp_TradeType p = [] then de_default_type E else dp_TradeType p), tx_direction = ''buy'',
      tx_code = dp_FundCode p,
      tx_name = (case dp_FundName p of None \<Rightarrow> dp_FundCode p | Some n \<Rightarrow> if n = [] then dp_FundCode p else n),
      tx_amount = amount, tx_share = shares, tx_fee = fl_of_int F 0, tx_cash = fl_neg F amount,
      tx_share_change = shares, tx_days = 1\<rparr>)"

text \<open>\<open>INSERT ... SELECT ... WHERE NOT EXISTS\<close>: one statement, so it tests and writes at once.\<close>

definition insert_order :: "'f transaction \<Rightarrow> ('f, 's) ledger \<Rightarrow> nat \<times> ('f, 's) ledger" where
  "insert_order r t = (if has_order (tx_order r) (tx_code r) t then (0, t) else (1, t\<lparr>lg_tx := lg_tx t @ [r]\<rparr>))"

definition execution_row :: "('f, 's) dca_env \<Rightarrow> string \<Rightarrow> 'f \<Rightarrow> 'f \<Rightarrow> 'f DCAPlan \<Rightarrow> 'f execution" where
  "execution_row E asOf amount nav p =
     \<lparr>ex_plan = dp_ID p, ex_code = dp_FundCode p, ex_date = asOf, ex_amount = amount, ex_status = ''executed'',
      ex_order = order_id (dp_ID p) asOf, ex_nav_date = asOf, ex_nav = nav, ex_message = None, ex_at = de_now E\<rparr>"

text \<open>
  \<open>recordDCAPlanExecutionTx\<close>: false when the table is missing, an error that the code drops; but
  PostgreSQL then refuses the commit of this transaction.
\<close>

definition recordDCAPlanExecutionTx :: "'f execution \<Rightarrow> ('f, 's) ledger \<Rightarrow> bool \<times> ('f, 's) ledger" where
  "recordDCAPlanExecutionTx e t = (case lg_exec t of None \<Rightarrow> (False, t) | Some es \<Rightarrow> (True, t\<lparr>lg_exec := Some (es @ [e])\<rparr>))"

datatype tx_outcome = Committed | Rolled string string

definition rolled_back :: "('f, 's) ledger \<Rightarrow> string \<Rightarrow> string \<Rightarrow> ('f, 's) ledger db \<Rightarrow> (dca_error + tx_outcome) \<times> ('f, 's) ledger db" where
  "rolled_back t st msg d = (Inr (Rolled st msg), d\<lparr>tables := t\<rparr>)"

text \<open>Begin, insert the claim, read the row count, write the ledger, commit.\<close>

definition materialize :: "('f, 's) dca_env \<Rightarrow> string \<Rightarrow> 'f \<Rightarrow> 'f \<Rightarrow> 'f \<Rightarrow> 'f DCAPlan \<Rightarrow> ('f, 's, tx_outcome) dca_proc" where
  "materialize E asOf amount shares nav p d =
    (let t0 = tables d in
     case stmt (\<lambda>t. ((), t)) d of (Inl _, d) \<Rightarrow> (Inr (Rolled ''error'' ''begin_tx_failed''), d)
     | (Inr _, d) \<Rightarrow>
    (case stmt (insert_order (order_row E asOf amount shares p)) d of
       (Inl _, d) \<Rightarrow> rolled_back t0 ''error'' ''internal_error'' d
     | (Inr affected, d) \<Rightarrow>
    (case stmt (\<lambda>t. ((), t)) d of (Inl _, d) \<Rightarrow> rolled_back t0 ''error'' ''rows_affected_failed'' d
     | (Inr _, d) \<Rightarrow>
        if affected = 0 then rolled_back t0 ''skipped_duplicate'' ''order or execution already exists'' d
        else (case stmt (recordDCAPlanExecutionTx (execution_row E asOf amount nav p)) d of
            (Inl _, d) \<Rightarrow> rolled_back t0 ''error'' ''execution_ledger_failed'' d
          | (Inr written, d) \<Rightarrow>
             (case stmt (\<lambda>t. ((), t)) d of (Inl _, d) \<Rightarrow> rolled_back t0 ''error'' ''commit_failed'' d
              | (Inr _, d) \<Rightarrow>
                 if \<not> written \<and> de_dialect E = Postgres then rolled_back t0 ''error'' ''commit_failed'' d
                 else (Inr Committed, d))))))"

definition run_plan :: "('f, 's) dca_env \<Rightarrow> 'f RunDCAAutoInvestInput \<Rightarrow> int \<Rightarrow> string \<Rightarrow> int \<Rightarrow> 'f DCAPlan
    \<Rightarrow> ('f, 's, 'f DCAExecutionItem) dca_proc" where
  "run_plan E i pid asOf maskDay p d =
    (let F = de_floats E; item = new_item asOf p in
     case not_due asOf maskDay p of Some why \<Rightarrow> (Inr (set_status ''skipped_not_due'' why item), d)
     | None \<Rightarrow>
    (let amount = plan_amount E i pid p (tables d); item = item\<lparr>it_Amount := amount\<rparr> in
     case stmt (\<lambda>t. (latest_nav (dp_FundCode p) t, t)) d of
       (Inl _, d) \<Rightarrow> (Inr (set_status ''error'' ''internal_error'' item), d)
     | (Inr nav, d) \<Rightarrow>
        (case (case nav of None \<Rightarrow> None | Some v \<Rightarrow> if fl_le F v (fl_of_int F 0) then None else Some v) of
           None \<Rightarrow> (Inr (set_status ''skipped_no_nav'' ''latest NAV unavailable'' item), d)
         | Some navVal \<Rightarrow>
            (let shares = round4 F (fl_div F amount navVal);
                 item = item\<lparr>it_NAV := Some navVal, it_Shares := Some shares\<rparr>
             in andThen (query (\<lambda>t. (has_order (it_OrderID item) (dp_FundCode p) t, t))) (\<lambda>dup.
                andThen (if dup then ret True else query (\<lambda>t. (has_execution (dp_ID p) asOf t, t))) (\<lambda>dup d.
                  if dup then (Inr (set_status ''skipped_duplicate'' ''order or execution already exists'' item), d)
                  else if in_DryRun i then (Inr (set_status ''preview'' ''dry_run'' item), d)
                  else (case materialize E asOf amount shares navVal p d of
                      (Inl e, d) \<Rightarrow> (Inl e, d)
                    | (Inr (Rolled st msg), d) \<Rightarrow> (Inr (set_status st msg item), d)
                    | (Inr Committed, d) \<Rightarrow>
                        (case de_recalc E (dp_FundCode p) pid (lg_tx (tables d)) (lg_rest (tables d)) of
                           (ok, rest) \<Rightarrow> (Inr (set_status ''executed'' (if ok then [] else ''snapshot_recalc_failed'') item),
                              d\<lparr>tables := (tables d)\<lparr>lg_rest := rest\<rparr>\<rparr>))))) d))))"

section \<open>The run\<close>

definition add_item :: "'f RunDCAAutoInvestResult \<Rightarrow> 'f DCAExecutionItem \<Rightarrow> 'f RunDCAAutoInvestResult" where
  "add_item r i =
    (let r = r\<lparr>rr_Items := rr_Items r @ [i]\<rparr> in
     if it_Status i = ''executed'' then r\<lparr>rr_Executed := rr_Executed r + 1\<rparr>
     else if it_Status i = ''preview'' then r\<lparr>rr_Previewed := rr_Previewed r + 1\<rparr>
     else r\<lparr>rr_Skipped := rr_Skipped r + 1\<rparr>)"

fun run_plans :: "('f, 's) dca_env \<Rightarrow> 'f RunDCAAutoInvestInput \<Rightarrow> int \<Rightarrow> string \<Rightarrow> int \<Rightarrow> 'f DCAPlan list
    \<Rightarrow> 'f RunDCAAutoInvestResult \<Rightarrow> ('f, 's, 'f RunDCAAutoInvestResult) dca_proc" where
  "run_plans E i pid asOf maskDay [] r = ret r"
| "run_plans E i pid asOf maskDay (p # ps) r =
    andThen (run_plan E i pid asOf maskDay p) (\<lambda>item. run_plans E i pid asOf maskDay ps (add_item r item))"

definition selected :: "'f RunDCAAutoInvestInput \<Rightarrow> int \<Rightarrow> 'f DCAPlan \<Rightarrow> bool" where
  "selected i pid p \<longleftrightarrow> dp_Active p = 1 \<and> dp_PortfolioID p = pid \<and> (in_PlanID i > 0 \<longrightarrow> dp_ID p = in_PlanID i) \<and>
     (TrimSpace (in_FundCode i) \<noteq> [] \<longrightarrow> dp_FundCode p = TrimSpace (in_FundCode i))"

definition due_plans :: "'f RunDCAAutoInvestInput \<Rightarrow> int \<Rightarrow> ('f, 's) ledger \<Rightarrow> 'f DCAPlan list" where
  "due_plans i pid t = take 5000 (sort_key dp_ID (filter (selected i pid) (lg_plans t)))"

definition as_of :: "('f, 's) dca_env \<Rightarrow> 'f RunDCAAutoInvestInput \<Rightarrow> string" where
  "as_of E i = (let s = TrimSpace (in_AsOf i) in take 10 (if s = [] then de_today E else s))"

definition RunDCAAutoInvest :: "('f, 's) dca_env \<Rightarrow> 'f RunDCAAutoInvestInput
    \<Rightarrow> ('f, 's, 'f RunDCAAutoInvestResult) dca_proc" where
  "RunDCAAutoInvest E i =
    (let asOf = as_of E i; pid = clampPortfolioID (in_PortfolioID i) in
     case parse_date asOf of None \<Rightarrow> throw InvalidInput
     | Some z \<Rightarrow>
        andThen (query (\<lambda>t. (due_plans i pid t, t))) (\<lambda>plans.
          run_plans E i pid asOf (mask_day z) plans
            \<lparr>rr_AsOf = asOf, rr_DryRun = in_DryRun i, rr_Executed = 0, rr_Skipped = 0, rr_Previewed = 0, rr_Items = [],
             rr_SideEffects = (if in_DryRun i then ''none'' else ''transaction_write_and_snapshot_recalc'')\<rparr>))"

lemma mask_examples:
  "weekdayMaskHitLocal ''1-5'' 3" "weekdayMaskHitLocal '' 1, 3 ,5'' 3" "\<not> weekdayMaskHitLocal ''1,2'' 3"
  "weekdayMaskHitLocal [] 5" "\<not> weekdayMaskHitLocal [] 6" "\<not> weekdayMaskHitLocal ''-3'' 3" "\<not> weekdayMaskHitLocal ''1 - 5'' 3"
  by code_simp+

end
