(* ===== verification/DcaProps.thy ===== *)
theory DcaProps
  imports DcaRun
begin

text \<open>
  What a run of the plans can do to the ledger: at most one order per plan and day, only for plans
  that are due, and - when no statement fails - one for every plan that is.
\<close>

section \<open>Effect of one plan\<close>

definition add_order :: "'f transaction \<Rightarrow> 'f execution \<Rightarrow> ('f, 's) ledger \<Rightarrow> ('f, 's) ledger" where
  "add_order r e t = t\<lparr>lg_tx := lg_tx t @ [r], lg_exec := map_option (\<lambda>es. es @ [e]) (lg_exec t)\<rparr>"

lemma stmt_same:
  assumes "stmt (\<lambda>t. (f t, t)) d = (x, d')"
  shows "tables d' = tables d" "x = Inr y \<Longrightarrow> y = f (tables d)"
  using assms by (cases x; auto dest: stmt_Inl_tables stmt_Inr_tables)+

lemma materialize_cases:
  assumes "materialize E asOf amount shares nav p d = (res, d')"
  shows "(\<exists>st msg. res = Inr (Rolled st msg) \<and> tables d' = tables d) \<or>
    res = Inr Committed \<and> \<not> has_order (order_id (dp_ID p) asOf) (dp_FundCode p) (tables d) \<and>
    tables d' = add_order (order_row E asOf amount shares p) (execution_row E asOf amount nav p) (tables d)"
proof -
  let ?r = "order_row E asOf amount shares p"
  have row: "tx_order ?r = order_id (dp_ID p) asOf" "tx_code ?r = dp_FundCode p"
    by (simp_all add: order_row_def Let_def)
  obtain x1 d1 where 1: "stmt (\<lambda>t. ((), t)) d = (x1, d1)" by (metis surj_pair)
  obtain x2 d2 where 2: "stmt (insert_order ?r) d1 = (x2, d2)" by (metis surj_pair)
  obtain x3 d3 where 3: "stmt (\<lambda>t. ((), t)) d2 = (x3, d3)" by (metis surj_pair)
  obtain x4 d4 where 4: "stmt (recordDCAPlanExecutionTx (execution_row E asOf amount nav p)) d3 = (x4, d4)"
    by (metis surj_pair)
  obtain x5 d5 where 5: "stmt (\<lambda>t. ((), t)) d4 = (x5, d5)" by (metis surj_pair)
  note same = stmt_same(1) [OF 1] stmt_same(1) [OF 3] stmt_same(1) [OF 5]
  show ?thesis
  proof (cases "\<exists>u v w x. x1 = Inr u \<and> x2 = Inr (Suc v) \<and> x3 = Inr w \<and> x4 = Inr x \<and> (\<exists>y. x5 = Inr y) \<and>
      (x \<or> de_dialect E = Sqlite)")
    case True
    then obtain v x where ok: "x2 = Inr (Suc v)" "x4 = Inr x" "x1 = Inr ()" "x3 = Inr ()" "x5 = Inr ()"
      "x \<or> de_dialect E = Sqlite" by auto
    have i: "insert_order ?r (tables d) = (Suc v, tables d2)"
      using stmt_Inr_tables [OF 2 [unfolded ok]] same by (simp add: prod_eq_iff)
    have e: "recordDCAPlanExecutionTx (execution_row E asOf amount nav p) (tables d2) = (x, tables d4)"
      using stmt_Inr_tables [OF 4 [unfolded ok]] same by (simp add: prod_eq_iff)
    have fresh: "\<not> has_order (order_id (dp_ID p) asOf) (dp_FundCode p) (tables d)"
      and t2: "tables d2 = (tables d)\<lparr>lg_tx := lg_tx (tables d) @ [?r]\<rparr>"
      using i by (auto simp: insert_order_def row split: if_splits)
    have "tables d4 = add_order ?r (execution_row E asOf amount nav p) (tables d)"
    proof -
      have "tables d4 = snd (recordDCAPlanExecutionTx (execution_row E asOf amount nav p)
          ((tables d)\<lparr>lg_tx := lg_tx (tables d) @ [?r]\<rparr>))" using e t2 by (metis snd_conv)
      then show ?thesis
        by (cases "lg_exec (tables d)") (simp_all add: recordDCAPlanExecutionTx_def add_order_def)
    qed
    moreover have "materialize E asOf amount shares nav p d = (Inr Committed, d5)"
      using ok(6) unfolding materialize_def Let_def 1 2 3 4 5 ok(1-5) by (auto simp: 1 2 3 4 5 ok(1-5))
    ultimately show ?thesis using assms fresh same by simp
  next
    case False
    have "\<exists>st msg. res = Inr (Rolled st msg) \<and> tables d' = tables d"
    proof (cases x1)
      case (Inl e)
      with assms same show ?thesis by (auto simp: materialize_def Let_def 1)
    next
      case x1: (Inr u)
      show ?thesis
      proof (cases x2)
        case (Inl e)
        with assms x1 show ?thesis by (auto simp: materialize_def Let_def 1 2 rolled_back_def)
      next
        case x2: (Inr n)
        note start = assms [unfolded materialize_def Let_def rolled_back_def 1 2 3 4 5 x1 x2]
        show ?thesis
        proof (cases n)
          case 0
          with start show ?thesis by (cases x3) (auto simp: 1 2 3 x1 x2)
        next
          case (Suc v)
          with start False x1 x2 show ?thesis
            by (cases x3; cases x4; cases x5; cases "de_dialect E") (auto simp: 1 2 3 4 5 x1 x2 split: if_splits)
        qed
      qed
    qed
    then show ?thesis ..
  qed
qed

text \<open>The gates that a plan passed when its order was placed, and the row that was written.\<close>

definition placed :: "('f, 's) dca_env \<Rightarrow> 'f RunDCAAutoInvestInput \<Rightarrow> int \<Rightarrow> string \<Rightarrow> int \<Rightarrow> 'f DCAPlan
    \<Rightarrow> ('f, 's) ledger \<Rightarrow> 'f transaction \<Rightarrow> bool" where
  "placed E i pid asOf maskDay p t r \<longleftrightarrow> (let F = de_floats E; amount = plan_amount E i pid p t in
     \<not> in_DryRun i \<and> not_due asOf maskDay p = None \<and> \<not> has_order (order_id (dp_ID p) asOf) (dp_FundCode p) t \<and>
     \<not> has_execution (dp_ID p) asOf t \<and>
     (\<exists>nav. latest_nav (dp_FundCode p) t = Some nav \<and> \<not> fl_le F nav (fl_of_int F 0) \<and>
        r = order_row E asOf amount (round4 F (fl_div F amount nav)) p))"

definition same_plans :: "('f, 's) ledger \<Rightarrow> ('f, 's) ledger \<Rightarrow> bool" where
  "same_plans t t' \<longleftrightarrow> lg_plans t' = lg_plans t \<and> lg_next t' = lg_next t \<and> lg_navs t' = lg_navs t"

lemma query_same:
  assumes "query (\<lambda>t. (f t, t)) d = (x, d')"
  shows "tables d' = tables d" "x = Inr y \<Longrightarrow> y = f (tables d)"
proof -
  obtain s where s: "stmt (\<lambda>t. (f t, t)) d = (s, d')" and x: "x = map_sum (\<lambda>_. InternalError) id s"
    using assms by (cases "stmt (\<lambda>t. (f t, t)) d") (auto simp: query_def wrap_def split: sum.splits)
  show "tables d' = tables d" by (rule stmt_same(1) [OF s])
  show "x = Inr y \<Longrightarrow> y = f (tables d)" using stmt_same(2) [OF s] x by (cases s) auto
qed

lemma run_plan_cases:
  assumes "run_plan E i pid asOf maskDay p d = (res, d')"
  shows "tables d' = tables d \<or>
    (\<exists>r e rest. placed E i pid asOf maskDay p (tables d) r \<and> ex_plan e = dp_ID p \<and>
       tables d' = (add_order r e (tables d))\<lparr>lg_rest := rest\<rparr>)"
proof (cases "not_due asOf maskDay p")
  case (Some why)
  with assms show ?thesis by (simp add: run_plan_def Let_def)
next
  case None
  let ?F = "de_floats E" and ?amount = "plan_amount E i pid p (tables d)" and ?oid = "order_id (dp_ID p) asOf"
  obtain x1 d1 where 1: "stmt (\<lambda>t. (latest_nav (dp_FundCode p) t, t)) d = (x1, d1)" by (metis surj_pair)
  note start = assms [unfolded run_plan_def Let_def None 1, simplified]
  show ?thesis
  proof (cases "\<exists>nav. x1 = Inr (Some nav) \<and> \<not> fl_le ?F nav (fl_of_int ?F 0)")
    case False
    with start have "d' = d1" by (auto split: sum.splits option.splits if_splits)
    with stmt_same(1) [OF 1] show ?thesis by simp
  next
    case True
    then obtain nav where nav: "x1 = Inr (Some nav)" "\<not> fl_le ?F nav (fl_of_int ?F 0)" by blast
    have latest: "latest_nav (dp_FundCode p) (tables d) = Some nav" using stmt_same(2) [OF 1 nav(1)] by simp
    obtain x2 d2 where 2: "query (\<lambda>t. (has_order ?oid (dp_FundCode p) t, t)) d1 = (x2, d2)" by (metis surj_pair)
    obtain x3 d3 where 3: "query (\<lambda>t. (has_execution (dp_ID p) asOf t, t)) d2 = (x3, d3)" by (metis surj_pair)
    have same: "tables d1 = tables d" "tables d2 = tables d" "tables d3 = tables d"
      using stmt_same(1) [OF 1] query_same(1) [OF 2] query_same(1) [OF 3] by simp_all
    have oid: "it_OrderID (new_item asOf p) = ?oid" by (simp add: new_item_def)
    show ?thesis
    proof (cases "x2 = Inr False \<and> x3 = Inr False \<and> \<not> in_DryRun i")
      case False
      with start nav same have "tables d' = tables d"
        by (auto simp: andThen_def ret_def 2 3 oid split: sum.splits if_splits bool.splits)
      then show ?thesis ..
    next
      case free: True
      let ?shares = "round4 ?F (fl_div ?F ?amount nav)"
      obtain o' d4 where m: "materialize E asOf ?amount ?shares nav p d3 = (o', d4)" by (metis surj_pair)
      from query_same(2) [OF 3, of False] free same have "\<not> has_execution (dp_ID p) asOf (tables d)" by simp
      with materialize_cases [OF m] same
      have "(\<exists>st msg. o' = Inr (Rolled st msg) \<and> tables d4 = tables d) \<or> o' = Inr Committed \<and>
          placed E i pid asOf maskDay p (tables d) (order_row E asOf ?amount ?shares p) \<and>
          tables d4 = add_order (order_row E asOf ?amount ?shares p) (execution_row E asOf ?amount nav p) (tables d)"
        using None free latest nav(2) by (auto simp: placed_def Let_def)
      then show ?thesis
      proof (elim disjE exE conjE)
        fix st msg assume "o' = Inr (Rolled st msg)" "tables d4 = tables d"
        with start nav free m have "tables d' = tables d"
          by (auto simp: andThen_def ret_def 2 3 oid split: prod.splits)
        then show ?thesis ..
      next
        assume o': "o' = Inr Committed"
          and p: "placed E i pid asOf maskDay p (tables d) (order_row E asOf ?amount ?shares p)"
          and t: "tables d4 = add_order (order_row E asOf ?amount ?shares p) (execution_row E asOf ?amount nav p) (tables d)"
        from start nav free m o' have "\<exists>rest. tables d' = (tables d4)\<lparr>lg_rest := rest\<rparr>"
          by (auto simp: andThen_def ret_def 2 3 oid split: prod.splits)
        then obtain rest where "tables d' = (tables d4)\<lparr>lg_rest := rest\<rparr>" ..
        with t have "tables d' = (add_order (order_row E asOf ?amount ?shares p)
            (execution_row E asOf ?amount nav p) (tables d))\<lparr>lg_rest := rest\<rparr>" by simp
        moreover have "ex_plan (execution_row E asOf ?amount nav p) = dp_ID p" by (simp add: execution_row_def)
        ultimately show ?thesis using p by blast
      qed
    qed
  qed
qed

section \<open>Effect of a run\<close>

text \<open>A run is a sequence of placed orders, with changes of \<open>lg_rest\<close> in between.\<close>

inductive orders_placed :: "('f, 's) dca_env \<Rightarrow> 'f RunDCAAutoInvestInput \<Rightarrow> int \<Rightarrow> string \<Rightarrow> int \<Rightarrow> 'f DCAPlan set
    \<Rightarrow> ('f, 's) ledger \<Rightarrow> ('f, 's) ledger \<Rightarrow> bool" for E i pid asOf maskDay P where
  none_placed: "orders_placed E i pid asOf maskDay P t t"
| one_placed: "orders_placed E i pid asOf maskDay P t t1 \<Longrightarrow> p \<in> P \<Longrightarrow> placed E i pid asOf maskDay p t1 r \<Longrightarrow>
    ex_plan e = dp_ID p \<Longrightarrow> orders_placed E i pid asOf maskDay P t ((add_order r e t1)\<lparr>lg_rest := rest\<rparr>)"

lemma orders_placed_trans:
  assumes "orders_placed E i pid asOf maskDay P t1 t2" "orders_placed E i pid asOf maskDay P t t1"
  shows "orders_placed E i pid asOf maskDay P t t2"
  using assms by (induction) (auto intro: one_placed)

lemma run_plans_cases:
  assumes "run_plans E i pid asOf maskDay ps r d = (res, d')" "set ps \<subseteq> P"
  shows "orders_placed E i pid asOf maskDay P (tables d) (tables d')"
  using assms
proof (induction ps arbitrary: r d)
  case Nil
  then show ?case by (auto simp: ret_def intro: none_placed)
next
  case (Cons p ps)
  obtain x d1 where 1: "run_plan E i pid asOf maskDay p d = (x, d1)" by (metis surj_pair)
  have first: "orders_placed E i pid asOf maskDay P (tables d) (tables d1)"
    using run_plan_cases [OF 1] Cons.prems(2) one_placed [OF none_placed] none_placed by auto
  show ?case
  proof (cases x)
    case (Inl e)
    with Cons.prems 1 first show ?thesis by (auto simp: andThen_def)
  next
    case (Inr item)
    with Cons.prems 1 have "run_plans E i pid asOf maskDay ps (add_item r item) d1 = (res, d')"
      by (simp add: andThen_def)
    from Cons.IH [OF this] Cons.prems(2) first show ?thesis by (auto intro: orders_placed_trans)
  qed
qed

lemma Run_cases:
  assumes "RunDCAAutoInvest E i d = (res, d')"
  shows "tables d' = tables d \<or> (\<exists>z. parse_date (as_of E i) = Some z \<and>
    orders_placed E i (clampPortfolioID (in_PortfolioID i)) (as_of E i) (mask_day z)
      (set (due_plans i (clampPortfolioID (in_PortfolioID i)) (tables d))) (tables d) (tables d'))"
proof (cases "parse_date (as_of E i)")
  case None
  with assms show ?thesis by (simp add: RunDCAAutoInvest_def Let_def throw_def)
next
  case (Some z)
  let ?pid = "clampPortfolioID (in_PortfolioID i)"
  obtain x d1 where 1: "query (\<lambda>t. (due_plans i ?pid t, t)) d = (x, d1)" by (metis surj_pair)
  have same: "tables d1 = tables d" using query_same(1) [OF 1] .
  show ?thesis
  proof (cases x)
    case (Inl e)
    with assms Some 1 same show ?thesis by (simp add: RunDCAAutoInvest_def Let_def andThen_def)
  next
    case (Inr ps)
    then have ps: "ps = due_plans i ?pid (tables d)" using query_same(2) [OF 1] by simp
    from assms Some 1 Inr obtain r where "run_plans E i ?pid (as_of E i) (mask_day z) ps r d1 = (res, d')"
      by (auto simp: RunDCAAutoInvest_def Let_def andThen_def)
    from run_plans_cases [OF this] ps same Some show ?thesis by auto
  qed
qed

definition orders :: "string \<Rightarrow> string \<Rightarrow> ('f, 's) ledger \<Rightarrow> nat" where
  "orders oid code t = length (filter (\<lambda>r. tx_order r = oid \<and> tx_code r = code) (lg_tx t))"

lemma order_row_key [simp]:
  "tx_order (order_row E asOf a s p) = order_id (dp_ID p) asOf" "tx_code (order_row E asOf a s p) = dp_FundCode p"
  by (simp_all add: order_row_def Let_def)

lemma placed_once:
  assumes "placed E i pid asOf maskDay p t r"
  shows "orders oid code ((add_order r e t)\<lparr>lg_rest := rest\<rparr>) \<le> max 1 (orders oid code t)"
proof -
  from assms have "\<not> has_order (tx_order r) (tx_code r) t" by (auto simp: placed_def Let_def)
  then have "orders (tx_order r) (tx_code r) t = 0"
    by (auto simp: orders_def has_order_def list_ex_iff filter_empty_conv)
  then show ?thesis by (auto simp: orders_def add_order_def)
qed

lemma orders_placed_once:
  assumes "orders_placed E i pid asOf maskDay P t t'"
  shows "prefix (lg_tx t) (lg_tx t') \<and> orders oid code t' \<le> max 1 (orders oid code t)"
  using assms
proof induction
  case (one_placed t t1 p r e rest)
  with placed_once [of E i pid asOf maskDay p t1 r oid code rest e] show ?case by (auto simp: add_order_def)
qed simp

section \<open>At most one order per plan and day\<close>

datatype ('f, 's) dca_call = CallRun "('f, 's) dca_env" "'f RunDCAAutoInvestInput"
  | CallUpsert "'f floats" string string "'f UpsertDCAPlanInput" | CallDisable string int

fun do_call :: "('f, 's) dca_call \<Rightarrow> ('f, 's) ledger db \<Rightarrow> ('f, 's) ledger db" where
  "do_call (CallRun E i) d = snd (RunDCAAutoInvest E i d)"
| "do_call (CallUpsert F today now i) d = snd (UpsertDCAPlan F today now i d)"
| "do_call (CallDisable now k) d = snd (DisableDCAPlan now k d)"

definition dca_calls :: "('f, 's) dca_call list \<Rightarrow> ('f, 's) ledger db \<Rightarrow> ('f, 's) ledger db" where
  "dca_calls cs d = foldl (\<lambda>d c. do_call c d) d cs"

lemma keeps_tx_upsert: "keeps (\<lambda>d. lg_tx (tables d) = x) (UpsertDCAPlan F today now i)"
  unfolding UpsertDCAPlan_def
  by (intro keeps_intros keeps_query keeps_getDCAPlanByID) (simp_all add: update_plan_def insert_plan_def Let_def)

lemma keeps_tx_disable: "keeps (\<lambda>d. lg_tx (tables d) = x) (DisableDCAPlan now k)"
  unfolding DisableDCAPlan_def by (intro keeps_intros keeps_query) simp

lemma dca_call_once:
  "prefix (lg_tx (tables d)) (lg_tx (tables (do_call c d))) \<and>
   orders oid code (tables (do_call c d)) \<le> max 1 (orders oid code (tables d))"
proof (cases c)
  case (CallRun E i)
  obtain res d' where r: "RunDCAAutoInvest E i d = (res, d')" by (metis surj_pair)
  from Run_cases [OF r] show ?thesis using orders_placed_once [of E i _ _ _ _ "tables d" "tables d'" oid code]
    by (auto simp: CallRun r)
next
  case (CallUpsert F today now i)
  have "lg_tx (tables (do_call c d)) = lg_tx (tables d)"
    using keepsD [OF keeps_tx_upsert refl surjective_pairing] by (simp add: CallUpsert)
  then show ?thesis by (simp add: orders_def)
next
  case (CallDisable now k)
  have "lg_tx (tables (do_call c d)) = lg_tx (tables d)"
    using keepsD [OF keeps_tx_disable refl surjective_pairing] by (simp add: CallDisable)
  then show ?thesis by (simp add: orders_def)
qed


section \<open>Only orders that are due\<close>

lemma placed_frame:
  assumes "orders_placed E i pid asOf maskDay P t t'"
  shows "lg_navs t' = lg_navs t \<and> (has_order oid code t \<longrightarrow> has_order oid code t') \<and>
    (has_execution plan date t \<longrightarrow> has_execution plan date t') \<and> (lg_exec t' = None \<longleftrightarrow> lg_exec t = None)"
  using assms
proof induction
  case (one_placed t t1 p r e rest)
  then show ?case by (auto simp: add_order_def has_order_def has_execution_def split: option.splits)
qed simp

lemma latest_nav_cong: "lg_navs t' = lg_navs t \<Longrightarrow> latest_nav code t' = latest_nav code t"
  by (simp add: latest_nav_def)

definition due_order :: "('f, 's) dca_env \<Rightarrow> 'f RunDCAAutoInvestInput \<Rightarrow> int \<Rightarrow> 'f DCAPlan \<Rightarrow> ('f, 's) ledger
    \<Rightarrow> 'f transaction \<Rightarrow> bool" where
  "due_order E i z p t r \<longleftrightarrow>
     (let F = de_floats E; pid = clampPortfolioID (in_PortfolioID i) in
      \<not> in_DryRun i \<and> p \<in> set (lg_plans t) \<and> selected i pid p \<and> not_due (as_of E i) (mask_day z) p = None \<and>
      \<not> has_order (order_id (dp_ID p) (as_of E i)) (dp_FundCode p) t \<and> \<not> has_execution (dp_ID p) (as_of E i) t \<and>
      (\<exists>nav t'. latest_nav (dp_FundCode p) t = Some nav \<and> \<not> fl_le F nav (fl_of_int F 0) \<and>
         r = order_row E (as_of E i) (plan_amount E i pid p t')
           (round4 F (fl_div F (plan_amount E i pid p t') nav)) p))"

lemma orders_placed_due:
  assumes "orders_placed E i pid asOf maskDay P t t'"
  shows "\<forall>r \<in> set (lg_tx t'). r \<in> set (lg_tx t) \<or> (\<exists>p t1. p \<in> P \<and> placed E i pid asOf maskDay p t1 r \<and>
     orders_placed E i pid asOf maskDay P t t1)"
  using assms
proof induction
  case (one_placed t t1 p r e rest)
  then show ?case by (auto simp: add_order_def)
qed simp

lemma run_orders_due:
  assumes "RunDCAAutoInvest E i d = (res, d')" "r \<in> set (lg_tx (tables d'))"
  shows "r \<in> set (lg_tx (tables d)) \<or>
    (\<exists>z p. parse_date (as_of E i) = Some z \<and> due_order E i z p (tables d) r)"
proof (cases "r \<in> set (lg_tx (tables d))")
  case False
  let ?pid = "clampPortfolioID (in_PortfolioID i)"
  from Run_cases [OF assms(1)] False assms(2) obtain z where z: "parse_date (as_of E i) = Some z"
    "orders_placed E i ?pid (as_of E i) (mask_day z) (set (due_plans i ?pid (tables d))) (tables d) (tables d')"
    by auto
  from orders_placed_due [OF z(2)] assms(2) False obtain p t1 where p: "p \<in> set (due_plans i ?pid (tables d))"
    "placed E i ?pid (as_of E i) (mask_day z) p t1 r"
    "orders_placed E i ?pid (as_of E i) (mask_day z) (set (due_plans i ?pid (tables d))) (tables d) t1" by blast
  have "p \<in> set (lg_plans (tables d)) \<and> selected i ?pid p" using p(1) by (auto simp: due_plans_def dest: in_set_takeD)
  with p(2) placed_frame [OF p(3)] latest_nav_cong [of t1 "tables d"]
  have "due_order E i z p (tables d) r" unfolding due_order_def placed_def Let_def by auto
  with z(1) show ?thesis by blast
qed simp

text \<open>
  Every order of a run is due: a new transaction belongs to an active plan of the portfolio (and
  of the filters), the day parses, lies in the plan's dates and hits its weekday mask, the fund has
  a price that is not below or at zero, neither an order nor an execution of this plan and day was
  there before, and the row is the plan's amount and the shares rounded to four places. A dry run
  writes nothing.
\<close>

theorem dca_orders_due:
  assumes "RunDCAAutoInvest E i d = (res, d')" "r \<in> set (lg_tx (tables d'))"
  shows "r \<in> set (lg_tx (tables d)) \<or>
    (\<exists>z p. parse_date (as_of E i) = Some z \<and> due_order E i z p (tables d) r)"
  using assms by (rule run_orders_due)

section \<open>Every due plan gets its order\<close>

lemma stmt_clean: "faults d = [] \<Longrightarrow> stmt f d = (Inr (fst (f (tables d))), d\<lparr>tables := snd (f (tables d))\<rparr>)"
  by (simp add: stmt_ok)

lemma query_clean: "faults d = [] \<Longrightarrow> query f d = (Inr (fst (f (tables d))), d\<lparr>tables := snd (f (tables d))\<rparr>)"
  by (simp add: query_def wrap_def stmt_clean)

lemma materialize_clean:
  assumes "faults d = []" "\<not> has_order (order_id (dp_ID p) asOf) (dp_FundCode p) (tables d)"
    and "de_dialect E = Sqlite \<or> lg_exec (tables d) \<noteq> None"
  shows "materialize E asOf amount shares nav p d = (Inr Committed, d\<lparr>tables :=
     add_order (order_row E asOf amount shares p) (execution_row E asOf amount nav p) (tables d)\<rparr>)"
  using assms by (cases "lg_exec (tables d)")
    (auto simp: materialize_def Let_def stmt_clean insert_order_def recordDCAPlanExecutionTx_def add_order_def)

text \<open>The plan has its order, or an execution from before, after its turn.\<close>

definition served :: "string \<Rightarrow> 'f DCAPlan \<Rightarrow> ('f, 's) ledger \<Rightarrow> bool" where
  "served asOf p t \<longleftrightarrow> has_order (order_id (dp_ID p) asOf) (dp_FundCode p) t \<or> has_execution (dp_ID p) asOf t"

definition can_commit :: "('f, 's) dca_env \<Rightarrow> ('f, 's) ledger \<Rightarrow> bool" where
  "can_commit E t \<longleftrightarrow> de_dialect E = Sqlite \<or> lg_exec t \<noteq> None"

definition priced :: "('f, 's) dca_env \<Rightarrow> 'f DCAPlan \<Rightarrow> ('f, 's) ledger \<Rightarrow> bool" where
  "priced E p t \<longleftrightarrow> (\<exists>nav. latest_nav (dp_FundCode p) t = Some nav \<and> \<not> fl_le (de_floats E) nav (fl_of_int (de_floats E) 0))"

lemma run_plan_clean:
  assumes "faults d = []" "can_commit E (tables d)" "\<not> in_DryRun i"
  shows "\<exists>item d'. run_plan E i pid asOf maskDay p d = (Inr item, d') \<and> faults d' = [] \<and>
    (not_due asOf maskDay p = None \<longrightarrow> priced E p (tables d) \<longrightarrow> served asOf p (tables d'))"
proof (cases "not_due asOf maskDay p = None \<and> priced E p (tables d)")
  case False
  show ?thesis
  proof (cases "not_due asOf maskDay p")
    case None
    with False have "(case latest_nav (dp_FundCode p) (tables d) of None \<Rightarrow> None
        | Some v \<Rightarrow> if fl_le (de_floats E) v (fl_of_int (de_floats E) 0) then None else Some v) = None"
      by (auto simp: priced_def split: option.split)
    with None False assms(1) show ?thesis by (simp add: run_plan_def Let_def stmt_clean)
  qed (use assms(1) in \<open>simp add: run_plan_def Let_def\<close>)
next
  case True
  then obtain nav where nav: "latest_nav (dp_FundCode p) (tables d) = Some nav"
    "\<not> fl_le (de_floats E) nav (fl_of_int (de_floats E) 0)" by (auto simp: priced_def)
  have oid: "it_OrderID (new_item asOf p) = order_id (dp_ID p) asOf" by (simp add: new_item_def)
  note start = run_plan_def [of E i pid asOf maskDay p d] Let_def True stmt_clean [OF assms(1)] nav oid
  show ?thesis
  proof (cases "served asOf p (tables d)")
    case s: True
    with assms(1) True nav show ?thesis
      by (cases "has_order (order_id (dp_ID p) asOf) (dp_FundCode p) (tables d)")
        (simp_all add: start andThen_def ret_def query_clean served_def)
  next
    case False
    then have fresh: "\<not> has_order (order_id (dp_ID p) asOf) (dp_FundCode p) (tables d)"
      "\<not> has_execution (dp_ID p) asOf (tables d)" by (simp_all add: served_def)
    have "has_order (order_id (dp_ID p) asOf) (dp_FundCode p)
        ((add_order (order_row E asOf a s p) e (tables d))\<lparr>lg_rest := x\<rparr>)" for a s e x
      by (simp add: has_order_def add_order_def)
    with assms True nav fresh show ?thesis
      by (simp add: start andThen_def ret_def query_clean materialize_clean can_commit_def served_def split: prod.split)
  qed
qed

lemma served_placed: "orders_placed E i pid asOf maskDay P t t' \<Longrightarrow> served date p t \<Longrightarrow> served date p t'"
  unfolding served_def using placed_frame by blast

lemma run_plans_clean:
  assumes "faults d = []" "can_commit E (tables d)" "\<not> in_DryRun i" "set ps \<subseteq> P"
  shows "\<exists>r' d'. run_plans E i pid asOf maskDay ps r d = (Inr r', d') \<and> faults d' = [] \<and>
    (\<forall>p \<in> set ps. not_due asOf maskDay p = None \<longrightarrow> priced E p (tables d) \<longrightarrow> served asOf p (tables d'))"
  using assms
proof (induction ps arbitrary: r d)
  case (Cons p ps)
  from run_plan_clean [OF Cons.prems(1-3)] obtain item d1 where 1: "run_plan E i pid asOf maskDay p d = (Inr item, d1)"
    "faults d1 = []" "not_due asOf maskDay p = None \<Longrightarrow> priced E p (tables d) \<Longrightarrow> served asOf p (tables d1)" by blast
  have step: "orders_placed E i pid asOf maskDay P (tables d) (tables d1)"
    using run_plan_cases [OF 1(1)] Cons.prems(4) one_placed [OF none_placed] none_placed by auto
  have same: "can_commit E (tables d1)" "priced E q (tables d1) = priced E q (tables d)" for q
    using placed_frame [OF step] Cons.prems(2) latest_nav_cong [of "tables d1" "tables d"]
    by (auto simp: can_commit_def priced_def)
  from Cons.prems(4) have "set ps \<subseteq> P" by simp
  from Cons.IH [OF 1(2) same(1) Cons.prems(3) this, of "add_item r item"] obtain r' d' where
    rest: "run_plans E i pid asOf maskDay ps (add_item r item) d1 = (Inr r', d')" "faults d' = []"
    "\<forall>q \<in> set ps. not_due asOf maskDay q = None \<longrightarrow> priced E q (tables d) \<longrightarrow> served asOf q (tables d')"
    unfolding same(2) by blast
  have "orders_placed E i pid asOf maskDay P (tables d1) (tables d')"
    using run_plans_cases [OF rest(1)] Cons.prems(4) by simp
  with 1 rest show ?case by (auto simp: andThen_def dest: served_placed)
qed (simp add: ret_def)

lemma run_serves:
  assumes "parse_date (as_of E i) = Some z" "faults d = []" "can_commit E (tables d)" "\<not> in_DryRun i"
  shows "\<exists>r d'. RunDCAAutoInvest E i d = (Inr r, d') \<and> faults d' = [] \<and>
    (\<forall>p \<in> set (due_plans i (clampPortfolioID (in_PortfolioID i)) (tables d)).
       not_due (as_of E i) (mask_day z) p = None \<longrightarrow> priced E p (tables d) \<longrightarrow> served (as_of E i) p (tables d'))"
proof -
  let ?pid = "clampPortfolioID (in_PortfolioID i)" and ?ps = "due_plans i (clampPortfolioID (in_PortfolioID i)) (tables d)"
  let ?r = "\<lparr>rr_AsOf = as_of E i, rr_DryRun = in_DryRun i, rr_Executed = 0, rr_Skipped = 0, rr_Previewed = 0, rr_Items = [],
     rr_SideEffects = (if in_DryRun i then ''none'' else ''transaction_write_and_snapshot_recalc'')\<rparr>"
  from run_plans_clean [where ps = ?ps and pid = ?pid and asOf = "as_of E i" and maskDay = "mask_day z" and r = ?r,
      OF assms(2-4) subset_refl]
  show ?thesis using assms(1,2) by (simp add: RunDCAAutoInvest_def Let_def andThen_def query_clean)
qed

text \<open>
  No due plan is left out: if the statements of a run succeed, the run returns, and afterwards
  every active plan of the portfolio that is due on the day and has a price has its order, or had an
  execution recorded for the day.
\<close>

theorem dca_due_served:
  assumes "parse_date (as_of E i) = Some z" "faults d = []" "can_commit E (tables d)" "\<not> in_DryRun i"
  shows "\<exists>r d'. RunDCAAutoInvest E i d = (Inr r, d') \<and> faults d' = [] \<and>
    (\<forall>p \<in> set (due_plans i (clampPortfolioID (in_PortfolioID i)) (tables d)).
       not_due (as_of E i) (mask_day z) p = None \<longrightarrow> priced E p (tables d) \<longrightarrow> served (as_of E i) p (tables d'))"
  using assms by (rule run_serves)

section \<open>A run on a small ledger\<close>

definition sample_floats :: "int floats" where
  "sample_floats = \<lparr>fl_of_int = (\<lambda>n. n), fl_le = (\<le>), fl_less = (<), fl_mul = (*), fl_div = (div),
     fl_neg = uminus, fl_round = (\<lambda>n. n)\<rparr>"

definition sample_env :: "(int, unit) dca_env" where
  "sample_env = \<lparr>de_floats = sample_floats, de_dialect = Postgres, de_today = ''2024-01-03'', de_now = ''now'',
     de_default_type = ''auto'', de_compute = (\<lambda>_ _ _ _ _. None), de_recalc = (\<lambda>_ _ _ u. (True, u))\<rparr>"

definition sample_plan :: "int DCAPlan" where
  "sample_plan = \<lparr>dp_ID = 7, dp_FundCode = ''110022'', dp_FundName = None, dp_Amount = 300, dp_Frequency = ''weekday'',
     dp_WeekdayMask = ''1-5'', dp_TradeType = ''auto'', dp_PortfolioID = 1, dp_StartDate = ''2024-01-01'',
     dp_EndDate = None, dp_Active = 1, dp_Source = ''mcp'', dp_CreatedAt = ''now'', dp_UpdatedAt = ''now''\<rparr>"

definition sample_input :: "int RunDCAAutoInvestInput" where
  "sample_input = \<lparr>in_AsOf = ''2024-01-03'', in_PortfolioID = 0, in_PlanID = 0, in_FundCode = [], in_DryRun = False,
     in_Mode = [], in_BaseAmount = 0\<rparr>"

definition sample_ledger :: "(int, unit) ledger" where
  "sample_ledger = \<lparr>lg_plans = [sample_plan], lg_next = 8, lg_navs = [(''110022'', ''2024-01-02'', Some 3)], lg_tx = [],
     lg_exec = Some [], lg_rest = ()\<rparr>"

lemma sample_run:
  "map tx_order (lg_tx (tables (snd (RunDCAAutoInvest sample_env sample_input \<lparr>tables = sample_ledger, faults = []\<rparr>)))) =
     [''DCA-7-20240103'']"
  by code_simp

theorem dca_orders_due_witness:
  "\<exists>r z p. r \<in> set (lg_tx (tables (snd (RunDCAAutoInvest sample_env sample_input \<lparr>tables = sample_ledger, faults = []\<rparr>)))) \<and>
     parse_date ''2024-01-03'' = Some z \<and> due_order sample_env sample_input z p sample_ledger r"
proof -
  let ?d = "\<lparr>tables = sample_ledger, faults = []\<rparr>"
  from sample_run obtain r where r: "r \<in> set (lg_tx (tables (snd (RunDCAAutoInvest sample_env sample_input ?d))))" by fastforce
  have "as_of sample_env sample_input = ''2024-01-03''" by code_simp
  moreover have "r \<notin> set (lg_tx (tables ?d))" by (simp add: sample_ledger_def)
  ultimately show ?thesis using dca_orders_due [OF surjective_pairing r] r by auto
qed

theorem dca_due_served_witness:
  "served ''2024-01-03'' sample_plan
     (tables (snd (RunDCAAutoInvest sample_env sample_input \<lparr>tables = sample_ledger, faults = []\<rparr>)))"
proof -
  let ?d = "\<lparr>tables = sample_ledger, faults = []\<rparr>"
  have date: "as_of sample_env sample_input = ''2024-01-03''" by code_simp
  obtain z where z: "parse_date ''2024-01-03'' = Some z" "not_due ''2024-01-03'' (mask_day z) sample_plan = None"
    by (rule that [where z = "the (parse_date ''2024-01-03'')"]) code_simp+
  have "due_plans sample_input (clampPortfolioID (in_PortfolioID sample_input)) sample_ledger = [sample_plan]"
    "latest_nav (dp_FundCode sample_plan) sample_ledger = Some 3" by code_simp+
  moreover have "can_commit sample_env sample_ledger" "\<not> fl_le (de_floats sample_env) 3 (fl_of_int (de_floats sample_env) 0)"
    "\<not> in_DryRun sample_input"
    by (simp_all add: can_commit_def sample_ledger_def sample_env_def sample_floats_def sample_input_def)
  ultimately show ?thesis using dca_due_served [of sample_env sample_input z ?d] date z by (auto simp: priced_def)
qed

end
