(* ===== verification/Schedule.thy ===== *)
theory Schedule
  imports DcaProps AgentOps AuthService
begin

text \<open>
  The clock and the claims of the background scheduler, \<open>src/internal/jobs/scheduler.go\<close> and
  \<open>src/internal/chinatime/chinatime.go\<close>: the calendar of UTC+8, the next window of a job, and the
  claim of a window, first in memory and then in the job's row of \<open>crawl_log\<close>.
\<close>

section \<open>The calendar of the fund market\<close>

text \<open>\<open>Asia/Shanghai\<close> is UTC+8 without summer time for every date since 1992.\<close>

definition china :: "time \<Rightarrow> time" where "china t = t + 8 * Hour"

definition china_day :: "time \<Rightarrow> int" where "china_day t = day_of (china t)"

definition china_hour :: "time \<Rightarrow> int" where "china_hour t = china t div Hour mod 24"

definition china_at :: "int \<Rightarrow> int \<Rightarrow> time" where "china_at z hour = z * (24 * Hour) + hour * Hour - 8 * Hour"

text \<open>\<open>target\<close> of \<open>nextRunEpoch\<close>; the weekday is \<open>None\<close> where the code passes -1.\<close>

definition next_target :: "time \<Rightarrow> int \<Rightarrow> int option \<Rightarrow> time" where
  "next_target now hour dow =
    (let z = china_day now;
         z = (case dow of None \<Rightarrow> z | Some d \<Rightarrow> z + (d - weekday z + 7) mod 7)
     in if china_at z hour \<le> now then china_at (z + (case dow of None \<Rightarrow> 1 | Some _ \<Rightarrow> 7)) hour
        else china_at z hour)"

definition nextRunEpoch :: "string \<Rightarrow> time \<Rightarrow> int" where
  "nextRunEpoch job now =
    (if job = ''holdings'' then unix (next_target now 10 (Some 6))
     else if job = ''price_dca'' then unix (next_target now 20 None)
     else if job = ''wal'' then unix (next_target now 3 None)
     else 0)"

section \<open>Claims\<close>

record crawl_row =
  cw_code :: string
  cw_source :: string
  cw_rows :: int
  cw_latest :: "string option"
  cw_status :: string
  cw_at :: string

text \<open>
  The tables a job reaches: the claims, the ledger of the plans, sessions and authentication events,
  confirmations and audit events. A table that old databases lack is an \<open>option\<close>.
\<close>

record ('f, 's) sched_tables =
  st_crawl :: "crawl_row list option"
  st_ledger :: "('f, 's) ledger"
  st_auth :: auth_tables
  st_conf :: "(int \<times> ConfRecord) list option"
  st_audit :: "(int \<times> audit_row) list option"

type_synonym ('f, 's, 'a) sched_sql = "('f, 's) sched_tables db \<Rightarrow> 'a \<times> ('f, 's) sched_tables db"

definition schedulerClaimCode :: "string \<Rightarrow> string" where
  "schedulerClaimCode job = ''__sched_'' @ job"

datatype claim_state = NoTable | NoRow | NullDate | Found string

definition read_claim :: "string \<Rightarrow> ('f, 's) sched_tables \<Rightarrow> claim_state" where
  "read_claim code t = (case st_crawl t of None \<Rightarrow> NoTable
     | Some rows \<Rightarrow> (case select1 (\<lambda>r. cw_code r = code) rows of None \<Rightarrow> NoRow
        | Some r \<Rightarrow> (case cw_latest r of None \<Rightarrow> NullDate | Some w \<Rightarrow> Found w)))"

datatype insert_answer = Inserted | KeyTaken | TableMissing

text \<open>\<open>fund_code\<close> is the primary key.\<close>

definition insert_claim :: "string \<Rightarrow> string \<Rightarrow> string \<Rightarrow> ('f, 's) sched_tables \<Rightarrow> insert_answer \<times> ('f, 's) sched_tables" where
  "insert_claim job windowID at t = (let code = schedulerClaimCode job in case st_crawl t of None \<Rightarrow> (TableMissing, t)
     | Some rows \<Rightarrow> if list_ex (\<lambda>r. cw_code r = code) rows then (KeyTaken, t)
         else (Inserted, t\<lparr>st_crawl := Some (rows @ [\<lparr>cw_code = code, cw_source = job, cw_rows = 0,
            cw_latest = Some windowID, cw_status = ''ok'', cw_at = at\<rparr>])\<rparr>))"

definition advance_claim :: "string \<Rightarrow> string \<Rightarrow> string \<Rightarrow> ('f, 's) sched_tables \<Rightarrow> bool \<times> ('f, 's) sched_tables" where
  "advance_claim job windowID at t = (case st_crawl t of None \<Rightarrow> (False, t)
     | Some rows \<Rightarrow> (True, t\<lparr>st_crawl := Some (update_where (\<lambda>r. cw_code r = schedulerClaimCode job)
          (\<lambda>r. r\<lparr>cw_source := job, cw_rows := 0, cw_latest := Some windowID, cw_status := ''ok'', cw_at := at\<rparr>) rows)\<rparr>))"

text \<open>The part after the lookup; \<open>found\<close> is its answer.\<close>

definition claim_write :: "string \<Rightarrow> string \<Rightarrow> string \<Rightarrow> claim_state \<Rightarrow> ('f, 's, bool) sched_sql" where
  "claim_write job windowID at found d = (case found of
     NoRow \<Rightarrow> (case stmt (insert_claim job windowID at) d of
         (Inr Inserted, d) \<Rightarrow> (True, d)
       | (Inr TableMissing, d) \<Rightarrow> (True, d)
       | (_, d) \<Rightarrow> (False, snd (stmt (\<lambda>t. (read_claim (schedulerClaimCode job) t, t)) d)))
   | NoTable \<Rightarrow> (True, d)
   | NullDate \<Rightarrow> (False, d)
   | Found existing \<Rightarrow> if existing = windowID then (False, d)
       else (case stmt (advance_claim job windowID at) d of (Inr ok, d) \<Rightarrow> (ok, d) | (Inl _, d) \<Rightarrow> (False, d)))"

definition claimWindowDurable :: "string \<Rightarrow> string \<Rightarrow> string \<Rightarrow> ('f, 's, bool) sched_sql" where
  "claimWindowDurable job windowID at d =
    (case stmt (\<lambda>t. (read_claim (schedulerClaimCode job) t, t)) d of
       (Inl _, d) \<Rightarrow> (False, d) | (Inr found, d) \<Rightarrow> claim_write job windowID at found d)"

section \<open>The next window is the next one\<close>

lemma china_at_day:
  assumes "0 \<le> h" "h < 24"
  shows "china_day (china_at z h) = z" "china_hour (china_at z h) = h"
proof -
  have "china (china_at z h) = (z * 24 + h) * Hour" by (simp add: china_def china_at_def algebra_simps)
  then have "china (china_at z h) div Hour = z * 24 + h" by (simp add: duration_defs)
  moreover have "t div (24 * Hour) = t div Hour div 24" for t
    by (simp add: duration_defs flip: zdiv_zmult2_eq)
  ultimately show "china_day (china_at z h) = z" "china_hour (china_at z h) = h"
    using assms by (simp_all add: china_day_def day_of_def china_hour_def)
qed

lemma china_at_mono: "z < z' \<Longrightarrow> china_at z h < china_at z' h"
  by (simp add: china_at_def duration_defs)

lemma china_day_bounds: "china_at (china_day t) 0 \<le> t" "t < china_at (china_day t + 1) 0"
  using div_mult_mod_eq [of "china t" "24 * Hour"] pos_mod_bound [of "24 * Hour" "china t"]
    pos_mod_sign [of "24 * Hour" "china t"]
  by (simp_all add: china_at_def china_day_def day_of_def china_def duration_defs algebra_simps)

lemma weekday_range: "0 \<le> weekday z" "weekday z < 7"
  by (simp_all add: weekday_def)

lemma weekday_shift: "weekday x = weekday y \<longleftrightarrow> (\<exists>k. x = y + 7 * k)"
proof -
  have "weekday x = weekday y \<longleftrightarrow> 7 dvd x - y" by (simp add: weekday_def mod_eq_dvd_iff)
  then show ?thesis by (auto simp: dvd_def algebra_simps)
qed

lemma next_weekday:
  assumes "0 \<le> d" "d < 7"
  shows "weekday (z + (d - weekday z + 7) mod 7) = d"
proof -
  have d: "weekday (d - 4) = d" using assms by (simp add: weekday_def)
  have "z + (d - weekday z + 7) mod 7 = d - 4 + 7 * ((z + 4) div 7 + 1 - (d - weekday z + 7) div 7)"
    unfolding weekday_def minus_mult_div_eq_mod [symmetric] by (simp add: algebra_simps)
  then have "weekday (z + (d - weekday z + 7) mod 7) = weekday (d - 4)" unfolding weekday_shift by blast
  with d show ?thesis by simp
qed

text \<open>The windows of a job: an hour, on every day or on one day of the week.\<close>

definition is_window :: "int \<Rightarrow> int option \<Rightarrow> time \<Rightarrow> bool" where
  "is_window hour dow t \<longleftrightarrow> (\<exists>z. t = china_at z hour \<and> (\<forall>d. dow = Some d \<longrightarrow> weekday z = d))"

lemma window_day:
  assumes "now < china_at z' h" "0 \<le> h" "h < 24"
  shows "china_day now \<le> z'"
proof (rule ccontr)
  assume "\<not> china_day now \<le> z'"
  then have "z' + 1 \<le> china_day now" by simp
  then have "china_at (z' + 1) 0 \<le> china_at (china_day now) 0" by (simp add: china_at_def duration_defs)
  moreover have "china_at z' h < china_at (z' + 1) 0" using assms(3) by (simp add: china_at_def duration_defs)
  ultimately show False using china_day_bounds(1) [of now] assms(1) by simp
qed

lemma next_target_least:
  assumes h: "0 \<le> hour" "hour < 24" and dow: "\<And>d. dow = Some d \<Longrightarrow> 0 \<le> d \<and> d < 7"
  shows "is_window hour dow (next_target now hour dow) \<and> now < next_target now hour dow \<and>
    (\<forall>t. is_window hour dow t \<and> now < t \<longrightarrow> next_target now hour dow \<le> t)"
proof -
  let ?z = "china_day now"
  define z where "z = (case dow of None \<Rightarrow> ?z | Some d \<Rightarrow> ?z + (d - weekday ?z + 7) mod 7)"
  define step where "step = (case dow of None \<Rightarrow> 1 | Some (_ :: int) \<Rightarrow> (7 :: int))"
  have eq: "next_target now hour dow = (if china_at z hour \<le> now then china_at (z + step) hour else china_at z hour)"
    by (simp add: next_target_def Let_def z_def step_def)
  have wd: "weekday z = d" "weekday (z + step) = d" if "dow = Some d" for d
  proof -
    show "weekday z = d" using next_weekday [of d ?z] dow [OF that] that by (simp add: z_def)
    moreover have "weekday (z + step) = weekday z" unfolding weekday_shift using that by (auto simp: step_def)
    ultimately show "weekday (z + step) = d" by simp
  qed
  have near: "?z \<le> z" by (cases dow) (simp_all add: z_def)
  have least: "z \<le> z'" if "?z \<le> z'" "\<And>d. dow = Some d \<Longrightarrow> weekday z' = d" for z'
  proof (cases dow)
    case (Some d)
    have "z < ?z + 7" using Some by (simp add: z_def)
    moreover from that(2) [OF Some] obtain k where "z' = z + 7 * k" using wd(1) [OF Some] weekday_shift by metis
    ultimately show ?thesis using that(1) by presburger
  qed (use that in \<open>simp add: z_def\<close>)
  have after: "z + step \<le> z'" if "z < z'" "\<And>d. dow = Some d \<Longrightarrow> weekday z' = d" for z'
  proof (cases dow)
    case (Some d)
    moreover from that(2) [OF Some] obtain k where "z' = z + 7 * k" using wd(1) [OF Some] weekday_shift by metis
    ultimately show ?thesis using that(1) by (simp add: step_def)
  qed (use that in \<open>simp add: step_def\<close>)
  have later: "now < china_at (z + step) hour"
  proof -
    have "china_at (?z + 1) 0 \<le> china_at (z + step) hour"
      using near h by (cases dow) (simp_all add: step_def china_at_def duration_defs)
    then show ?thesis using china_day_bounds(2) [of now] by simp
  qed
  have mono: "china_at x hour \<le> china_at y hour" if "x \<le> y" for x y using that by (simp add: china_at_def duration_defs)
  have win: "is_window hour dow (next_target now hour dow)" unfolding is_window_def eq using wd by (auto split: if_splits)
  have min: "next_target now hour dow \<le> t" if w: "is_window hour dow t" "now < t" for t
  proof -
    obtain z' where z': "t = china_at z' hour" "\<And>d. dow = Some d \<Longrightarrow> weekday z' = d"
      using w(1) by (auto simp: is_window_def)
    have ge: "z \<le> z'" using least [OF window_day [of now z' hour]] z' w(2) h by simp
    show ?thesis
    proof (cases "china_at z hour \<le> now")
      case True
      then have "z \<noteq> z'" using w(2) z'(1) by auto
      with ge after [of z'] z'(2) have "z + step \<le> z'" by simp
      with True show ?thesis by (simp add: eq z'(1) mono)
    qed (simp add: eq z'(1) mono ge)
  qed
  show ?thesis using win min later by (auto simp: eq)
qed

end
