(* ===== verification/Scheduler.thy ===== *)
theory Scheduler
  imports Schedule
begin

text \<open>
  The background scheduler, \<open>src/internal/jobs/scheduler.go\<close> and \<open>dca_backfill.go\<close>: the windows of a
  tick, the jobs they start, the catch-up at the start of the process and the replay of missed days.

  The crawls of prices, indices and holdings are arguments: they read the ledger and write prices
  and \<open>lg_rest\<close>. A job runs to its end before the next event; Stop is seen between jobs and by the
  failing statements of a cancelled context.
\<close>

datatype sched_error = CrawlError string | DcaError dca_error | SqlError | SweepError

record jobRuntime =
  jr_lastRun :: int
  jr_lastErr :: "sched_error option"

record scheduler =
  sc_lastRun :: "string \<rightharpoonup> string"
  sc_jobs :: "string \<rightharpoonup> jobRuntime"
  sc_running :: bool
  sc_startup :: bool
  sc_stopped :: bool

definition NewScheduler :: scheduler where
  "NewScheduler = \<lparr>sc_lastRun = Map.empty, sc_jobs = Map.empty, sc_running = False, sc_startup = False,
     sc_stopped = False\<rparr>"

record ('f, 's) sched_world =
  sw_sched :: scheduler
  sw_db :: "('f, 's) sched_tables db"

type_synonym ('f, 's) crawler =
  "('f, 's) ledger \<Rightarrow> sched_error option \<times> (string \<times> string \<times> 'f option) list \<times> 's"

record ('f, 's) sched_env =
  se_dca :: "('f, 's) dca_env option"
  se_refresh_all :: "('f, 's) crawler"
  se_refresh_stale :: "('f, 's) crawler"
  se_indices :: "('f, 's) crawler option"
  se_holdings :: "('f, 's) crawler option"
  se_dialect :: dialect
  se_session_sweep :: bool
  se_auth_sweep :: bool

section \<open>Statements on a part of the tables\<close>

definition zoom :: "('t \<Rightarrow> 'u) \<Rightarrow> ('u \<Rightarrow> 't \<Rightarrow> 't) \<Rightarrow> ('u db, 'e, 'a) proc \<Rightarrow> ('t db, 'e, 'a) proc" where
  "zoom get put m d = (case m \<lparr>tables = get (tables d), faults = faults d\<rparr> of
     (r, d') \<Rightarrow> (r, \<lparr>tables = put (tables d') (tables d), faults = faults d'\<rparr>))"

definition put_ledger :: "('f, 's) ledger \<Rightarrow> ('f, 's) sched_tables \<Rightarrow> ('f, 's) sched_tables" where
  "put_ledger l t = t\<lparr>st_ledger := l\<rparr>"

definition put_auth :: "auth_tables \<Rightarrow> ('f, 's) sched_tables \<Rightarrow> ('f, 's) sched_tables" where
  "put_auth a t = t\<lparr>st_auth := a\<rparr>"

definition crawl :: "('f, 's) crawler \<Rightarrow> ('f, 's) sched_world \<Rightarrow> sched_error option \<times> ('f, 's) sched_world" where
  "crawl f w = (let l = st_ledger (tables (sw_db w)) in case f l of (err, navs, rest) \<Rightarrow>
     (err, w\<lparr>sw_db := (sw_db w)\<lparr>tables := put_ledger (l\<lparr>lg_navs := navs, lg_rest := rest\<rparr>) (tables (sw_db w))\<rparr>\<rparr>))"

definition or_first :: "'e option \<Rightarrow> 'e option \<Rightarrow> 'e option" where
  "or_first a b = (if a = None then b else a)"

section \<open>Claim and record\<close>

definition set_lastRun :: "string \<Rightarrow> string \<Rightarrow> ('f, 's) sched_world \<Rightarrow> ('f, 's) sched_world" where
  "set_lastRun job windowID w = w\<lparr>sw_sched := (sw_sched w)\<lparr>sc_lastRun := (sc_lastRun (sw_sched w))(job \<mapsto> windowID)\<rparr>\<rparr>"

definition claimWindow :: "string \<Rightarrow> string \<Rightarrow> string \<Rightarrow> ('f, 's) sched_world \<Rightarrow> bool \<times> ('f, 's) sched_world" where
  "claimWindow job windowID at w =
    (if mget (sc_lastRun (sw_sched w)) job [] = windowID then (False, w)
     else (case claimWindowDurable job windowID at (sw_db w) of (ok, d) \<Rightarrow>
       (ok, set_lastRun job windowID (w\<lparr>sw_db := d\<rparr>))))"

definition recordJob :: "string \<Rightarrow> time \<Rightarrow> sched_error option \<Rightarrow> ('f, 's) sched_world \<Rightarrow> ('f, 's) sched_world" where
  "recordJob job now err w = w\<lparr>sw_sched := (sw_sched w)\<lparr>sc_jobs := (sc_jobs (sw_sched w))
     (job \<mapsto> \<lparr>jr_lastRun = unix now, jr_lastErr = err\<rparr>)\<rparr>\<rparr>"

definition jobDefinitions :: "(string \<times> string) list" where
  "jobDefinitions =
    [(''startup_refresh'', ''startup catch-up stale_only (once per CST day)''),
     (''price_dca'', ''daily 20:00 CST all_held + DCA weekdays''),
     (''holdings'', ''Saturday 10:00 CST holdings once/day''),
     (''wal'', ''daily 03:00 CST WAL + expired-state sweep'')]"

record JobStatus =
  js_Name :: string
  js_Schedule :: string
  js_LastRun :: int
  js_LastError :: "sched_error option"
  js_NextRun :: int

definition StatusSnapshot :: "time \<Rightarrow> scheduler \<Rightarrow> JobStatus list" where
  "StatusSnapshot now s = map (\<lambda>(name, schedule).
     \<lparr>js_Name = name, js_Schedule = schedule,
      js_LastRun = (case sc_jobs s name of None \<Rightarrow> 0 | Some rt \<Rightarrow> jr_lastRun rt),
      js_LastError = (case sc_jobs s name of None \<Rightarrow> None | Some rt \<Rightarrow> jr_lastErr rt),
      js_NextRun = nextRunEpoch name now\<rparr>) jobDefinitions"

section \<open>Plans\<close>

definition dca_input :: "('f, 's) dca_env \<Rightarrow> int \<Rightarrow> 'f RunDCAAutoInvestInput" where
  "dca_input D z = \<lparr>in_AsOf = format_date z, in_PortfolioID = 1, in_PlanID = 0, in_FundCode = [], in_DryRun = False,
     in_Mode = [], in_BaseAmount = fl_of_int (de_floats D) 0\<rparr>"

definition run_dca :: "('f, 's) dca_env \<Rightarrow> int \<Rightarrow> ('f, 's) sched_world \<Rightarrow> sched_error option \<times> ('f, 's) sched_world" where
  "run_dca D z w = (case zoom st_ledger put_ledger (RunDCAAutoInvest D (dca_input D z)) (sw_db w) of
     (Inl e, d) \<Rightarrow> (Some (DcaError e), w\<lparr>sw_db := d\<rparr>) | (Inr _, d) \<Rightarrow> (None, w\<lparr>sw_db := d\<rparr>))"

definition runDCAMaterialization :: "('f, 's) sched_env \<Rightarrow> time \<Rightarrow> ('f, 's) sched_world
    \<Rightarrow> sched_error option \<times> ('f, 's) sched_world" where
  "runDCAMaterialization E now w = (case se_dca E of None \<Rightarrow> (None, w) | Some D \<Rightarrow> run_dca D (china_day now) w)"

definition dcaBackfillLookbackDays :: int where "dcaBackfillLookbackDays = 7"

fun backfill_days :: "('f, 's) dca_env \<Rightarrow> int list \<Rightarrow> sched_error option \<Rightarrow> ('f, 's) sched_world
    \<Rightarrow> sched_error option \<times> ('f, 's) sched_world" where
  "backfill_days D [] firstErr w = (firstErr, w)"
| "backfill_days D (due # ds) firstErr w =
    (case run_dca D due w of (err, w) \<Rightarrow> backfill_days D ds (or_first firstErr err) w)"

definition missed_days :: "time \<Rightarrow> int list" where
  "missed_days now = map (\<lambda>i. china_day now - i) (rev [1..dcaBackfillLookbackDays])"

definition runDCABackfill :: "('f, 's) sched_env \<Rightarrow> time \<Rightarrow> ('f, 's) sched_world
    \<Rightarrow> sched_error option \<times> ('f, 's) sched_world" where
  "runDCABackfill E now w = (case se_dca E of None \<Rightarrow> (None, w)
     | Some D \<Rightarrow> if weekday (china_day now) = 6 \<or> weekday (china_day now) = 0 then (None, w)
         else backfill_days D (missed_days now) None w)"

section \<open>The sweep of expired state\<close>

definition run_sql :: "(('f, 's) sched_tables db, 'e, 'a) proc \<Rightarrow> ('f, 's) sched_world
    \<Rightarrow> sched_error option \<times> ('f, 's) sched_world" where
  "run_sql m w = (case m (sw_db w) of
     (Inl _, d) \<Rightarrow> (Some SqlError, w\<lparr>sw_db := d\<rparr>) | (Inr _, d) \<Rightarrow> (None, w\<lparr>sw_db := d\<rparr>))"

text \<open>Times are stored as texts of RFC 3339 and compared as such. A missing table is no error.\<close>

definition delete_old :: "('r \<Rightarrow> string) \<Rightarrow> time \<Rightarrow> 'r list option \<Rightarrow> 'r list option" where
  "delete_old stamp cutoff rows = map_option (delete_where (\<lambda>r. text_less (stamp r) (format_time cutoff))) rows"

definition sweep_confirmations :: "time \<Rightarrow> ('f, 's) sched_world \<Rightarrow> sched_error option \<times> ('f, 's) sched_world" where
  "sweep_confirmations t = run_sql (stmt (\<lambda>s. ((), s\<lparr>st_conf := delete_old (\<lambda>(_, r). format_time (rec_ExpiresAt r))
     (t - 7 * 24 * Hour) (st_conf s)\<rparr>)))"

definition sweep_audit :: "time \<Rightarrow> ('f, 's) sched_world \<Rightarrow> sched_error option \<times> ('f, 's) sched_world" where
  "sweep_audit t = run_sql (stmt (\<lambda>s. ((), s\<lparr>st_audit := delete_old (\<lambda>(_, r). evt_CreatedAt (row_event r))
     (t - 90 * 24 * Hour) (st_audit s)\<rparr>)))"

definition sweep_sessions :: "('f, 's) sched_env \<Rightarrow> time \<Rightarrow> ('f, 's) sched_world
    \<Rightarrow> sched_error option \<times> ('f, 's) sched_world" where
  "sweep_sessions E t = run_sql (zoom st_auth put_auth
     (if se_session_sweep E then SweepExpired t
      else sql (stmt (\<lambda>a. (0, a\<lparr>auth_sessions := delete_where (\<lambda>r. ses_expires r < unix t) (auth_sessions a)\<rparr>)))))"

definition sweep_events :: "('f, 's) sched_env \<Rightarrow> time \<Rightarrow> ('f, 's) sched_world
    \<Rightarrow> sched_error option \<times> ('f, 's) sched_world" where
  "sweep_events E t w = (if se_auth_sweep E
     then run_sql (zoom st_auth put_auth (SweepAuthEvents (unix (t - 180 * 24 * Hour)))) w else (None, w))"

definition sweepExpiredState :: "('f, 's) sched_env \<Rightarrow> time \<Rightarrow> ('f, 's) sched_world
    \<Rightarrow> sched_error option \<times> ('f, 's) sched_world" where
  "sweepExpiredState E t w =
    (case sweep_sessions E t w of (e1, w) \<Rightarrow>
     case sweep_confirmations t w of (e2, w) \<Rightarrow>
     case sweep_audit t w of (e3, w) \<Rightarrow>
     case sweep_events E t w of (e4, w) \<Rightarrow> (or_first (or_first (or_first e1 e2) e3) e4, w))"

section \<open>A tick\<close>

definition in_weekdays :: "time \<Rightarrow> bool" where
  "in_weekdays now \<longleftrightarrow> 1 \<le> weekday (china_day now) \<and> weekday (china_day now) \<le> 5"

text \<open>The switch over the hour and the weekday, as the claim key of the window.\<close>

definition window_of :: "time \<Rightarrow> string option" where
  "window_of now = (let hour = china_hour now in
     if hour = 20 then Some ''price_dca''
     else if hour = 10 \<and> weekday (china_day now) = 6 then Some ''holdings''
     else if 6 \<le> hour \<and> hour \<le> 9 then Some ''dca_backfill''
     else if hour = 3 then Some ''wal''
     else None)"

definition price_dca :: "('f, 's) sched_env \<Rightarrow> time \<Rightarrow> ('f, 's) sched_world \<Rightarrow> ('f, 's) sched_world" where
  "price_dca E now w =
    (case crawl (se_refresh_all E) w of (e1, w) \<Rightarrow>
     case (case se_indices E of None \<Rightarrow> (None, w) | Some f \<Rightarrow> crawl f w) of (e2, w) \<Rightarrow>
     case (if in_weekdays now then runDCAMaterialization E now w else (None, w)) of (e3, w) \<Rightarrow>
       recordJob ''price_dca'' now (or_first (or_first e1 e2) e3) w)"

definition holdings :: "('f, 's) sched_env \<Rightarrow> time \<Rightarrow> ('f, 's) sched_world \<Rightarrow> ('f, 's) sched_world" where
  "holdings E now w = (case se_holdings E of None \<Rightarrow> w
     | Some f \<Rightarrow> (case crawl f w of (err, w) \<Rightarrow> recordJob ''holdings'' now err w))"

text \<open>On SQLite the probe and the checkpoint are statements without effect on rows; PostgreSQL fails the probe.\<close>

definition wal :: "('f, 's) sched_env \<Rightarrow> time \<Rightarrow> time \<Rightarrow> ('f, 's) sched_world \<Rightarrow> ('f, 's) sched_world" where
  "wal E clk now w =
    (case run_sql (stmt (\<lambda>t. ((), t))) w of (probe, w) \<Rightarrow>
     case (if probe \<noteq> None \<or> se_dialect E = Postgres then (None, w) else run_sql (stmt (\<lambda>t. ((), t))) w) of (e1, w) \<Rightarrow>
     case sweepExpiredState E clk w of (e2, w) \<Rightarrow> recordJob ''wal'' now (or_first e1 e2) w)"

definition run_window :: "('f, 's) sched_env \<Rightarrow> time \<Rightarrow> time \<Rightarrow> string \<Rightarrow> ('f, 's) sched_world \<Rightarrow> ('f, 's) sched_world" where
  "run_window E clk now job w =
    (if job = ''price_dca'' then price_dca E now w
     else if job = ''holdings'' then holdings E now w
     else if job = ''dca_backfill'' then snd (runDCABackfill E now w)
     else wal E clk now w)"

text \<open>
  \<open>clk\<close> is what \<open>time.Now\<close> says while the job runs. The list names the windows that were claimed; it
  is not in the code.
\<close>

type_synonym ('f, 's) traced = "('f, 's) sched_world \<Rightarrow> (string \<times> int) list \<times> ('f, 's) sched_world"

definition claimed_at :: "time \<Rightarrow> string" where "claimed_at clk = (let s = unix (china clk) mod 86400 in
     format_date (china_day clk) @ '' '' @ pad_int 2 (s div 3600) @ '':'' @ pad_int 2 (s div 60 mod 60) @ '':'' @ pad_int 2 (s mod 60))"

definition tick :: "('f, 's) sched_env \<Rightarrow> time \<Rightarrow> time \<Rightarrow> ('f, 's) traced" where
  "tick E clk now w = (case window_of now of None \<Rightarrow> ([], w)
     | Some job \<Rightarrow> (case claimWindow job (format_date (china_day now)) (claimed_at clk) w of
         (False, w) \<Rightarrow> ([], w)
       | (True, w) \<Rightarrow> ([(job, china_day now)], run_window E clk now job w)))"

definition runStartupCatchUp :: "('f, 's) sched_env \<Rightarrow> bool \<Rightarrow> time \<Rightarrow> ('f, 's) traced" where
  "runStartupCatchUp E cancelled now w =
    (if sc_stopped (sw_sched w) then ([], w)
     else (case claimWindow ''startup_refresh'' (format_date (china_day now)) (claimed_at now) w of
         (False, w) \<Rightarrow> ([], w)
       | (True, w) \<Rightarrow> ([(''startup_refresh'', china_day now)],
          if cancelled then w
          else (case crawl (se_refresh_stale E) w of (err, w) \<Rightarrow>
            snd (runDCABackfill E now (recordJob ''startup_refresh'' now err w))))))"

section \<open>Start, stop and events\<close>

definition Start :: "scheduler \<Rightarrow> scheduler" where
  "Start s = (if sc_running s then s else s\<lparr>sc_stopped := False, sc_running := True, sc_startup := True\<rparr>)"

definition Stop :: "scheduler \<Rightarrow> scheduler" where
  "Stop s = (if sc_running s then s\<lparr>sc_running := False, sc_startup := False, sc_stopped := True\<rparr> else s)"

text \<open>A new process starts from a new scheduler on the same database.\<close>

datatype sched_event = EvStart | EvStop | EvTick time time | EvStartup bool time | EvProcess

definition on_sched :: "(scheduler \<Rightarrow> scheduler) \<Rightarrow> ('f, 's) sched_world \<Rightarrow> ('f, 's) sched_world" where
  "on_sched f w = w\<lparr>sw_sched := f (sw_sched w)\<rparr>"

fun sched_step :: "('f, 's) sched_env \<Rightarrow> sched_event \<Rightarrow> ('f, 's) traced" where
  "sched_step E EvStart w = ([], on_sched Start w)"
| "sched_step E EvStop w = ([], on_sched Stop w)"
| "sched_step E EvProcess w = ([], on_sched (\<lambda>_. NewScheduler) w)"
| "sched_step E (EvTick clk now) w = (if sc_running (sw_sched w) then tick E clk now w else ([], w))"
| "sched_step E (EvStartup cancelled now) w = (if sc_startup (sw_sched w)
     then runStartupCatchUp E cancelled now (on_sched (\<lambda>s. s\<lparr>sc_startup := False\<rparr>) w) else ([], w))"

fun sched_run :: "('f, 's) sched_env \<Rightarrow> sched_event list \<Rightarrow> ('f, 's) traced" where
  "sched_run E [] w = ([], w)"
| "sched_run E (e # es) w = (case sched_step E e w of (l1, w) \<Rightarrow> case sched_run E es w of (l2, w) \<Rightarrow> (l1 @ l2, w))"

lemma windows_example:
  "window_of (12 * Hour) = Some ''price_dca''" "window_of (2 * 24 * Hour + 2 * Hour) = Some ''holdings''"
  "window_of (24 * Hour - Hour) = Some ''dca_backfill''" "window_of (5 * Hour) = None"
  by code_simp+

end
