(* ===== verification/SchedulerProps.thy ===== *)
theory SchedulerProps
  imports Scheduler
begin

text \<open>
  What the scheduler guarantees: a window is claimed once per day, plans run on weekdays only and for
  the days they should, a clean replay serves the missed days, and what a failed claim costs.
\<close>

section \<open>What the jobs leave alone\<close>

named_theorems frames "parts of the world that a step leaves alone"

abbreviation stables :: "('f, 's) sched_world \<Rightarrow> ('f, 's) sched_tables" where "stables w \<equiv> tables (sw_db w)"

abbreviation memory :: "('f, 's) sched_world \<Rightarrow> string \<rightharpoonup> string" where "memory w \<equiv> sc_lastRun (sw_sched w)"

definition same_claims :: "('f, 's) sched_world \<Rightarrow> ('f, 's) sched_world \<Rightarrow> bool" where
  "same_claims w w' \<longleftrightarrow> st_crawl (stables w') = st_crawl (stables w) \<and> memory w' = memory w"

lemma same_claims_refl [simp]: "same_claims w w"
  by (simp add: same_claims_def)

lemma same_claims_trans: "same_claims w1 w2 \<Longrightarrow> same_claims w2 w3 \<Longrightarrow> same_claims w1 w3"
  by (simp add: same_claims_def)

lemma same_claims_crawl [frames]: "crawl f w = (e, w') \<Longrightarrow> same_claims w w'"
  by (auto simp: same_claims_def crawl_def Let_def put_ledger_def split: prod.splits)

lemma same_claims_run_dca [frames]: "run_dca D z w = (e, w') \<Longrightarrow> same_claims w w'"
  by (auto simp: same_claims_def run_dca_def zoom_def put_ledger_def split: prod.splits sum.splits)

lemma recordJob_frame [simp]: "sw_db (recordJob job now e w) = sw_db w" "memory (recordJob job now e w) = memory w"
  by (simp_all add: recordJob_def)

lemma same_claims_run_sql:
  assumes "\<And>d. st_crawl (tables (snd (m d))) = st_crawl (tables d)" "run_sql m w = (e, w')"
  shows "same_claims w w'"
  using assms(2) assms(1) [of "sw_db w"] by (auto simp: run_sql_def same_claims_def split: prod.splits sum.splits)

lemma stmt_crawl: "(\<And>t. st_crawl (snd (f t)) = st_crawl t) \<Longrightarrow> st_crawl (tables (snd (stmt f d))) = st_crawl (tables d)"
  by (simp add: stmt_def split: list.split bool.split)

lemma zoom_auth_crawl: "st_crawl (tables (snd (zoom st_auth put_auth m d))) = st_crawl (tables d)"
  by (simp add: zoom_def put_auth_def split: prod.split)

lemma same_claims_sweep [frames]: "sweepExpiredState E t w = (e, w') \<Longrightarrow> same_claims w w'"
proof -
  assume "sweepExpiredState E t w = (e, w')"
  then obtain e1 w1 e2 w2 e3 w3 e4 where s: "sweep_sessions E t w = (e1, w1)" "sweep_confirmations t w1 = (e2, w2)"
    "sweep_audit t w2 = (e3, w3)" "sweep_events E t w3 = (e4, w')"
    by (auto simp: sweepExpiredState_def split: prod.splits)
  have "same_claims w w1" using s(1) unfolding sweep_sessions_def by (rule same_claims_run_sql [OF zoom_auth_crawl])
  moreover have "same_claims w1 w2" using s(2) unfolding sweep_confirmations_def
    by (rule same_claims_run_sql [rotated]) (simp add: stmt_crawl)
  moreover have "same_claims w2 w3" using s(3) unfolding sweep_audit_def
    by (rule same_claims_run_sql [rotated]) (simp add: stmt_crawl)
  moreover have "same_claims w3 w'" using s(4) same_claims_run_sql [OF zoom_auth_crawl]
    by (auto simp: sweep_events_def split: if_splits)
  ultimately show ?thesis by (blast intro: same_claims_trans)
qed

lemma same_claims_backfill [frames]: "backfill_days D ds e0 w = (e, w') \<Longrightarrow> same_claims w w'"
  by (induction D ds e0 w rule: backfill_days.induct)
    (auto split: prod.splits intro: same_claims_trans same_claims_run_dca)

lemma same_claims_dca [frames]:
  "runDCAMaterialization E now w = (e, w') \<Longrightarrow> same_claims w w'"
  "runDCABackfill E now w = (e, w') \<Longrightarrow> same_claims w w'"
  by (auto simp: runDCAMaterialization_def runDCABackfill_def split: option.splits if_splits intro: frames)

lemma same_claims_window: "same_claims w (run_window E clk now job w)"
proof -
  have "same_claims w (price_dca E now w)" unfolding price_dca_def
    by (auto split: prod.split option.split if_split dest!: frames simp: same_claims_def)
  moreover have "same_claims w (holdings E now w)" unfolding holdings_def
    by (auto split: prod.split option.split dest!: frames simp: same_claims_def)
  moreover have "same_claims w (wal E clk now w)"
  proof -
    have probe: "same_claims v v'" if "run_sql (stmt (\<lambda>t. ((), t))) v = (e, v')" for v e v'
      using that by (rule same_claims_run_sql [rotated]) (simp add: stmt_crawl)
    show ?thesis unfolding wal_def
      by (auto split: prod.split if_split dest!: frames probe simp: same_claims_def)
  qed
  moreover have "same_claims w (snd (runDCABackfill E now w))" by (rule same_claims_dca(2) [OF surjective_pairing])
  ultimately show ?thesis by (simp add: run_window_def)
qed

section \<open>A window is claimed once per day\<close>

lemma read_claim_cong: "st_crawl t = st_crawl t' \<Longrightarrow> read_claim code t = read_claim code t'"
  by (simp add: read_claim_def)

lemma claim_code_inj: "schedulerClaimCode a = schedulerClaimCode b \<longleftrightarrow> a = b"
  by (simp add: schedulerClaimCode_def)

lemma read_after_insert:
  assumes "insert_claim job wd at t = (Inserted, t')"
  shows "read_claim (schedulerClaimCode j) t' = (if j = job then Found wd else read_claim (schedulerClaimCode j) t)"
proof -
  obtain rows where rows: "st_crawl t = Some rows" "\<forall>r \<in> set rows. cw_code r \<noteq> schedulerClaimCode job"
    using assms by (auto simp: insert_claim_def Let_def list_ex_iff split: option.splits if_splits)
  have find: "List.find p (xs @ [y]) = (case List.find p xs of None \<Rightarrow> if p y then Some y else None | Some r \<Rightarrow> Some r)"
    for p :: "crawl_row \<Rightarrow> bool" and xs y by (induction xs) auto
  have none: "List.find (\<lambda>r. cw_code r = schedulerClaimCode job) rows = None" using rows(2) by (simp add: find_None_iff)
  from assms rows show ?thesis
    by (cases "j = job") (auto simp: insert_claim_def Let_def read_claim_def select1_def find none claim_code_inj
      list_ex_iff split: option.splits)
qed

lemma read_after_advance:
  assumes "read_claim (schedulerClaimCode job) t = Found e"
  shows "\<exists>t'. advance_claim job wd at t = (True, t') \<and> st_crawl t' \<noteq> None \<and>
    read_claim (schedulerClaimCode j) t' = (if j = job then Found wd else read_claim (schedulerClaimCode j) t)"
proof -
  obtain rows r where r: "st_crawl t = Some rows" "select1 (\<lambda>r. cw_code r = schedulerClaimCode job) rows = Some r"
    using assms by (auto simp: read_claim_def split: option.splits)
  let ?f = "\<lambda>r. r\<lparr>cw_source := job, cw_rows := 0, cw_latest := Some wd, cw_status := ''ok'', cw_at := at\<rparr>"
  have sel: "select1 (\<lambda>r. cw_code r = c) (update_where (\<lambda>r. cw_code r = schedulerClaimCode job) ?f rows) =
      map_option (\<lambda>r. if cw_code r = schedulerClaimCode job then ?f r else r) (select1 (\<lambda>r. cw_code r = c) rows)" for c
    by (rule select1_update_where_key) simp
  have key: "cw_code q = c" if "select1 (\<lambda>r. cw_code r = c) rows = Some q" for c q using select1_SomeD [OF that] by simp
  show ?thesis using r
    by (auto simp: advance_claim_def read_claim_def sel claim_code_inj dest: key split: option.split)
qed

lemma claim_write_cases:
  assumes "claim_write job wd at (read_claim (schedulerClaimCode job) (tables d)) d = (ok, d')"
    and "st_crawl (tables d) \<noteq> None"
  shows "if ok then read_claim (schedulerClaimCode job) (tables d) \<noteq> Found wd \<and> st_crawl (tables d') \<noteq> None \<and>
      (\<forall>j. read_claim (schedulerClaimCode j) (tables d') =
        (if j = job then Found wd else read_claim (schedulerClaimCode j) (tables d)))
    else tables d' = tables d"
proof (cases "read_claim (schedulerClaimCode job) (tables d)")
  case NoTable
  then show ?thesis using assms(2) by (auto simp: read_claim_def split: option.splits)
next
  case NullDate
  with assms(1) show ?thesis by (simp add: claim_write_def)
next
  case NoRow
  obtain x d1 where 1: "stmt (insert_claim job wd at) d = (x, d1)" by (metis surj_pair)
  have reread: "tables (snd (stmt (\<lambda>t. (f t :: claim_state, t)) d1)) = tables d1" for f
    using stmt_same(1) [of f d1] by (metis surjective_pairing)
  show ?thesis
  proof (cases x)
    case (Inl e)
    with assms(1) NoRow 1 reread show ?thesis by (auto simp: claim_write_def dest: stmt_Inl_tables)
  next
    case (Inr a)
    from stmt_Inr_tables [OF 1 [unfolded this]]
    have i: "insert_claim job wd at (tables d) = (a, tables d1)" by (simp add: prod_eq_iff)
    show ?thesis
    proof (cases a)
      case Inserted
      with i have "insert_claim job wd at (tables d) = (Inserted, tables d1)" by simp
      note after = read_after_insert [OF this]
      have "st_crawl (tables d1) \<noteq> None" using after [of job] by (auto simp: read_claim_def split: option.splits)
      with assms(1) NoRow 1 Inr Inserted after show ?thesis by (auto simp: claim_write_def)
    next
      case KeyTaken
      then have "tables d1 = tables d" using i by (auto simp: insert_claim_def Let_def split: option.splits if_splits)
      with assms(1) NoRow 1 Inr KeyTaken reread show ?thesis by (auto simp: claim_write_def)
    next
      case TableMissing
      with i assms(2) show ?thesis by (auto simp: insert_claim_def Let_def split: option.splits if_splits)
    qed
  qed
next
  case (Found e)
  obtain x d1 where 1: "stmt (advance_claim job wd at) d = (x, d1)" by (metis surj_pair)
  show ?thesis
  proof (cases "e = wd")
    case True
    with assms(1) Found show ?thesis by (simp add: claim_write_def)
  next
    case False
    show ?thesis
    proof (cases x)
      case (Inl e')
      with assms(1) Found False 1 show ?thesis by (auto simp: claim_write_def dest: stmt_Inl_tables)
    next
      case (Inr a)
      have "advance_claim job wd at (tables d) = (a, tables d1)"
        using stmt_Inr_tables [OF 1 [unfolded Inr]] by (simp add: prod_eq_iff)
      with read_after_advance [OF Found, of wd at]
      have "a \<and> st_crawl (tables d1) \<noteq> None \<and> (\<forall>j. read_claim (schedulerClaimCode j) (tables d1) =
          (if j = job then Found wd else read_claim (schedulerClaimCode j) (tables d)))" by auto
      with assms(1) Found False 1 Inr show ?thesis by (auto simp: claim_write_def)
    qed
  qed
qed

lemma claim_cases:
  assumes "claimWindow job wd at w = (ok, w')" "st_crawl (stables w) \<noteq> None"
  shows "if ok then read_claim (schedulerClaimCode job) (stables w) \<noteq> Found wd \<and> st_crawl (stables w') \<noteq> None \<and>
      (\<forall>j. read_claim (schedulerClaimCode j) (stables w') =
        (if j = job then Found wd else read_claim (schedulerClaimCode j) (stables w)))
    else stables w' = stables w"
proof -
  obtain x d1 where 1: "stmt (\<lambda>t. (read_claim (schedulerClaimCode job) t, t)) (sw_db w) = (x, d1)" by (metis surj_pair)
  have same: "tables d1 = stables w" using stmt_same(1) [OF 1] .
  show ?thesis
  proof (cases "mget (memory w) job [] = wd \<or> (\<exists>e. x = Inl e)")
    case True
    with assms(1) 1 same show ?thesis
      by (auto simp: claimWindow_def claimWindowDurable_def set_lastRun_def split: if_splits)
  next
    case False
    then obtain found where x: "x = Inr found" by (cases x) auto
    have found: "found = read_claim (schedulerClaimCode job) (tables d1)" using stmt_same(2) [OF 1 x] same by simp
    obtain o' d2 where 2: "claim_write job wd at found d1 = (o', d2)" by (metis surj_pair)
    from claim_write_cases [OF 2 [unfolded found]] assms(2) [folded same]
    have "if o' then read_claim (schedulerClaimCode job) (stables w) \<noteq> Found wd \<and> st_crawl (tables d2) \<noteq> None \<and>
      (\<forall>j. read_claim (schedulerClaimCode j) (tables d2) =
        (if j = job then Found wd else read_claim (schedulerClaimCode j) (stables w)))
      else tables d2 = stables w" unfolding same .
    with assms(1) False 1 2 x show ?thesis
      by (auto simp: claimWindow_def claimWindowDurable_def set_lastRun_def split: if_splits)
  qed
qed

text \<open>The claims of a run so far, on days up to \<open>z\<close>.\<close>

definition claim_inv :: "(string \<times> int) list \<Rightarrow> int \<Rightarrow> ('f, 's) sched_world \<Rightarrow> bool" where
  "claim_inv log z w \<longleftrightarrow> st_crawl (stables w) \<noteq> None \<and> distinct log \<and> (\<forall>(job, z') \<in> set log. z' \<le> z) \<and>
     (\<forall>job. (job, z) \<in> set log \<longrightarrow> read_claim (schedulerClaimCode job) (stables w) = Found (format_date z))"

lemma claim_inv_later: "claim_inv log z w \<Longrightarrow> z \<le> z' \<Longrightarrow> claim_inv log z' w"
  by (cases "z = z'") (fastforce simp: claim_inv_def)+

lemma claim_inv_same: "claim_inv log z w \<Longrightarrow> same_claims w w' \<Longrightarrow> claim_inv log z w'"
  by (auto simp: claim_inv_def same_claims_def read_claim_def)

lemma claim_inv_tables: "claim_inv log z w \<Longrightarrow> stables w' = stables w \<Longrightarrow> claim_inv log z w'"
  by (simp add: claim_inv_def)

lemma claim_inv_claim:
  assumes "claim_inv log z w" "claimWindow job (format_date z) at w = (ok, w')"
  shows "claim_inv (log @ (if ok then [(job, z)] else [])) z w'"
  using claim_cases [OF assms(2)] assms(1)
  by (cases ok) (auto simp: claim_inv_def)

fun event_day :: "sched_event \<Rightarrow> int list" where
  "event_day (EvTick _ now) = [china_day now]"
| "event_day (EvStartup _ now) = [china_day now]"
| "event_day _ = []"

lemma claim_inv_step:
  assumes "claim_inv log z w" "sched_step E e w = (l, w')" "\<forall>z' \<in> set (event_day e). z \<le> z'"
  shows "claim_inv (log @ l) (if event_day e = [] then z else hd (event_day e)) w'"
proof (cases e)
  case (EvTick clk now)
  let ?z = "china_day now"
  have inv: "claim_inv log ?z w" using claim_inv_later [OF assms(1)] assms(3) EvTick by simp
  show ?thesis
  proof (cases "sc_running (sw_sched w) \<and> window_of now \<noteq> None")
    case True
    then obtain job where job: "window_of now = Some job" by auto
    obtain ok w1 where c: "claimWindow job (format_date ?z) (claimed_at clk) w = (ok, w1)" by (metis surj_pair)
    from claim_inv_claim [OF inv c] same_claims_window [of w1 E clk now job] show ?thesis
      using assms(2) True EvTick job c by (cases ok) (auto simp: tick_def intro: claim_inv_same)
  qed (use assms(2) EvTick inv in \<open>auto simp: tick_def split: if_splits\<close>)
next
  case (EvStartup cancelled now)
  let ?z = "china_day now" and ?w = "on_sched (\<lambda>s. s\<lparr>sc_startup := False\<rparr>) w"
  have inv: "claim_inv log ?z w" using claim_inv_later [OF assms(1)] assms(3) EvStartup by simp
  have inv': "claim_inv log ?z ?w" using claim_inv_tables [OF inv] by (simp add: on_sched_def)
  show ?thesis
  proof (cases "sc_startup (sw_sched w) \<and> \<not> sc_stopped (sw_sched ?w)")
    case True
    obtain ok w1 where c: "claimWindow ''startup_refresh'' (format_date ?z) (claimed_at now) ?w = (ok, w1)"
      by (metis surj_pair)
    obtain err w2 where r: "crawl (se_refresh_stale E) w1 = (err, w2)" by (metis surj_pair)
    obtain e3 w3 where b: "runDCABackfill E now (recordJob ''startup_refresh'' now err w2) = (e3, w3)" by (metis surj_pair)
    have "same_claims w1 w3" using frames(1) [OF r] same_claims_dca(2) [OF b] by (simp add: same_claims_def)
    with claim_inv_claim [OF inv' c] show ?thesis
      using assms(2) True EvStartup c r b by (cases ok) (auto simp: runStartupCatchUp_def intro: claim_inv_same)
  qed (use assms(2) EvStartup inv inv' in \<open>auto simp: runStartupCatchUp_def split: if_splits\<close>)
qed (use assms in \<open>auto simp: on_sched_def intro: claim_inv_tables\<close>)

lemma claim_inv_run:
  assumes "claim_inv log z w" "sorted (z # concat (map event_day es))"
  shows "distinct (log @ fst (sched_run E es w))"
  using assms
proof (induction es arbitrary: log z w)
  case (Cons e es)
  obtain l w1 where 1: "sched_step E e w = (l, w1)" by (metis surj_pair)
  obtain l2 w2 where 2: "sched_run E es w1 = (l2, w2)" by (metis surj_pair)
  let ?z = "if event_day e = [] then z else hd (event_day e)"
  have single: "event_day e = [] \<or> (\<exists>x. event_day e = [x])" by (cases e) auto
  have "claim_inv (log @ l) ?z w1" using claim_inv_step [OF Cons.prems(1) 1] Cons.prems(2) by simp
  from Cons.IH [OF this] Cons.prems(2) single 2 have "distinct ((log @ l) @ l2)" by auto
  with 1 2 show ?case by simp
qed (simp add: claim_inv_def)

text \<open>
  C22. Once per day: whatever starts, stops, new processes, ticks and failing statements follow each
  other, as long as the clock does not go back to an earlier day and the table of the claims is there,
  no job claims the same day twice.
\<close>

theorem windows_claimed_once:
  assumes "st_crawl (stables w) \<noteq> None" "sorted (concat (map event_day es))"
  shows "distinct (fst (sched_run E es w))"
proof (cases "concat (map event_day es)")
  case Nil
  have "claim_inv [] 0 w" using assms(1) by (simp add: claim_inv_def)
  from claim_inv_run [OF this, of es] Nil show ?thesis by simp
next
  case (Cons z zs)
  have "claim_inv [] z w" using assms(1) by (simp add: claim_inv_def)
  from claim_inv_run [OF this, of es] assms(2) Cons show ?thesis by simp
qed

section \<open>Plans run on weekdays, for the day or for one of the seven before\<close>

definition date_char :: "char \<Rightarrow> bool" where "date_char c \<longleftrightarrow> is_digit c \<or> c = CHR ''-''"

lemma TrimSpace_date: "list_all date_char s \<Longrightarrow> TrimSpace s = s"
  by (rule TrimSpace_plain) (assumption, code_simp)

lemma as_of_day:
  assumes "four_digit_year z"
  shows "as_of D (dca_input D z) = format_date z"
proof -
  have "0 \<le> month (civil_of_day z)" "month (civil_of_day z) < 10 ^ Suc 1" "0 \<le> day (civil_of_day z)" "day (civil_of_day z) < 10 ^ Suc 1"
    using civil_of_day_props [of z] by (auto simp: valid_civil_def days_in_def split: if_splits)
  note m = pad_int_props [OF this(1,2)] and d = pad_int_props [OF this(3,4)]
  have y: "0 \<le> year (civil_of_day z)" "year (civil_of_day z) < 10 ^ Suc 3" using assms by (simp_all add: four_digit_year_def)
  have digits: "list_all is_digit (pad_int 4 (year (civil_of_day z)))" "list_all is_digit (pad_int 2 (month (civil_of_day z)))"
    "list_all is_digit (pad_int 2 (day (civil_of_day z)))" using pad_int_props(2) [OF y] m(2) d(2)
    by (simp_all add: eval_nat_numeral)
  then have "list_all date_char (format_date z)"
    by (auto simp: format_date_def Let_def list_all_iff date_char_def)
  from TrimSpace_date [OF this] have trim: "TrimSpace (format_date z) = format_date z" .
  have "length (format_date z) = 10" using parse_format_date [OF assms] by (auto simp: parse_date_def Let_def split: if_splits)
  with trim show ?thesis by (auto simp: as_of_def Let_def dca_input_def)
qed

abbreviation ledger_of :: "('f, 's) sched_world \<Rightarrow> ('f, 's) ledger" where "ledger_of w \<equiv> st_ledger (stables w)"

text \<open>The orders that a run for one of the days in \<open>Z\<close> may add.\<close>

definition scheduled :: "int set \<Rightarrow> 'f DCAPlan list \<Rightarrow> 'f transaction \<Rightarrow> bool" where
  "scheduled Z plans r \<longleftrightarrow> (\<exists>z \<in> Z. \<exists>p \<in> set plans. dp_Active p = 1 \<and> dp_PortfolioID p = 1 \<and>
     not_due (format_date z) (mask_day z) p = None \<and> tx_code r = dp_FundCode p \<and> tx_confirm r = format_date z \<and>
     tx_order r = order_id (dp_ID p) (format_date z))"

definition adds :: "int set \<Rightarrow> ('f, 's) sched_world \<Rightarrow> ('f, 's) sched_world \<Rightarrow> bool" where
  "adds Z w w' \<longleftrightarrow> lg_plans (ledger_of w') = lg_plans (ledger_of w) \<and>
     (\<forall>r \<in> set (lg_tx (ledger_of w')). r \<in> set (lg_tx (ledger_of w)) \<or> scheduled Z (lg_plans (ledger_of w)) r)"

lemma adds_refl: "ledger_of w' = ledger_of w \<Longrightarrow> adds Z w w'"
  by (simp add: adds_def)

lemma adds_trans: "adds Z w1 w2 \<Longrightarrow> adds Z w2 w3 \<Longrightarrow> adds Z w1 w3"
  by (auto simp: adds_def)

lemma adds_mono: "adds Z w w' \<Longrightarrow> Z \<subseteq> Z' \<Longrightarrow> adds Z' w w'"
  by (fastforce simp: adds_def scheduled_def)

lemma placed_plans: "orders_placed E i pid asOf maskDay P t t' \<Longrightarrow> lg_plans t' = lg_plans t"
  by (induction rule: orders_placed.induct) (simp_all add: add_order_def)

lemma run_plans_kept:
  assumes "RunDCAAutoInvest D i d = (res, d')"
  shows "lg_plans (tables d') = lg_plans (tables d)"
  using Run_cases [OF assms] placed_plans by auto

lemma run_dca_ledger:
  assumes "run_dca D z w = (e, w')"
  obtains res d' where "RunDCAAutoInvest D (dca_input D z) \<lparr>tables = ledger_of w, faults = faults (sw_db w)\<rparr> = (res, d')"
    "ledger_of w' = tables d'" "faults (sw_db w') = faults d'" "e = None \<longleftrightarrow> (\<exists>r. res = Inr r)"
proof -
  obtain res d' where r: "RunDCAAutoInvest D (dca_input D z) \<lparr>tables = ledger_of w, faults = faults (sw_db w)\<rparr> = (res, d')"
    by (metis surj_pair)
  with assms have "ledger_of w' = tables d'" "faults (sw_db w') = faults d'" "e = None \<longleftrightarrow> (\<exists>r. res = Inr r)"
    by (auto simp: run_dca_def zoom_def put_ledger_def split: sum.splits)
  with r show thesis by (rule that)
qed

lemma order_row_confirm [simp]: "tx_confirm (order_row E asOf a s p) = asOf"
  by (simp add: order_row_def Let_def)

lemma dca_input_fields [simp]:
  "in_PortfolioID (dca_input D z) = 1" "in_PlanID (dca_input D z) = 0" "in_FundCode (dca_input D z) = []"
  "\<not> in_DryRun (dca_input D z)"
  by (simp_all add: dca_input_def)

lemma adds_run_dca:
  assumes "run_dca D z w = (e, w')" "four_digit_year z"
  shows "adds {z} w w'"
proof -
  from run_dca_ledger [OF assms(1)] obtain res d' where
    r: "RunDCAAutoInvest D (dca_input D z) \<lparr>tables = ledger_of w, faults = faults (sw_db w)\<rparr> = (res, d')"
    "ledger_of w' = tables d'" by metis
  note day = as_of_day [OF assms(2)] and parse = parse_format_date [OF assms(2)]
  have "t \<in> set (lg_tx (ledger_of w)) \<or> scheduled {z} (lg_plans (ledger_of w)) t" if "t \<in> set (lg_tx (tables d'))" for t
    using run_orders_due [OF r(1) that] unfolding day parse
    by (auto simp: due_order_def Let_def scheduled_def selected_def clampPortfolioID_def day)
  with run_plans_kept [OF r(1)] r(2) show ?thesis by (simp add: adds_def)
qed

lemma adds_backfill:
  assumes "backfill_days D ds e0 w = (e, w')" "\<forall>z \<in> set ds. four_digit_year z"
  shows "adds (set ds) w w'"
  using assms
proof (induction D ds e0 w rule: backfill_days.induct)
  case (2 D due ds e0 w)
  obtain e1 w1 where 1: "run_dca D due w = (e1, w1)" by (metis surj_pair)
  have "adds {due} w w1" by (rule adds_run_dca [OF 1]) (use 2 in simp)
  moreover have "adds (set ds) w1 w'" using 2 1 by simp
  ultimately show ?case by (auto intro: adds_trans elim: adds_mono)
qed (simp add: adds_refl)

lemma adds_crawl: "crawl f w = (e, w') \<Longrightarrow> adds Z w w'"
  by (auto simp: crawl_def Let_def adds_def put_ledger_def split: prod.splits)

lemma ledger_run_sql:
  assumes "\<And>d. st_ledger (tables (snd (m d))) = st_ledger (tables d)" "run_sql m w = (e, w')"
  shows "ledger_of w' = ledger_of w"
  using assms(2) assms(1) [of "sw_db w"] by (auto simp: run_sql_def split: prod.splits sum.splits)

lemma stmt_ledger: "(\<And>t. st_ledger (snd (f t)) = st_ledger t) \<Longrightarrow> st_ledger (tables (snd (stmt f d))) = st_ledger (tables d)"
  by (simp add: stmt_def split: list.split bool.split)

lemma zoom_auth_ledger: "st_ledger (tables (snd (zoom st_auth put_auth m d))) = st_ledger (tables d)"
  by (simp add: zoom_def put_auth_def split: prod.split)

lemma ledger_sweep:
  "sweep_sessions E t w = (e, w') \<Longrightarrow> ledger_of w' = ledger_of w"
  "sweep_confirmations t w = (e, w') \<Longrightarrow> ledger_of w' = ledger_of w"
  "sweep_audit t w = (e, w') \<Longrightarrow> ledger_of w' = ledger_of w"
  "sweep_events E t w = (e, w') \<Longrightarrow> ledger_of w' = ledger_of w"
  "run_sql (stmt (\<lambda>t. ((), t))) w = (e, w') \<Longrightarrow> ledger_of w' = ledger_of w"
  by (auto simp: sweep_sessions_def sweep_confirmations_def sweep_audit_def sweep_events_def zoom_auth_ledger stmt_ledger
    split: if_splits dest!: ledger_run_sql [rotated])

text \<open>The days of a window whose plans run: the day itself at 20:00, the seven before in the morning.\<close>

definition plan_days :: "time \<Rightarrow> int set" where
  "plan_days now = (if \<not> in_weekdays now then {} else if china_hour now = 20 then {china_day now}
     else if 6 \<le> china_hour now \<and> china_hour now \<le> 9 then {china_day now - 7 ..< china_day now} else {})"

lemma set_missed_days: "set (missed_days now) = {china_day now - 7 ..< china_day now}"
proof -
  have "(\<lambda>i. z - i) ` {1..7} = {z - 7 ..< z}" for z :: int by (auto simp: image_iff intro!: bexI [of _ "z - _"])
  then show ?thesis by (simp add: missed_days_def dcaBackfillLookbackDays_def)
qed

lemma weekday_cases: "in_weekdays now \<longleftrightarrow> weekday (china_day now) \<noteq> 6 \<and> weekday (china_day now) \<noteq> 0"
  using weekday_range [of "china_day now"] by (auto simp: in_weekdays_def)

fun event_plan_days :: "sched_event \<Rightarrow> int set" where
  "event_plan_days (EvTick _ now) = plan_days now"
| "event_plan_days (EvStartup _ now) = (if in_weekdays now then {china_day now - 7 ..< china_day now} else {})"
| "event_plan_days _ = {}"

lemma adds_materialization:
  assumes "runDCAMaterialization E now w = (e, w')" "four_digit_year (china_day now)"
  shows "adds {china_day now} w w'"
  using assms adds_run_dca by (fastforce simp: runDCAMaterialization_def adds_refl split: option.splits)

lemma adds_runDCABackfill:
  assumes "runDCABackfill E now w = (e, w')" "in_weekdays now \<Longrightarrow> \<forall>z \<in> {china_day now - 7 ..< china_day now}. four_digit_year z"
  shows "adds (if in_weekdays now then {china_day now - 7 ..< china_day now} else {}) w w'"
  using assms adds_backfill [of _ "missed_days now" None w e w']
  by (auto simp: runDCABackfill_def weekday_cases set_missed_days adds_refl split: option.splits if_splits)

lemma adds_claim: "claimWindow job wd at w = (ok, w') \<Longrightarrow> adds Z w w'"
proof -
  assume c: "claimWindow job wd at w = (ok, w')"
  have ledger: "st_ledger (tables (snd (stmt (insert_claim job wd at) d))) = st_ledger (tables d)"
    "st_ledger (tables (snd (stmt (advance_claim job wd at) d))) = st_ledger (tables d)"
    "st_ledger (tables (snd (stmt (\<lambda>t. (read_claim (schedulerClaimCode job) t, t)) d))) = st_ledger (tables d)" for d
    by (rule stmt_ledger, simp add: insert_claim_def advance_claim_def Let_def split: option.split)+
  have "st_ledger (tables (snd (claim_write job wd at found d))) = st_ledger (tables d)" for found d
    using ledger(1,2) [of d] by (auto simp: claim_write_def ledger(3) split: claim_state.split prod.split sum.split insert_answer.split)
  note after_write = this
  have "st_ledger (tables (snd (claimWindowDurable job wd at d))) = st_ledger (tables d)" for d
    using ledger(3) [of d] by (auto simp: claimWindowDurable_def after_write split: prod.split sum.split)
  from this [of "sw_db w"] c have "ledger_of w' = ledger_of w"
    by (auto simp: claimWindow_def set_lastRun_def split: if_splits prod.splits)
  then show ?thesis by (rule adds_refl)
qed

lemma adds_window:
  assumes "window_of now = Some job" "\<forall>z \<in> plan_days now. four_digit_year z"
  shows "adds (plan_days now) w (run_window E clk now job w)"
proof -
  have "adds (plan_days now) w (price_dca E now w)" if h: "china_hour now = 20"
  proof -
    obtain e1 w1 where 1: "crawl (se_refresh_all E) w = (e1, w1)" by (metis surj_pair)
    obtain e2 w2 where 2: "(case se_indices E of None \<Rightarrow> (None, w1) | Some f \<Rightarrow> crawl f w1) = (e2, w2)" by (metis surj_pair)
    obtain e3 w3 where 3: "(if in_weekdays now then runDCAMaterialization E now w2 else (None, w2)) = (e3, w3)"
      by (metis surj_pair)
    have "adds (plan_days now) w w1" by (rule adds_crawl [OF 1])
    moreover have "adds (plan_days now) w1 w2" using 2 adds_crawl by (auto simp: adds_refl split: option.splits)
    moreover have "adds (plan_days now) w2 w3"
      using 3 h assms(2) adds_materialization [of E now w2 e3 w3] by (auto simp: plan_days_def adds_refl split: if_splits)
    moreover have "adds (plan_days now) w3 (price_dca E now w)"
      by (rule adds_refl) (simp add: price_dca_def 1 2 3)
    ultimately show ?thesis by (blast intro: adds_trans)
  qed
  moreover have "adds (plan_days now) w (holdings E now w)"
    by (auto simp: holdings_def adds_refl split: option.split prod.split dest: adds_crawl intro: adds_trans)
  moreover have "adds (plan_days now) w (snd (runDCABackfill E now w))" if h: "6 \<le> china_hour now" "china_hour now \<le> 9"
    using adds_runDCABackfill [where now = now and E = E and w = w, OF surjective_pairing] assms(2) h
    by (cases "in_weekdays now") (simp_all add: plan_days_def)
  moreover have "adds (plan_days now) w (wal E clk now w)"
    by (rule adds_refl) (auto simp: wal_def sweepExpiredState_def split: prod.split if_split dest!: ledger_sweep)
  ultimately show ?thesis using assms(1)
    by (auto simp: window_of_def Let_def run_window_def split: if_splits)
qed

lemma adds_step:
  assumes "\<forall>z \<in> event_plan_days e. four_digit_year z"
  shows "adds (event_plan_days e) w (snd (sched_step E e w))"
proof (cases e)
  case (EvTick clk now)
  show ?thesis
  proof (cases "window_of now")
    case (Some job)
    obtain ok w1 where c: "claimWindow job (format_date (china_day now)) (claimed_at clk) w = (ok, w1)" by (metis surj_pair)
    from adds_claim [OF c] adds_window [OF Some, of w1 E clk] assms EvTick Some c show ?thesis
      by (cases ok) (auto simp: tick_def adds_refl intro: adds_trans)
  qed (simp add: EvTick tick_def adds_refl)
next
  case (EvStartup cancelled now)
  let ?w = "on_sched (\<lambda>s. s\<lparr>sc_startup := False\<rparr>) w" and ?Z = "event_plan_days e"
  obtain ok w1 where c: "claimWindow ''startup_refresh'' (format_date (china_day now)) (claimed_at now) ?w = (ok, w1)"
    by (metis surj_pair)
  obtain err w2 where r: "crawl (se_refresh_stale E) w1 = (err, w2)" by (metis surj_pair)
  obtain e3 w3 where b: "runDCABackfill E now (recordJob ''startup_refresh'' now err w2) = (e3, w3)" by (metis surj_pair)
  have "adds ?Z w ?w" by (simp add: adds_refl on_sched_def)
  moreover have "adds ?Z ?w w1" by (rule adds_claim [OF c])
  moreover have "adds ?Z w1 w2" by (rule adds_crawl [OF r])
  moreover have "adds ?Z w2 (recordJob ''startup_refresh'' now err w2)" by (simp add: adds_refl)
  moreover have "adds ?Z (recordJob ''startup_refresh'' now err w2) w3"
    using adds_runDCABackfill [OF b] assms EvStartup by (auto split: if_splits)
  ultimately have "adds ?Z w ?w" "adds ?Z w w1" "adds ?Z w w3" by (blast intro: adds_trans)+
  then show ?thesis using c r b EvStartup
    by (auto simp: runStartupCatchUp_def adds_refl split: bool.split)
qed (simp_all add: on_sched_def adds_refl)

lemma adds_run:
  assumes "\<forall>e \<in> set es. \<forall>z \<in> event_plan_days e. four_digit_year z"
  shows "adds (\<Union>e \<in> set es. event_plan_days e) w (snd (sched_run E es w))"
  using assms
proof (induction es arbitrary: w)
  case (Cons e es)
  obtain l w1 where 1: "sched_step E e w = (l, w1)" by (metis surj_pair)
  have "adds (event_plan_days e) w w1" using adds_step [of e w E] 1 Cons.prems by simp
  moreover have "adds (\<Union>e \<in> set es. event_plan_days e) w1 (snd (sched_run E es w1))" using Cons by simp
  ultimately have "adds (event_plan_days e \<union> (\<Union>e \<in> set es. event_plan_days e)) w (snd (sched_run E es w1))"
    by (blast intro: adds_trans adds_mono)
  with 1 show ?case by (auto split: prod.split)
qed (simp add: adds_refl)

text \<open>
  C23. The scheduler invests on weekdays only. Whatever happens in a run of it, a new transaction is
  the order of an active plan of the portfolio for a day that was due for it: the day of a tick in
  the hour of 20:00, or one of the seven days before a morning tick or a start; ticks and starts on
  Saturday and Sunday, and every other hour, place none.
\<close>

theorem scheduled_orders_due:
  assumes "\<forall>e \<in> set es. \<forall>z \<in> event_plan_days e. four_digit_year z"
    and "r \<in> set (lg_tx (ledger_of (snd (sched_run E es w))))" "r \<notin> set (lg_tx (ledger_of w))"
  shows "scheduled (\<Union>e \<in> set es. event_plan_days e) (lg_plans (ledger_of w)) r"
  using adds_run [OF assms(1)] assms(2,3) unfolding adds_def by blast

section \<open>Missed days are made up\<close>

lemma run_dca_serves:
  assumes "faults (sw_db w) = []" "can_commit D (ledger_of w)" "four_digit_year z"
  shows "\<exists>w'. run_dca D z w = (None, w') \<and> faults (sw_db w') = [] \<and>
    orders_placed D (dca_input D z) 1 (format_date z) (mask_day z) (set (due_plans (dca_input D z) 1 (ledger_of w)))
      (ledger_of w) (ledger_of w') \<and>
    (\<forall>p \<in> set (due_plans (dca_input D z) 1 (ledger_of w)). not_due (format_date z) (mask_day z) p = None \<longrightarrow>
       priced D p (ledger_of w) \<longrightarrow> served (format_date z) p (ledger_of w'))"
proof -
  obtain e w' where r: "run_dca D z w = (e, w')" by (metis surj_pair)
  note day = as_of_day [OF assms(3), of D] and parse = parse_format_date [OF assms(3)]
  let ?d = "\<lparr>tables = ledger_of w, faults = faults (sw_db w)\<rparr>"
  have pid: "clampPortfolioID (in_PortfolioID (dca_input D z)) = 1" by (simp add: clampPortfolioID_def)
  from run_serves [of D "dca_input D z" z ?d] assms(1,2) day parse pid obtain x d' where
    s: "RunDCAAutoInvest D (dca_input D z) ?d = (Inr x, d')" "faults d' = []"
    "\<forall>p \<in> set (due_plans (dca_input D z) 1 (ledger_of w)). not_due (format_date z) (mask_day z) p = None \<longrightarrow>
       priced D p (ledger_of w) \<longrightarrow> served (format_date z) p (tables d')" by auto
  from Run_cases [OF s(1)] day parse pid none_placed have
    "orders_placed D (dca_input D z) 1 (format_date z) (mask_day z) (set (due_plans (dca_input D z) 1 (ledger_of w)))
      (ledger_of w) (tables d')" by auto
  moreover from run_dca_ledger [OF r] obtain res d'' where q: "RunDCAAutoInvest D (dca_input D z) ?d = (res, d'')"
    "ledger_of w' = tables d''" "faults (sw_db w') = faults d''" "e = None \<longleftrightarrow> (\<exists>r. res = Inr r)" by blast
  then have "res = Inr x" "d'' = d'" using s(1) by simp_all
  ultimately show ?thesis using q(2-4) r s(2,3) by auto
qed

lemma due_plans_day: "due_plans (dca_input D z) 1 t = due_plans (dca_input D z') 1 t"
proof -
  have "selected (dca_input D z) 1 = selected (dca_input D z') 1" by (simp add: selected_def fun_eq_iff)
  then show ?thesis by (simp add: due_plans_def)
qed

lemma backfill_serves:
  assumes "faults (sw_db w) = []" "can_commit D (ledger_of w)" "\<forall>z \<in> set ds. four_digit_year z"
    and "t0 = ledger_of w"
  shows "\<exists>e w'. backfill_days D ds e0 w = (e, w') \<and> faults (sw_db w') = [] \<and>
    (\<forall>date p. served date p t0 \<longrightarrow> served date p (ledger_of w')) \<and>
    (\<forall>z \<in> set ds. \<forall>p \<in> set (due_plans (dca_input D 0) 1 t0). not_due (format_date z) (mask_day z) p = None \<longrightarrow>
       priced D p t0 \<longrightarrow> served (format_date z) p (ledger_of w'))"
  using assms
proof (induction ds arbitrary: e0 w t0)
  case (Cons z ds)
  from run_dca_serves [OF Cons.prems(1,2), of z] Cons.prems(3) obtain w1 where
    1: "run_dca D z w = (None, w1)" "faults (sw_db w1) = []"
    "orders_placed D (dca_input D z) 1 (format_date z) (mask_day z) (set (due_plans (dca_input D z) 1 (ledger_of w)))
      (ledger_of w) (ledger_of w1)"
    "\<forall>p \<in> set (due_plans (dca_input D z) 1 (ledger_of w)). not_due (format_date z) (mask_day z) p = None \<longrightarrow>
       priced D p (ledger_of w) \<longrightarrow> served (format_date z) p (ledger_of w1)" by auto
  have frame: "can_commit D (ledger_of w1)" "priced D p (ledger_of w1) = priced D p (ledger_of w)"
    "due_plans (dca_input D 0) 1 (ledger_of w1) = due_plans (dca_input D 0) 1 (ledger_of w)" for p
    using placed_frame [OF 1(3)] placed_plans [OF 1(3)] Cons.prems(2) latest_nav_cong [of "ledger_of w1" "ledger_of w"]
    by (auto simp: can_commit_def priced_def due_plans_def)
  from Cons.IH [OF 1(2) frame(1) _ refl, of "or_first e0 None"] Cons.prems(3) obtain e w' where
    2: "backfill_days D ds (or_first e0 None) w1 = (e, w')" "faults (sw_db w') = []"
    "\<And>date p. served date p (ledger_of w1) \<Longrightarrow> served date p (ledger_of w')"
    "\<forall>z \<in> set ds. \<forall>p \<in> set (due_plans (dca_input D 0) 1 (ledger_of w)). not_due (format_date z) (mask_day z) p = None \<longrightarrow>
       priced D p (ledger_of w) \<longrightarrow> served (format_date z) p (ledger_of w')"
    unfolding frame by auto
  have "served (format_date z) p (ledger_of w')" if "p \<in> set (due_plans (dca_input D 0) 1 (ledger_of w))"
    "not_due (format_date z) (mask_day z) p = None" "priced D p (ledger_of w)" for p
    using 1(4) that 2(3) due_plans_day [of D z "ledger_of w" 0] by auto
  with 1 2 served_placed [OF 1(3)] Cons.prems(4) show ?case by auto
qed simp

lemma claim_clean:
  assumes "faults (sw_db w) = []" "mget (memory w) job [] \<noteq> wd"
    and "read_claim (schedulerClaimCode job) (stables w) \<notin> {Found wd, NullDate}"
  shows "\<exists>w'. claimWindow job wd at w = (True, w') \<and> faults (sw_db w') = [] \<and> ledger_of w' = ledger_of w"
proof (cases "read_claim (schedulerClaimCode job) (stables w)")
  case NoTable
  with assms show ?thesis by (simp add: claimWindow_def claimWindowDurable_def claim_write_def stmt_clean set_lastRun_def)
next
  case NoRow
  then obtain rows where rows: "st_crawl (stables w) = Some rows" "\<forall>r \<in> set rows. cw_code r \<noteq> schedulerClaimCode job"
    by (auto simp: read_claim_def select1_None_iff split: option.splits)
  then have "\<exists>t. insert_claim job wd at (stables w) = (Inserted, t) \<and> st_ledger t = ledger_of w"
    by (auto simp: insert_claim_def Let_def list_ex_iff)
  then obtain t where "insert_claim job wd at (stables w) = (Inserted, t)" "st_ledger t = ledger_of w" by blast
  with assms NoRow show ?thesis
    by (simp add: claimWindow_def claimWindowDurable_def claim_write_def stmt_clean set_lastRun_def)
next
  case (Found e)
  obtain t where "advance_claim job wd at (stables w) = (True, t)" using read_after_advance [OF Found] by blast
  moreover from this have "st_ledger t = ledger_of w" by (auto simp: advance_claim_def split: option.splits)
  ultimately show ?thesis using assms Found
    by (simp add: claimWindow_def claimWindowDurable_def claim_write_def stmt_clean set_lastRun_def)
qed (use assms(3) in simp)

text \<open>
  C24. Missed days are made up: the first tick of a weekday's morning, with the day not yet claimed and
  no statement failing, leaves every active plan of the portfolio with an order, or an execution
  recorded before, for each of the seven days before that was due for it, if its fund has a price.
\<close>

theorem missed_days_served:
  assumes "sc_running (sw_sched w)" "in_weekdays now" "6 \<le> china_hour now" "china_hour now \<le> 9"
    and "mget (memory w) ''dca_backfill'' [] \<noteq> format_date (china_day now)"
    and "read_claim (schedulerClaimCode ''dca_backfill'') (stables w) \<notin> {Found (format_date (china_day now)), NullDate}"
    and "se_dca E = Some D" "faults (sw_db w) = []" "can_commit D (ledger_of w)"
    and "z \<in> {china_day now - 7 ..< china_day now}" "\<forall>z \<in> {china_day now - 7 ..< china_day now}. four_digit_year z"
    and "p \<in> set (due_plans (dca_input D z) 1 (ledger_of w))" "not_due (format_date z) (mask_day z) p = None"
      "priced D p (ledger_of w)"
  shows "served (format_date z) p (ledger_of (snd (sched_step E (EvTick clk now) w)))"
proof -
  have win: "window_of now = Some ''dca_backfill''" using assms(3,4) by (simp add: window_of_def Let_def)
  from claim_clean [OF assms(8,5,6)] obtain w1 where
    1: "claimWindow ''dca_backfill'' (format_date (china_day now)) (claimed_at clk) w = (True, w1)"
      "faults (sw_db w1) = []" "ledger_of w1 = ledger_of w" by blast
  have commit: "can_commit D (ledger_of w1)" using 1(3) assms(9) by simp
  from backfill_serves [OF 1(2) commit assms(11) [folded set_missed_days] 1(3) [symmetric], of None] obtain e w2 where
    2: "backfill_days D (missed_days now) None w1 = (e, w2)"
    "\<forall>z \<in> {china_day now - 7 ..< china_day now}. \<forall>p \<in> set (due_plans (dca_input D 0) 1 (ledger_of w)).
       not_due (format_date z) (mask_day z) p = None \<longrightarrow> priced D p (ledger_of w) \<longrightarrow> served (format_date z) p (ledger_of w2)"
    unfolding set_missed_days by blast
  have "snd (sched_step E (EvTick clk now) w) = w2"
    using assms(1,2,7) win 1(1) 2(1) by (simp add: tick_def run_window_def runDCABackfill_def weekday_cases)
  with 2(2) assms(10,12-14) due_plans_day [of D z "ledger_of w" 0] show ?thesis by auto
qed

section \<open>The price of a failed claim\<close>

lemma claim_memory:
  assumes "claimWindow job wd at w = (ok, w')"
  shows "mget (memory w') j [] = (if j = job then wd else mget (memory w) j [])"
  using assms by (auto simp: claimWindow_def set_lastRun_def split: if_splits prod.splits)

lemma claim_taken: "mget (memory w) job [] = wd \<Longrightarrow> claimWindow job wd at w = (False, w)"
  by (simp add: claimWindow_def)

lemma memory_same: "same_claims w w' \<Longrightarrow> memory w' = memory w"
  by (simp add: same_claims_def)

lemma taken_step:
  assumes "mget (memory w) job [] = format_date z" "sched_step E e w = (l, w')" "e \<noteq> EvProcess"
    and "\<forall>z' \<in> set (event_day e). z' = z"
  shows "mget (memory w') job [] = format_date z \<and> job \<notin> fst ` set l"
proof (cases e)
  case (EvTick clk now)
  show ?thesis
  proof (cases "sc_running (sw_sched w) \<and> window_of now \<noteq> None")
    case True
    then obtain j where j: "window_of now = Some j" by auto
    have z: "china_day now = z" using assms(4) EvTick by simp
    obtain ok w1 where c: "claimWindow j (format_date z) (claimed_at clk) w = (ok, w1)" by (metis surj_pair)
    have "\<not> ok" if "j = job" using claim_taken [OF assms(1), of "claimed_at clk"] c that by simp
    with claim_memory [OF c, of job] memory_same [OF same_claims_window [where w = w1 and E = E and clk = clk and now = now and job = j]] assms(1,2) True EvTick j c z
    show ?thesis by (cases ok) (auto simp: tick_def)
  qed (use assms EvTick in \<open>auto simp: tick_def split: if_splits\<close>)
next
  case (EvStartup cancelled now)
  let ?w = "on_sched (\<lambda>s. s\<lparr>sc_startup := False\<rparr>) w"
  have m: "memory ?w = memory w" by (simp add: on_sched_def)
  have z: "china_day now = z" using assms(4) EvStartup by simp
  obtain ok w1 where c: "claimWindow ''startup_refresh'' (format_date z) (claimed_at now) ?w = (ok, w1)" by (metis surj_pair)
  obtain err w2 where r: "crawl (se_refresh_stale E) w1 = (err, w2)" by (metis surj_pair)
  obtain e3 w3 where b: "runDCABackfill E now (recordJob ''startup_refresh'' now err w2) = (e3, w3)" by (metis surj_pair)
  have same: "memory w3 = memory w1"
    using memory_same [OF same_claims_crawl [OF r]] memory_same [OF same_claims_dca(2) [OF b]] by simp
  have "\<not> ok" if "job = ''startup_refresh''" using claim_taken [of ?w job, OF assms(1) [folded m]] c that by simp
  with claim_memory [OF c, of job] same m assms(1,2) EvStartup c r b z show ?thesis
    by (cases ok) (auto simp: runStartupCatchUp_def split: if_splits)
qed (use assms in \<open>auto simp: on_sched_def Start_def Stop_def\<close>)

lemma taken_run:
  assumes "mget (memory w) job [] = format_date z" "\<forall>e \<in> set es. e \<noteq> EvProcess \<and> (\<forall>z' \<in> set (event_day e). z' = z)"
  shows "job \<notin> fst ` set (fst (sched_run E es w))"
  using assms
proof (induction es arbitrary: w)
  case (Cons e es)
  obtain l w1 where 1: "sched_step E e w = (l, w1)" by (metis surj_pair)
  from taken_step [OF Cons.prems(1) 1] Cons.prems(2)
  have t: "mget (memory w1) job [] = format_date z" "job \<notin> fst ` set l" by auto
  obtain l2 w2 where 2: "sched_run E es w1 = (l2, w2)" by (metis surj_pair)
  from Cons.IH [OF t(1)] Cons.prems(2) 2 have "job \<notin> fst ` set l2" by simp
  with 1 2 t(2) show ?case by (auto simp: image_Un)
qed simp

text \<open>
  C38. A failed claim costs the day: if the first statement of a tick's claim fails, the table keeps no
  trace of it, and yet neither this tick nor any later event of the day in the same process runs the
  job of the window, however healthy the database is by then.
\<close>

theorem failed_claim_loses_day:
  assumes "window_of now = Some job" "faults (sw_db w) = True # fs"
    and "mget (memory w) job [] \<noteq> format_date (china_day now)"
    and "\<forall>e \<in> set es. e \<noteq> EvProcess \<and> (\<forall>z \<in> set (event_day e). z = china_day now)"
  shows "stables (snd (tick E clk now w)) = stables w \<and>
    job \<notin> fst ` set (fst (tick E clk now w)) \<and> job \<notin> fst ` set (fst (sched_run E es (snd (tick E clk now w))))"
proof -
  obtain ok w1 where c: "claimWindow job (format_date (china_day now)) (claimed_at clk) w = (ok, w1)" by (metis surj_pair)
  then have "\<not> ok" "stables w1 = stables w"
    using assms(2,3) by (auto simp: claimWindow_def claimWindowDurable_def stmt_def set_lastRun_def)
  then have t: "tick E clk now w = ([], w1)" using assms(1) c by (simp add: tick_def)
  have "mget (memory w1) job [] = format_date (china_day now)" using claim_memory [OF c, of job] by simp
  from taken_run [OF this assms(4)] t \<open>stables w1 = stables w\<close> show ?thesis by simp
qed

text \<open>Two processes that read the claim before either writes it both get the window.\<close>

lemma overlapping_processes_both_claim:
  assumes "read_claim (schedulerClaimCode job) (tables d) = Found e" "e \<noteq> wd" "faults d = []"
  shows "fst (claim_write job wd at (Found e) d) \<and> fst (claim_write job wd at' (Found e) (snd (claim_write job wd at (Found e) d)))"
proof -
  obtain t where t: "advance_claim job wd at (tables d) = (True, t)" "st_crawl t \<noteq> None"
    using read_after_advance [OF assms(1)] by blast
  then have "fst (advance_claim job wd at' t)" by (auto simp: advance_claim_def)
  with t assms show ?thesis by (simp add: claim_write_def stmt_clean split: prod.split)
qed

section \<open>The next run\<close>

definition next_window :: "string \<Rightarrow> int \<Rightarrow> int option \<Rightarrow> time \<Rightarrow> bool" where
  "next_window job hour dow now \<longleftrightarrow> (\<exists>t. nextRunEpoch job now = unix t \<and> now < t \<and> is_window hour dow t \<and>
     window_of t = Some job \<and> (\<forall>t'. is_window hour dow t' \<and> now < t' \<longrightarrow> t \<le> t'))"

text \<open>
  The announced next run is the next one: of the instants after now at which the window of the
  job opens - 20:00, Saturday 10:00 and 03:00 at UTC+8 - it is the first, and a tick at that instant
  enters the window.
\<close>

theorem next_run_is_next:
  "next_window ''price_dca'' 20 None now \<and> next_window ''holdings'' 10 (Some 6) now \<and> next_window ''wal'' 3 None now"
proof -
  have opens: "window_of t = Some job" if "is_window hour dow t"
    "(job, hour, dow) \<in> {(''price_dca'', 20, None), (''holdings'', 10, Some 6), (''wal'', 3, None)}" for job hour dow t
  proof -
    from that(1) obtain z where "t = china_at z hour" "\<forall>d. dow = Some d \<longrightarrow> weekday z = d"
      unfolding is_window_def by blast
    then show ?thesis using that(2) china_at_day [of hour z] by (auto simp: window_of_def Let_def)
  qed
  have "next_window job hour dow now" if "nextRunEpoch job now = unix (next_target now hour dow)"
    "(job, hour, dow) \<in> {(''price_dca'', 20, None), (''holdings'', 10, Some 6), (''wal'', 3, None)}" for job hour dow
  proof -
    have "0 \<le> hour" "hour < 24" "\<And>d. dow = Some d \<Longrightarrow> 0 \<le> d \<and> d < 7" using that(2) by auto
    from next_target_least [where now = now, OF this] opens [OF _ that(2), of "next_target now hour dow"] that(1)
    show ?thesis unfolding next_window_def by blast
  qed
  from this [of "''price_dca''" 20 None] this [of "''holdings''" 10 "Some 6"] this [of "''wal''" 3 None]
  show ?thesis by (simp add: nextRunEpoch_def)
qed

section \<open>A small run\<close>

text \<open>Day 19732 is Wednesday, 2024-01-10; the sample plan starts on 2024-01-01.\<close>

definition sample_crawler :: "(int, unit) crawler" where "sample_crawler l = (None, lg_navs l, ())"

definition sample_sched_env :: "(int, unit) sched_env" where
  "sample_sched_env = \<lparr>se_dca = Some sample_env, se_refresh_all = sample_crawler, se_refresh_stale = sample_crawler,
     se_indices = None, se_holdings = Some sample_crawler, se_dialect = Postgres, se_session_sweep = True,
     se_auth_sweep = True\<rparr>"

definition sample_world :: "bool list \<Rightarrow> (int, unit) sched_world" where
  "sample_world fs = \<lparr>sw_sched = Start NewScheduler, sw_db = \<lparr>tables = \<lparr>st_crawl = Some [], st_ledger = sample_ledger,
     st_auth = \<lparr>auth_credentials = None, auth_sessions = [], auth_events = []\<rparr>, st_conf = Some [], st_audit = Some []\<rparr>,
     faults = fs\<rparr>\<rparr>"

definition night :: time where "night = china_at 19732 3"

definition morning :: time where "morning = china_at 19732 7"

theorem windows_claimed_once_witness:
  "let log = fst (sched_run sample_sched_env [EvTick night night, EvProcess, EvStart, EvTick night (night + Hour div 2)]
       (sample_world [])) in log = [(''wal'', 19732)] \<and> distinct log"
proof -
  let ?es = "[EvTick night night, EvProcess, EvStart, EvTick night (night + Hour div 2)]"
  have "st_crawl (stables (sample_world [])) \<noteq> None" by (simp add: sample_world_def)
  moreover have "sorted (concat (map event_day ?es))" by code_simp
  moreover have "fst (sched_run sample_sched_env ?es (sample_world [])) = [(''wal'', 19732)]" by code_simp
  ultimately show ?thesis using windows_claimed_once [of "sample_world []" ?es sample_sched_env] by simp
qed

lemma sample_week: "list_all four_digit_year [19725, 19726, 19727, 19728, 19729, 19730, 19731 :: int]"
  by code_simp

lemma sample_days: "{china_day morning - 7 ..< china_day morning} = set [19725, 19726, 19727, 19728, 19729, 19730, 19731]"
  by code_simp

definition evening :: time where "evening = china_at 19725 20"

theorem scheduled_orders_due_witness:
  "\<exists>r. r \<in> set (lg_tx (ledger_of (snd (sched_run sample_sched_env [EvTick evening evening] (sample_world []))))) \<and>
     scheduled {19725} [sample_plan] r"
proof -
  let ?es = "[EvTick evening evening]" and ?w = "sample_world []"
  have days: "event_plan_days (EvTick evening evening) = {19725}" by code_simp
  have "map tx_order (lg_tx (ledger_of (snd (sched_run sample_sched_env ?es ?w)))) = [''DCA-7-20240103'']" by code_simp
  then obtain r where r: "r \<in> set (lg_tx (ledger_of (snd (sched_run sample_sched_env ?es ?w))))" by fastforce
  have "r \<notin> set (lg_tx (ledger_of ?w))" "lg_plans (ledger_of ?w) = [sample_plan]"
    by (simp_all add: sample_world_def sample_ledger_def)
  moreover have "\<forall>e \<in> set ?es. \<forall>z \<in> event_plan_days e. four_digit_year z" using days sample_week by simp
  ultimately show ?thesis using scheduled_orders_due [OF _ r] r days by auto
qed

theorem missed_days_served_witness:
  "served ''2024-01-03'' sample_plan
     (ledger_of (snd (sched_step sample_sched_env (EvTick morning morning) (sample_world []))))"
proof -
  let ?w = "sample_world []"
  have date: "format_date 19725 = ''2024-01-03''" by code_simp
  have w: "sc_running (sw_sched ?w)" "memory ?w = Map.empty" "st_crawl (stables ?w) = Some []" "faults (sw_db ?w) = []"
    "ledger_of ?w = sample_ledger" by (simp_all add: sample_world_def Start_def NewScheduler_def)
  have times: "in_weekdays morning" "6 \<le> china_hour morning" "china_hour morning \<le> 9"
    "format_date (china_day morning) \<noteq> []" by code_simp+
  have plan: "sample_plan \<in> set (due_plans (dca_input sample_env 19725) 1 sample_ledger)"
    "not_due ''2024-01-03'' (mask_day 19725) sample_plan = None"
    "latest_nav (dp_FundCode sample_plan) sample_ledger = Some 3" by code_simp+
  have priced: "priced sample_env sample_plan sample_ledger"
    using plan(3) by (simp add: priced_def sample_env_def sample_floats_def)
  have "can_commit sample_env sample_ledger" by (simp add: can_commit_def sample_ledger_def)
  moreover have "read_claim c (stables ?w) = NoRow" for c by (simp add: read_claim_def w select1_def)
  moreover have "se_dca sample_sched_env = Some sample_env" by (simp add: sample_sched_env_def)
  moreover have "\<forall>z \<in> {china_day morning - 7 ..< china_day morning}. four_digit_year z" "19725 \<in> {china_day morning - 7 ..< china_day morning}"
    using sample_week unfolding sample_days by (auto simp: list_all_iff)
  ultimately show ?thesis
    using missed_days_served [of ?w morning sample_sched_env sample_env 19725 sample_plan morning] w times plan(1,2) priced date
    by simp
qed

theorem failed_claim_loses_day_witness:
  "''price_dca'' \<notin> fst ` set (fst (sched_run sample_sched_env [EvTick evening (evening + 5 * 60 * Second)]
     (snd (tick sample_sched_env evening evening (sample_world [True])))))"
proof -
  let ?es = "[EvTick evening (evening + 5 * 60 * Second)]" and ?w = "sample_world [True]"
  have win: "window_of evening = Some ''price_dca''" and some: "[] \<noteq> format_date (china_day evening)"
    and day: "china_day (evening + 5 * 60 * Second) = china_day evening" by code_simp+
  have fault: "faults (sw_db ?w) = True # []" and "memory ?w = Map.empty"
    by (simp_all add: sample_world_def Start_def NewScheduler_def)
  then have new: "mget (memory ?w) ''price_dca'' [] \<noteq> format_date (china_day evening)" using some by (simp only: mget_None not_False_eq_True)
  have es: "\<forall>e \<in> set ?es. e \<noteq> EvProcess \<and> (\<forall>z \<in> set (event_day e). z = china_day evening)" using day by simp
  show ?thesis by (rule failed_claim_loses_day [OF win fault new es, THEN conjunct2, THEN conjunct2])
qed

end
