(* ===== verification/Triples.thy ===== *)
theory Triples
  imports Prelude
begin

text \<open>
  Triples for procedures on a database: started where \<open>P\<close> holds of the tables, the procedure ends where
  \<open>Q\<close> holds of its result and the tables, or fails where \<open>X\<close> holds, whatever statements of it the
  schedule of faults makes fail.
\<close>

definition triple :: "('t \<Rightarrow> bool) \<Rightarrow> ('t db, 'e, 'a) proc \<Rightarrow> ('a \<Rightarrow> 't \<Rightarrow> bool) \<Rightarrow> ('t \<Rightarrow> bool) \<Rightarrow> bool" where
  "triple P m Q X \<longleftrightarrow> (\<forall>d. P (tables d) \<longrightarrow>
     (case m d of (Inr a, d') \<Rightarrow> Q a (tables d') | (Inl _, d') \<Rightarrow> X (tables d')))"

lemma tripleD: "triple P m Q X \<Longrightarrow> P (tables d) \<Longrightarrow> m d = (Inr a, d') \<Longrightarrow> Q a (tables d')"
  by (fastforce simp: triple_def)

lemma tripleX: "triple P m Q X \<Longrightarrow> P (tables d) \<Longrightarrow> m d = (Inl e, d') \<Longrightarrow> X (tables d')"
  by (fastforce simp: triple_def)

section \<open>One rule for each construct\<close>

lemma triple_ret: "(\<And>t. P t \<Longrightarrow> Q a t) \<Longrightarrow> triple P (ret a) Q X"
  by (simp add: triple_def ret_def)

lemma triple_throw: "(\<And>t. P t \<Longrightarrow> X t) \<Longrightarrow> triple P (throw e) Q X"
  by (simp add: triple_def throw_def)

lemma triple_check: "(\<And>a t. P t \<Longrightarrow> x = Inr a \<Longrightarrow> Q a t) \<Longrightarrow> triple P (check x) Q (\<lambda>_. True)"
  by (cases x) (simp_all add: triple_def check_def)

lemma triple_andThen:
  "triple P m Q' X \<Longrightarrow> (\<And>a. triple (Q' a) (g a) Q X) \<Longrightarrow> triple P (andThen m g) Q X"
  by (fastforce simp: triple_def andThen_def split: prod.splits sum.splits)

lemma triple_stmt: "(\<And>t. P t \<Longrightarrow> Q (fst (f t)) (snd (f t)) \<and> X t) \<Longrightarrow> triple P (stmt f) Q X"
  by (auto simp: triple_def stmt_def split: list.split bool.split)

lemma triple_wrap: "triple P m Q X \<Longrightarrow> triple P (wrap g m) Q X"
  by (fastforce simp: triple_def wrap_def split: prod.splits sum.splits)

lemma triple_if: "(b \<Longrightarrow> triple P m1 Q X) \<Longrightarrow> (\<not> b \<Longrightarrow> triple P m2 Q X) \<Longrightarrow> triple P (if b then m1 else m2) Q X"
  by simp

lemma triple_option:
  "(\<And>x. v = Some x \<Longrightarrow> triple P (f x) Q (\<lambda>_. True)) \<Longrightarrow> triple P (case v of None \<Rightarrow> throw e | Some x \<Rightarrow> f x) Q (\<lambda>_. True)"
  by (cases v) (simp_all add: triple_throw)

section \<open>Changing the conditions\<close>

lemma triple_weaken: "triple P m Q X \<Longrightarrow> (\<And>t. P' t \<Longrightarrow> P t) \<Longrightarrow> (\<And>a t. Q a t \<Longrightarrow> Q' a t) \<Longrightarrow> (\<And>t. X t \<Longrightarrow> X' t) \<Longrightarrow>
    triple P' m Q' X'"
  by (fastforce simp: triple_def split: prod.splits sum.splits)

lemma triple_step:
  assumes "\<And>s. triple (\<lambda>t. t = s) m (\<lambda>a. R a s) (\<lambda>_. True)" "\<And>s a t. P s \<Longrightarrow> R a s t \<Longrightarrow> Q a t"
  shows "triple P m Q (\<lambda>_. True)"
  using assms by (fastforce simp: triple_def split: prod.splits sum.splits)

lemma triple_each: "(\<And>s. P s \<Longrightarrow> triple (\<lambda>t. t = s) m Q X) \<Longrightarrow> triple P m Q X"
  by (simp add: triple_def)

lemma triple_pure: "(A \<Longrightarrow> triple P m Q X) \<Longrightarrow> triple (\<lambda>t. P t \<and> A) m Q X"
  by (auto simp: triple_def)

end
