(* ===== verification/Snapshot.thy ===== *)
theory Snapshot
  imports AuthStore Runes Dates Triples
begin

text \<open>
  The books: the transactions, and the row of \<open>portfolio_snapshot\<close> that \<open>src/internal/snapshot/snapshot.go\<close>
  rebuilds from them. Amounts are float64; their arithmetic is the record \<open>money\<close>, with the engine's
  \<open>SUM\<close> in it, and nothing is assumed of it.
\<close>

record 'f money =
  mo_int :: "int \<Rightarrow> 'f"
  mo_le :: "'f \<Rightarrow> 'f \<Rightarrow> bool"
  mo_less :: "'f \<Rightarrow> 'f \<Rightarrow> bool"
  mo_eq :: "'f \<Rightarrow> 'f \<Rightarrow> bool"
  mo_add :: "'f \<Rightarrow> 'f \<Rightarrow> 'f"
  mo_sub :: "'f \<Rightarrow> 'f \<Rightarrow> 'f"
  mo_mul :: "'f \<Rightarrow> 'f \<Rightarrow> 'f"
  mo_div :: "'f \<Rightarrow> 'f \<Rightarrow> 'f"
  mo_neg :: "'f \<Rightarrow> 'f"
  mo_abs :: "'f \<Rightarrow> 'f"
  mo_round :: "'f \<Rightarrow> 'f"
  mo_finite :: "'f \<Rightarrow> bool"
  mo_sum :: "'f list \<Rightarrow> 'f"

section \<open>Tables\<close>

record 'f txn =
  tn_seq :: int
  tn_order :: "string option"
  tn_time :: "string option"
  tn_confirm :: "string option"
  tn_type :: "string option"
  tn_direction :: "string option"
  tn_code :: "string option"
  tn_name :: "string option"
  tn_amount :: "'f option"
  tn_share :: "'f option"
  tn_fee :: "'f option"
  tn_cash :: "'f option"
  tn_change :: "'f option"
  tn_days :: "int option"

record 'f snap =
  sn_code :: string
  sn_name :: "string option"
  sn_held :: "'f option"
  sn_cost :: "'f option"
  sn_nav :: "'f option"
  sn_value :: "'f option"
  sn_pnl :: "'f option"
  sn_pct :: "'f option"
  sn_type :: "string option"
  sn_pid :: "int option"

record 'f books =
  bk_tx :: "'f txn list"
  bk_next :: int
  bk_details :: "(string \<times> string option \<times> string option) list"
  bk_navs :: "(string \<times> string \<times> 'f option) list"
  bk_snaps :: "'f snap list"

text \<open>
  The engine: its dialect, whether the legacy primary key of \<open>portfolio_snapshot\<close> is the code alone,
  and how it picks the maximum of names.
\<close>

record 'f books_env =
  be_money :: "'f money"
  be_dialect :: dialect
  be_single_pk :: bool
  be_max_name :: "string list \<Rightarrow> string"

datatype books_error = BadInput | NotFound | DbError

type_synonym ('f, 'a) books_proc = "('f books db, books_error, 'a) proc"

definition qry :: "('f books \<Rightarrow> 'a \<times> 'f books) \<Rightarrow> ('f, 'a) books_proc" where
  "qry f = wrap (\<lambda>_. DbError) (stmt f)"

section \<open>Rounding at the boundary\<close>

definition zero :: "'f money \<Rightarrow> 'f" where "zero M = mo_int M 0"

definition settled_zero :: "'f money \<Rightarrow> 'f \<Rightarrow> 'f" where
  "settled_zero M r = (if mo_eq M r (zero M) then zero M else r)"

definition RoundShares :: "'f money \<Rightarrow> 'f \<Rightarrow> 'f" where
  "RoundShares M v = settled_zero M (mo_div M (mo_round M (mo_mul M v (mo_int M 10000))) (mo_int M 10000))"

definition roundAmount :: "'f money \<Rightarrow> 'f \<Rightarrow> 'f" where
  "roundAmount M v = settled_zero M (mo_div M (mo_round M (mo_mul M v (mo_int M 100))) (mo_int M 100))"

definition HeldSharesDust :: "'f money \<Rightarrow> 'f" where
  "HeldSharesDust M = mo_div M (mo_int M 1) (mo_int M 1000)"

section \<open>Reading the ledger\<close>

definition rows_of :: "string \<Rightarrow> 'f books \<Rightarrow> 'f txn list" where
  "rows_of code t = filter (\<lambda>r. tn_code r = Some code) (bk_tx t)"

definition coalesce :: "'a option \<Rightarrow> 'a \<Rightarrow> 'a" where
  "coalesce x d = (case x of None \<Rightarrow> d | Some v \<Rightarrow> v)"

text \<open>\<open>SUM\<close> over no rows is \<open>NULL\<close>.\<close>

definition sum_of :: "'f money \<Rightarrow> ('f txn \<Rightarrow> 'f option) \<Rightarrow> 'f txn list \<Rightarrow> 'f option" where
  "sum_of M field rows = (if rows = [] then None else Some (mo_sum M (map (\<lambda>r. coalesce (field r) (zero M)) rows)))"

definition names_of :: "'f txn list \<Rightarrow> string list" where
  "names_of rows = List.map_filter tn_name rows"

definition ledger_sums :: "'f books_env \<Rightarrow> string \<Rightarrow> 'f books \<Rightarrow> 'f option \<times> 'f option \<times> string option" where
  "ledger_sums E code t = (let rows = rows_of code t; M = be_money E in
     (sum_of M tn_change rows, sum_of M tn_cash rows,
      if names_of rows = [] then None else Some (be_max_name E (names_of rows))))"

definition settle_shares :: "'f money \<Rightarrow> 'f option \<Rightarrow> 'f" where
  "settle_shares M s =
    (let h = (case s of None \<Rightarrow> zero M | Some v \<Rightarrow> RoundShares M v) in
     if mo_less M (mo_neg M (HeldSharesDust M)) h \<and> mo_less M h (HeldSharesDust M) then zero M else h)"

definition settle_cost :: "'f money \<Rightarrow> 'f option \<Rightarrow> 'f" where
  "settle_cost M s = (case s of None \<Rightarrow> zero M | Some v \<Rightarrow> roundAmount M v)"

definition nav_of :: "string \<Rightarrow> 'f books \<Rightarrow> 'f option" where
  "nav_of code t =
    (case sort_key (\<lambda>(_, date, _). map (of_char :: char \<Rightarrow> nat) date) (filter (\<lambda>(c, _). c = code) (bk_navs t)) of
       [] \<Rightarrow> None | rows \<Rightarrow> snd (snd (last rows)))"

definition nonempty :: "string option \<Rightarrow> string option" where
  "nonempty s = (case s of None \<Rightarrow> None | Some v \<Rightarrow> if v = [] then None else Some v)"

definition resolveIdentity :: "string \<Rightarrow> string option \<Rightarrow> ('f, string \<times> string) books_proc" where
  "resolveIdentity code txName =
    andThen (qry (\<lambda>t. (select1 (\<lambda>(c, _, _). c = code) (bk_details t), t))) (\<lambda>found.
      let (name, kind) = (case found of None \<Rightarrow> (None, None) | Some (_, n, k) \<Rightarrow> (n, k)) in
      ret (case nonempty name of Some n \<Rightarrow> n | None \<Rightarrow> coalesce (nonempty txName) code, coalesce (nonempty kind) ''fund''))"

text \<open>
  \<open>ORDER BY portfolio_id LIMIT 1\<close> into an \<open>int64\<close>: a \<open>NULL\<close> cannot be scanned; SQLite sorts it first,
  PostgreSQL last.
\<close>

definition first_pid :: "dialect \<Rightarrow> int option list \<Rightarrow> int option option" where
  "first_pid d pids =
    (let known = List.map_filter id pids in
     if pids = [] then None
     else if known = [] \<or> d = Sqlite \<and> None \<in> set pids then Some None
     else Some (Some (foldr min known (hd known))))"

definition resolvePortfolioID :: "'f books_env \<Rightarrow> string \<Rightarrow> ('f, int) books_proc" where
  "resolvePortfolioID E code =
    andThen (qry (\<lambda>t. (first_pid (be_dialect E) (map sn_pid (filter (\<lambda>s. sn_code s = code) (bk_snaps t))), t))) (\<lambda>p.
      case p of None \<Rightarrow> ret 1 | Some None \<Rightarrow> throw DbError | Some (Some pid) \<Rightarrow> ret (if pid \<le> 0 then 1 else pid))"

section \<open>Writing the row\<close>

datatype Mode = ModeFull | ModeLight

text \<open>The computed columns; the name and the kind are known up front in the full mode only.\<close>

record 'f valuation =
  va_held :: 'f
  va_cost :: 'f
  va_nav :: "'f option"
  va_value :: 'f
  va_pnl :: 'f
  va_pct :: 'f

definition valuate :: "'f money \<Rightarrow> 'f \<Rightarrow> 'f \<Rightarrow> 'f option \<Rightarrow> 'f \<Rightarrow> 'f valuation" where
  "valuate M held cost nav effNav =
    (let z = zero M;
         value = (if \<not> mo_eq M effNav z then roundAmount M (mo_mul M held effNav) else z);
         unrealized = roundAmount M (mo_add M value cost);
         denom = (if mo_less M cost z then mo_neg M cost else cost);
         pct = (if \<not> mo_eq M cost z then roundAmount M (mo_mul M (mo_div M unrealized denom) (mo_int M 100)) else z)
     in if mo_eq M held z then \<lparr>va_held = held, va_cost = cost, va_nav = nav, va_value = z, va_pnl = z, va_pct = z\<rparr>
        else \<lparr>va_held = held, va_cost = cost, va_nav = nav, va_value = value, va_pnl = unrealized, va_pct = pct\<rparr>)"

definition snap_hit :: "string \<Rightarrow> int \<Rightarrow> 'f snap \<Rightarrow> bool" where
  "snap_hit code pid s \<longleftrightarrow> sn_code s = code \<and> coalesce (sn_pid s) 1 = pid"

definition nullIfZero :: "'f money \<Rightarrow> 'f option \<Rightarrow> 'f option" where
  "nullIfZero M v = (case v of None \<Rightarrow> None | Some x \<Rightarrow> if mo_eq M x (zero M) then None else Some x)"

definition set_valuation :: "'f money \<Rightarrow> Mode \<Rightarrow> (string \<times> string) \<Rightarrow> 'f valuation \<Rightarrow> 'f snap \<Rightarrow> 'f snap" where
  "set_valuation M mode ident v s =
    (let s = s\<lparr>sn_held := Some (va_held v), sn_cost := Some (va_cost v), sn_value := Some (va_value v),
           sn_pnl := Some (va_pnl v), sn_pct := Some (va_pct v)\<rparr>
     in case mode of
          ModeFull \<Rightarrow> s\<lparr>sn_nav := va_nav v, sn_name := Some (fst ident), sn_type := Some (snd ident)\<rparr>
        | ModeLight \<Rightarrow> s\<lparr>sn_nav := (case nullIfZero M (va_nav v) of None \<Rightarrow> sn_nav s | Some x \<Rightarrow> Some x)\<rparr>)"

definition update_snap :: "'f money \<Rightarrow> Mode \<Rightarrow> (string \<times> string) \<Rightarrow> 'f valuation \<Rightarrow> string \<Rightarrow> int \<Rightarrow> 'f books \<Rightarrow> nat \<times> 'f books" where
  "update_snap M mode ident v code pid t = (count_where (snap_hit code pid) (bk_snaps t),
     t\<lparr>bk_snaps := update_where (snap_hit code pid) (set_valuation M mode ident v) (bk_snaps t)\<rparr>)"

definition new_snap :: "'f money \<Rightarrow> Mode \<Rightarrow> (string \<times> string) \<Rightarrow> 'f valuation \<Rightarrow> string \<Rightarrow> int \<Rightarrow> 'f snap" where
  "new_snap M mode ident v code pid = \<lparr>sn_code = code, sn_name = Some (fst ident), sn_held = Some (va_held v),
     sn_cost = Some (va_cost v), sn_nav = (case mode of ModeFull \<Rightarrow> va_nav v | ModeLight \<Rightarrow> nullIfZero M (va_nav v)),
     sn_value = Some (va_value v), sn_pnl = Some (va_pnl v), sn_pct = Some (va_pct v), sn_type = Some (snd ident),
     sn_pid = Some pid\<rparr>"

text \<open>The answer is false on a violation of the primary key.\<close>

definition insert_snap :: "bool \<Rightarrow> 'f snap \<Rightarrow> 'f books \<Rightarrow> bool \<times> 'f books" where
  "insert_snap single_pk s t =
    (if list_ex (\<lambda>r. sn_code r = sn_code s \<and> (single_pk \<or> sn_pid r = sn_pid s)) (bk_snaps t) then (False, t)
     else (True, t\<lparr>bk_snaps := bk_snaps t @ [s]\<rparr>))"

definition maxSnapshotWriteRetries :: nat where "maxSnapshotWriteRetries = 3"

text \<open>\<open>UPDATE\<close>, then \<open>INSERT\<close>; \<open>left\<close> is the number of attempts after this one.\<close>

fun snapshot_write :: "'f books_env \<Rightarrow> Mode \<Rightarrow> (string \<times> string) \<Rightarrow> 'f valuation \<Rightarrow> string \<Rightarrow> int \<Rightarrow> string option \<Rightarrow> nat
    \<Rightarrow> ('f, unit) books_proc" where
  "snapshot_write E mode ident v code pid txName left =
    andThen (qry (update_snap (be_money E) mode ident v code pid)) (\<lambda>n.
      if n > 0 then ret ()
      else andThen (case mode of ModeFull \<Rightarrow> ret ident | ModeLight \<Rightarrow> resolveIdentity code txName) (\<lambda>ident.
        andThen (qry (insert_snap (be_single_pk E) (new_snap (be_money E) mode ident v code pid))) (\<lambda>ok.
          if ok then ret ()
          else (case left of 0 \<Rightarrow> throw DbError
            | Suc left \<Rightarrow> snapshot_write E mode ident v code pid txName left))))"

declare snapshot_write.simps [simp del]

section \<open>Recalculation\<close>

definition existing_nav :: "'f books_env \<Rightarrow> string \<Rightarrow> int \<Rightarrow> ('f, 'f option) books_proc" where
  "existing_nav E code pid = qry (\<lambda>t. (case select1 (snap_hit code pid) (bk_snaps t) of None \<Rightarrow> None
     | Some s \<Rightarrow> (case sn_nav s of None \<Rightarrow> None
         | Some x \<Rightarrow> if mo_less (be_money E) (zero (be_money E)) x then Some x else None), t))"

definition recalc :: "'f books_env \<Rightarrow> string \<Rightarrow> int \<Rightarrow> Mode \<Rightarrow> bool \<Rightarrow> ('f, unit) books_proc" where
  "recalc E code pid0 mode resolveID =
    (if code = [] then ret ()
     else (let M = be_money E; z = zero M in
       andThen (qry (\<lambda>t. (ledger_sums E code t, t))) (\<lambda>(shares, cost, txName).
       andThen (case mode of ModeFull \<Rightarrow> resolveIdentity code txName | ModeLight \<Rightarrow> ret (code, ''fund'')) (\<lambda>ident.
       andThen (qry (\<lambda>t. (nav_of code t, t))) (\<lambda>nav.
       andThen (if resolveID then resolvePortfolioID E code else ret (if pid0 \<le> 0 then 1 else pid0)) (\<lambda>pid.
       andThen (if mode = ModeLight \<and> mo_eq M (coalesce nav z) z then existing_nav E code pid else ret None) (\<lambda>old.
         snapshot_write E mode ident
           (valuate M (settle_shares M shares) (settle_cost M cost) nav (coalesce old (coalesce nav z)))
           code pid txName (maxSnapshotWriteRetries - 1))))))))"

definition Recalc :: "'f books_env \<Rightarrow> string \<Rightarrow> Mode \<Rightarrow> ('f, unit) books_proc" where
  "Recalc E code mode = recalc E code 0 mode True"

definition RecalcForPortfolio :: "'f books_env \<Rightarrow> string \<Rightarrow> int \<Rightarrow> Mode \<Rightarrow> ('f, unit) books_proc" where
  "RecalcForPortfolio E code pid mode = recalc E code pid mode False"

section \<open>The row follows the ledger\<close>

definition ledger_held :: "'f books_env \<Rightarrow> string \<Rightarrow> 'f books \<Rightarrow> 'f" where
  "ledger_held E code t = settle_shares (be_money E) (sum_of (be_money E) tn_change (rows_of code t))"

definition ledger_cost :: "'f books_env \<Rightarrow> string \<Rightarrow> 'f books \<Rightarrow> 'f" where
  "ledger_cost E code t = settle_cost (be_money E) (sum_of (be_money E) tn_cash (rows_of code t))"

definition settled :: "'f books_env \<Rightarrow> string \<Rightarrow> 'f books \<Rightarrow> bool" where
  "settled E code t \<longleftrightarrow> (\<exists>s \<in> set (bk_snaps t). sn_code s = code \<and> sn_held s = Some (ledger_held E code t) \<and> sn_cost s = Some (ledger_cost E code t))"

text \<open>What writing the row of \<open>code\<close> leaves alone.\<close>

definition only_snap :: "string \<Rightarrow> 'f books \<Rightarrow> 'f books \<Rightarrow> bool" where
  "only_snap code t t' \<longleftrightarrow> bk_tx t' = bk_tx t \<and> bk_next t' = bk_next t \<and> bk_details t' = bk_details t \<and> bk_navs t' = bk_navs t \<and>
     filter (\<lambda>s. sn_code s \<noteq> code) (bk_snaps t') = filter (\<lambda>s. sn_code s \<noteq> code) (bk_snaps t)"

lemma only_snap_refl [simp]: "only_snap code t t"
  by (simp add: only_snap_def)

lemma only_snap_trans: "only_snap code t1 t2 \<Longrightarrow> only_snap code t2 t3 \<Longrightarrow> only_snap code t1 t3"
  by (simp add: only_snap_def)

section \<open>Reading\<close>

lemma triple_qry: "(\<And>t. P t \<Longrightarrow> Q (fst (f t)) (snd (f t)) \<and> X t) \<Longrightarrow> triple P (qry f) Q X"
  unfolding qry_def by (rule triple_wrap, rule triple_stmt)

text \<open>Procedures that only read keep whatever holds.\<close>

lemma read_resolveIdentity: "(\<And>t. P t \<Longrightarrow> X t) \<Longrightarrow> triple P (resolveIdentity code txName) (\<lambda>_. P) X"
  unfolding resolveIdentity_def Let_def
  by (rule triple_andThen [where Q' = "\<lambda>_. P"], rule triple_qry) (auto split: prod.split intro: triple_ret)

lemma read_resolvePortfolioID: "(\<And>t. P t \<Longrightarrow> X t) \<Longrightarrow> triple P (resolvePortfolioID E code) (\<lambda>_. P) X"
  unfolding resolvePortfolioID_def
  by (rule triple_andThen [where Q' = "\<lambda>_. P"], rule triple_qry) (auto split: option.split intro: triple_ret triple_throw)

lemma read_existing_nav: "(\<And>t. P t \<Longrightarrow> X t) \<Longrightarrow> triple P (existing_nav E code pid) (\<lambda>_. P) X"
  unfolding existing_nav_def by (rule triple_qry) simp

section \<open>A recalculated row is settled\<close>

definition carries :: "string \<Rightarrow> 'f valuation \<Rightarrow> 'f books \<Rightarrow> bool" where
  "carries code v t \<longleftrightarrow> (\<exists>s \<in> set (bk_snaps t). sn_code s = code \<and> sn_held s = Some (va_held v) \<and> sn_cost s = Some (va_cost v))"

lemma set_valuation_fields [simp]:
  "sn_code (set_valuation M mode ident v s) = sn_code s"
  "sn_held (set_valuation M mode ident v s) = Some (va_held v)" "sn_cost (set_valuation M mode ident v s) = Some (va_cost v)"
  by (cases mode; simp add: set_valuation_def Let_def)+

lemma update_snap_props:
  "only_snap code t (snd (update_snap M mode ident v code pid t))"
  "0 < fst (update_snap M mode ident v code pid t) \<Longrightarrow> carries code v (snd (update_snap M mode ident v code pid t))"
proof -
  have "filter (\<lambda>s. sn_code s \<noteq> code) (update_where (snap_hit code pid) (set_valuation M mode ident v) rows) =
      filter (\<lambda>s. sn_code s \<noteq> code) rows" for rows
    by (induction rows) (auto simp: update_where_def snap_hit_def)
  then show "only_snap code t (snd (update_snap M mode ident v code pid t))" by (simp add: update_snap_def only_snap_def)
  assume "0 < fst (update_snap M mode ident v code pid t)"
  then obtain s where "s \<in> set (bk_snaps t)" "snap_hit code pid s"
    by (auto simp: update_snap_def count_where_def filter_empty_conv)
  moreover from this have "set_valuation M mode ident v s \<in> set (bk_snaps (snd (update_snap M mode ident v code pid t)))"
    by (auto simp: update_snap_def set_update_where)
  ultimately show "carries code v (snd (update_snap M mode ident v code pid t))"
    by (auto simp: carries_def snap_hit_def intro!: bexI [of _ "set_valuation M mode ident v s"])
qed

lemma insert_snap_props:
  "only_snap code t (snd (insert_snap pk (new_snap M mode ident v code pid) t))"
  "fst (insert_snap pk (new_snap M mode ident v code pid) t) \<Longrightarrow>
     carries code v (snd (insert_snap pk (new_snap M mode ident v code pid) t))"
  by (auto simp: insert_snap_def new_snap_def only_snap_def carries_def)

lemma triple_update_snap:
  "triple (only_snap code t0) (qry (update_snap M mode ident v code pid))
     (\<lambda>n t. only_snap code t0 t \<and> (0 < n \<longrightarrow> carries code v t)) (only_snap code t0)"
  by (rule triple_qry) (use update_snap_props only_snap_trans in blast)

lemma triple_insert_snap:
  "triple (only_snap code t0) (qry (insert_snap pk (new_snap M mode ident v code pid)))
     (\<lambda>ok t. only_snap code t0 t \<and> (ok \<longrightarrow> carries code v t)) (only_snap code t0)"
  by (rule triple_qry) (use insert_snap_props only_snap_trans in blast)

text \<open>One attempt, with what follows a violated key.\<close>

lemma triple_attempt:
  assumes "\<And>i. triple (only_snap code t0) (again i) (\<lambda>_ t. only_snap code t0 t \<and> carries code v t) (only_snap code t0)"
  shows "triple (only_snap code t0)
    (andThen (qry (update_snap (be_money E) mode ident v code pid)) (\<lambda>n.
      if n > 0 then ret ()
      else andThen (case mode of ModeFull \<Rightarrow> ret ident | ModeLight \<Rightarrow> resolveIdentity code txName) (\<lambda>ident.
        andThen (qry (insert_snap (be_single_pk E) (new_snap (be_money E) mode ident v code pid))) (\<lambda>ok.
          if ok then ret () else again ident))))
    (\<lambda>_ t. only_snap code t0 t \<and> carries code v t) (only_snap code t0)"
proof (rule triple_andThen [OF triple_update_snap], rule triple_if)
  fix n :: nat
  show "triple (\<lambda>t. only_snap code t0 t \<and> (0 < n \<longrightarrow> carries code v t)) (ret ())
      (\<lambda>_ t. only_snap code t0 t \<and> carries code v t) (only_snap code t0)" if "0 < n"
    using that by (intro triple_ret) simp
  have "triple (only_snap code t0) (case mode of ModeFull \<Rightarrow> ret ident | ModeLight \<Rightarrow> resolveIdentity code txName)
      (\<lambda>_. only_snap code t0) (only_snap code t0)"
    by (cases mode) (simp_all add: triple_ret read_resolveIdentity)
  moreover have "triple (\<lambda>t. only_snap code t0 t \<and> (ok \<longrightarrow> carries code v t)) (if ok then ret () else again i)
      (\<lambda>_ t. only_snap code t0 t \<and> carries code v t) (only_snap code t0)" for ok i
    by (rule triple_if) (use assms in \<open>auto intro: triple_ret elim: triple_weaken\<close>)
  ultimately have "triple (only_snap code t0)
      (andThen (case mode of ModeFull \<Rightarrow> ret ident | ModeLight \<Rightarrow> resolveIdentity code txName) (\<lambda>ident.
        andThen (qry (insert_snap (be_single_pk E) (new_snap (be_money E) mode ident v code pid))) (\<lambda>ok.
          if ok then ret () else again ident)))
      (\<lambda>_ t. only_snap code t0 t \<and> carries code v t) (only_snap code t0)"
    by (intro triple_andThen [OF _ triple_andThen [OF triple_insert_snap]])
  then show "triple (\<lambda>t. only_snap code t0 t \<and> (0 < n \<longrightarrow> carries code v t))
      (andThen (case mode of ModeFull \<Rightarrow> ret ident | ModeLight \<Rightarrow> resolveIdentity code txName) (\<lambda>ident.
        andThen (qry (insert_snap (be_single_pk E) (new_snap (be_money E) mode ident v code pid))) (\<lambda>ok.
          if ok then ret () else again ident)))
      (\<lambda>_ t. only_snap code t0 t \<and> carries code v t) (only_snap code t0)"
    by (rule triple_weaken) simp_all
qed

lemma triple_snapshot_write:
  "triple (only_snap code t0) (snapshot_write E mode ident v code pid txName left)
     (\<lambda>_ t. only_snap code t0 t \<and> carries code v t) (only_snap code t0)"
proof (induction left arbitrary: ident)
  case 0
  show ?case by (subst snapshot_write.simps, rule triple_attempt) (simp add: triple_throw)
next
  case (Suc left)
  show ?case by (subst snapshot_write.simps, rule triple_attempt) (simp add: Suc.IH)
qed

lemma va_valuate [simp]: "va_held (valuate M h c nav e) = h" "va_cost (valuate M h c nav e) = c"
  by (simp_all add: valuate_def Let_def)

lemma carries_settled:
  assumes "only_snap code t0 t" "carries code (valuate (be_money E) (ledger_held E code t0) (ledger_cost E code t0) nav eff) t"
  shows "settled E code t"
  using assms by (simp add: settled_def carries_def ledger_held_def ledger_cost_def rows_of_def only_snap_def)

lemma triple_rest:
  assumes "\<And>ident nav pid old. triple P (f ident nav pid old) Q X" "\<And>t. P t \<Longrightarrow> X t"
  shows "triple P (andThen (case mode of ModeFull \<Rightarrow> resolveIdentity code txName | ModeLight \<Rightarrow> ret (code, k)) (\<lambda>ident.
       andThen (qry (\<lambda>t. (nav_of code t, t))) (\<lambda>nav.
       andThen (if resolveID then resolvePortfolioID E code else ret p) (\<lambda>pid.
       andThen (if b nav then existing_nav E code pid else ret None) (\<lambda>old. f ident nav pid old))))) Q X"
proof -
  have "triple P (case mode of ModeFull \<Rightarrow> resolveIdentity code txName | ModeLight \<Rightarrow> ret (code, k)) (\<lambda>_. P) X"
    using assms(2) by (cases mode) (simp_all add: triple_ret read_resolveIdentity)
  moreover have "triple P (qry (\<lambda>t. (nav_of code t, t))) (\<lambda>_. P) X" by (rule triple_qry) (simp add: assms(2))
  moreover have "triple P (if resolveID then resolvePortfolioID E code else ret p) (\<lambda>_. P) X"
    using assms(2) by (simp add: triple_ret read_resolvePortfolioID)
  moreover have "triple P (if b nav then existing_nav E code pid else ret None) (\<lambda>_. P) X" for nav pid
    using assms(2) by (simp add: triple_ret read_existing_nav)
  ultimately show ?thesis using assms(1) by (intro triple_andThen)
qed

lemma triple_recalc:
  assumes "code \<noteq> []"
  shows "triple (\<lambda>t. t = t0) (recalc E code pid0 mode resolveID) (\<lambda>_ t. only_snap code t0 t \<and> settled E code t)
    (only_snap code t0)"
proof -
  let ?M = "be_money E"
  obtain s c n where sums: "ledger_sums E code t0 = (s, c, n)" by (cases "ledger_sums E code t0")
  then have held: "ledger_held E code t0 = settle_shares ?M s" "ledger_cost E code t0 = settle_cost ?M c"
    by (simp_all add: ledger_sums_def ledger_held_def ledger_cost_def Let_def)
  have step: "triple (\<lambda>t. t = t0) (snapshot_write E mode ident (valuate ?M (settle_shares ?M s) (settle_cost ?M c) nav eff) code pid n k)
      (\<lambda>_ t. only_snap code t0 t \<and> settled E code t) (only_snap code t0)" for ident nav eff pid k
    unfolding held [symmetric]
    by (rule triple_weaken [OF triple_snapshot_write [of code t0]]) (simp_all, blast intro: carries_settled)
  show ?thesis
    unfolding recalc_def Let_def if_not_P [OF assms]
  proof (rule triple_andThen [where Q' = "\<lambda>a t. a = (s, c, n) \<and> t = t0"])
    show "triple (\<lambda>t. t = t0) (qry (\<lambda>t. (ledger_sums E code t, t))) (\<lambda>a t. a = (s, c, n) \<and> t = t0) (only_snap code t0)"
      by (rule triple_qry) (simp add: sums)
    fix a
    let ?m = "\<lambda>(shares, cost, txName). andThen (case mode of ModeFull \<Rightarrow> resolveIdentity code txName | ModeLight \<Rightarrow> ret (code, ''fund'')) (\<lambda>ident.
       andThen (qry (\<lambda>t. (nav_of code t, t))) (\<lambda>nav.
       andThen (if resolveID then resolvePortfolioID E code else ret (if pid0 \<le> 0 then 1 else pid0)) (\<lambda>pid.
       andThen (if mode = ModeLight \<and> mo_eq ?M (coalesce nav (zero ?M)) (zero ?M) then existing_nav E code pid else ret None) (\<lambda>old.
         snapshot_write E mode ident
           (valuate ?M (settle_shares ?M shares) (settle_cost ?M cost) nav (coalesce old (coalesce nav (zero ?M))))
           code pid txName (maxSnapshotWriteRetries - 1)))))"
    have "triple (\<lambda>t. t = t0) (?m (s, c, n)) (\<lambda>_ t. only_snap code t0 t \<and> settled E code t) (only_snap code t0)"
      unfolding prod.case by (rule triple_rest) (simp_all add: step)
    then show "triple (\<lambda>t. a = (s, c, n) \<and> t = t0) (?m a) (\<lambda>_ t. only_snap code t0 t \<and> settled E code t) (only_snap code t0)"
      by (cases "a = (s, c, n)") (simp_all add: triple_def)
  qed
qed

lemma recalc_frame: "triple (\<lambda>t. t = t0) (recalc E code pid0 mode resolveID) (\<lambda>_. only_snap code t0) (only_snap code t0)"
proof (cases "code = []")
  case True
  then show ?thesis by (auto simp: recalc_def intro!: triple_ret)
next
  case False
  from triple_recalc [OF this] show ?thesis by (rule triple_weaken) simp_all
qed

end
