(* ===== verification/Transactions.thy ===== *)
theory Transactions
  imports Snapshot
begin

text \<open>
  The writes to the books: import, update and delete of transactions
  (\<open>src/internal/service/admin/transactions.go\<close>, \<open>transactions_crud.go\<close>, \<open>transactions_helpers.go\<close>) and the
  adjustment of a position (\<open>src/internal/service/portfolio/adjust_position.go\<close>), each followed by the
  recalculation of the rows it touched.
\<close>

section \<open>Texts and amounts\<close>

definition NormalizeSecurityCode :: "string \<Rightarrow> string" where
  "NormalizeSecurityCode raw =
    (let code = TrimSpace raw in
     if code \<noteq> [] \<and> list_all is_digit code
     then (if length code \<ge> 6 then take 32 code else replicate (6 - length code) CHR ''0'' @ code)
     else take 32 (ToUpper code))"

definition validTransactionDirections :: "string set" where
  "validTransactionDirections = {''buy'', ''sell'', ''dividend''}"

definition moves_shares :: "string \<Rightarrow> bool" where "moves_shares dir \<longleftrightarrow> dir = ''buy'' \<or> dir = ''sell''"

definition maxTxMoney :: "'f money \<Rightarrow> 'f" where "maxTxMoney M = mo_int M 1000000000"

definition too_large :: "'f money \<Rightarrow> 'f \<Rightarrow> bool" where "too_large M v \<longleftrightarrow> mo_less M (maxTxMoney M) v"

definition not_positive :: "'f money \<Rightarrow> 'f \<Rightarrow> bool" where "not_positive M v \<longleftrightarrow> mo_le M v (zero M)"

definition signedCashFlow :: "'f money \<Rightarrow> string \<Rightarrow> 'f \<Rightarrow> 'f \<Rightarrow> 'f option \<Rightarrow> 'f" where
  "signedCashFlow M dir amount fee provided = (case provided of Some v \<Rightarrow> v
     | None \<Rightarrow> (let fee = (if mo_less M fee (zero M) then zero M else fee) in
         if dir = ''buy'' then mo_neg M (mo_add M amount fee)
         else if dir = ''sell'' then mo_sub M amount fee else amount))"

definition signedShareChange :: "'f money \<Rightarrow> string \<Rightarrow> 'f \<Rightarrow> 'f option \<Rightarrow> 'f" where
  "signedShareChange M dir share provided = (case provided of Some v \<Rightarrow> v
     | None \<Rightarrow> if dir = ''dividend'' then zero M else if dir = ''buy'' then share else mo_neg M share)"

definition nullStringArg :: "string \<Rightarrow> string option" where "nullStringArg s = (if s = [] then None else Some s)"

text \<open>A \<open>time.Duration\<close> saturates at 106751 days.\<close>

definition parseYMD :: "string \<Rightarrow> int option" where
  "parseYMD v = (if length v < 10 then None else parse_date (take 10 v))"

definition CalcSettlementDays :: "string \<Rightarrow> string \<Rightarrow> int" where
  "CalcSettlementDays tradeTime confirmDate =
    (case parseYMD tradeTime of None \<Rightarrow> 0
     | Some trade \<Rightarrow> (case parseYMD confirmDate of None \<Rightarrow> 0
         | Some confirm \<Rightarrow> max 0 (min 106751 (confirm - trade))))"

section \<open>Transactions of the database\<close>

text \<open>Begin, the body, commit; a failure anywhere rolls back.\<close>

definition in_tx :: "('f, 'a) books_proc \<Rightarrow> ('f, 'a) books_proc" where
  "in_tx m d =
    (case andThen (qry (\<lambda>t. ((), t))) (\<lambda>_. andThen m (\<lambda>a. andThen (qry (\<lambda>t. ((), t))) (\<lambda>_. ret a))) d of
       (Inl e, d') \<Rightarrow> (Inl e, d'\<lparr>tables := tables d\<rparr>) | (Inr a, d') \<Rightarrow> (Inr a, d'))"

fun recalc_codes :: "'f books_env \<Rightarrow> string list \<Rightarrow> ('f, unit) books_proc" where
  "recalc_codes E [] = ret ()"
| "recalc_codes E (c # cs) = andThen (Recalc E c ModeFull) (\<lambda>_. recalc_codes E cs)"

section \<open>Import\<close>

record 'f ImportTransaction =
  im_OrderID :: string
  im_FundCode :: string
  im_SecurityCode :: string
  im_FundName :: string
  im_TradeTime :: string
  im_ConfirmDate :: string
  im_TradeType :: string
  im_Direction :: string
  im_Amount :: "'f option"
  im_Share :: "'f option"
  im_Fee :: "'f option"
  im_Cash :: "'f option"
  im_Change :: "'f option"

record ImportTransactionsResult =
  ir_Imported :: nat
  ir_Total :: nat
  ir_AffectedFunds :: nat

definition beyond :: "'f money \<Rightarrow> 'f option \<Rightarrow> bool" where
  "beyond M x = (case x of None \<Rightarrow> False | Some v \<Rightarrow> mo_less M (maxTxMoney M) v \<or> mo_less M v (mo_neg M (maxTxMoney M)))"

definition normalizeImportTransaction :: "'f money \<Rightarrow> 'f ImportTransaction \<Rightarrow> nat \<Rightarrow> nat \<Rightarrow> books_error + 'f ImportTransaction" where
  "normalizeImportTransaction M i now index =
    (let trimmed = TrimSpace (if im_FundCode i = [] then im_SecurityCode i else im_FundCode i);
         code = NormalizeSecurityCode trimmed;
         bad_amount = (\<lambda>x. case x of None \<Rightarrow> True | Some v \<Rightarrow> not_positive M v \<or> too_large M v);
         bad_fee = (\<lambda>x. case x of None \<Rightarrow> True | Some v \<Rightarrow> mo_less M v (zero M) \<or> too_large M v);
         share = coalesce (im_Share i) (zero M)
     in if length trimmed > 32 then Inl BadInput
        else if code = [] then Inl BadInput
        else if length code > 32 then Inl BadInput
        else if im_TradeTime i = [] then Inl BadInput
        else if length (im_TradeTime i) > 40 then Inl BadInput
        else if im_ConfirmDate i \<noteq> [] \<and> length (im_ConfirmDate i) > 40 then Inl BadInput
        else if im_Direction i \<notin> validTransactionDirections then Inl BadInput
        else if bad_amount (im_Amount i) then Inl BadInput
        else if bad_fee (im_Fee i) then Inl BadInput
        else if (if moves_shares (im_Direction i) then not_positive M share \<or> too_large M share
            else im_Share i \<noteq> None \<and> too_large M share) then Inl BadInput
        else if length (im_OrderID i) > 128 then Inl BadInput
        else if length (im_FundName i) > 200 then Inl BadInput
        else if length (im_TradeType i) > 64 then Inl BadInput
        else if beyond M (im_Cash i) then Inl BadInput
        else if beyond M (im_Change i) then Inl BadInput
        else Inr (i\<lparr>im_FundCode := code, im_OrderID := (if im_OrderID i = []
            then ''go_import_'' @ itoa now @ ''_'' @ itoa index else im_OrderID i)\<rparr>))"

definition import_row :: "'f money \<Rightarrow> 'f ImportTransaction \<Rightarrow> 'f txn" where
  "import_row M n = (let amount = coalesce (im_Amount n) (zero M); share = coalesce (im_Share n) (zero M);
      fee = coalesce (im_Fee n) (zero M) in
    \<lparr>tn_seq = 0, tn_order = Some (im_OrderID n), tn_time = Some (im_TradeTime n), tn_confirm = nullStringArg (im_ConfirmDate n),
     tn_type = nullStringArg (im_TradeType n), tn_direction = Some (im_Direction n), tn_code = Some (im_FundCode n),
     tn_name = nullStringArg (im_FundName n), tn_amount = Some amount, tn_share = Some share, tn_fee = Some fee,
     tn_cash = Some (signedCashFlow M (im_Direction n) amount fee (im_Cash n)),
     tn_change = Some (signedShareChange M (im_Direction n) share (im_Change n)),
     tn_days = Some (CalcSettlementDays (im_TradeTime n) (im_ConfirmDate n))\<rparr>)"

text \<open>\<open>INSERT ... SELECT ... WHERE NOT EXISTS\<close> of the same order and fund.\<close>

definition insert_txn :: "'f txn \<Rightarrow> 'f books \<Rightarrow> nat \<times> 'f books" where
  "insert_txn r t =
    (if list_ex (\<lambda>q. tn_order q = tn_order r \<and> tn_code q = tn_code r) (bk_tx t) then (0, t)
     else (1, t\<lparr>bk_tx := bk_tx t @ [r\<lparr>tn_seq := bk_next t\<rparr>], bk_next := bk_next t + 1\<rparr>))"

fun import_rows :: "'f money \<Rightarrow> nat \<Rightarrow> nat \<Rightarrow> 'f ImportTransaction list \<Rightarrow> nat \<times> string list
    \<Rightarrow> ('f, nat \<times> string list) books_proc" where
  "import_rows M now index [] acc = ret acc"
| "import_rows M now index (i # is) acc =
    andThen (check (normalizeImportTransaction M i now index)) (\<lambda>n.
    andThen (qry (insert_txn (import_row M n))) (\<lambda>rows.
    andThen (qry (\<lambda>t. ((), t))) (\<lambda>_.
      import_rows M now (Suc index) is
        (if rows > 0 then (fst acc + 1, List.insert (im_FundCode n) (snd acc)) else acc))))"

text \<open>\<open>visit\<close> is the order in which Go's \<open>range\<close> goes over the keys of a map.\<close>

definition ImportTransactions :: "'f books_env \<Rightarrow> (string list \<Rightarrow> string list) \<Rightarrow> nat \<Rightarrow> 'f ImportTransaction list
    \<Rightarrow> ('f, ImportTransactionsResult) books_proc" where
  "ImportTransactions E visit now is =
    (if is = [] \<or> length is > 5000 then throw BadInput
     else in_tx (andThen (qry (\<lambda>t. ((), t))) (\<lambda>_.
       andThen (import_rows (be_money E) now 0 is (0, [])) (\<lambda>(imported, affected).
       andThen (recalc_codes E (visit affected)) (\<lambda>_.
         ret \<lparr>ir_Imported = imported, ir_Total = length is, ir_AffectedFunds = length affected\<rparr>)))))"

section \<open>Update and delete\<close>

record 'f transactionRow =
  xr_Seq :: int
  xr_TradeTime :: string
  xr_ConfirmDate :: string
  xr_TradeType :: string
  xr_Direction :: string
  xr_FundCode :: string
  xr_FundName :: string
  xr_Amount :: 'f
  xr_Share :: 'f
  xr_Fee :: 'f

definition clampAdminText :: "string option \<Rightarrow> int \<Rightarrow> string" where
  "clampAdminText s n = Clamp (coalesce s []) n"

definition read_row :: "'f money \<Rightarrow> 'f txn \<Rightarrow> 'f transactionRow" where
  "read_row M r = \<lparr>xr_Seq = tn_seq r, xr_TradeTime = clampAdminText (tn_time r) 40,
     xr_ConfirmDate = clampAdminText (tn_confirm r) 40, xr_TradeType = clampAdminText (tn_type r) 64,
     xr_Direction = clampAdminText (tn_direction r) 16, xr_FundCode = clampAdminText (tn_code r) 32,
     xr_FundName = clampAdminText (tn_name r) 200, xr_Amount = coalesce (tn_amount r) (zero M),
     xr_Share = coalesce (tn_share r) (zero M), xr_Fee = coalesce (tn_fee r) (zero M)\<rparr>"

definition getTransaction :: "'f books_env \<Rightarrow> int \<Rightarrow> ('f, 'f transactionRow) books_proc" where
  "getTransaction E seq = andThen (qry (\<lambda>t. (select1 (\<lambda>r. tn_seq r = seq) (bk_tx t), t)))
     (\<lambda>found. case found of None \<Rightarrow> throw NotFound | Some r \<Rightarrow> ret (read_row (be_money E) r))"

record 'f TransactionUpdate =
  ut_TradeTime :: "string option"
  ut_ConfirmDate :: "string option"
  ut_TradeType :: "string option"
  ut_Direction :: "string option"
  ut_Amount :: "'f option"
  ut_Share :: "'f option"
  ut_Fee :: "'f option"
  ut_FundCode :: "string option"

definition given :: "'a option \<Rightarrow> ('a \<Rightarrow> bool) \<Rightarrow> bool" where
  "given x p = (case x of None \<Rightarrow> False | Some v \<Rightarrow> p v)"

definition next_row :: "'f TransactionUpdate \<Rightarrow> 'f transactionRow \<Rightarrow> 'f transactionRow" where
  "next_row u e = e\<lparr>xr_TradeTime := coalesce (ut_TradeTime u) (xr_TradeTime e),
     xr_ConfirmDate := coalesce (ut_ConfirmDate u) (xr_ConfirmDate e), xr_TradeType := coalesce (ut_TradeType u) (xr_TradeType e),
     xr_Direction := coalesce (ut_Direction u) (xr_Direction e), xr_Amount := coalesce (ut_Amount u) (xr_Amount e),
     xr_Share := coalesce (ut_Share u) (xr_Share e), xr_Fee := coalesce (ut_Fee u) (xr_Fee e),
     xr_FundCode := (case ut_FundCode u of None \<Rightarrow> xr_FundCode e | Some c \<Rightarrow> NormalizeSecurityCode (TrimSpace c))\<rparr>"

definition updated_fields :: "'f TransactionUpdate \<Rightarrow> string list" where
  "updated_fields u = concat
    [if ut_TradeTime u = None then [] else [''trade_time''], if ut_ConfirmDate u = None then [] else [''confirm_date''],
     if ut_TradeType u = None then [] else [''trade_type''], if ut_Direction u = None then [] else [''direction''],
     if ut_Amount u = None then [] else [''confirm_amount''], if ut_Share u = None then [] else [''confirm_share''],
     if ut_Fee u = None then [] else [''fee''], if ut_FundCode u = None then [] else [''fund_code'']]"

definition update_ok :: "'f money \<Rightarrow> 'f TransactionUpdate \<Rightarrow> 'f transactionRow \<Rightarrow> bool" where
  "update_ok M u e = (let n = next_row u e in
     \<not> (given (ut_TradeTime u) (\<lambda>s. length s > 40) \<or> given (ut_ConfirmDate u) (\<lambda>s. length s > 40) \<or>
        given (ut_TradeType u) (\<lambda>s. length s > 64) \<or> given (ut_Direction u) (\<lambda>s. s \<notin> validTransactionDirections) \<or>
        given (ut_Amount u) (\<lambda>v. not_positive M v \<or> too_large M v) \<or>
        given (ut_Share u) (\<lambda>v. moves_shares (xr_Direction n) \<and> not_positive M v \<or> too_large M v) \<or>
        moves_shares (xr_Direction n) \<and> not_positive M (xr_Share n) \<or>
        given (ut_Fee u) (\<lambda>v. mo_less M v (zero M) \<or> too_large M v) \<or>
        given (ut_FundCode u) (\<lambda>c. TrimSpace c = [] \<or> length (TrimSpace c) > 32) \<or> updated_fields u = []))"

text \<open>The \<open>SET\<close> list: the given fields, and always the three derived columns.\<close>

definition set_fields :: "'f money \<Rightarrow> 'f TransactionUpdate \<Rightarrow> 'f transactionRow \<Rightarrow> 'f txn \<Rightarrow> 'f txn" where
  "set_fields M u n r = r\<lparr>
     tn_time := (if ut_TradeTime u = None then tn_time r else Some (xr_TradeTime n)),
     tn_confirm := (if ut_ConfirmDate u = None then tn_confirm r else nullStringArg (xr_ConfirmDate n)),
     tn_type := (if ut_TradeType u = None then tn_type r else nullStringArg (xr_TradeType n)),
     tn_direction := (if ut_Direction u = None then tn_direction r else Some (xr_Direction n)),
     tn_amount := (if ut_Amount u = None then tn_amount r else Some (xr_Amount n)),
     tn_share := (if ut_Share u = None then tn_share r else Some (xr_Share n)),
     tn_fee := (if ut_Fee u = None then tn_fee r else Some (xr_Fee n)),
     tn_code := (if ut_FundCode u = None then tn_code r else Some (xr_FundCode n)),
     tn_cash := Some (signedCashFlow M (xr_Direction n) (xr_Amount n) (xr_Fee n) None),
     tn_change := Some (signedShareChange M (xr_Direction n) (xr_Share n) None),
     tn_days := Some (CalcSettlementDays (xr_TradeTime n) (xr_ConfirmDate n))\<rparr>"

definition update_txn :: "'f money \<Rightarrow> int \<Rightarrow> 'f TransactionUpdate \<Rightarrow> 'f transactionRow \<Rightarrow> 'f books \<Rightarrow> unit \<times> 'f books" where
  "update_txn M seq u n t = ((), t\<lparr>bk_tx := update_where (\<lambda>r. tn_seq r = seq) (set_fields M u n) (bk_tx t)\<rparr>)"

definition UpdateTransaction :: "'f books_env \<Rightarrow> int \<Rightarrow> 'f TransactionUpdate \<Rightarrow> ('f, string list) books_proc" where
  "UpdateTransaction E seq u =
    (if seq \<le> 0 then throw BadInput
     else andThen (getTransaction E seq) (\<lambda>e.
       let n = next_row u e in
       if \<not> update_ok (be_money E) u e then throw BadInput
       else andThen (in_tx (andThen (qry (update_txn (be_money E) seq u n)) (\<lambda>_.
           recalc_codes E (if xr_FundCode n \<noteq> xr_FundCode e then [xr_FundCode n, xr_FundCode e] else [xr_FundCode n]))))
         (\<lambda>_. ret (updated_fields u))))"

definition delete_txn :: "int \<Rightarrow> 'f books \<Rightarrow> unit \<times> 'f books" where
  "delete_txn seq t = ((), t\<lparr>bk_tx := delete_where (\<lambda>r. tn_seq r = seq) (bk_tx t)\<rparr>)"

definition DeleteTransaction :: "'f books_env \<Rightarrow> int \<Rightarrow> ('f, 'f transactionRow) books_proc" where
  "DeleteTransaction E seq =
    (if seq \<le> 0 then throw BadInput
     else andThen (getTransaction E seq) (\<lambda>e.
       andThen (in_tx (andThen (qry (delete_txn seq)) (\<lambda>_. recalc_codes E [xr_FundCode e]))) (\<lambda>_. ret e)))"

section \<open>Adjustment\<close>

record 'f AdjustPositionInput =
  ap_Code :: string
  ap_Shares :: 'f
  ap_PortfolioID :: int
  ap_Reason :: string

text \<open>What the clock gives, as the code formats it.\<close>

record clock_texts =
  ck_rfc :: string
  ck_date :: string
  ck_nano :: nat

definition adjust_type :: string where
  "adjust_type = map byte [0xE6, 0x8C, 0x81, 0xE4, 0xBB, 0x93, 0xE8, 0xB0, 0x83, 0xE6, 0x95, 0xB4]"

definition adjust_row :: "'f money \<Rightarrow> clock_texts \<Rightarrow> string \<Rightarrow> string \<Rightarrow> 'f \<Rightarrow> 'f txn" where
  "adjust_row M k code name delta =
    \<lparr>tn_seq = 0, tn_order = Some (''adj-'' @ code @ ''-'' @ itoa (ck_nano k)), tn_time = Some (ck_rfc k),
     tn_confirm = Some (ck_date k), tn_type = Some adjust_type,
     tn_direction = Some (if mo_less M delta (zero M) then ''sell'' else ''buy''), tn_code = Some code, tn_name = Some name,
     tn_amount = Some (zero M), tn_share = Some (mo_abs M delta), tn_fee = Some (zero M), tn_cash = Some (zero M),
     tn_change = Some delta, tn_days = Some 0\<rparr>"

definition adjust_bad :: "'f money \<Rightarrow> 'f AdjustPositionInput \<Rightarrow> bool" where
  "adjust_bad M i \<longleftrightarrow> TrimSpace (ap_Code i) = [] \<or> length (TrimSpace (ap_Code i)) > 32 \<or> \<not> mo_finite M (ap_Shares i) \<or>
     mo_less M (ap_Shares i) (zero M) \<or> mo_less M (mo_int M 1000000000) (ap_Shares i) \<or> length (TrimSpace (ap_Reason i)) > 200"

text \<open>\<open>item\<close> is the reading of the security for the answer. The result is the order id and the difference.\<close>

definition AdjustPosition :: "'f books_env \<Rightarrow> (string \<Rightarrow> 'f books \<Rightarrow> 'i option) \<Rightarrow> clock_texts \<Rightarrow> 'f AdjustPositionInput
    \<Rightarrow> ('f, 'i \<times> string \<times> 'f) books_proc" where
  "AdjustPosition E item k i =
    (let M = be_money E; code = TrimSpace (ap_Code i);
         pid = (if ap_PortfolioID i \<le> 0 then 1 else if ap_PortfolioID i > 1000 then 1000 else ap_PortfolioID i);
         target = (if mo_less M (zero M) (ap_Shares i) \<and> mo_less M (ap_Shares i) (HeldSharesDust M) then zero M else ap_Shares i);
         read_item = andThen (qry (\<lambda>t. (item code t, t))) (\<lambda>x. case x of None \<Rightarrow> throw DbError | Some x \<Rightarrow> ret x)
     in if adjust_bad M i then throw BadInput
        else andThen (qry (\<lambda>t. (list_ex (\<lambda>(c, _). c = code) (bk_details t), t))) (\<lambda>exists.
          if \<not> exists then throw BadInput
          else andThen (qry (\<lambda>t. (sum_of M tn_change (rows_of code t), t))) (\<lambda>current.
            let delta = mo_sub M target (coalesce current (zero M)) in
            if mo_less M (mo_abs M delta) (HeldSharesDust M)
            then andThen (RecalcForPortfolio E code pid ModeLight) (\<lambda>_. andThen read_item (\<lambda>x. ret (x, [], zero M)))
            else andThen (qry (\<lambda>t. (select1 (\<lambda>(c, _, _). c = code) (bk_details t), t))) (\<lambda>d.
              let name = (case nonempty (case d of None \<Rightarrow> None | Some (_, n, _) \<Rightarrow> n) of None \<Rightarrow> code | Some n \<Rightarrow> Clamp n 200);
                  row = adjust_row M k code name delta
              in andThen (qry (insert_txn row)) (\<lambda>n.
                 andThen (qry (\<lambda>t. ((), t))) (\<lambda>_.
                 if n = 0 then throw DbError
                 else andThen (RecalcForPortfolio E code pid ModeLight) (\<lambda>_.
                   andThen (qry (\<lambda>t. (select1 (snap_hit code pid) (bk_snaps t), t))) (\<lambda>s.
                     case s of None \<Rightarrow> throw DbError
                     | Some s \<Rightarrow>
                        if mo_less M (mo_div M (mo_int M 1) (mo_int M 100))
                             (mo_abs M (mo_sub M (coalesce (sn_held s) (zero M)) target)) then throw DbError
                        else andThen read_item (\<lambda>x. ret (x, coalesce (tn_order row) [], delta))))))))))"

end
