(* ===== verification/RecalcProps.thy ===== *)
theory RecalcProps
  imports Snapshot
begin

text \<open>
  What a recalculation costs and where it gives up: the number of its statements is bounded, and under the
  legacy primary key it cannot give a fund a row in a second portfolio.
\<close>

section \<open>The number of statements\<close>

text \<open>A statement takes one answer off the schedule of faults.\<close>

definition statements :: "('f, 'a) books_proc \<Rightarrow> nat \<Rightarrow> bool" where
  "statements m n \<longleftrightarrow> (\<forall>d. length (faults d) \<le> length (faults (snd (m d))) + n)"

lemma statements_ret: "statements (ret a) 0" and statements_throw: "statements (throw e) 0"
  by (simp_all add: statements_def proc_defs)

lemma statements_qry: "statements (qry f) 1"
  by (auto simp: statements_def qry_def wrap_def stmt_def split: list.split bool.split)

lemma statements_andThen:
  assumes "statements m j" "\<And>a. statements (g a) k"
  shows "statements (andThen m g) (j + k)"
  unfolding statements_def
proof
  fix d
  obtain r d' where m: "m d = (r, d')" by (cases "m d")
  have first: "length (faults d) \<le> length (faults d') + j" using assms(1) m unfolding statements_def by (metis snd_conv)
  show "length (faults d) \<le> length (faults (snd (andThen m g d))) + (j + k)"
  proof (cases r)
    case (Inr a)
    have "length (faults d') \<le> length (faults (snd (g a d'))) + k" using assms(2) unfolding statements_def by blast
    with first Inr show ?thesis by (simp add: andThen_def m)
  qed (use first in \<open>simp add: andThen_def m\<close>)
qed

lemma statements_mono: "statements m j \<Longrightarrow> j \<le> k \<Longrightarrow> statements m k"
  unfolding statements_def by (meson add_left_mono le_trans)

lemma statements_if: "statements a k \<Longrightarrow> statements b k \<Longrightarrow> statements (if c then a else b) k"
  by simp

lemma statements_identity: "statements (resolveIdentity code n) 1" and statements_pid: "statements (resolvePortfolioID E code) 1"
proof -
  have "statements (resolveIdentity code n) (1 + 0)" unfolding resolveIdentity_def Let_def
    by (rule statements_andThen [OF statements_qry]) (simp add: statements_ret split: prod.split)
  moreover have "statements (resolvePortfolioID E code) (1 + 0)" unfolding resolvePortfolioID_def
    by (rule statements_andThen [OF statements_qry]) (simp add: statements_ret statements_throw split: option.split)
  ultimately show "statements (resolveIdentity code n) 1" "statements (resolvePortfolioID E code) 1" by simp_all
qed

lemma statements_attempt:
  assumes "\<And>i. statements (again i) k"
  shows "statements (andThen (qry (update_snap (be_money E) mode ident v code pid)) (\<lambda>n.
      if n > 0 then ret ()
      else andThen (case mode of ModeFull \<Rightarrow> ret ident | ModeLight \<Rightarrow> resolveIdentity code txName) (\<lambda>ident.
        andThen (qry (insert_snap (be_single_pk E) (new_snap (be_money E) mode ident v code pid))) (\<lambda>ok.
          if ok then ret () else again ident)))) (1 + (1 + (1 + k)))"
proof (rule statements_andThen [OF statements_qry], rule statements_if)
  show "statements (ret ()) (1 + (1 + k))" by (rule statements_mono [OF statements_ret]) simp
  have "statements (case mode of ModeFull \<Rightarrow> ret ident | ModeLight \<Rightarrow> resolveIdentity code txName) 1"
    by (cases mode) (simp_all only: Mode.case statements_identity statements_mono [OF statements_ret] le0)
  then show "statements (andThen (case mode of ModeFull \<Rightarrow> ret ident | ModeLight \<Rightarrow> resolveIdentity code txName) (\<lambda>ident.
        andThen (qry (insert_snap (be_single_pk E) (new_snap (be_money E) mode ident v code pid))) (\<lambda>ok.
          if ok then ret () else again ident))) (1 + (1 + k))"
    by (intro statements_andThen statements_qry statements_if assms statements_mono [OF statements_ret]) simp_all
qed

lemma statements_write: "statements (snapshot_write E mode ident v code pid n left) (3 * Suc left)"
proof (induction left arbitrary: ident)
  case 0
  have "statements (snapshot_write E mode ident v code pid n 0) (1 + (1 + (1 + 0)))"
    by (subst snapshot_write.simps, rule statements_attempt) (simp add: statements_throw)
  then show ?case by (rule statements_mono) simp
next
  case (Suc left)
  have "statements (snapshot_write E mode ident v code pid n (Suc left)) (1 + (1 + (1 + 3 * Suc left)))"
    by (subst snapshot_write.simps, rule statements_attempt) (simp only: nat.case Suc.IH)
  then show ?case by (rule statements_mono) simp
qed

lemma statements_recalc: "statements (recalc E code pid mode resolve) 14"
proof (cases "code = []")
  case True
  then show ?thesis by (simp add: recalc_def statements_mono [OF statements_ret])
next
  case False
  have rows: "statements (snapshot_write E mode ident v code p n (maxSnapshotWriteRetries - 1)) 9" for ident v p n
    using statements_write [of E mode ident v code p n "maxSnapshotWriteRetries - 1"] by (simp add: maxSnapshotWriteRetries_def)
  have identity: "statements (case mode of ModeFull \<Rightarrow> resolveIdentity code n | ModeLight \<Rightarrow> ret (code, ''fund'')) 1" for n
    by (cases mode) (simp_all only: Mode.case statements_identity statements_mono [OF statements_ret] le0)
  have pid: "statements (if resolve then resolvePortfolioID E code else ret p) 1" for p
    by (intro statements_if statements_pid statements_mono [OF statements_ret]) simp
  have nav: "statements (if b then existing_nav E code p else ret None) 1" for b p
    unfolding existing_nav_def by (intro statements_if statements_qry statements_mono [OF statements_ret]) simp
  have "statements (recalc E code pid mode resolve) (1 + (1 + (1 + (1 + (1 + 9)))))"
    unfolding recalc_def Let_def if_not_P [OF False] split_def
    by (intro statements_andThen statements_qry identity pid nav rows)
  then show ?thesis by (rule statements_mono) simp
qed

text \<open>
  C34. A recalculation ends, whatever the database answers: it issues at most fourteen statements, also
  when its \<open>UPDATE\<close> keeps missing and its \<open>INSERT\<close> keeps meeting the row of another writer.
\<close>

theorem recalc_bounded:
  "length (faults d) \<le> length (faults (snd (recalc E code pid mode resolve d))) + 14"
  using statements_recalc unfolding statements_def by blast

section \<open>The legacy primary key\<close>

definition taken :: "string \<Rightarrow> int \<Rightarrow> 'f books \<Rightarrow> bool" where
  "taken code pid t \<longleftrightarrow> (\<exists>s \<in> set (bk_snaps t). sn_code s = code) \<and> (\<forall>s \<in> set (bk_snaps t). \<not> snap_hit code pid s)"

lemma update_snap_taken: "taken code pid t \<Longrightarrow> update_snap M mode ident v code pid t = (0, t)"
proof -
  assume t: "taken code pid t"
  have "update_where (snap_hit code pid) (set_valuation M mode ident v) (bk_snaps t) = bk_snaps t"
    using t by (auto simp: taken_def update_where_def intro: map_idI)
  with t show ?thesis by (simp add: update_snap_def count_where_def taken_def filter_empty_conv)
qed

lemma insert_snap_taken: "taken code pid t \<Longrightarrow> insert_snap True (new_snap M mode ident v code pid) t = (False, t)"
  by (auto simp: insert_snap_def new_snap_def taken_def list_ex_iff)

lemma triple_taken_attempt:
  assumes "be_single_pk E" "\<And>i. triple (taken code pid) (again i) (\<lambda>_ _. False) (taken code pid)"
  shows "triple (taken code pid)
    (andThen (qry (update_snap (be_money E) mode ident v code pid)) (\<lambda>n.
      if n > 0 then ret ()
      else andThen (case mode of ModeFull \<Rightarrow> ret ident | ModeLight \<Rightarrow> resolveIdentity code txName) (\<lambda>ident.
        andThen (qry (insert_snap (be_single_pk E) (new_snap (be_money E) mode ident v code pid))) (\<lambda>ok.
          if ok then ret () else again ident))))
    (\<lambda>_ _. False) (taken code pid)"
proof (rule triple_andThen [where Q' = "\<lambda>n t. taken code pid t \<and> n = 0"])
  show "triple (taken code pid) (qry (update_snap (be_money E) mode ident v code pid)) (\<lambda>n t. taken code pid t \<and> n = 0) (taken code pid)"
    by (rule triple_qry) (simp add: update_snap_taken)
  have identity: "triple (taken code pid) (case mode of ModeFull \<Rightarrow> ret ident | ModeLight \<Rightarrow> resolveIdentity code txName)
      (\<lambda>_. taken code pid) (taken code pid)"
    by (cases mode) (simp_all add: triple_ret read_resolveIdentity)
  have insert: "triple (taken code pid) (qry (insert_snap (be_single_pk E) (new_snap (be_money E) mode i v code pid)))
      (\<lambda>ok t. taken code pid t \<and> \<not> ok) (taken code pid)" for i
    by (rule triple_qry) (simp add: assms(1) insert_snap_taken)
  have again: "triple (\<lambda>t. taken code pid t \<and> \<not> ok) (if ok then ret () else again i) (\<lambda>_ _. False) (taken code pid)" for ok i
    using assms(2) [of i] by (cases ok) (simp_all add: triple_def)
  fix n :: nat
  have "triple (taken code pid) (andThen (case mode of ModeFull \<Rightarrow> ret ident | ModeLight \<Rightarrow> resolveIdentity code txName) (\<lambda>ident.
        andThen (qry (insert_snap (be_single_pk E) (new_snap (be_money E) mode ident v code pid))) (\<lambda>ok.
          if ok then ret () else again ident))) (\<lambda>_ _. False) (taken code pid)"
    by (rule triple_andThen [OF identity], rule triple_andThen [OF insert], rule again)
  then show "triple (\<lambda>t. taken code pid t \<and> n = 0)
      (if n > 0 then ret ()
       else andThen (case mode of ModeFull \<Rightarrow> ret ident | ModeLight \<Rightarrow> resolveIdentity code txName) (\<lambda>ident.
        andThen (qry (insert_snap (be_single_pk E) (new_snap (be_money E) mode ident v code pid))) (\<lambda>ok.
          if ok then ret () else again ident))) (\<lambda>_ _. False) (taken code pid)"
    by (cases "n = 0") (simp_all add: triple_def)
qed

lemma triple_taken_write:
  assumes "be_single_pk E"
  shows "triple (taken code pid) (snapshot_write E mode ident v code pid n left) (\<lambda>_ _. False) (taken code pid)"
proof (induction left arbitrary: ident)
  case 0
  show ?case by (subst snapshot_write.simps, rule triple_taken_attempt [OF assms]) (simp add: triple_throw)
next
  case (Suc left)
  show ?case by (subst snapshot_write.simps, rule triple_taken_attempt [OF assms]) (simp add: Suc.IH)
qed

lemma triple_taken_recalc:
  assumes "be_single_pk E" "code \<noteq> []" "0 < pid"
  shows "triple (taken code pid) (recalc E code pid mode False) (\<lambda>_ _. False) (taken code pid)"
proof -
  have read: "triple (taken code pid) (qry (\<lambda>t. (f t, t))) (\<lambda>_. taken code pid) (taken code pid)" for f :: "'a books \<Rightarrow> 'c"
    by (rule triple_qry) simp
  from assms(2,3) show ?thesis unfolding recalc_def Let_def split_def
    by (simp del: if_split, intro triple_andThen [OF read] triple_rest [where resolveID = False, simplified] triple_taken_write [OF assms(1)]) simp
qed

lemma legacy_key_rejects:
  assumes "be_single_pk E" "code \<noteq> []" "0 < pid" "taken code pid (tables d)"
  shows "\<exists>e d'. RecalcForPortfolio E code pid mode d = (Inl e, d') \<and> taken code pid (tables d')"
proof -
  obtain r d' where r: "recalc E code pid mode False d = (r, d')" by (cases "recalc E code pid mode False d")
  note t = triple_taken_recalc [OF assms(1-3), of mode]
  from r tripleD [OF t assms(4)] tripleX [OF t assms(4)] show ?thesis
    by (cases r) (auto simp: RecalcForPortfolio_def)
qed

end
