(* ===== verification/TransactionsProps.thy ===== *)
theory TransactionsProps
  imports Transactions RecalcProps
begin

text \<open>
  What the writes of \<open>Transactions\<close> guarantee: the held shares and the cost of a snapshot row follow the
  ledger through every import, update, delete and adjustment, and an import is idempotent.
\<close>

section \<open>Codes\<close>

definition plain_code :: "string \<Rightarrow> bool" where
  "plain_code c \<longleftrightarrow> TrimSpace c = c \<and> length c \<le> 32"

lemma clamp_plain: "plain_code c \<Longrightarrow> clampAdminText (Some c) 32 = c"
  by (simp add: plain_code_def clampAdminText_def coalesce_def Clamp_short)

lemma clamp_None [simp]: "clampAdminText None n = []"
  by (simp add: clampAdminText_def coalesce_def Clamp_def)

lemma upper_char_space:
  assumes "\<not> is_letter p"
  shows "(if is_lower c then byte (of_char c - 32) else c) = p \<longleftrightarrow> c = p"
proof (cases "is_lower c")
  case True
  then have c: "97 \<le> (of_char c :: nat)" "(of_char c :: nat) \<le> 122" by (simp_all add: char_class_defs)
  then have "of_char (byte (of_char c - 32)) = (of_char c - 32 :: nat)" by (simp add: byte_def)
  moreover have "65 \<le> (of_char c - 32 :: nat)" "(of_char c - 32 :: nat) \<le> 90" using c by linarith+
  ultimately have "is_upper (byte (of_char c - 32))" by (simp add: char_class_defs)
  with True assms show ?thesis by (auto simp: is_letter_def)
qed simp

lemma prefix_ToUpper:
  assumes "list_all (\<lambda>c. \<not> is_letter c) p"
  shows "prefix p (map (\<lambda>c. if is_lower c then byte (of_char c - 32) else c) s) \<longleftrightarrow> prefix p s"
  using assms
proof (induction p arbitrary: s)
  case (Cons a p)
  then show ?case by (cases s) (auto simp: upper_char_space eq_commute [of a])
qed simp

lemma leading_ToUpper:
  assumes "list_all (list_all (\<lambda>c. \<not> is_letter c)) seqs"
  shows "leading seqs (map (\<lambda>c. if is_lower c then byte (of_char c - 32) else c) s) = leading seqs s"
  using assms unfolding leading_def
  by (induction seqs) (auto simp: prefix_ToUpper)

lemma trimmed_iff: "TrimSpace s = s \<longleftrightarrow> leading space_seqs s = None \<and> leading (map rev space_seqs) (rev s) = None"
proof
  assume s: "TrimSpace s = s"
  have "length (TrimSpace s) \<le> length (strip_left space_seqs s)"
    unfolding TrimSpace_def by (rule prefix_length_le [OF strip_right_prefix])
  moreover obtain u where u: "s = u @ strip_left space_seqs s" using strip_left_suffix [of space_seqs s] unfolding suffix_def by blast
  ultimately have "u = []" using s by (metis add_le_same_cancel2 length_0_conv length_append le_zero_eq)
  with u have "strip_left space_seqs s = s" by simp
  then have left: "leading space_seqs s = None" using strip_left_done [of space_seqs s] by simp
  with s have "strip_right space_seqs s = s" by (simp add: TrimSpace_def strip_left_fix)
  then have "strip_left (map rev space_seqs) (rev s) = rev s" unfolding strip_right_def by (metis rev_rev_ident)
  with left show "leading space_seqs s = None \<and> leading (map rev space_seqs) (rev s) = None"
    using strip_left_done [of "map rev space_seqs" "rev s"] by simp
qed (simp add: TrimSpace_def strip_right_def strip_left_fix)

lemma spaces_no_letter: "list_all (list_all (\<lambda>c. \<not> is_letter c)) space_seqs"
  by code_simp

lemma TrimSpace_ToUpper: "TrimSpace s = s \<Longrightarrow> TrimSpace (ToUpper s) = ToUpper s"
  using spaces_no_letter
  by (simp add: trimmed_iff ToUpper_def leading_ToUpper rev_map list_all_iff)

lemma TrimSpace_digits: "list_all is_digit s \<Longrightarrow> TrimSpace s = s"
  by (rule TrimSpace_plain) (assumption, code_simp)

lemma NormalizeSecurityCode_plain:
  assumes "length (TrimSpace raw) \<le> 32"
  shows "plain_code (NormalizeSecurityCode raw)" "NormalizeSecurityCode raw = [] \<longleftrightarrow> TrimSpace raw = []"
proof -
  let ?c = "TrimSpace raw"
  have "list_all is_digit (replicate n CHR ''0'' @ ?c)" if "list_all is_digit ?c" for n
    using that by (auto simp: list_all_iff char_class_defs)
  note digits = TrimSpace_digits [OF this]
  show "plain_code (NormalizeSecurityCode raw)"
    using assms by (auto simp: plain_code_def NormalizeSecurityCode_def Let_def TrimSpace_ToUpper digits)
  show "NormalizeSecurityCode raw = [] \<longleftrightarrow> ?c = []"
    by (auto simp: NormalizeSecurityCode_def Let_def ToUpper_def)
qed

section \<open>Recalculating several rows\<close>

lemma only_snap_settled:
  assumes "only_snap c t t'" "c' \<noteq> c" "settled E c' t"
  shows "settled E c' t'"
proof -
  from assms(3) obtain s where s: "s \<in> set (bk_snaps t)" "sn_code s = c'" "sn_held s = Some (ledger_held E c' t)" "sn_cost s = Some (ledger_cost E c' t)"
    by (auto simp: settled_def)
  have "set (filter (\<lambda>s. sn_code s \<noteq> c) (bk_snaps t)) \<subseteq> set (bk_snaps t')"
    using assms(1) by (metis only_snap_def filter_is_subset)
  with s assms(2) have "s \<in> set (bk_snaps t')" by auto
  moreover have "ledger_held E c' t' = ledger_held E c' t" "ledger_cost E c' t' = ledger_cost E c' t"
    using assms(1) by (simp_all add: ledger_held_def ledger_cost_def rows_of_def only_snap_def)
  ultimately show ?thesis using s by (auto simp: settled_def)
qed

text \<open>After it the ledger is as it was, and every row of \<open>cs\<close> or settled before is settled.\<close>

definition resettled :: "'f books_env \<Rightarrow> string set \<Rightarrow> 'f books \<Rightarrow> 'f books \<Rightarrow> bool" where
  "resettled E cs t t' \<longleftrightarrow> bk_tx t' = bk_tx t \<and> bk_next t' = bk_next t \<and>
     (\<forall>c. c \<noteq> [] \<longrightarrow> c \<in> cs \<or> settled E c t \<longrightarrow> settled E c t')"

lemma resettled_trans: "resettled E {c} t t1 \<Longrightarrow> resettled E cs t1 t2 \<Longrightarrow> resettled E (insert c cs) t t2"
  unfolding resettled_def by (metis insert_iff)

lemma triple_recalc_one:
  "triple (\<lambda>t. t = t0) (recalc E c pid mode resolve) (\<lambda>_. resettled E {c} t0) (\<lambda>_. True)"
proof (cases "c = []")
  case True
  then show ?thesis by (auto simp: recalc_def resettled_def intro!: triple_ret)
next
  case False
  have sub: "resettled E {c} t0 t" if "only_snap c t0 t \<and> settled E c t" for t :: "'a books"
  proof -
    have "settled E c' t" if "settled E c' t0" for c'
      using only_snap_settled [OF _ _ that] \<open>only_snap c t0 t \<and> settled E c t\<close> by (cases "c' = c") auto
    with that show ?thesis by (auto simp: resettled_def only_snap_def)
  qed
  show ?thesis by (rule triple_weaken [OF triple_recalc [OF False]]) (simp, rule sub, simp_all)
qed

lemma triple_recalc_codes:
  "triple (\<lambda>t. t = t0) (recalc_codes E cs) (\<lambda>_. resettled E (set cs) t0) (\<lambda>_. True)"
proof (induction cs arbitrary: t0)
  case Nil
  show ?case by (auto simp: resettled_def intro!: triple_ret)
next
  case (Cons c cs)
  show ?case unfolding recalc_codes.simps Recalc_def
    by (rule triple_andThen [OF triple_recalc_one], rule triple_step [OF Cons.IH]) (simp add: resettled_trans)
qed

lemma triple_in_tx:
  assumes "triple (\<lambda>t. t = t0) m Q (\<lambda>_. True)"
  shows "triple (\<lambda>t. t = t0) (in_tx m) Q (\<lambda>t. t = t0)"
proof -
  have "triple (\<lambda>t. t = t0) (andThen (qry (\<lambda>t. ((), t))) (\<lambda>_. andThen m (\<lambda>a. andThen (qry (\<lambda>t. ((), t))) (\<lambda>_. ret a)))) Q (\<lambda>_. True)"
    by (rule triple_andThen [where Q' = "\<lambda>_ t. t = t0"], rule triple_qry, simp, rule triple_andThen [OF assms],
        rule triple_andThen [where Q' = "\<lambda>_. Q a" for a], rule triple_qry, simp, rule triple_ret)
  then show ?thesis by (fastforce simp: triple_def in_tx_def split: prod.splits sum.splits)
qed

section \<open>The books stay settled\<close>

definition books_ok :: "'f books_env \<Rightarrow> 'f books \<Rightarrow> bool" where
  "books_ok E t \<longleftrightarrow> distinct (map tn_seq (bk_tx t)) \<and> (\<forall>r \<in> set (bk_tx t). tn_seq r < bk_next t \<and>
     (\<forall>c. tn_code r = Some c \<longrightarrow> plain_code c \<and> (c \<noteq> [] \<longrightarrow> settled E c t)))"

text \<open>What a write to the ledger has to leave for the recalculation of \<open>cs\<close> to settle the books.\<close>

definition ledger_moved :: "string set \<Rightarrow> 'f books \<Rightarrow> 'f books \<Rightarrow> bool" where
  "ledger_moved cs t t' \<longleftrightarrow> distinct (map tn_seq (bk_tx t')) \<and> bk_snaps t' = bk_snaps t \<and>
     (\<forall>r \<in> set (bk_tx t'). tn_seq r < bk_next t' \<and> (\<forall>c. tn_code r = Some c \<longrightarrow> plain_code c)) \<and>
     (\<forall>c. c \<notin> cs \<longrightarrow> rows_of c t' = rows_of c t)"

lemma settled_cong: "bk_snaps t' = bk_snaps t \<Longrightarrow> rows_of c t' = rows_of c t \<Longrightarrow> settled E c t' = settled E c t"
  by (simp add: settled_def ledger_held_def ledger_cost_def)

lemma in_rows_of: "r \<in> set (rows_of c t) \<longleftrightarrow> r \<in> set (bk_tx t) \<and> tn_code r = Some c"
  by (simp add: rows_of_def)

lemma books_ok_resettled:
  assumes "books_ok E t0" "ledger_moved cs t0 t1" "resettled E cs t1 t2"
  shows "books_ok E t2"
proof -
  have "settled E c t2" if "r \<in> set (bk_tx t1)" "tn_code r = Some c" "c \<noteq> []" for r c
  proof (cases "c \<in> cs")
    case False
    with assms(2) have rows: "rows_of c t1 = rows_of c t0" and snaps: "bk_snaps t1 = bk_snaps t0" by (auto simp: ledger_moved_def)
    from that(1,2) rows have "r \<in> set (bk_tx t0)" by (metis in_rows_of)
    with assms(1) that have "settled E c t0" by (auto simp: books_ok_def)
    with settled_cong [OF snaps rows] assms(3) that(3) show ?thesis by (auto simp: resettled_def)
  qed (use assms(3) that in \<open>auto simp: resettled_def\<close>)
  with assms(2,3) show ?thesis by (auto simp: books_ok_def ledger_moved_def resettled_def)
qed

lemma ledger_moved_refl: "books_ok E t \<Longrightarrow> ledger_moved cs t t"
  by (auto simp: books_ok_def ledger_moved_def)

lemma ledger_moved_mono: "ledger_moved cs t t' \<Longrightarrow> cs \<subseteq> cs' \<Longrightarrow> ledger_moved cs' t t'"
  by (auto simp: ledger_moved_def)

text \<open>The recalculation of what a write touched.\<close>

lemma triple_resettle:
  assumes "books_ok E t0"
  shows "triple (ledger_moved (set cs) t0) (recalc_codes E cs) (\<lambda>_. books_ok E) (\<lambda>_. True)"
    "triple (ledger_moved {c} t0) (recalc E c pid mode resolve) (\<lambda>_. books_ok E) (\<lambda>_. True)"
  by (rule triple_step [OF triple_recalc_codes] triple_step [OF triple_recalc_one], erule (1) books_ok_resettled [OF assms])+

lemma triple_read: "triple P (qry (\<lambda>t. (f t, t))) (\<lambda>_. P) (\<lambda>_. True)"
  by (rule triple_qry) simp

text \<open>Import.\<close>

lemma normalized_code:
  assumes "normalizeImportTransaction M i now k = Inr n"
  shows "plain_code (im_FundCode n)" "im_FundCode n \<noteq> []"
proof -
  let ?t = "TrimSpace (if im_FundCode i = [] then im_SecurityCode i else im_FundCode i)"
  have "length ?t \<le> 32" "NormalizeSecurityCode ?t \<noteq> []" "im_FundCode n = NormalizeSecurityCode ?t"
    using assms by (auto simp: normalizeImportTransaction_def Let_def split: if_splits)
  then show "plain_code (im_FundCode n)" "im_FundCode n \<noteq> []" using NormalizeSecurityCode_plain(1) [of ?t] by simp_all
qed

lemma insert_txn_moved:
  assumes "ledger_moved cs t0 t" "tn_code r = Some c" "plain_code c" "insert_txn r t = (k, t')"
  shows "ledger_moved (if 0 < k then insert c cs else cs) t0 t'"
proof -
  from assms(1) have lt: "tn_seq q < bk_next t" if "q \<in> set (bk_tx t)" for q using that by (simp add: ledger_moved_def)
  then have fresh: "bk_next t \<notin> tn_seq ` set (bk_tx t)" "\<And>q. q \<in> set (bk_tx t) \<Longrightarrow> tn_seq q < bk_next t + 1"
    by (auto dest: lt)
  from assms(1) have "ledger_moved (insert c cs) t0 (t\<lparr>bk_tx := bk_tx t @ [r\<lparr>tn_seq := bk_next t\<rparr>], bk_next := bk_next t + 1\<rparr>)"
    unfolding ledger_moved_def rows_of_def using fresh assms(2,3) by auto
  with assms(1,4) show ?thesis by (auto simp: insert_txn_def split: if_splits)
qed

lemma import_row_code [simp]: "tn_code (import_row M n) = Some (im_FundCode n)" "tn_order (import_row M n) = Some (im_OrderID n)"
  by (simp_all add: import_row_def Let_def)

lemma triple_import_rows:
  "triple (\<lambda>t. ledger_moved (set (snd acc)) t0 t) (import_rows M now k is acc)
     (\<lambda>a t. ledger_moved (set (snd a)) t0 t) (\<lambda>_. True)"
proof (induction "is" arbitrary: k acc)
  case Nil
  show ?case by (auto intro: triple_ret)
next
  case (Cons i "is")
  let ?acc = "\<lambda>n rows. if rows > 0 then (fst acc + 1, List.insert (im_FundCode n) (snd acc)) else acc"
  have ins: "triple (\<lambda>t. ledger_moved (set (snd acc)) t0 t \<and> plain_code (im_FundCode n)) (qry (insert_txn (import_row M n)))
      (\<lambda>rows t. ledger_moved (set (snd (?acc n rows))) t0 t) (\<lambda>_. True)" for n
    by (rule triple_qry) (auto dest: insert_txn_moved [where r = "import_row M n"] simp: prod_eq_iff split: if_splits)
  show ?case unfolding import_rows.simps
    by (rule triple_andThen [where Q' = "\<lambda>n t. ledger_moved (set (snd acc)) t0 t \<and> plain_code (im_FundCode n)"],
        rule triple_check, simp add: normalized_code, rule triple_andThen [OF ins], rule triple_andThen [OF triple_read], rule Cons.IH)
qed

lemma import_keeps:
  assumes "books_ok E t0" "\<And>xs. set (visit xs) = set xs"
  shows "triple (\<lambda>t. t = t0) (ImportTransactions E visit now is) (\<lambda>_. books_ok E) (\<lambda>t. t = t0)"
proof -
  have rows: "triple (\<lambda>t. t = t0) (import_rows (be_money E) now 0 is (0, [])) (\<lambda>a t. ledger_moved (set (visit (snd a))) t0 t) (\<lambda>_. True)"
    unfolding assms(2)
    by (rule triple_weaken [OF triple_import_rows]) (use ledger_moved_refl [OF assms(1), of "{}"] in simp_all)
  show ?thesis unfolding ImportTransactions_def split_def
    by (rule triple_if, simp add: triple_throw, rule triple_in_tx, rule triple_andThen [OF triple_read], rule triple_andThen [OF rows],
        rule triple_andThen [OF triple_resettle(1) [OF assms(1)]], rule triple_ret)
qed

text \<open>Update and delete.\<close>

lemma triple_getTransaction:
  "triple (\<lambda>t. t = t0) (getTransaction E seq)
     (\<lambda>e t. t = t0 \<and> (\<exists>r \<in> set (bk_tx t0). tn_seq r = seq \<and> e = read_row (be_money E) r)) (\<lambda>t. t = t0)"
  unfolding getTransaction_def
  by (rule triple_andThen [where Q' = "\<lambda>found t. t = t0 \<and> found = select1 (\<lambda>r. tn_seq r = seq) (bk_tx t0)"], rule triple_qry, simp)
    (auto split: option.split intro!: triple_ret triple_throw simp: triple_def dest!: select1_SomeD)

lemma rows_of_update:
  assumes "\<And>r. r \<in> set (bk_tx t) \<Longrightarrow> p r \<Longrightarrow> tn_code r \<noteq> Some c \<and> tn_code (f r) \<noteq> Some c"
  shows "rows_of c (t\<lparr>bk_tx := update_where p f (bk_tx t)\<rparr>) = rows_of c t"
proof -
  have "filter (\<lambda>r. tn_code r = Some c) (update_where p f rows) = filter (\<lambda>r. tn_code r = Some c) rows"
    if "set rows \<subseteq> set (bk_tx t)" for rows
    using that assms by (induction rows) (auto simp: update_where_def)
  then show ?thesis by (simp add: rows_of_def)
qed

lemma same_seq: "distinct (map tn_seq rows) \<Longrightarrow> r \<in> set rows \<Longrightarrow> q \<in> set rows \<Longrightarrow> tn_seq r = tn_seq q \<Longrightarrow> r = q"
  by (metis eq_key_imp_eq_value distinct_map inj_onD)

lemma set_fields_seq [simp]: "tn_seq (set_fields M u n r) = tn_seq r"
  by (simp add: set_fields_def)

lemma set_fields_code: "tn_code (set_fields M u n r) = (if ut_FundCode u = None then tn_code r else Some (xr_FundCode n))"
  by (simp add: set_fields_def)

lemma read_code: "books_ok E t \<Longrightarrow> r \<in> set (bk_tx t) \<Longrightarrow> tn_code r = Some c \<Longrightarrow> xr_FundCode (read_row M r) = c"
  by (auto simp: read_row_def books_ok_def clamp_plain)

lemma updated_code_plain:
  assumes "update_ok M u e" "ut_FundCode u = Some c"
  shows "plain_code (xr_FundCode (next_row u e))"
  using assms NormalizeSecurityCode_plain(1) [of "TrimSpace c"] by (auto simp: update_ok_def Let_def given_def next_row_def)

lemma update_txn_moved:
  assumes ok: "books_ok E t" and r: "r \<in> set (bk_tx t)" "tn_seq r = seq" and e: "e = read_row M r" and valid: "update_ok M u e"
  shows "ledger_moved {xr_FundCode (next_row u e), xr_FundCode e} t (snd (update_txn M seq u (next_row u e) t))"
proof -
  let ?n = "next_row u e" let ?f = "set_fields M u ?n" let ?rows = "update_where (\<lambda>q. tn_seq q = seq) ?f (bk_tx t)"
  have only: "q = r" if "q \<in> set (bk_tx t)" "tn_seq q = seq" for q
    using ok that r by (auto simp: books_ok_def dest: same_seq)
  have "distinct (map tn_seq ?rows)" using ok by (simp add: books_ok_def map_key_update_where)
  moreover have "tn_seq q < bk_next t \<and> (\<forall>c. tn_code q = Some c \<longrightarrow> plain_code c)" if q: "q \<in> set ?rows" for q
  proof -
    from q obtain p where p: "p \<in> set (bk_tx t)" "q = p \<or> q = ?f p" by (auto simp: update_where_def)
    have "plain_code c" if "tn_code q = Some c" for c
      using p(2) that ok p(1) updated_code_plain [OF valid] by (auto simp: set_fields_code books_ok_def split: if_splits)
    with p ok show ?thesis by (auto simp: books_ok_def)
  qed
  moreover have "rows_of c (t\<lparr>bk_tx := ?rows\<rparr>) = rows_of c t" if c: "c \<notin> {xr_FundCode ?n, xr_FundCode e}" for c
  proof (rule rows_of_update)
    fix q assume "q \<in> set (bk_tx t)" "tn_seq q = seq"
    then have q: "q = r" by (rule only)
    have "tn_code r \<noteq> Some c" using read_code [OF ok r(1), where M = M] c e by auto
    with c show "tn_code q \<noteq> Some c \<and> tn_code (?f q) \<noteq> Some c" by (auto simp: q set_fields_code)
  qed
  ultimately show ?thesis unfolding update_txn_def ledger_moved_def by simp
qed

lemma delete_txn_moved:
  assumes ok: "books_ok E t" and r: "r \<in> set (bk_tx t)" "tn_seq r = seq"
  shows "ledger_moved {xr_FundCode (read_row M r)} t (snd (delete_txn seq t))"
proof -
  have "rows_of c (t\<lparr>bk_tx := filter (\<lambda>q. tn_seq q \<noteq> seq) (bk_tx t)\<rparr>) = rows_of c t"
    if c: "c \<noteq> xr_FundCode (read_row M r)" for c
  proof -
    have "tn_seq q \<noteq> seq" if "q \<in> set (bk_tx t)" "tn_code q = Some c" for q
      using same_seq [of "bk_tx t" q r] ok r that read_code [OF ok r(1), where M = M] c by (auto simp: books_ok_def)
    then show ?thesis by (auto simp: rows_of_def intro: filter_cong)
  qed
  then show ?thesis using ok by (auto simp: delete_txn_def delete_where_def ledger_moved_def books_ok_def distinct_map_filter)
qed

lemma update_keeps:
  assumes "books_ok E t0"
  shows "triple (\<lambda>t. t = t0) (UpdateTransaction E seq u) (\<lambda>_. books_ok E) (\<lambda>t. t = t0)"
proof -
  have step: "triple (\<lambda>t. t = t0) (in_tx (andThen (qry (update_txn (be_money E) seq u n)) (\<lambda>_.
       recalc_codes E (if xr_FundCode n \<noteq> xr_FundCode e then [xr_FundCode n, xr_FundCode e] else [xr_FundCode n]))))
       (\<lambda>_. books_ok E) (\<lambda>t. t = t0)"
    if e: "\<exists>r \<in> set (bk_tx t0). tn_seq r = seq \<and> e = read_row (be_money E) r" and ok: "update_ok (be_money E) u e" and n: "n = next_row u e" for e n
  proof (rule triple_in_tx, rule triple_andThen [OF _ triple_resettle(1) [OF assms]], rule triple_qry)
    fix t assume t: "t = t0"
    from e obtain r where r: "r \<in> set (bk_tx t0)" "tn_seq r = seq" "e = read_row (be_money E) r" by blast
    from update_txn_moved [OF assms r ok] show "ledger_moved (set (if xr_FundCode n \<noteq> xr_FundCode e then [xr_FundCode n, xr_FundCode e] else [xr_FundCode n]))
        t0 (snd (update_txn (be_money E) seq u n t)) \<and> True"
      by (auto simp: t n elim: ledger_moved_mono)
  qed
  show ?thesis unfolding UpdateTransaction_def Let_def
    by (rule triple_if, simp add: triple_throw, rule triple_andThen [OF triple_getTransaction], rule triple_pure, rule triple_if, simp add: triple_throw,
        rule triple_andThen [OF step], simp_all add: triple_ret)
qed

lemma delete_keeps:
  assumes "books_ok E t0"
  shows "triple (\<lambda>t. t = t0) (DeleteTransaction E seq) (\<lambda>_. books_ok E) (\<lambda>t. t = t0)"
proof -
  have step: "triple (\<lambda>t. t = t0) (in_tx (andThen (qry (delete_txn seq)) (\<lambda>_. recalc_codes E [xr_FundCode e]))) (\<lambda>_. books_ok E) (\<lambda>t. t = t0)"
    if "\<exists>r \<in> set (bk_tx t0). tn_seq r = seq \<and> e = read_row (be_money E) r" for e
  proof (rule triple_in_tx, rule triple_andThen [OF _ triple_resettle(1) [OF assms]], rule triple_qry)
    fix t assume "t = t0"
    with that delete_txn_moved [OF assms, where seq = seq and M = "be_money E"]
    show "ledger_moved (set [xr_FundCode e]) t0 (snd (delete_txn seq t)) \<and> True" by auto
  qed
  show ?thesis unfolding DeleteTransaction_def
    by (rule triple_if, simp add: triple_throw, rule triple_andThen [OF triple_getTransaction], rule triple_pure,
        rule triple_andThen [OF step], simp_all add: triple_ret)
qed

text \<open>Adjustment: each statement stands alone, so only success leaves the books settled.\<close>

lemma adjust_keeps:
  assumes ok: "books_ok E t0"
  shows "triple (\<lambda>t. t = t0) (AdjustPosition E item k i) (\<lambda>_. books_ok E) (\<lambda>_. True)"
proof (cases "adjust_bad (be_money E) i")
  case True
  then show ?thesis by (simp add: AdjustPosition_def triple_throw)
next
  case False
  let ?code = "TrimSpace (ap_Code i)"
  from False have plain: "plain_code ?code" by (simp add: adjust_bad_def plain_code_def)
  have insert: "triple (\<lambda>t. t = t0) (qry (insert_txn (adjust_row M k ?code name delta))) (\<lambda>_. ledger_moved {?code} t0) (\<lambda>_. True)" for M name delta
  proof (rule triple_qry, rule conjI)
    fix t assume t: "t = t0"
    have "ledger_moved (if 0 < fst (insert_txn (adjust_row M k ?code name delta) t0) then {?code} else {}) t0
        (snd (insert_txn (adjust_row M k ?code name delta) t0))"
      by (rule insert_txn_moved [OF ledger_moved_refl [OF ok] _ plain]) (simp_all add: adjust_row_def)
    then show "ledger_moved {?code} t0 (snd (insert_txn (adjust_row M k ?code name delta) t))"
      unfolding t by (rule ledger_moved_mono) simp
  qed simp
  have item: "triple P (andThen (qry (\<lambda>t. (item ?code t, t))) (\<lambda>x. case x of None \<Rightarrow> throw DbError | Some x \<Rightarrow> ret x)) (\<lambda>_. P) (\<lambda>_. True)" for P
    by (rule triple_andThen [OF triple_read], rule triple_option, rule triple_ret)
  note recalc = triple_resettle(2) [OF ok, of ?code]
  from recalc have recalc0: "triple (\<lambda>t. t = t0) (recalc E ?code pid mode resolve) (\<lambda>_. books_ok E) (\<lambda>_. True)" for pid mode resolve
    by (rule triple_weaken) (simp_all add: ledger_moved_refl [OF ok])
  show ?thesis unfolding AdjustPosition_def Let_def if_not_P [OF False] RecalcForPortfolio_def
    by (rule triple_andThen [OF triple_read], rule triple_if, simp add: triple_throw, rule triple_andThen [OF triple_read], rule triple_if,
        rule triple_andThen [OF recalc0], rule triple_andThen [OF item], rule triple_ret, assumption,
        rule triple_andThen [OF triple_read], rule triple_andThen [OF insert], rule triple_andThen [OF triple_read], rule triple_if, simp add: triple_throw,
        rule triple_andThen [OF recalc], rule triple_andThen [OF triple_read], rule triple_option, rule triple_if, simp add: triple_throw,
        rule triple_andThen [OF item], rule triple_ret, assumption)
qed

section \<open>An import is idempotent\<close>

definition recorded :: "string \<Rightarrow> string \<Rightarrow> 'f books \<Rightarrow> bool" where
  "recorded order code t \<longleftrightarrow> list_ex (\<lambda>q. tn_order q = Some order \<and> tn_code q = Some code) (bk_tx t)"

definition all_recorded :: "'f money \<Rightarrow> nat \<Rightarrow> 'f ImportTransaction list \<Rightarrow> 'f books \<Rightarrow> bool" where
  "all_recorded M now is t \<longleftrightarrow> (\<forall>i \<in> set is. \<forall>k n. normalizeImportTransaction M i now k = Inr n \<longrightarrow>
     recorded (im_OrderID n) (im_FundCode n) t)"

text \<open>An item with an order id of its own is normalized alike every time.\<close>

lemma normalize_order:
  "im_OrderID i \<noteq> [] \<Longrightarrow> normalizeImportTransaction M i now k = normalizeImportTransaction M i now' k'"
  by (simp add: normalizeImportTransaction_def)

lemma insert_txn_records:
  assumes "insert_txn (import_row M n) t = (k, t')"
  shows "recorded (im_OrderID n) (im_FundCode n) t'" "recorded q c t \<Longrightarrow> recorded q c t'"
  using assms by (auto simp: insert_txn_def recorded_def split: if_splits)

lemma recorded_insert: "recorded (im_OrderID n) (im_FundCode n) t \<Longrightarrow> insert_txn (import_row M n) t = (0, t)"
  by (simp add: insert_txn_def recorded_def)

text \<open>The first time, everything gets recorded.\<close>

lemma triple_records:
  assumes "\<And>i. i \<in> set is \<Longrightarrow> im_OrderID i \<noteq> []"
  shows "triple (\<lambda>t. S \<subseteq> {(q, c). recorded q c t}) (import_rows M now k is acc)
    (\<lambda>_ t. S \<subseteq> {(q, c). recorded q c t} \<and> all_recorded M now is t) (\<lambda>_. True)"
  using assms
proof (induction "is" arbitrary: k acc S)
  case Nil
  show ?case by (auto simp: all_recorded_def intro: triple_ret)
next
  case (Cons i "is")
  let ?S = "\<lambda>n. insert (im_OrderID n, im_FundCode n) S"
  let ?P = "\<lambda>S t. S \<subseteq> {(q, c). recorded q c t}"
  have ins: "triple (\<lambda>t. ?P S t \<and> normalizeImportTransaction M i now k = Inr n) (qry (insert_txn (import_row M n)))
      (\<lambda>_ t. ?P (?S n) t \<and> normalizeImportTransaction M i now k = Inr n) (\<lambda>_. True)" for n
    by (rule triple_qry) (use insert_txn_records [of M n] in \<open>fastforce simp: prod_eq_iff\<close>)
  have order: "im_OrderID i \<noteq> []" using Cons.prems by simp
  have rest: "triple (\<lambda>t. ?P (?S n) t \<and> normalizeImportTransaction M i now k = Inr n) (import_rows M now (Suc k) is acc)
      (\<lambda>_ t. ?P S t \<and> all_recorded M now (i # is) t) (\<lambda>_. True)" for n acc
  proof (rule triple_pure, rule triple_weaken [OF Cons.IH])
    fix t assume n: "normalizeImportTransaction M i now k = Inr n" and t: "?P (?S n) t \<and> all_recorded M now is t"
    have "m = n" if "normalizeImportTransaction M i now k' = Inr m" for m k'
      using normalize_order [OF order, of M now k now k'] n that by simp
    with t show "?P S t \<and> all_recorded M now (i # is) t" by (auto simp: all_recorded_def)
  qed (use Cons.prems in auto)
  show ?case unfolding import_rows.simps
    by (rule triple_andThen [where Q' = "\<lambda>n t. ?P S t \<and> normalizeImportTransaction M i now k = Inr n"], rule triple_check, simp,
        rule triple_andThen [OF ins], rule triple_andThen [OF triple_read], rule rest)
qed

text \<open>The second time, nothing is inserted.\<close>

lemma triple_nothing_new:
  assumes "all_recorded M now is t0" "\<And>i. i \<in> set is \<Longrightarrow> im_OrderID i \<noteq> []"
  shows "triple (\<lambda>t. t = t0) (import_rows M now' k is acc) (\<lambda>a t. t = t0 \<and> a = acc) (\<lambda>_. True)"
  using assms
proof (induction "is" arbitrary: k)
  case Nil
  show ?case by (simp add: triple_ret)
next
  case (Cons i "is")
  have rec: "recorded (im_OrderID n) (im_FundCode n) t0" if "normalizeImportTransaction M i now' k = Inr n" for n
  proof -
    have "normalizeImportTransaction M i now k = Inr n"
      using normalize_order [OF Cons.prems(2), of i M now k now' k] that by simp
    with Cons.prems(1) show ?thesis by (auto simp: all_recorded_def)
  qed
  have ins: "triple (\<lambda>t. t = t0 \<and> recorded (im_OrderID n) (im_FundCode n) t0) (qry (insert_txn (import_row M n)))
      (\<lambda>rows t. t = t0 \<and> rows = 0) (\<lambda>_. True)" for n
    by (rule triple_qry) (use recorded_insert [of n] in auto)
  have IH: "triple (\<lambda>t. t = t0) (import_rows M now' (Suc k) is acc) (\<lambda>a t. t = t0 \<and> a = acc) (\<lambda>_. True)"
    by (rule Cons.IH) (use Cons.prems in \<open>auto simp: all_recorded_def\<close>)
  have rest: "triple (\<lambda>t. t = t0 \<and> rows = 0) (import_rows M now' (Suc k) is (if rows > 0 then acc' else acc))
      (\<lambda>a t. t = t0 \<and> a = acc) (\<lambda>_. True)" for rows :: nat and acc'
    by (rule triple_pure) (use IH in simp)
  show ?case unfolding import_rows.simps
    by (rule triple_andThen [where Q' = "\<lambda>n t. t = t0 \<and> recorded (im_OrderID n) (im_FundCode n) t0"], rule triple_check, simp add: rec,
        rule triple_andThen [OF ins], rule triple_andThen [OF triple_read], rule rest)
qed

lemma import_records:
  assumes "\<And>i. i \<in> set is \<Longrightarrow> im_OrderID i \<noteq> []"
  shows "triple (\<lambda>t. t = t0) (ImportTransactions E visit now is) (\<lambda>_. all_recorded (be_money E) now is) (\<lambda>t. t = t0)"
proof -
  have rows: "triple (\<lambda>t. t = t0) (import_rows (be_money E) now 0 is (0, [])) (\<lambda>_. all_recorded (be_money E) now is) (\<lambda>_. True)"
    by (rule triple_weaken [OF triple_records [OF assms, where S = "{}"]]) simp_all
  have recalc: "triple (all_recorded (be_money E) now is) (recalc_codes E cs) (\<lambda>_. all_recorded (be_money E) now is) (\<lambda>_. True)" for cs
    by (rule triple_step [OF triple_recalc_codes]) (simp add: all_recorded_def recorded_def resettled_def)
  show ?thesis unfolding ImportTransactions_def split_def
    by (rule triple_if, simp add: triple_throw, rule triple_in_tx, rule triple_andThen [OF triple_read], rule triple_andThen [OF rows],
        rule triple_andThen [OF recalc], rule triple_ret)
qed

lemma import_nothing_new:
  assumes "all_recorded (be_money E) now is t0" "\<And>i. i \<in> set is \<Longrightarrow> im_OrderID i \<noteq> []" "visit [] = []"
  shows "triple (\<lambda>t. t = t0) (ImportTransactions E visit now' is)
    (\<lambda>r t. t = t0 \<and> r = \<lparr>ir_Imported = 0, ir_Total = length is, ir_AffectedFunds = 0\<rparr>) (\<lambda>t. t = t0)"
proof -
  note rows = triple_nothing_new [OF assms(1,2), where acc = "(0, [])" and k = 0 and now' = now']
  have recalc: "triple (\<lambda>t. t = t0) (andThen (recalc_codes E (visit (snd (0 :: nat, [])))) (\<lambda>_.
      ret \<lparr>ir_Imported = fst (0, [] :: string list), ir_Total = length is, ir_AffectedFunds = length (snd (0 :: nat, [] :: string list))\<rparr>))
      (\<lambda>r t. t = t0 \<and> r = \<lparr>ir_Imported = 0, ir_Total = length is, ir_AffectedFunds = 0\<rparr>) (\<lambda>_. True)"
    by (simp add: assms(3)) (simp add: triple_def proc_defs)
  have rest: "triple (\<lambda>t. t = t0 \<and> a = (0, [])) (andThen (recalc_codes E (visit (snd a))) (\<lambda>_.
      ret \<lparr>ir_Imported = fst a, ir_Total = length is, ir_AffectedFunds = length (snd a)\<rparr>))
      (\<lambda>r t. t = t0 \<and> r = \<lparr>ir_Imported = 0, ir_Total = length is, ir_AffectedFunds = 0\<rparr>) (\<lambda>_. True)" for a
    by (rule triple_pure) (use recalc in simp)
  show ?thesis unfolding ImportTransactions_def split_def
    by (rule triple_if, simp add: triple_throw, rule triple_in_tx, rule triple_andThen [OF triple_read], rule triple_andThen [OF rows],
        assumption, rule rest)
qed

section \<open>Guarantees\<close>

text \<open>
  C17. The books stay settled: every fund of the ledger keeps a snapshot row with the held shares and the
  cost that the ledger sums to. An import, an update or a delete that fails changes no table, and one that
  succeeds leaves the books settled, whatever statement of it fails; so does an adjustment that succeeds.
\<close>

theorem books_settled:
  assumes "books_ok E (tables d)" "\<And>xs. set (visit xs) = set xs"
  shows "(case ImportTransactions E visit now items d of (Inl _, d') \<Rightarrow> tables d' = tables d | (Inr _, d') \<Rightarrow> books_ok E (tables d')) \<and>
    (case UpdateTransaction E seq u d of (Inl _, d') \<Rightarrow> tables d' = tables d | (Inr _, d') \<Rightarrow> books_ok E (tables d')) \<and>
    (case DeleteTransaction E seq d of (Inl _, d') \<Rightarrow> tables d' = tables d | (Inr _, d') \<Rightarrow> books_ok E (tables d')) \<and>
    (case AdjustPosition E item k i d of (Inl _, d') \<Rightarrow> True | (Inr _, d') \<Rightarrow> books_ok E (tables d'))"
  using import_keeps [OF assms] update_keeps [OF assms(1)] delete_keeps [OF assms(1)] adjust_keeps [OF assms(1)]
  unfolding triple_def by (fastforce split: prod.splits sum.splits)

text \<open>
  C26. An import is idempotent: importing again what a successful import recorded, every item with an order
  id of its own, records nothing, touches no fund and leaves every table as it was, whether it succeeds or fails.
\<close>

theorem import_idempotent:
  assumes "ImportTransactions E visit now items d = (Inr r, d1)" "\<And>i. i \<in> set items \<Longrightarrow> im_OrderID i \<noteq> []"
    "\<And>xs. set (visit' xs) = set xs" "tables d2 = tables d1"
  shows "tables (snd (ImportTransactions E visit' now' items d2)) = tables d1 \<and>
    (\<forall>r'. fst (ImportTransactions E visit' now' items d2) = Inr r' \<longrightarrow> ir_Imported r' = 0 \<and> ir_AffectedFunds r' = 0)"
proof -
  have "all_recorded (be_money E) now items (tables d1)"
    using tripleD [OF import_records [OF assms(2)] _ assms(1)] by simp
  moreover have "visit' [] = []" using assms(3) [of "[]"] by simp
  ultimately have "triple (\<lambda>t. t = tables d1) (ImportTransactions E visit' now' items)
      (\<lambda>r t. t = tables d1 \<and> r = \<lparr>ir_Imported = 0, ir_Total = length items, ir_AffectedFunds = 0\<rparr>) (\<lambda>t. t = tables d1)"
    using assms(2) by (intro import_nothing_new) simp_all
  note second = this
  obtain r' d3 where run: "ImportTransactions E visit' now' items d2 = (r', d3)" by fastforce
  show ?thesis
  proof (cases r')
    case (Inl e)
    with tripleX [OF second assms(4)] run show ?thesis by simp
  next
    case (Inr a)
    with tripleD [OF second assms(4)] run show ?thesis by simp
  qed
qed

section \<open>An example\<close>

text \<open>Whole amounts.\<close>

definition whole :: "int money" where
  "whole = \<lparr>mo_int = \<lambda>i. i, mo_le = (\<le>), mo_less = (<), mo_eq = (=), mo_add = (+), mo_sub = (-), mo_mul = (*), mo_div = (div),
     mo_neg = uminus, mo_abs = abs, mo_round = \<lambda>x. x, mo_finite = \<lambda>_. True, mo_sum = sum_list\<rparr>"

definition example_env :: "int books_env" where
  "example_env = \<lparr>be_money = whole, be_dialect = Sqlite, be_single_pk = False, be_max_name = hd\<rparr>"

definition example_txn :: "int txn" where
  "example_txn = \<lparr>tn_seq = 1, tn_order = Some ''a'', tn_time = Some ''2026-01-05'', tn_confirm = None, tn_type = None,
     tn_direction = Some ''buy'', tn_code = Some ''000001'', tn_name = None, tn_amount = Some 10, tn_share = Some 5, tn_fee = Some 0,
     tn_cash = Some (- 10), tn_change = Some 5, tn_days = Some 0\<rparr>"

definition example_books :: "int books" where
  "example_books = \<lparr>bk_tx = [example_txn], bk_next = 2, bk_details = [], bk_navs = [],
     bk_snaps = [\<lparr>sn_code = ''000001'', sn_name = None, sn_held = Some 5, sn_cost = Some (- 10), sn_nav = None, sn_value = Some 0,
       sn_pnl = Some (- 10), sn_pct = None, sn_type = None, sn_pid = Some 1\<rparr>]\<rparr>"

definition example_item :: "int ImportTransaction" where
  "example_item = \<lparr>im_OrderID = ''b'', im_FundCode = ''1'', im_SecurityCode = [], im_FundName = [], im_TradeTime = ''2026-01-06'',
     im_ConfirmDate = [], im_TradeType = [], im_Direction = ''sell'', im_Amount = Some 6, im_Share = Some 2, im_Fee = Some 1,
     im_Cash = None, im_Change = None\<rparr>"

definition example_import :: "int books db \<Rightarrow> (books_error + ImportTransactionsResult) \<times> int books db" where
  "example_import = ImportTransactions example_env id 7 [example_item]"

lemma example_runs:
  "map_sum id ir_Imported (fst (example_import \<lparr>tables = example_books, faults = []\<rparr>)) = Inr 1"
  "map sn_held (bk_snaps (tables (snd (example_import \<lparr>tables = example_books, faults = []\<rparr>)))) = [Some 3]"
  by code_simp+

lemma example_ok: "books_ok example_env example_books"
  by (simp add: books_ok_def example_books_def example_txn_def settled_def ledger_held_def ledger_cost_def rows_of_def) code_simp

theorem books_settled_witness:
  "books_ok example_env (tables (snd (example_import \<lparr>tables = example_books, faults = []\<rparr>))) \<and>
   (case DeleteTransaction example_env 1 \<lparr>tables = example_books, faults = [False, False, True]\<rparr> of
      (Inl _, d') \<Rightarrow> tables d' = example_books | (Inr _, d') \<Rightarrow> books_ok example_env (tables d'))"
proof -
  have d: "books_ok example_env (tables \<lparr>tables = example_books, faults = fs\<rparr>)" for fs by (simp add: example_ok)
  have visit: "set (id xs) = set xs" for xs :: "string list" by simp
  note ok = books_settled [OF d visit, where now = 7 and items = "[example_item]" and seq = 1]
  obtain r d' where run: "example_import \<lparr>tables = example_books, faults = []\<rparr> = (r, d')"
    by (cases "example_import \<lparr>tables = example_books, faults = []\<rparr>")
  with example_runs(1) obtain a where "r = Inr a" by (cases r) auto
  with run ok [of "[]", THEN conjunct1] ok [of "[False, False, True]", THEN conjunct2, THEN conjunct2, THEN conjunct1]
  show ?thesis unfolding example_import_def by (auto simp: id_def split: prod.splits sum.splits)
qed

theorem import_idempotent_witness:
  "tables (snd (example_import (snd (example_import \<lparr>tables = example_books, faults = []\<rparr>)))) =
   tables (snd (example_import \<lparr>tables = example_books, faults = []\<rparr>))"
proof -
  obtain r d' where run: "example_import \<lparr>tables = example_books, faults = []\<rparr> = (r, d')"
    by (cases "example_import \<lparr>tables = example_books, faults = []\<rparr>")
  with example_runs(1) obtain a where "r = Inr a" by (cases r) auto
  moreover have "im_OrderID i \<noteq> []" if "i \<in> set [example_item]" for i using that by (simp add: example_item_def)
  moreover have "set (id xs) = set xs" for xs :: "string list" by simp
  ultimately show ?thesis using import_idempotent [of example_env id 7 "[example_item]" "\<lparr>tables = example_books, faults = []\<rparr>" a d' id d' 7] run
    unfolding example_import_def by simp
qed

end
