(* ===== verification/Schema.thy ===== *)
theory Schema
  imports AuthStore Triples
begin

text \<open>
  The schema of both dialects as the code declares it (\<open>src/internal/repository/db/schema_sqlite.go\<close>,
  \<open>schema_pg.go\<close>), and what the engines make of these declarations: a catalog of tables and indexes.
\<close>

datatype column_type = TEXT | INTEGER | REAL | BIGINT | DOUBLE_PRECISION | SERIAL | TIMESTAMPTZ | BOOLEAN

datatype attr = NotNull | PrimaryKey | Autoincrement | Identity | CheckOne
  | DefaultText string | DefaultInt int | DefaultTrue | DefaultNow

datatype item = Col string column_type "attr list" | Key "string list"

datatype ddl = CreateTable string "item list" | CreateIndex string string "string list"

section \<open>The catalog\<close>

record catalog =
  ct_tables :: "(string \<times> item list) list"
  ct_indexes :: "string list"

definition columns_of :: "item list \<Rightarrow> string list" where
  "columns_of items = List.map_filter (\<lambda>i. case i of Col n _ _ \<Rightarrow> Some n | Key _ \<Rightarrow> None) items"

definition key_of :: "item list \<Rightarrow> string list" where
  "key_of items = concat (map (\<lambda>i. case i of Key ks \<Rightarrow> ks | Col n _ as \<Rightarrow> if PrimaryKey \<in> set as then [n] else []) items)"

definition table_items :: "catalog \<Rightarrow> string \<Rightarrow> item list option" where
  "table_items c n = map_of (ct_tables c) n"

definition has_columns :: "catalog \<Rightarrow> string \<Rightarrow> string list \<Rightarrow> bool" where
  "has_columns c n cols = (case table_items c n of None \<Rightarrow> False | Some items \<Rightarrow> list_all (\<lambda>x. x \<in> set (columns_of items)) cols)"

text \<open>Every statement says \<open>IF NOT EXISTS\<close>; the answer is \<open>None\<close> where the engine reports an error.\<close>

definition create :: "ddl \<Rightarrow> catalog \<Rightarrow> catalog option" where
  "create d c = (case d of
     CreateTable n items \<Rightarrow> Some (if table_items c n = None then c\<lparr>ct_tables := ct_tables c @ [(n, items)]\<rparr> else c)
   | CreateIndex i n cols \<Rightarrow> (if i \<in> set (ct_indexes c) then Some c
       else if has_columns c n cols then Some (c\<lparr>ct_indexes := ct_indexes c @ [i]\<rparr>) else None))"

definition made :: "ddl \<Rightarrow> catalog \<Rightarrow> bool" where
  "made d c = (case d of CreateTable n _ \<Rightarrow> table_items c n \<noteq> None | CreateIndex i _ _ \<Rightarrow> i \<in> set (ct_indexes c))"

section \<open>SQLite\<close>

definition sqlite_ant_current_positions :: ddl where
  "sqlite_ant_current_positions = CreateTable ''ant_current_positions'' [
     Col ''fund_code'' TEXT [], Col ''fund_name'' TEXT [], Col ''net_share_change'' REAL [], Col ''position_flag'' TEXT [],
     Col ''last_trade'' TEXT [], Col ''raw_json'' TEXT [], Key [''fund_code'']]"

definition sqlite_ant_summary_by_fund :: ddl where
  "sqlite_ant_summary_by_fund = CreateTable ''ant_summary_by_fund'' [
     Col ''fund_code'' TEXT [], Col ''fund_name'' TEXT [], Col ''tx_count'' INTEGER [], Col ''real_tx_count'' INTEGER [],
     Col ''synthetic_tx_count'' INTEGER [], Col ''buy_amount'' REAL [], Col ''sell_amount'' REAL [],
     Col ''dividend_amount'' REAL [], Col ''conversion_in_amount'' REAL [], Col ''conversion_out_amount'' REAL [],
     Col ''fee_total'' REAL [], Col ''net_share_change'' REAL [], Col ''net_cash_flow'' REAL [], Col ''first_trade'' TEXT [],
     Col ''last_trade'' TEXT [], Col ''notes'' TEXT [], Key [''fund_code'']]"

definition sqlite_ant_transactions_normalized :: ddl where
  "sqlite_ant_transactions_normalized = CreateTable ''ant_transactions_normalized'' [
     Col ''seq'' INTEGER [], Col ''source_record_id'' TEXT [], Col ''order_id'' TEXT [], Col ''trade_time'' TEXT [],
     Col ''confirm_date'' TEXT [], Col ''trade_type'' TEXT [], Col ''direction'' TEXT [], Col ''leg_role'' TEXT [],
     Col ''fund_code'' TEXT [], Col ''fund_name'' TEXT [], Col ''combo_fund_name'' TEXT [], Col ''apply_amount'' REAL [],
     Col ''apply_share'' REAL [], Col ''confirm_amount'' REAL [], Col ''confirm_share'' REAL [], Col ''fee'' REAL [],
     Col ''conversion_value'' REAL [], Col ''inferred_nav'' REAL [], Col ''nav_on_effective_date'' REAL [],
     Col ''nav_verified'' INTEGER [], Col ''signed_cash_flow'' REAL [], Col ''signed_share_change'' REAL [],
     Col ''trade_day_type'' TEXT [], Col ''effective_nav_date'' TEXT [], Col ''latest_nav'' REAL [],
     Col ''cost_basis'' REAL [], Col ''unrealized_pnl'' REAL [], Col ''is_synthetic'' INTEGER [],
     Col ''synthetic_reason'' TEXT [], Col ''source_inference_note'' TEXT [], Col ''source_page'' INTEGER [],
     Col ''source_y0'' REAL [], Col ''export_seq'' INTEGER [], Col ''settlement_days'' INTEGER [], Col ''anomaly'' TEXT [],
     Col ''security_type'' TEXT [], Col ''portfolio_id'' INTEGER []]"

definition sqlite_ant_transactions_raw :: ddl where
  "sqlite_ant_transactions_raw = CreateTable ''ant_transactions_raw'' [
     Col ''seq'' INTEGER [], Col ''source_page'' INTEGER [], Col ''source_y0'' REAL [], Col ''order_cell'' TEXT [],
     Col ''trade_time_cell'' TEXT [], Col ''trade_type_cell'' TEXT [], Col ''fund_name_cell'' TEXT [],
     Col ''combo_fund_name_cell'' TEXT [], Col ''fund_code_cell'' TEXT [], Col ''apply_amount_cell'' TEXT [],
     Col ''apply_share_cell'' TEXT [], Col ''confirm_amount_cell'' TEXT [], Col ''confirm_share_cell'' TEXT [],
     Col ''fee_cell'' TEXT [], Col ''confirm_date_cell'' TEXT []]"

definition sqlite_crawl_log :: ddl where
  "sqlite_crawl_log = CreateTable ''crawl_log'' [
     Col ''fund_code'' TEXT [], Col ''source'' TEXT [], Col ''rows_added'' INTEGER [], Col ''latest_date'' TEXT [],
     Col ''status'' TEXT [], Col ''crawled_at'' TEXT [], Key [''fund_code'']]"

definition sqlite_dca_plan_executions :: ddl where
  "sqlite_dca_plan_executions = CreateTable ''dca_plan_executions'' [
     Col ''id'' INTEGER [PrimaryKey, Autoincrement], Col ''plan_id'' INTEGER [NotNull], Col ''fund_code'' TEXT [NotNull],
     Col ''trade_date'' TEXT [NotNull], Col ''amount'' REAL [NotNull], Col ''status'' TEXT [NotNull], Col ''order_id'' TEXT [],
     Col ''tx_seq'' INTEGER [], Col ''nav_date'' TEXT [], Col ''nav'' REAL [], Col ''message'' TEXT [],
     Col ''created_at'' TEXT [NotNull], Col ''updated_at'' TEXT [NotNull]]"

definition sqlite_dca_plans :: ddl where
  "sqlite_dca_plans = CreateTable ''dca_plans'' [
     Col ''id'' INTEGER [PrimaryKey, Autoincrement], Col ''fund_code'' TEXT [NotNull], Col ''fund_name'' TEXT [],
     Col ''amount'' REAL [NotNull], Col ''frequency'' TEXT [NotNull], Col ''weekday_mask'' TEXT [NotNull],
     Col ''trade_type'' TEXT [NotNull], Col ''portfolio_id'' INTEGER [NotNull], Col ''start_date'' TEXT [NotNull],
     Col ''end_date'' TEXT [], Col ''active'' INTEGER [NotNull], Col ''source'' TEXT [NotNull],
     Col ''created_at'' TEXT [NotNull], Col ''updated_at'' TEXT [NotNull]]"

definition sqlite_fund_details :: ddl where
  "sqlite_fund_details = CreateTable ''fund_details'' [
     Col ''fund_code'' TEXT [PrimaryKey], Col ''fund_name'' TEXT [], Col ''fund_type'' TEXT [],
     Col ''security_type'' TEXT [DefaultText ''fund''], Col ''market'' TEXT [DefaultText []], Col ''currency'' TEXT [],
     Col ''exchange'' TEXT [], Col ''source'' TEXT [], Col ''purchase_status'' TEXT [], Col ''redemption_status'' TEXT []]"

definition sqlite_fund_holdings :: ddl where
  "sqlite_fund_holdings = CreateTable ''fund_holdings'' [
     Col ''fund_code'' TEXT [], Col ''stock_code'' TEXT [], Col ''stock_name'' TEXT [], Col ''weight_pct'' REAL [],
     Col ''shares'' REAL [], Col ''market_value'' REAL [], Col ''report_date'' TEXT [],
     Key [''fund_code'', ''stock_code'', ''report_date'']]"

definition sqlite_fund_status :: ddl where
  "sqlite_fund_status = CreateTable ''fund_status'' [
     Col ''fund_code'' TEXT [PrimaryKey], Col ''following'' INTEGER [DefaultInt 1], Col ''last_followed_at'' TEXT [DefaultNow],
     Col ''purchase_status'' TEXT [], Col ''redemption_status'' TEXT [], Col ''min_purchase_amount'' REAL [],
     Col ''daily_limit'' REAL [], Col ''holdings_direction'' TEXT []]"

definition sqlite_indices :: ddl where
  "sqlite_indices = CreateTable ''indices'' [
     Col ''code'' TEXT [PrimaryKey], Col ''name'' TEXT [], Col ''market'' TEXT [], Col ''price'' REAL [],
     Col ''change_pct'' REAL [], Col ''change_amt'' REAL [], Col ''updated_at'' TEXT [DefaultNow]]"

definition sqlite_nav_history :: ddl where
  "sqlite_nav_history = CreateTable ''nav_history'' [
     Col ''fund_code'' TEXT [], Col ''date'' TEXT [], Col ''unit_nav'' REAL [], Col ''daily_change_pct'' REAL [DefaultInt 0],
     Col ''security_type'' TEXT [DefaultText ''fund''], Col ''accumulated_nav'' REAL [], Key [''fund_code'', ''date'']]"

definition sqlite_portfolio_definitions :: ddl where
  "sqlite_portfolio_definitions = CreateTable ''portfolio_definitions'' [
     Col ''id'' INTEGER [PrimaryKey, Autoincrement], Col ''name'' TEXT [], Col ''description'' TEXT [],
     Col ''created_at'' TEXT [DefaultNow]]"

definition sqlite_portfolio_snapshot :: ddl where
  "sqlite_portfolio_snapshot = CreateTable ''portfolio_snapshot'' [
     Col ''fund_code'' TEXT [NotNull], Col ''fund_name'' TEXT [], Col ''held_shares'' REAL [], Col ''total_cost'' REAL [],
     Col ''latest_nav'' REAL [], Col ''current_value'' REAL [], Col ''unrealized_pnl'' REAL [], Col ''pnl_pct'' REAL [],
     Col ''security_type'' TEXT [DefaultText ''fund''], Col ''portfolio_id'' INTEGER [NotNull, DefaultInt 1],
     Col ''position_flag'' TEXT [], Col ''last_trade'' TEXT [], Key [''fund_code'', ''portfolio_id'']]"

definition sqlite_qa_report :: ddl where
  "sqlite_qa_report = CreateTable ''qa_report'' [
     Col ''key'' TEXT [], Col ''value'' TEXT [], Key [''key'']]"

definition sqlite_sector_map :: ddl where
  "sqlite_sector_map = CreateTable ''sector_map'' [
     Col ''stock_code'' TEXT [], Col ''market'' TEXT [], Col ''sector'' TEXT [], Col ''industry'' TEXT [],
     Key [''stock_code'', ''market'']]"

definition sqlite_source_events :: ddl where
  "sqlite_source_events = CreateTable ''source_events'' [
     Col ''id'' INTEGER [PrimaryKey, Autoincrement], Col ''title'' TEXT [NotNull], Col ''url'' TEXT [],
     Col ''source'' TEXT [NotNull, DefaultText ''websearch''], Col ''snippet'' TEXT [], Col ''query'' TEXT [],
     Col ''related_security_code'' TEXT [], Col ''related_security_name'' TEXT [], Col ''is_read'' INTEGER [DefaultInt 0],
     Col ''is_useful'' INTEGER [DefaultInt 0], Col ''fetched_at'' TEXT [NotNull, DefaultNow],
     Col ''created_at'' TEXT [NotNull, DefaultNow]]"

definition sqlite_stock_kline_cache :: ddl where
  "sqlite_stock_kline_cache = CreateTable ''stock_kline_cache'' [
     Col ''code'' TEXT [], Col ''period'' TEXT [DefaultText ''daily''], Col ''date'' TEXT [], Col ''open'' REAL [],
     Col ''high'' REAL [], Col ''low'' REAL [], Col ''close'' REAL [], Col ''volume'' INTEGER [],
     Key [''code'', ''period'', ''date'']]"

definition sqlite_stock_profile :: ddl where
  "sqlite_stock_profile = CreateTable ''stock_profile'' [
     Col ''code'' TEXT [PrimaryKey], Col ''name'' TEXT [], Col ''sector'' TEXT [], Col ''market'' TEXT [DefaultText ''US''],
     Col ''updated_at'' TEXT [DefaultNow], Col ''industry'' TEXT [], Col ''market_cap'' REAL [], Col ''pe'' REAL [],
     Col ''description'' TEXT []]"

definition sqlite_stock_realtime :: ddl where
  "sqlite_stock_realtime = CreateTable ''stock_realtime'' [
     Col ''code'' TEXT [PrimaryKey], Col ''name'' TEXT [], Col ''price'' REAL [], Col ''change_pct'' REAL [],
     Col ''volume'' INTEGER [], Col ''updated_at'' TEXT [DefaultNow]]"

definition sqlite_summary_by_fund :: ddl where
  "sqlite_summary_by_fund = CreateTable ''summary_by_fund'' [
     Col ''fund_code'' TEXT [], Col ''fund_name'' TEXT [], Col ''total_shares'' REAL [], Col ''total_cost'' REAL [],
     Col ''tx_count'' INTEGER [], Key [''fund_code'']]"

definition sqlite_transactions :: ddl where
  "sqlite_transactions = CreateTable ''transactions'' [
     Col ''seq'' INTEGER [PrimaryKey, Autoincrement], Col ''source_record_id'' TEXT [], Col ''order_id'' TEXT [],
     Col ''trade_time'' TEXT [], Col ''confirm_date'' TEXT [], Col ''trade_type'' TEXT [], Col ''direction'' TEXT [],
     Col ''leg_role'' TEXT [], Col ''fund_code'' TEXT [], Col ''fund_name'' TEXT [], Col ''combo_fund_name'' TEXT [],
     Col ''apply_amount'' REAL [], Col ''apply_share'' REAL [], Col ''confirm_amount'' REAL [], Col ''confirm_share'' REAL [],
     Col ''fee'' REAL [], Col ''conversion_value'' REAL [], Col ''inferred_nav'' REAL [],
     Col ''nav_on_effective_date'' REAL [], Col ''nav_verified'' INTEGER [], Col ''signed_cash_flow'' REAL [],
     Col ''signed_share_change'' REAL [], Col ''trade_day_type'' TEXT [], Col ''effective_nav_date'' TEXT [],
     Col ''latest_nav'' REAL [], Col ''cost_basis'' REAL [], Col ''unrealized_pnl'' REAL [], Col ''is_synthetic'' INTEGER [],
     Col ''synthetic_reason'' TEXT [], Col ''source_inference_note'' TEXT [], Col ''source_page'' INTEGER [],
     Col ''source_y0'' REAL [], Col ''export_seq'' INTEGER [], Col ''settlement_days'' INTEGER [], Col ''anomaly'' TEXT [],
     Col ''security_type'' TEXT [DefaultText ''fund''], Col ''portfolio_id'' INTEGER [DefaultInt 1]]"

definition sqliteSchemaTables :: "ddl list" where
  "sqliteSchemaTables = [
     sqlite_ant_current_positions, sqlite_ant_summary_by_fund, sqlite_ant_transactions_normalized, sqlite_ant_transactions_raw,
     sqlite_crawl_log, sqlite_dca_plan_executions, sqlite_dca_plans, sqlite_fund_details, sqlite_fund_holdings,
     sqlite_fund_status, sqlite_indices, sqlite_nav_history, sqlite_portfolio_definitions, sqlite_portfolio_snapshot,
     sqlite_qa_report, sqlite_sector_map, sqlite_source_events, sqlite_stock_kline_cache, sqlite_stock_profile,
     sqlite_stock_realtime, sqlite_summary_by_fund, sqlite_transactions]"

definition sqliteSchemaIndexes :: "ddl list" where
  "sqliteSchemaIndexes = [
     CreateIndex ''idx_transactions_fund_code'' ''transactions'' [''fund_code''],
     CreateIndex ''idx_transactions_trade_time'' ''transactions'' [''trade_time''],
     CreateIndex ''idx_nav_history_fund'' ''nav_history'' [''fund_code''],
     CreateIndex ''idx_nav_history_date'' ''nav_history'' [''date''],
     CreateIndex ''idx_nav_history_fund_date'' ''nav_history'' [''fund_code'', ''date''],
     CreateIndex ''idx_dca_plans_active_portfolio'' ''dca_plans'' [''active'', ''portfolio_id''],
     CreateIndex ''idx_dca_exec_plan_date'' ''dca_plan_executions'' [''plan_id'', ''trade_date''],
     CreateIndex ''idx_fund_holdings_fund'' ''fund_holdings'' [''fund_code''],
     CreateIndex ''idx_portfolio_snapshot_portfolio'' ''portfolio_snapshot'' [''portfolio_id''],
     CreateIndex ''idx_dca_plans_fund'' ''dca_plans'' [''fund_code'']]"


section \<open>PostgreSQL\<close>

definition pg_agent_audit_events :: ddl where
  "pg_agent_audit_events = CreateTable ''agent_audit_events'' [
     Col ''id'' SERIAL [], Col ''request_id'' TEXT [NotNull], Col ''caller'' TEXT [NotNull], Col ''tool'' TEXT [NotNull],
     Col ''event_type'' TEXT [NotNull], Col ''status'' TEXT [NotNull], Col ''scope'' TEXT [NotNull],
     Col ''permission'' TEXT [NotNull], Col ''risk_level'' TEXT [NotNull], Col ''redacted_args_json'' TEXT [NotNull],
     Col ''result_summary_json'' TEXT [NotNull], Col ''created_at'' TIMESTAMPTZ [NotNull, DefaultNow], Key [''id'']]"

definition pg_agent_confirmations :: ddl where
  "pg_agent_confirmations = CreateTable ''agent_confirmations'' [
     Col ''id'' SERIAL [], Col ''tool'' TEXT [NotNull], Col ''token_hash'' TEXT [NotNull], Col ''payload_hash'' TEXT [NotNull],
     Col ''expires_at'' TIMESTAMPTZ [NotNull], Col ''used_at'' TIMESTAMPTZ [],
     Col ''created_at'' TIMESTAMPTZ [NotNull, DefaultNow], Key [''id'']]"

definition pg_ant_current_positions :: ddl where
  "pg_ant_current_positions = CreateTable ''ant_current_positions'' [
     Col ''fund_code'' TEXT [], Col ''fund_name'' TEXT [], Col ''net_share_change'' DOUBLE_PRECISION [],
     Col ''position_flag'' TEXT [], Col ''last_trade'' TEXT [], Col ''raw_json'' TEXT [], Key [''fund_code'']]"

definition pg_ant_summary_by_fund :: ddl where
  "pg_ant_summary_by_fund = CreateTable ''ant_summary_by_fund'' [
     Col ''fund_code'' TEXT [], Col ''fund_name'' TEXT [], Col ''tx_count'' BIGINT [], Col ''real_tx_count'' BIGINT [],
     Col ''synthetic_tx_count'' BIGINT [], Col ''buy_amount'' DOUBLE_PRECISION [], Col ''sell_amount'' DOUBLE_PRECISION [],
     Col ''dividend_amount'' DOUBLE_PRECISION [], Col ''conversion_in_amount'' DOUBLE_PRECISION [],
     Col ''conversion_out_amount'' DOUBLE_PRECISION [], Col ''fee_total'' DOUBLE_PRECISION [],
     Col ''net_share_change'' DOUBLE_PRECISION [], Col ''net_cash_flow'' DOUBLE_PRECISION [], Col ''first_trade'' TEXT [],
     Col ''last_trade'' TEXT [], Col ''notes'' TEXT [], Key [''fund_code'']]"

definition pg_ant_transactions_normalized :: ddl where
  "pg_ant_transactions_normalized = CreateTable ''ant_transactions_normalized'' [
     Col ''seq'' BIGINT [], Col ''source_record_id'' TEXT [], Col ''order_id'' TEXT [], Col ''trade_time'' TEXT [],
     Col ''confirm_date'' TEXT [], Col ''trade_type'' TEXT [], Col ''direction'' TEXT [], Col ''leg_role'' TEXT [],
     Col ''fund_code'' TEXT [], Col ''fund_name'' TEXT [], Col ''combo_fund_name'' TEXT [],
     Col ''apply_amount'' DOUBLE_PRECISION [], Col ''apply_share'' DOUBLE_PRECISION [],
     Col ''confirm_amount'' DOUBLE_PRECISION [], Col ''confirm_share'' DOUBLE_PRECISION [], Col ''fee'' DOUBLE_PRECISION [],
     Col ''conversion_value'' DOUBLE_PRECISION [], Col ''inferred_nav'' DOUBLE_PRECISION [],
     Col ''nav_on_effective_date'' DOUBLE_PRECISION [], Col ''nav_verified'' BIGINT [],
     Col ''signed_cash_flow'' DOUBLE_PRECISION [], Col ''signed_share_change'' DOUBLE_PRECISION [],
     Col ''trade_day_type'' TEXT [], Col ''effective_nav_date'' TEXT [], Col ''latest_nav'' DOUBLE_PRECISION [],
     Col ''cost_basis'' DOUBLE_PRECISION [], Col ''unrealized_pnl'' DOUBLE_PRECISION [], Col ''is_synthetic'' BIGINT [],
     Col ''synthetic_reason'' TEXT [], Col ''source_inference_note'' TEXT [], Col ''source_page'' BIGINT [],
     Col ''source_y0'' DOUBLE_PRECISION [], Col ''export_seq'' BIGINT [], Col ''settlement_days'' BIGINT [],
     Col ''anomaly'' TEXT [], Col ''security_type'' TEXT [], Col ''portfolio_id'' BIGINT []]"

definition pg_ant_transactions_raw :: ddl where
  "pg_ant_transactions_raw = CreateTable ''ant_transactions_raw'' [
     Col ''seq'' BIGINT [], Col ''source_page'' BIGINT [], Col ''source_y0'' DOUBLE_PRECISION [], Col ''order_cell'' TEXT [],
     Col ''trade_time_cell'' TEXT [], Col ''trade_type_cell'' TEXT [], Col ''fund_name_cell'' TEXT [],
     Col ''combo_fund_name_cell'' TEXT [], Col ''fund_code_cell'' TEXT [], Col ''apply_amount_cell'' TEXT [],
     Col ''apply_share_cell'' TEXT [], Col ''confirm_amount_cell'' TEXT [], Col ''confirm_share_cell'' TEXT [],
     Col ''fee_cell'' TEXT [], Col ''confirm_date_cell'' TEXT []]"

definition pg_crawl_log :: ddl where
  "pg_crawl_log = CreateTable ''crawl_log'' [
     Col ''fund_code'' TEXT [], Col ''source'' TEXT [], Col ''rows_added'' BIGINT [], Col ''latest_date'' TEXT [],
     Col ''status'' TEXT [], Col ''crawled_at'' TEXT [], Key [''fund_code'']]"

definition pg_dca_plan_executions :: ddl where
  "pg_dca_plan_executions = CreateTable ''dca_plan_executions'' [
     Col ''id'' SERIAL [], Col ''plan_id'' BIGINT [NotNull], Col ''fund_code'' TEXT [NotNull],
     Col ''trade_date'' TEXT [NotNull], Col ''amount'' DOUBLE_PRECISION [NotNull], Col ''status'' TEXT [NotNull],
     Col ''order_id'' TEXT [], Col ''tx_seq'' BIGINT [], Col ''nav_date'' TEXT [], Col ''nav'' DOUBLE_PRECISION [],
     Col ''message'' TEXT [], Col ''created_at'' TEXT [NotNull], Col ''updated_at'' TEXT [NotNull], Key [''id'']]"

definition pg_dca_plans :: ddl where
  "pg_dca_plans = CreateTable ''dca_plans'' [
     Col ''id'' SERIAL [], Col ''fund_code'' TEXT [NotNull], Col ''fund_name'' TEXT [],
     Col ''amount'' DOUBLE_PRECISION [NotNull], Col ''frequency'' TEXT [NotNull], Col ''weekday_mask'' TEXT [NotNull],
     Col ''trade_type'' TEXT [NotNull], Col ''portfolio_id'' BIGINT [NotNull], Col ''start_date'' TEXT [NotNull],
     Col ''end_date'' TEXT [], Col ''active'' BIGINT [NotNull], Col ''source'' TEXT [NotNull],
     Col ''created_at'' TEXT [NotNull], Col ''updated_at'' TEXT [NotNull], Key [''id'']]"

definition pg_fund_details :: ddl where
  "pg_fund_details = CreateTable ''fund_details'' [
     Col ''fund_code'' TEXT [], Col ''fund_name'' TEXT [], Col ''fund_type'' TEXT [], Col ''security_type'' TEXT [],
     Col ''market'' TEXT [], Col ''currency'' TEXT [], Col ''exchange'' TEXT [], Col ''source'' TEXT [],
     Col ''purchase_status'' TEXT [], Col ''redemption_status'' TEXT [], Key [''fund_code'']]"

definition pg_fund_holdings :: ddl where
  "pg_fund_holdings = CreateTable ''fund_holdings'' [
     Col ''fund_code'' TEXT [], Col ''stock_code'' TEXT [], Col ''stock_name'' TEXT [], Col ''weight_pct'' DOUBLE_PRECISION [],
     Col ''shares'' DOUBLE_PRECISION [], Col ''market_value'' DOUBLE_PRECISION [], Col ''report_date'' TEXT [],
     Key [''fund_code'', ''stock_code'', ''report_date'']]"

definition pg_fund_status :: ddl where
  "pg_fund_status = CreateTable ''fund_status'' [
     Col ''fund_code'' TEXT [], Col ''following'' BOOLEAN [DefaultTrue], Col ''last_followed_at'' TIMESTAMPTZ [DefaultNow],
     Col ''purchase_status'' TEXT [], Col ''redemption_status'' TEXT [], Col ''min_purchase_amount'' DOUBLE_PRECISION [],
     Col ''daily_limit'' DOUBLE_PRECISION [], Col ''holdings_direction'' TEXT [], Key [''fund_code'']]"

definition pg_indices :: ddl where
  "pg_indices = CreateTable ''indices'' [
     Col ''code'' TEXT [], Col ''name'' TEXT [], Col ''market'' TEXT [], Col ''price'' DOUBLE_PRECISION [],
     Col ''change_pct'' DOUBLE_PRECISION [], Col ''change_amt'' DOUBLE_PRECISION [], Col ''updated_at'' TEXT [], Key [''code'']]"

definition pg_nav_history :: ddl where
  "pg_nav_history = CreateTable ''nav_history'' [
     Col ''date'' TEXT [], Col ''fund_code'' TEXT [], Col ''unit_nav'' DOUBLE_PRECISION [NotNull],
     Col ''accumulated_nav'' DOUBLE_PRECISION [], Col ''daily_change_pct'' DOUBLE_PRECISION [], Col ''security_type'' TEXT [],
     Key [''date'', ''fund_code'']]"

definition pg_portfolio_definitions :: ddl where
  "pg_portfolio_definitions = CreateTable ''portfolio_definitions'' [
     Col ''id'' SERIAL [], Col ''name'' TEXT [NotNull], Col ''description'' TEXT [], Col ''created_at'' TEXT [NotNull],
     Key [''id'']]"

definition pg_portfolio_snapshot :: ddl where
  "pg_portfolio_snapshot = CreateTable ''portfolio_snapshot'' [
     Col ''fund_code'' TEXT [NotNull], Col ''fund_name'' TEXT [], Col ''held_shares'' DOUBLE_PRECISION [NotNull],
     Col ''total_cost'' DOUBLE_PRECISION [NotNull], Col ''latest_nav'' DOUBLE_PRECISION [],
     Col ''current_value'' DOUBLE_PRECISION [], Col ''unrealized_pnl'' DOUBLE_PRECISION [],
     Col ''pnl_pct'' DOUBLE_PRECISION [], Col ''security_type'' TEXT [], Col ''portfolio_id'' BIGINT [NotNull, DefaultInt 1],
     Col ''position_flag'' TEXT [], Col ''last_trade'' TEXT [], Key [''fund_code'', ''portfolio_id'']]"

definition pg_qa_report :: ddl where
  "pg_qa_report = CreateTable ''qa_report'' [
     Col ''key'' TEXT [], Col ''value'' TEXT [], Key [''key'']]"

definition pg_sector_map :: ddl where
  "pg_sector_map = CreateTable ''sector_map'' [
     Col ''stock_code'' TEXT [], Col ''market'' TEXT [], Col ''sector'' TEXT [], Col ''industry'' TEXT [],
     Key [''stock_code'', ''market'']]"

definition pg_source_events :: ddl where
  "pg_source_events = CreateTable ''source_events'' [
     Col ''id'' SERIAL [], Col ''title'' TEXT [NotNull], Col ''url'' TEXT [],
     Col ''source'' TEXT [NotNull, DefaultText ''websearch''], Col ''snippet'' TEXT [], Col ''query'' TEXT [],
     Col ''related_security_code'' TEXT [], Col ''related_security_name'' TEXT [], Col ''is_read'' INTEGER [DefaultInt 0],
     Col ''is_useful'' INTEGER [DefaultInt 0], Col ''fetched_at'' TIMESTAMPTZ [NotNull, DefaultNow],
     Col ''created_at'' TIMESTAMPTZ [NotNull, DefaultNow], Key [''id'']]"

definition pg_stock_kline_cache :: ddl where
  "pg_stock_kline_cache = CreateTable ''stock_kline_cache'' [
     Col ''code'' TEXT [], Col ''period'' TEXT [DefaultText ''daily''], Col ''date'' TEXT [], Col ''open'' DOUBLE_PRECISION [],
     Col ''high'' DOUBLE_PRECISION [], Col ''low'' DOUBLE_PRECISION [], Col ''close'' DOUBLE_PRECISION [],
     Col ''volume'' BIGINT [], Key [''code'', ''period'', ''date'']]"

definition pg_stock_profile :: ddl where
  "pg_stock_profile = CreateTable ''stock_profile'' [
     Col ''code'' TEXT [], Col ''name'' TEXT [], Col ''sector'' TEXT [], Col ''market'' TEXT [DefaultText ''US''],
     Col ''updated_at'' TIMESTAMPTZ [DefaultNow], Col ''industry'' TEXT [], Col ''market_cap'' DOUBLE_PRECISION [],
     Col ''pe'' DOUBLE_PRECISION [], Col ''description'' TEXT [], Key [''code'']]"

definition pg_stock_realtime :: ddl where
  "pg_stock_realtime = CreateTable ''stock_realtime'' [
     Col ''code'' TEXT [], Col ''name'' TEXT [], Col ''price'' DOUBLE_PRECISION [], Col ''change_pct'' DOUBLE_PRECISION [],
     Col ''volume'' BIGINT [], Col ''updated_at'' TIMESTAMPTZ [DefaultNow], Key [''code'']]"

definition pg_summary_by_fund :: ddl where
  "pg_summary_by_fund = CreateTable ''summary_by_fund'' [
     Col ''fund_code'' TEXT [], Col ''fund_name'' TEXT [], Col ''total_shares'' DOUBLE_PRECISION [],
     Col ''total_cost'' DOUBLE_PRECISION [], Col ''tx_count'' BIGINT [], Key [''fund_code'']]"

definition pg_transactions :: ddl where
  "pg_transactions = CreateTable ''transactions'' [
     Col ''seq'' SERIAL [], Col ''source_record_id'' TEXT [], Col ''order_id'' TEXT [NotNull],
     Col ''trade_time'' TEXT [NotNull], Col ''confirm_date'' TEXT [], Col ''trade_type'' TEXT [],
     Col ''direction'' TEXT [NotNull], Col ''leg_role'' TEXT [], Col ''fund_code'' TEXT [NotNull], Col ''fund_name'' TEXT [],
     Col ''combo_fund_name'' TEXT [], Col ''apply_amount'' DOUBLE_PRECISION [], Col ''apply_share'' DOUBLE_PRECISION [],
     Col ''confirm_amount'' DOUBLE_PRECISION [NotNull], Col ''confirm_share'' DOUBLE_PRECISION [],
     Col ''fee'' DOUBLE_PRECISION [], Col ''conversion_value'' DOUBLE_PRECISION [], Col ''inferred_nav'' DOUBLE_PRECISION [],
     Col ''nav_on_effective_date'' DOUBLE_PRECISION [], Col ''nav_verified'' BIGINT [],
     Col ''signed_cash_flow'' DOUBLE_PRECISION [], Col ''signed_share_change'' DOUBLE_PRECISION [],
     Col ''trade_day_type'' TEXT [], Col ''effective_nav_date'' TEXT [], Col ''latest_nav'' DOUBLE_PRECISION [],
     Col ''cost_basis'' DOUBLE_PRECISION [], Col ''unrealized_pnl'' DOUBLE_PRECISION [], Col ''is_synthetic'' BIGINT [],
     Col ''synthetic_reason'' TEXT [], Col ''source_inference_note'' TEXT [], Col ''source_page'' BIGINT [],
     Col ''source_y0'' DOUBLE_PRECISION [], Col ''export_seq'' BIGINT [], Col ''settlement_days'' BIGINT [],
     Col ''anomaly'' TEXT [], Col ''security_type'' TEXT [DefaultText ''fund''], Col ''portfolio_id'' BIGINT [DefaultInt 1],
     Key [''seq'']]"

definition pg_auth_credentials :: ddl where
  "pg_auth_credentials = CreateTable ''auth_credentials'' [
     Col ''id'' INTEGER [PrimaryKey, CheckOne], Col ''password_hash'' TEXT [NotNull], Col ''created_at'' BIGINT [NotNull],
     Col ''updated_at'' BIGINT [NotNull]]"

definition pg_auth_sessions :: ddl where
  "pg_auth_sessions = CreateTable ''auth_sessions'' [
     Col ''id'' TEXT [PrimaryKey], Col ''created_at'' BIGINT [NotNull], Col ''expires_at'' BIGINT [NotNull],
     Col ''last_seen_at'' BIGINT [NotNull], Col ''ip'' TEXT [], Col ''user_agent'' TEXT []]"

definition pg_oauth_clients :: ddl where
  "pg_oauth_clients = CreateTable ''oauth_clients'' [
     Col ''client_id'' TEXT [PrimaryKey], Col ''client_name'' TEXT [], Col ''redirect_uris'' TEXT [NotNull],
     Col ''grant_types'' TEXT [NotNull], Col ''token_endpoint_auth_method'' TEXT [NotNull], Col ''scope'' TEXT [],
     Col ''client_uri'' TEXT [], Col ''registration_access_token'' TEXT [], Col ''created_at'' BIGINT [NotNull]]"

definition pg_oauth_refresh_tokens :: ddl where
  "pg_oauth_refresh_tokens = CreateTable ''oauth_refresh_tokens'' [
     Col ''id'' TEXT [PrimaryKey], Col ''client_id'' TEXT [NotNull], Col ''scope'' TEXT [NotNull],
     Col ''resource'' TEXT [NotNull], Col ''created_at'' BIGINT [NotNull], Col ''expires_at'' BIGINT [NotNull],
     Col ''revoked_at'' BIGINT []]"

definition pg_oauth_signing_key :: ddl where
  "pg_oauth_signing_key = CreateTable ''oauth_signing_key'' [
     Col ''id'' INTEGER [PrimaryKey, CheckOne], Col ''kid'' TEXT [NotNull], Col ''algorithm'' TEXT [NotNull],
     Col ''private_key_pem'' TEXT [NotNull], Col ''public_jwk_json'' TEXT [NotNull], Col ''created_at'' BIGINT [NotNull]]"

definition pg_oauth_client_consents :: ddl where
  "pg_oauth_client_consents = CreateTable ''oauth_client_consents'' [
     Col ''client_id'' TEXT [NotNull], Col ''scope'' TEXT [NotNull], Col ''approved_at'' BIGINT [NotNull],
     Key [''client_id'', ''scope'']]"

definition pg_auth_events :: ddl where
  "pg_auth_events = CreateTable ''auth_events'' [
     Col ''id'' BIGINT [Identity, PrimaryKey], Col ''ts'' BIGINT [NotNull], Col ''event'' TEXT [NotNull], Col ''ip'' TEXT [],
     Col ''user_agent'' TEXT [], Col ''detail'' TEXT []]"

definition pgSchemaTables :: "ddl list" where
  "pgSchemaTables = [
     pg_agent_audit_events, pg_agent_confirmations, pg_ant_current_positions, pg_ant_summary_by_fund,
     pg_ant_transactions_normalized, pg_ant_transactions_raw, pg_crawl_log, pg_dca_plan_executions, pg_dca_plans,
     pg_fund_details, pg_fund_holdings, pg_fund_status, pg_indices, pg_nav_history, pg_portfolio_definitions,
     pg_portfolio_snapshot, pg_qa_report, pg_sector_map, pg_source_events, pg_stock_kline_cache, pg_stock_profile,
     pg_stock_realtime, pg_summary_by_fund, pg_transactions, pg_auth_credentials, pg_auth_sessions, pg_oauth_clients,
     pg_oauth_refresh_tokens, pg_oauth_signing_key, pg_oauth_client_consents, pg_auth_events]"

definition pgSchemaIndexes :: "ddl list" where
  "pgSchemaIndexes = [
     CreateIndex ''idx_transactions_fund_code'' ''transactions'' [''fund_code''],
     CreateIndex ''idx_transactions_trade_time'' ''transactions'' [''trade_time''],
     CreateIndex ''idx_nav_history_fund'' ''nav_history'' [''fund_code''],
     CreateIndex ''idx_nav_history_date'' ''nav_history'' [''date''],
     CreateIndex ''idx_nav_history_fund_date'' ''nav_history'' [''fund_code'', ''date''],
     CreateIndex ''idx_dca_plans_active_portfolio'' ''dca_plans'' [''active'', ''portfolio_id''],
     CreateIndex ''idx_dca_exec_plan_date'' ''dca_plan_executions'' [''plan_id'', ''trade_date''],
     CreateIndex ''idx_fund_holdings_fund'' ''fund_holdings'' [''fund_code''],
     CreateIndex ''idx_portfolio_snapshot_portfolio'' ''portfolio_snapshot'' [''portfolio_id''],
     CreateIndex ''idx_dca_plans_fund'' ''dca_plans'' [''fund_code''],
     CreateIndex ''idx_agent_confirmations_tool'' ''agent_confirmations'' [''tool''],
     CreateIndex ''idx_agent_audit_events_tool'' ''agent_audit_events'' [''tool''],
     CreateIndex ''idx_auth_sessions_expires'' ''auth_sessions'' [''expires_at''],
     CreateIndex ''idx_oauth_refresh_expires'' ''oauth_refresh_tokens'' [''expires_at''],
     CreateIndex ''idx_oauth_refresh_client'' ''oauth_refresh_tokens'' [''client_id''],
     CreateIndex ''idx_auth_events_ts'' ''auth_events'' [''ts'']]"

end
