(* ===== verification/Migrate.thy ===== *)
theory Migrate
  imports Schema
begin

text \<open>
  The migrations of \<open>src/internal/repository/db/migrate.go\<close> and the two repairs of \<open>schema_pg.go\<close>: a
  numbered list, applied on each boot where \<open>schema_migrations\<close> has no row for the number. Each statement
  stands alone, so a boot can stop after any of them and the next one starts from there.
\<close>

text \<open>The database: its catalog, the rows of \<open>schema_migrations\<close>, and what the repairs read of the data.\<close>

record txn_keys =
  tk_order :: "string option"
  tk_fund :: "string option"
  tk_portfolio :: "int option"
  tk_type :: "string option"

record schema_db =
  sd_cat :: catalog
  sd_versions :: "(nat \<times> string) list"
  sd_snaps :: "(string \<times> int option) list"
  sd_txs :: "txn_keys list"

datatype boot_error = SchemaError

type_synonym 'a boot = "(schema_db db, boot_error, 'a) proc"

text \<open>One statement; \<open>None\<close> is an error of the engine.\<close>

definition attempt :: "(schema_db \<Rightarrow> ('a \<times> schema_db) option) \<Rightarrow> 'a boot" where
  "attempt f = andThen (wrap (\<lambda>_. SchemaError) (stmt (\<lambda>t. case f t of None \<Rightarrow> (None, t) | Some (a, t') \<Rightarrow> (Some a, t'))))
     (\<lambda>r. case r of None \<Rightarrow> throw SchemaError | Some a \<Rightarrow> ret a)"

definition exec_ddl :: "ddl \<Rightarrow> unit boot" where
  "exec_ddl s = attempt (\<lambda>t. case create s (sd_cat t) of None \<Rightarrow> None | Some c \<Rightarrow> Some ((), t\<lparr>sd_cat := c\<rparr>))"

section \<open>Migrations\<close>

record migration =
  mg_version :: nat
  mg_name :: string
  mg_apply :: "unit boot"

fun execStatements :: "ddl list \<Rightarrow> unit boot" where
  "execStatements [] = ret ()"
| "execStatements (s # ss) = andThen (exec_ddl s) (\<lambda>_. execStatements ss)"

definition baselineApply :: "ddl list \<Rightarrow> unit boot" where "baselineApply ss = execStatements ss"

definition recordOnlyApply :: "unit boot" where "recordOnlyApply = ret ()"

definition bestEffortApply :: "unit boot \<Rightarrow> unit boot" where
  "bestEffortApply m d = (case m d of (_, d') \<Rightarrow> (Inr (), d'))"

definition loadAppliedVersions :: "nat list boot" where
  "loadAppliedVersions = attempt (\<lambda>t. Some (map fst (sd_versions t), t))"

definition record_version :: "migration \<Rightarrow> unit boot" where
  "record_version m = attempt (\<lambda>t. if mg_version m \<in> set (map fst (sd_versions t)) then None
     else Some ((), t\<lparr>sd_versions := sd_versions t @ [(mg_version m, mg_name m)]\<rparr>))"

fun run_migrations :: "nat list \<Rightarrow> migration list \<Rightarrow> unit boot" where
  "run_migrations applied [] = ret ()"
| "run_migrations applied (m # ms) =
    (if mg_version m \<in> set applied then run_migrations applied ms
     else andThen (mg_apply m) (\<lambda>_. andThen (record_version m) (\<lambda>_. run_migrations applied ms)))"

definition ensureSchema :: "ddl \<Rightarrow> migration list \<Rightarrow> unit boot" where
  "ensureSchema version_table ms = andThen (exec_ddl version_table) (\<lambda>_. andThen loadAppliedVersions (\<lambda>applied. run_migrations applied ms))"

section \<open>The columns of nav_history\<close>

definition columns_or_none :: "string \<Rightarrow> schema_db \<Rightarrow> string list" where
  "columns_or_none n t = (case table_items (sd_cat t) n of None \<Rightarrow> [] | Some items \<Rightarrow> map ToLower (columns_of items))"

text \<open>
  \<open>PRAGMA table_info\<close> answers on SQLite only, \<open>information_schema\<close> on PostgreSQL only; the first one's
  failure, and an empty answer, lead to the second.
\<close>

definition fallback :: "string list boot \<Rightarrow> string list boot \<Rightarrow> string list boot" where
  "fallback m n d = (case m d of (Inr (c # cs), d') \<Rightarrow> (Inr (c # cs), d') | (_, d') \<Rightarrow> n d')"

definition navHistoryColumns :: "dialect \<Rightarrow> string list boot" where
  "navHistoryColumns dia =
    (let ask = attempt (\<lambda>t. Some (columns_or_none ''nav_history'' t, t)); fail = attempt (\<lambda>_. None) in
     case dia of Sqlite \<Rightarrow> fallback ask fail | Postgres \<Rightarrow> fallback fail ask)"

definition add_column :: "string \<Rightarrow> item \<Rightarrow> catalog \<Rightarrow> catalog" where
  "add_column n i c = c\<lparr>ct_tables := map (\<lambda>(m, items). if m = n then (m, items @ [i]) else (m, items)) (ct_tables c)\<rparr>"

text \<open>A column that is already there counts as added.\<close>

definition addNavHistoryColumn :: "string \<Rightarrow> item \<Rightarrow> unit boot" where
  "addNavHistoryColumn name def = attempt (\<lambda>t. case table_items (sd_cat t) ''nav_history'' of None \<Rightarrow> None
     | Some items \<Rightarrow> Some ((), if name \<in> set (map ToLower (columns_of items)) then t
         else t\<lparr>sd_cat := add_column ''nav_history'' def (sd_cat t)\<rparr>))"

definition navHistoryColumnDefs :: "dialect \<Rightarrow> (string \<times> item) list" where
  "navHistoryColumnDefs dia =
    [(''daily_change_pct'', Col ''daily_change_pct'' (case dia of Sqlite \<Rightarrow> REAL | Postgres \<Rightarrow> DOUBLE_PRECISION) [DefaultInt 0]),
     (''security_type'', Col ''security_type'' TEXT [DefaultText ''fund''])]"

text \<open>Both columns are tried; the first error is the answer.\<close>

fun add_missing :: "string list \<Rightarrow> (string \<times> item) list \<Rightarrow> bool \<Rightarrow> unit boot" where
  "add_missing cols [] failed = (if failed then throw SchemaError else ret ())"
| "add_missing cols ((n, i) # defs) failed = (if n \<in> set cols then add_missing cols defs failed
     else (\<lambda>d. case addNavHistoryColumn n i d of
        (Inl _, d') \<Rightarrow> add_missing cols defs True d' | (Inr _, d') \<Rightarrow> add_missing cols defs failed d'))"

definition ensureNavHistoryColumns :: "dialect \<Rightarrow> unit boot" where
  "ensureNavHistoryColumns dia = andThen (navHistoryColumns dia) (\<lambda>cols. add_missing cols (navHistoryColumnDefs dia) False)"

section \<open>The unique index of orders\<close>

definition duplicate_orders :: "txn_keys list \<Rightarrow> bool" where
  "duplicate_orders txs \<longleftrightarrow> \<not> distinct (filter (\<lambda>(q, f). q \<noteq> None \<and> f \<noteq> None) (map (\<lambda>x. (tk_order x, tk_fund x)) txs))"

definition unique_order_index :: "unit boot" where
  "unique_order_index = attempt (\<lambda>t. let i = ''idx_transactions_order_fund_unique'' in
     if i \<in> set (ct_indexes (sd_cat t)) then Some ((), t)
     else if \<not> has_columns (sd_cat t) ''transactions'' [''order_id'', ''fund_code''] \<or> duplicate_orders (sd_txs t) then None
     else Some ((), t\<lparr>sd_cat := (sd_cat t)\<lparr>ct_indexes := ct_indexes (sd_cat t) @ [i]\<rparr>\<rparr>))"

section \<open>The repairs of PostgreSQL\<close>

text \<open>A repair logs its failure and returns.\<close>

definition portfolio_key :: "string list" where "portfolio_key = [''fund_code'', ''portfolio_id'']"

definition fill_snaps :: "(string \<times> int option) list \<Rightarrow> (string \<times> int option) list" where
  "fill_snaps rows = map (\<lambda>(c, p). (c, Some (case p of None \<Rightarrow> 1 | Some v \<Rightarrow> v))) rows"

definition set_attrs :: "string \<Rightarrow> (attr list \<Rightarrow> attr list) \<Rightarrow> item \<Rightarrow> item" where
  "set_attrs n f i = (case i of Col m ty as \<Rightarrow> if m = n then Col m ty (f as) else i | Key ks \<Rightarrow> i)"

definition is_default :: "attr \<Rightarrow> bool" where
  "is_default a = (case a of DefaultText _ \<Rightarrow> True | DefaultInt _ \<Rightarrow> True | DefaultTrue \<Rightarrow> True | DefaultNow \<Rightarrow> True | _ \<Rightarrow> False)"

definition replace_default :: "attr \<Rightarrow> attr list \<Rightarrow> attr list" where
  "replace_default a as = filter (\<lambda>x. \<not> is_default x) as @ [a]"

definition composite_key :: "item list \<Rightarrow> item list" where
  "composite_key items = map (set_attrs ''portfolio_id'' (\<lambda>as. remove1 NotNull (replace_default (DefaultInt 1) as) @ [NotNull]))
     (map (\<lambda>i. case i of Col m ty as \<Rightarrow> Col m ty (filter (\<lambda>a. a \<noteq> PrimaryKey) as) | Key ks \<Rightarrow> i)
       (filter (\<lambda>i. case i of Key _ \<Rightarrow> False | Col _ _ _ \<Rightarrow> True) items)) @ [Key portfolio_key]"

definition alter_table :: "string \<Rightarrow> (item list \<Rightarrow> item list) \<Rightarrow> catalog \<Rightarrow> catalog" where
  "alter_table n f c = c\<lparr>ct_tables := map (\<lambda>(m, items). if m = n then (m, f items) else (m, items)) (ct_tables c)\<rparr>"

text \<open>The definition of the key as text names both columns.\<close>

definition names_both :: "string list \<Rightarrow> bool" where
  "names_both ks \<longleftrightarrow> list_ex (sublist ''fund_code'') ks \<and> list_ex (sublist ''portfolio_id'') ks"

definition fill_null_portfolios :: "unit boot" where
  "fill_null_portfolios = attempt (\<lambda>t. if has_columns (sd_cat t) ''portfolio_snapshot'' [''portfolio_id'']
     then Some ((), t\<lparr>sd_snaps := fill_snaps (sd_snaps t)\<rparr>) else None)"

definition find_duplicate_snaps :: "bool boot" where
  "find_duplicate_snaps = attempt (\<lambda>t. if has_columns (sd_cat t) ''portfolio_snapshot'' portfolio_key
     then Some (\<not> distinct (fill_snaps (sd_snaps t)), t) else None)"

definition replace_key :: "unit boot" where
  "replace_key = attempt (\<lambda>t. if has_columns (sd_cat t) ''portfolio_snapshot'' portfolio_key \<and>
         None \<notin> snd ` set (sd_snaps t) \<and> distinct (sd_snaps t)
     then Some ((), t\<lparr>sd_cat := alter_table ''portfolio_snapshot'' composite_key (sd_cat t)\<rparr>) else None)"

definition migratePortfolioSnapshotPK :: "unit boot" where
  "migratePortfolioSnapshotPK = bestEffortApply
    (andThen (attempt (\<lambda>t. Some (map_option key_of (table_items (sd_cat t) ''portfolio_snapshot''), t))) (\<lambda>key.
     if (case key of None \<Rightarrow> False | Some ks \<Rightarrow> names_both ks) then ret ()
     else andThen fill_null_portfolios (\<lambda>_. andThen find_duplicate_snaps (\<lambda>dups. if dups then ret () else replace_key))))"

definition has_default :: "catalog \<Rightarrow> string \<Rightarrow> string \<Rightarrow> bool" where
  "has_default c n col = (case table_items c n of None \<Rightarrow> False
     | Some items \<Rightarrow> list_ex (\<lambda>i. case i of Col m _ as \<Rightarrow> m = col \<and> list_ex is_default as | Key _ \<Rightarrow> False) items)"

definition set_column_default :: "string \<Rightarrow> attr \<Rightarrow> unit boot" where
  "set_column_default col a = attempt (\<lambda>t. if has_columns (sd_cat t) ''transactions'' [col]
     then Some ((), t\<lparr>sd_cat := alter_table ''transactions'' (map (set_attrs col (replace_default a))) (sd_cat t)\<rparr>) else None)"

definition fill_portfolio :: "txn_keys \<Rightarrow> txn_keys" where
  "fill_portfolio x = (if tk_portfolio x = None then x\<lparr>tk_portfolio := Some 1\<rparr> else x)"

definition fill_type :: "txn_keys \<Rightarrow> txn_keys" where
  "fill_type x = (if tk_type x = None then x\<lparr>tk_type := Some ''fund''\<rparr> else x)"

definition backfill_txs :: "unit boot" where
  "backfill_txs = andThen (attempt (\<lambda>t. Some ((), t\<lparr>sd_txs := map fill_portfolio (sd_txs t)\<rparr>)))
     (\<lambda>_. attempt (\<lambda>t. Some ((), t\<lparr>sd_txs := map fill_type (sd_txs t)\<rparr>)))"

definition count_null_txs :: "nat boot" where
  "count_null_txs = attempt (\<lambda>t. if has_columns (sd_cat t) ''transactions'' [''portfolio_id'', ''security_type'']
     then Some (length (filter (\<lambda>x. tk_portfolio x = None \<or> tk_type x = None) (sd_txs t)), t) else None)"

definition migrateTransactionsDefaults :: "unit boot" where
  "migrateTransactionsDefaults = bestEffortApply
    (andThen (attempt (\<lambda>t. Some ((has_default (sd_cat t) ''transactions'' ''portfolio_id'',
         has_default (sd_cat t) ''transactions'' ''security_type''), t)))
      (\<lambda>(p, s). andThen count_null_txs (\<lambda>nulls.
        if p \<and> s \<and> nulls = 0 then ret ()
        else andThen (if nulls > 0 then backfill_txs else ret ()) (\<lambda>_.
          andThen (if p then ret () else set_column_default ''portfolio_id'' (DefaultInt 1)) (\<lambda>_.
            if s then ret () else set_column_default ''security_type'' (DefaultText ''fund''))))))"

section \<open>The two lists\<close>

definition createSchemaMigrationsSQLite :: ddl where
  "createSchemaMigrationsSQLite = CreateTable ''schema_migrations''
    [Col ''version'' INTEGER [PrimaryKey], Col ''name'' TEXT [NotNull], Col ''applied_at'' TEXT [NotNull, DefaultNow]]"

definition createSchemaMigrationsPG :: ddl where
  "createSchemaMigrationsPG = CreateTable ''schema_migrations''
    [Col ''version'' INTEGER [PrimaryKey], Col ''name'' TEXT [NotNull], Col ''applied_at'' TIMESTAMPTZ [NotNull, DefaultNow]]"

definition sqliteMigrations :: "migration list" where
  "sqliteMigrations =
    [\<lparr>mg_version = 1, mg_name = ''baseline_schema'', mg_apply = baselineApply (sqliteSchemaTables @ sqliteSchemaIndexes)\<rparr>,
     \<lparr>mg_version = 2, mg_name = ''transactions_column_defaults'', mg_apply = recordOnlyApply\<rparr>,
     \<lparr>mg_version = 3, mg_name = ''portfolio_snapshot_composite_pk'', mg_apply = recordOnlyApply\<rparr>,
     \<lparr>mg_version = 4, mg_name = ''nav_history_security_columns'', mg_apply = ensureNavHistoryColumns Sqlite\<rparr>,
     \<lparr>mg_version = 5, mg_name = ''transactions_order_fund_unique_index'', mg_apply = bestEffortApply unique_order_index\<rparr>]"

definition pgMigrations :: "migration list" where
  "pgMigrations =
    [\<lparr>mg_version = 1, mg_name = ''baseline_schema'', mg_apply = baselineApply (pgSchemaTables @ pgSchemaIndexes)\<rparr>,
     \<lparr>mg_version = 2, mg_name = ''transactions_column_defaults'', mg_apply = migrateTransactionsDefaults\<rparr>,
     \<lparr>mg_version = 3, mg_name = ''portfolio_snapshot_composite_pk'', mg_apply = migratePortfolioSnapshotPK\<rparr>,
     \<lparr>mg_version = 4, mg_name = ''nav_history_security_columns'', mg_apply = ensureNavHistoryColumns Postgres\<rparr>,
     \<lparr>mg_version = 5, mg_name = ''transactions_order_fund_unique_index'', mg_apply = bestEffortApply unique_order_index\<rparr>]"

definition EnsureSQLiteSchema :: "unit boot" where
  "EnsureSQLiteSchema = ensureSchema createSchemaMigrationsSQLite sqliteMigrations"

definition EnsurePGSchema :: "unit boot" where
  "EnsurePGSchema = ensureSchema createSchemaMigrationsPG pgMigrations"

end
