(* ===== verification/MigrateProps.thy ===== *)
theory MigrateProps
  imports Migrate
begin

text \<open>
  What booting guarantees: a boot that succeeds leaves the whole schema behind, whatever boots failed
  before it and wherever they stopped; no boot drops a table, a column, an index or a row; on a database
  that is at the target already, a boot only records the versions.
\<close>

section \<open>Statements\<close>

lemma triple_boot_attempt:
  assumes "\<And>t a t'. P t \<Longrightarrow> f t = Some (a, t') \<Longrightarrow> Q a t'" "\<And>t. P t \<Longrightarrow> X t"
  shows "triple P (attempt f) Q X"
  unfolding attempt_def
  by (rule triple_andThen [where Q' = "\<lambda>r t. case r of None \<Rightarrow> X t | Some a \<Rightarrow> Q a t"], rule triple_wrap, rule triple_stmt)
    (use assms in \<open>auto split: option.split intro: triple_ret triple_throw\<close>)

lemma triple_bestEffort: "triple P m (\<lambda>_. Q) Q \<Longrightarrow> triple P (bestEffortApply m) (\<lambda>_. Q) X"
  by (fastforce simp: triple_def bestEffortApply_def split: prod.splits sum.splits)

lemma bestEffort_Inr: "fst (bestEffortApply m d) = Inr ()"
  by (simp add: bestEffortApply_def split: prod.split)

section \<open>The catalog only grows\<close>

definition grown :: "schema_db \<Rightarrow> schema_db \<Rightarrow> bool" where
  "grown t t' \<longleftrightarrow> sd_versions t' = sd_versions t \<and> set (ct_indexes (sd_cat t)) \<subseteq> set (ct_indexes (sd_cat t')) \<and>
     (\<forall>n items. table_items (sd_cat t) n = Some items \<longrightarrow>
        (\<exists>items'. table_items (sd_cat t') n = Some items' \<and> set (columns_of items) \<subseteq> set (columns_of items'))) \<and>
     map fst (sd_snaps t') = map fst (sd_snaps t) \<and>
     map (\<lambda>x. (tk_order x, tk_fund x)) (sd_txs t') = map (\<lambda>x. (tk_order x, tk_fund x)) (sd_txs t)"

lemma grown_refl: "grown t t"
  by (simp add: grown_def)

lemma grown_trans: "grown t1 t2 \<Longrightarrow> grown t2 t3 \<Longrightarrow> grown t1 t3"
  unfolding grown_def by (metis (no_types, lifting) subset_trans)

lemma made_grown: "made s (sd_cat t) \<Longrightarrow> grown t t' \<Longrightarrow> made s (sd_cat t')"
  unfolding made_def grown_def by (cases s) fastforce+

lemma index_items [simp]: "table_items (c\<lparr>ct_indexes := x\<rparr>) n = table_items c n"
  by (simp add: table_items_def)

lemma create_props:
  assumes "create s (sd_cat t) = Some c"
  shows "grown t (t\<lparr>sd_cat := c\<rparr>)" "made s c"
proof -
  have append: "table_items (sd_cat t\<lparr>ct_tables := ct_tables (sd_cat t) @ [(n, items)]\<rparr>) m =
      (case table_items (sd_cat t) m of None \<Rightarrow> if m = n then Some items else None | Some i \<Rightarrow> Some i)" for n items m
    by (simp add: table_items_def map_add_def split: option.split)
  show "grown t (t\<lparr>sd_cat := c\<rparr>)"
    using assms by (cases s) (auto simp: create_def grown_def append split: if_splits option.splits)
  show "made s c"
    using assms by (cases s) (auto simp: create_def made_def append split: if_splits option.splits)
qed

lemma alter_items:
  "table_items (alter_table n f c) m = (if m = n then map_option f (table_items c m) else table_items c m)"
proof -
  have "map_of (map (\<lambda>(k, items). if k = n then (k, f items) else (k, items)) xs) m =
      (if m = n then map_option f (map_of xs m) else map_of xs m)" for xs
    by (induction xs) auto
  then show ?thesis by (simp add: table_items_def alter_table_def)
qed

lemma grown_alter:
  assumes "\<And>items. set (columns_of items) \<subseteq> set (columns_of (f items))"
  shows "grown t (t\<lparr>sd_cat := alter_table n f (sd_cat t)\<rparr>)"
proof -
  have "ct_indexes (alter_table n f c) = ct_indexes c" for c by (simp add: alter_table_def)
  with assms show ?thesis by (auto simp: grown_def alter_items)
qed

lemma columns_of_append: "columns_of (xs @ ys) = columns_of xs @ columns_of ys"
  by (simp add: columns_of_def map_filter_def)

lemma in_columns_of: "c \<in> set (columns_of items) \<longleftrightarrow> (\<exists>ty as. Col c ty as \<in> set items)"
  by (induction items) (auto simp: columns_of_def map_filter_simps split: item.splits)

lemma columns_set_attrs: "columns_of (map (set_attrs n f) items) = columns_of items"
  by (induction items) (auto simp: columns_of_def map_filter_simps set_attrs_def split: item.splits)

lemma columns_composite: "set (columns_of (composite_key items)) = set (columns_of items)"
proof -
  let ?strip = "map (\<lambda>i. case i of Col m ty as \<Rightarrow> Col m ty (filter (\<lambda>a. a \<noteq> PrimaryKey) as) | Key ks \<Rightarrow> i)
       (filter (\<lambda>i. case i of Key _ \<Rightarrow> False | Col _ _ _ \<Rightarrow> True) items)"
  have "columns_of ?strip = columns_of items"
    by (induction items) (auto simp: columns_of_def map_filter_simps split: item.splits)
  then show ?thesis unfolding composite_key_def
    by (simp add: columns_of_append columns_set_attrs del: map_map) (simp add: columns_of_def map_filter_simps)
qed

lemma add_column_alter: "add_column n i c = alter_table n (\<lambda>items. items @ [i]) c"
  by (simp add: add_column_def alter_table_def)

section \<open>Every migration keeps what is there\<close>

definition keeps :: "'a boot \<Rightarrow> bool" where
  "keeps m \<longleftrightarrow> (\<forall>t0. triple (grown t0) m (\<lambda>_. grown t0) (grown t0))"

lemma keeps_attempt: "(\<And>t a t'. f t = Some (a, t') \<Longrightarrow> grown t t') \<Longrightarrow> keeps (attempt f)"
  unfolding keeps_def by (intro allI triple_boot_attempt) (auto intro: grown_trans)

lemma boot_keeps_ret: "keeps (ret a)" and keeps_throw: "keeps (throw e)"
  by (simp_all add: keeps_def triple_ret triple_throw)

lemma boot_keeps_andThen: "keeps m \<Longrightarrow> (\<And>a. keeps (g a)) \<Longrightarrow> keeps (andThen m g)"
  unfolding keeps_def by (blast intro: triple_andThen)

lemma boot_keeps_if: "keeps m1 \<Longrightarrow> keeps m2 \<Longrightarrow> keeps (if b then m1 else m2)"
  by simp

lemma keeps_bestEffort: "keeps m \<Longrightarrow> keeps (bestEffortApply m)"
  unfolding keeps_def by (blast intro: triple_bestEffort)

lemmas keeps_intros = boot_keeps_ret keeps_throw boot_keeps_andThen boot_keeps_if keeps_bestEffort

lemma keeps_exec: "keeps (exec_ddl s)"
  unfolding exec_ddl_def by (rule keeps_attempt) (auto split: option.splits intro: create_props)

lemma keeps_statements: "keeps (execStatements ss)"
  by (induction ss) (auto intro: keeps_intros keeps_exec)

lemma keeps_read: "keeps (attempt (\<lambda>t. Some (f t, t)))" and keeps_guarded: "keeps (attempt (\<lambda>t. if b t then Some (f t, t) else None))"
  by (rule keeps_attempt, auto simp: grown_refl split: if_splits)+

lemma keeps_column_default: "keeps (set_column_default col a)"
  unfolding set_column_default_def
  by (rule keeps_attempt) (auto split: if_splits intro!: grown_alter simp: columns_set_attrs)

lemma fill_snaps_codes: "map fst (fill_snaps rows) = map fst rows"
  by (auto simp: fill_snaps_def)

lemma keeps_snapshot_key: "keeps migratePortfolioSnapshotPK"
proof -
  have "keeps fill_null_portfolios"
    unfolding fill_null_portfolios_def by (rule keeps_attempt) (auto simp: grown_def fill_snaps_codes split: if_splits)
  moreover have "keeps find_duplicate_snaps" unfolding find_duplicate_snaps_def by (rule keeps_guarded)
  moreover have "keeps replace_key"
    unfolding replace_key_def by (rule keeps_attempt) (auto split: if_splits intro!: grown_alter simp: columns_composite)
  ultimately show ?thesis
    unfolding migratePortfolioSnapshotPK_def by (intro keeps_intros keeps_read)
qed

lemma keeps_defaults: "keeps migrateTransactionsDefaults"
proof -
  have "keeps backfill_txs"
    unfolding backfill_txs_def by (intro boot_keeps_andThen keeps_attempt) (auto simp: grown_def fill_portfolio_def fill_type_def)
  moreover have "keeps count_null_txs" unfolding count_null_txs_def by (rule keeps_guarded)
  ultimately show ?thesis
    unfolding migrateTransactionsDefaults_def split_def by (intro keeps_intros keeps_read keeps_column_default)
qed

lemma keeps_order_index: "keeps unique_order_index"
  unfolding unique_order_index_def Let_def
  by (rule keeps_attempt) (auto simp: grown_def table_items_def split: if_splits)
section \<open>The columns of nav_history are added\<close>

definition present :: "string \<Rightarrow> schema_db \<Rightarrow> bool" where
  "present n t \<longleftrightarrow> n \<in> set (columns_or_none ''nav_history'' t)"

lemma present_grown:
  assumes "present n t" "grown t t'"
  shows "present n t'"
proof -
  from assms(1) obtain items x where x: "table_items (sd_cat t) ''nav_history'' = Some items" "x \<in> set (columns_of items)" "n = ToLower x"
    unfolding present_def columns_or_none_def by (cases "table_items (sd_cat t) ''nav_history''") auto
  with assms(2) obtain items' where "table_items (sd_cat t') ''nav_history'' = Some items'" "x \<in> set (columns_of items')"
    unfolding grown_def by blast
  with x(3) show ?thesis by (simp add: present_def columns_or_none_def)
qed

lemma triple_try:
  assumes "triple P m (\<lambda>_. Q1) Q2" "triple Q2 a Q X" "triple Q1 b Q X"
  shows "triple P (\<lambda>d. case m d of (Inl _, d') \<Rightarrow> a d' | (Inr _, d') \<Rightarrow> b d') Q X"
  using assms by (fastforce simp: triple_def split: prod.splits sum.splits)

definition def_ok :: "string \<times> item \<Rightarrow> bool" where
  "def_ok d = (case d of (n, i) \<Rightarrow> ToLower n = n \<and> n \<in> set (columns_of [i]))"

lemma defs_ok: "list_all def_ok (navHistoryColumnDefs dia)" "map fst (navHistoryColumnDefs dia) = [''daily_change_pct'', ''security_type'']"
  by (cases dia; code_simp)+

lemma triple_add_column:
  assumes "def_ok (n, i)"
  shows "triple (grown t0) (addNavHistoryColumn n i) (\<lambda>_ t. grown t0 t \<and> present n t) (grown t0)"
  unfolding addNavHistoryColumn_def
proof (rule triple_boot_attempt)
  fix t a t' assume t: "grown t0 t" and f: "(case table_items (sd_cat t) ''nav_history'' of None \<Rightarrow> None
     | Some items \<Rightarrow> Some ((), if n \<in> set (map ToLower (columns_of items)) then t
         else t\<lparr>sd_cat := add_column ''nav_history'' i (sd_cat t)\<rparr>)) = Some (a, t')"
  have "n \<in> ToLower ` set (columns_of [i])" using assms by (force simp: def_ok_def)
  then have "present n t'" using f
    by (auto simp: present_def columns_or_none_def add_column_alter alter_items columns_of_append [of _ "[i]"] split: option.splits if_splits)
  moreover have "grown t t'" using f
    by (auto simp: add_column_alter columns_of_append grown_refl split: option.splits if_splits intro!: grown_alter)
  ultimately show "grown t0 t' \<and> present n t'" using t grown_trans by blast
qed

definition nav_inv :: "schema_db \<Rightarrow> string set \<Rightarrow> schema_db \<Rightarrow> bool" where
  "nav_inv t0 names t \<longleftrightarrow> grown t0 t \<and> (\<forall>n \<in> names. present n t)"

lemma triple_add_inv:
  assumes "def_ok (n, i)"
  shows "triple (nav_inv t0 names) (addNavHistoryColumn n i) (\<lambda>_. nav_inv t0 (insert n names)) (nav_inv t0 names)"
proof -
  have "triple (\<lambda>t. t = s) (addNavHistoryColumn n i) (\<lambda>_ t. grown s t \<and> present n t) (grown s)" for s
    by (rule triple_weaken [OF triple_add_column [OF assms]]) (simp_all add: grown_refl)
  moreover have "nav_inv t0 (insert n names) t" if "nav_inv t0 names s" "grown s t \<and> present n t" for s t
    using that by (auto simp: nav_inv_def intro: grown_trans present_grown)
  moreover have "nav_inv t0 names t" if "nav_inv t0 names s" "grown s t" for s t
    using that by (auto simp: nav_inv_def intro: grown_trans present_grown)
  ultimately show ?thesis unfolding triple_def by (fastforce split: prod.splits sum.splits)
qed

lemma triple_add_failed:
  "list_all def_ok defs \<Longrightarrow> triple (nav_inv t0 names) (add_missing cols defs True) (\<lambda>_ _. False) (grown t0)"
proof (induction defs arbitrary: names)
  case Nil
  show ?case unfolding add_missing.simps if_True by (rule triple_throw) (simp add: nav_inv_def)
next
  case (Cons d defs)
  obtain n i where d: "d = (n, i)" by (cases d)
  with Cons.prems have ok: "def_ok (n, i)" by simp
  show ?case unfolding d add_missing.simps
    by (intro triple_if triple_try [OF triple_add_inv [OF ok]] Cons.IH) (use Cons.prems in simp_all)
qed

lemma triple_add_missing:
  "list_all def_ok defs \<Longrightarrow> set cols \<subseteq> names \<Longrightarrow>
   triple (nav_inv t0 names) (add_missing cols defs False) (\<lambda>_. nav_inv t0 (names \<union> fst ` set defs)) (grown t0)"
proof (induction defs arbitrary: names)
  case Nil
  show ?case by (simp add: triple_ret)
next
  case (Cons d defs)
  obtain n i where d: "d = (n, i)" by (cases d)
  with Cons.prems have ok: "def_ok (n, i)" and oks: "list_all def_ok defs" by simp_all
  have fail: "triple (nav_inv t0 names) (add_missing cols defs True) (\<lambda>_. nav_inv t0 (names \<union> fst ` set (d # defs))) (grown t0)"
    by (rule triple_weaken [OF triple_add_failed [OF oks]]) auto
  have more: "triple (nav_inv t0 (insert n names)) (add_missing cols defs False) (\<lambda>_. nav_inv t0 (names \<union> fst ` set (d # defs))) (grown t0)"
    by (rule triple_weaken [OF Cons.IH [OF oks]]) (use Cons.prems(2) d in auto)
  have there: "triple (nav_inv t0 names) (add_missing cols defs False) (\<lambda>_. nav_inv t0 (names \<union> fst ` set (d # defs))) (grown t0)" if "n \<in> set cols"
    by (rule triple_weaken [OF Cons.IH [OF oks Cons.prems(2)]]) (use Cons.prems(2) that d in \<open>auto simp: nav_inv_def\<close>)
  show ?case unfolding d add_missing.simps
    by (rule triple_if, use there d in simp, rule triple_try [OF triple_add_inv [OF ok]], use fail d in simp, use more d in simp)
qed

lemma triple_fallback:
  assumes "triple P m Q P" "triple P n Q X" "\<And>xs t. Q xs t \<Longrightarrow> P t"
  shows "triple P (fallback m n) Q X"
  unfolding triple_def
proof (intro allI impI)
  fix d :: "schema_db db" assume d: "P (tables d)"
  obtain r d1 where m: "m d = (r, d1)" by (cases "m d")
  show "case fallback m n d of (Inl _, d') \<Rightarrow> X (tables d') | (Inr a, d') \<Rightarrow> Q a (tables d')"
  proof (cases r)
    case (Inl e)
    with tripleX [OF assms(1) d, of e d1] m have "P (tables d1)" by simp
    with assms(2) show ?thesis by (simp add: fallback_def m Inl triple_def)
  next
    case (Inr xs)
    with tripleD [OF assms(1) d, of xs d1] m have "Q xs (tables d1)" by simp
    with assms(2,3) show ?thesis by (cases xs) (auto simp: fallback_def m Inr triple_def)
  qed
qed

lemma triple_nav_columns:
  "triple (grown t0) (navHistoryColumns dia) (\<lambda>cols. nav_inv t0 (set cols)) (grown t0)"
proof -
  have ask: "triple (grown t0) (attempt (\<lambda>t. Some (columns_or_none ''nav_history'' t, t))) (\<lambda>cols. nav_inv t0 (set cols)) (grown t0)"
    by (rule triple_boot_attempt) (auto simp: nav_inv_def present_def)
  have fail: "triple (grown t0) (attempt (\<lambda>_. None)) (\<lambda>cols. nav_inv t0 (set cols)) (grown t0)" by (rule triple_boot_attempt) simp_all
  have "nav_inv t0 ns t \<Longrightarrow> grown t0 t" for ns t by (simp add: nav_inv_def)
  from triple_fallback [OF ask fail this] triple_fallback [OF fail ask this] show ?thesis
    by (cases dia) (simp_all add: navHistoryColumns_def Let_def)
qed

lemma nav_inv_mono: "nav_inv t0 ns t \<Longrightarrow> ns' \<subseteq> ns \<Longrightarrow> nav_inv t0 ns' t"
  unfolding nav_inv_def by blast

lemma ensure_nav_columns:
  "triple (grown t0) (ensureNavHistoryColumns dia) (\<lambda>_. nav_inv t0 {''daily_change_pct'', ''security_type''}) (grown t0)"
  unfolding ensureNavHistoryColumns_def
proof (rule triple_andThen [OF triple_nav_columns])
  fix cols
  have names: "{''daily_change_pct'', ''security_type''} = fst ` set (navHistoryColumnDefs dia)"
    using arg_cong [OF defs_ok(2) [of dia], of set] by (simp only: list.set set_map)
  show "triple (nav_inv t0 (set cols)) (add_missing cols (navHistoryColumnDefs dia) False)
      (\<lambda>_. nav_inv t0 {''daily_change_pct'', ''security_type''}) (grown t0)"
    unfolding names by (rule triple_weaken [OF triple_add_missing [OF defs_ok(1) subset_refl]]) (assumption, erule nav_inv_mono, simp)
qed

lemma triple_exec: "triple (grown t0) (exec_ddl s) (\<lambda>_ t. grown t0 t \<and> made s (sd_cat t)) (grown t0)"
  unfolding exec_ddl_def by (rule triple_boot_attempt) (auto split: option.splits intro: grown_trans create_props)

lemma triple_statements:
  "triple (\<lambda>t. grown t0 t \<and> (\<forall>s \<in> S. made s (sd_cat t))) (execStatements ss)
     (\<lambda>_ t. grown t0 t \<and> (\<forall>s \<in> S \<union> set ss. made s (sd_cat t))) (grown t0)"
proof (induction ss arbitrary: S)
  case Nil
  show ?case by (simp add: triple_ret)
next
  case (Cons s ss)
  have one: "triple (\<lambda>t. t = u) (exec_ddl s) (\<lambda>_ t. grown u t \<and> made s (sd_cat t)) (grown u)" for u
    by (rule triple_weaken [OF triple_exec]) (simp_all add: grown_refl)
  have "triple (\<lambda>t. grown t0 t \<and> (\<forall>s \<in> S. made s (sd_cat t))) (exec_ddl s)
      (\<lambda>_ t. grown t0 t \<and> (\<forall>s \<in> insert s S. made s (sd_cat t))) (grown t0)"
    using one unfolding triple_def by (fastforce split: prod.splits sum.splits intro: grown_trans made_grown)
  then show ?case unfolding execStatements.simps
    by (rule triple_andThen) (rule triple_weaken [OF Cons.IH [of "insert s S"]], auto)
qed

section \<open>Boots\<close>

definition baseline :: "dialect \<Rightarrow> ddl list" where
  "baseline dia = (case dia of Sqlite \<Rightarrow> sqliteSchemaTables @ sqliteSchemaIndexes | Postgres \<Rightarrow> pgSchemaTables @ pgSchemaIndexes)"

definition migrations :: "dialect \<Rightarrow> migration list" where
  "migrations dia = (case dia of Sqlite \<Rightarrow> sqliteMigrations | Postgres \<Rightarrow> pgMigrations)"

definition boot :: "dialect \<Rightarrow> unit boot" where
  "boot dia = (case dia of Sqlite \<Rightarrow> EnsureSQLiteSchema | Postgres \<Rightarrow> EnsurePGSchema)"

text \<open>What the row of a version stands for.\<close>

definition effect :: "dialect \<Rightarrow> nat \<Rightarrow> schema_db \<Rightarrow> bool" where
  "effect dia v t = (if v = 1 then \<forall>s \<in> set (baseline dia). made s (sd_cat t)
     else if v = 4 then present ''daily_change_pct'' t \<and> present ''security_type'' t else True)"

definition recorded_version :: "nat \<Rightarrow> schema_db \<Rightarrow> bool" where
  "recorded_version v t \<longleftrightarrow> v \<in> set (map fst (sd_versions t))"

definition boot_inv :: "dialect \<Rightarrow> schema_db \<Rightarrow> bool" where
  "boot_inv dia t \<longleftrightarrow> (\<forall>v. recorded_version v t \<longrightarrow> effect dia v t)"

lemma effect_grown: "effect dia v t \<Longrightarrow> grown t t' \<Longrightarrow> effect dia v t'"
  unfolding effect_def using made_grown present_grown by (simp split: if_splits) blast+

lemma boot_inv_grown: "boot_inv dia t \<Longrightarrow> grown t t' \<Longrightarrow> boot_inv dia t'"
  using effect_grown unfolding boot_inv_def recorded_version_def by (metis grown_def)

lemma applies:
  assumes "m \<in> set (migrations dia)"
  shows "triple (grown t0) (mg_apply m) (\<lambda>_ t. grown t0 t \<and> effect dia (mg_version m) t) (grown t0)"
proof -
  have kept: "keeps recordOnlyApply" "keeps (bestEffortApply unique_order_index)"
    by (auto simp: recordOnlyApply_def intro: keeps_intros keeps_order_index)
  consider "mg_version m = 1" "mg_apply m = baselineApply (baseline dia)"
    | "mg_version m = 4" "mg_apply m = ensureNavHistoryColumns dia"
    | "mg_version m \<noteq> 1" "mg_version m \<noteq> 4" "keeps (mg_apply m)"
    using assms kept keeps_defaults keeps_snapshot_key
    by (cases dia) (auto simp: migrations_def sqliteMigrations_def pgMigrations_def baseline_def)
  then show ?thesis
  proof cases
    case 1
    then show ?thesis unfolding baselineApply_def
      by (auto intro!: triple_weaken [OF triple_statements [where S = "{}"]] simp: effect_def)
  next
    case 2
    then show ?thesis by (auto intro!: triple_weaken [OF ensure_nav_columns] simp: effect_def nav_inv_def)
  next
    case 3
    then show ?thesis by (simp add: effect_def keeps_def)
  qed
qed

text \<open>From \<open>t0\<close> on: nothing lost, versions only added, and at least those of \<open>V\<close> recorded.\<close>

definition booted :: "dialect \<Rightarrow> schema_db \<Rightarrow> nat set \<Rightarrow> schema_db \<Rightarrow> bool" where
  "booted dia t0 V t \<longleftrightarrow> boot_inv dia t \<and> grown (t0\<lparr>sd_versions := sd_versions t\<rparr>) t \<and>
     set (sd_versions t0) \<subseteq> set (sd_versions t) \<and> (\<forall>v \<in> V. recorded_version v t)"

lemma booted_refl: "boot_inv dia t \<Longrightarrow> booted dia t {} t"
  by (simp add: booted_def grown_def)

lemma booted_mono: "booted dia t0 V t \<Longrightarrow> W \<subseteq> V \<Longrightarrow> booted dia t0 W t"
  by (auto simp: booted_def)

lemma booted_grown:
  assumes "booted dia t0 V s" "grown s t"
  shows "booted dia t0 V t"
proof -
  from assms(2) have v: "sd_versions t = sd_versions s" by (simp add: grown_def)
  with assms have "grown (t0\<lparr>sd_versions := sd_versions t\<rparr>) t" unfolding booted_def by (metis grown_trans)
  with assms v show ?thesis by (auto simp: booted_def recorded_version_def intro: boot_inv_grown)
qed

lemma triple_apply:
  assumes "m \<in> set (migrations dia)"
  shows "triple (booted dia t0 V) (mg_apply m) (\<lambda>_ t. booted dia t0 V t \<and> effect dia (mg_version m) t) (booted dia t0 V)"
proof (rule triple_each)
  fix s assume s: "booted dia t0 V s"
  show "triple (\<lambda>t. t = s) (mg_apply m) (\<lambda>_ t. booted dia t0 V t \<and> effect dia (mg_version m) t) (booted dia t0 V)"
    by (rule triple_weaken [OF applies [OF assms, of s]]) (auto simp: grown_refl intro: booted_grown [OF s])
qed

lemma triple_record:
  "triple (\<lambda>t. booted dia t0 V t \<and> effect dia (mg_version m) t) (record_version m)
     (\<lambda>_. booted dia t0 (insert (mg_version m) V)) (booted dia t0 {})"
  unfolding record_version_def
proof (rule triple_boot_attempt)
  fix t a t' assume t: "booted dia t0 V t \<and> effect dia (mg_version m) t"
    and f: "(if mg_version m \<in> set (map fst (sd_versions t)) then None
     else Some ((), t\<lparr>sd_versions := sd_versions t @ [(mg_version m, mg_name m)]\<rparr>)) = Some (a, t')"
  from f have t': "t' = t\<lparr>sd_versions := sd_versions t @ [(mg_version m, mg_name m)]\<rparr>" by (simp split: if_splits)
  have "effect dia v t' = effect dia v t" for v by (simp add: t' effect_def present_def columns_or_none_def)
  with t show "booted dia t0 (insert (mg_version m) V) t'"
    by (auto simp: t' booted_def boot_inv_def recorded_version_def grown_def)
qed (auto intro: booted_mono)

lemma triple_run:
  assumes "set ms \<subseteq> set (migrations dia)" "set applied \<subseteq> V"
  shows "triple (booted dia t0 V) (run_migrations applied ms) (\<lambda>_. booted dia t0 (V \<union> mg_version ` set ms)) (booted dia t0 {})"
  using assms
proof (induction ms arbitrary: V)
  case Nil
  show ?case by (simp add: triple_ret)
next
  case (Cons m ms)
  have skip: "triple (booted dia t0 V) (run_migrations applied ms) (\<lambda>_. booted dia t0 (V \<union> mg_version ` set (m # ms))) (booted dia t0 {})"
    if "mg_version m \<in> set applied"
    by (rule triple_weaken [OF Cons.IH [of V]]) (use Cons.prems that in \<open>auto elim: booted_mono\<close>)
  have rest: "triple (booted dia t0 (insert (mg_version m) V)) (run_migrations applied ms)
      (\<lambda>_. booted dia t0 (V \<union> mg_version ` set (m # ms))) (booted dia t0 {})"
    by (rule triple_weaken [OF Cons.IH [of "insert (mg_version m) V"]]) (use Cons.prems in \<open>auto elim: booted_mono\<close>)
  have apply1: "triple (booted dia t0 V) (mg_apply m) (\<lambda>_ t. booted dia t0 V t \<and> effect dia (mg_version m) t) (booted dia t0 {})"
    by (rule triple_weaken [OF triple_apply [where V = V]]) (use Cons.prems in \<open>auto elim: booted_mono\<close>)
  show ?case unfolding run_migrations.simps
    by (rule triple_if, erule skip, rule triple_andThen [OF apply1], rule triple_andThen [OF triple_record], rule rest)
qed

lemma triple_boot:
  "triple (booted dia t0 {}) (boot dia) (\<lambda>_. booted dia t0 {1, 2, 3, 4, 5}) (booted dia t0 {})"
proof -
  have versions: "mg_version ` set (migrations dia) = {1, 2, 3, 4, 5}"
    by (cases dia) (auto simp: migrations_def sqliteMigrations_def pgMigrations_def)
  have ddl: "triple (booted dia t0 {}) (exec_ddl s) (\<lambda>_. booted dia t0 {}) (booted dia t0 {})" for s
  proof (rule triple_each)
    fix u assume u: "booted dia t0 {} u"
    show "triple (\<lambda>t. t = u) (exec_ddl s) (\<lambda>_. booted dia t0 {}) (booted dia t0 {})"
      by (rule triple_weaken [OF triple_exec [of u]]) (auto simp: grown_refl intro: booted_grown [OF u])
  qed
  have load: "triple (booted dia t0 {}) loadAppliedVersions (\<lambda>vs. booted dia t0 (set vs)) (booted dia t0 {})"
    unfolding loadAppliedVersions_def by (rule triple_boot_attempt) (auto simp: booted_def recorded_version_def)
  have run: "triple (booted dia t0 (set vs)) (run_migrations vs (migrations dia)) (\<lambda>_. booted dia t0 {1, 2, 3, 4, 5}) (booted dia t0 {})" for vs
    by (rule triple_weaken [OF triple_run [where V = "set vs"]]) (auto simp: versions elim: booted_mono)
  have "triple (booted dia t0 {}) (ensureSchema s (migrations dia)) (\<lambda>_. booted dia t0 {1, 2, 3, 4, 5}) (booted dia t0 {})" for s
    unfolding ensureSchema_def by (rule triple_andThen [OF ddl], rule triple_andThen [OF load], rule run)
  from this [of createSchemaMigrationsSQLite] this [of createSchemaMigrationsPG] show ?thesis
    by (cases dia) (simp_all add: boot_def EnsureSQLiteSchema_def EnsurePGSchema_def migrations_def)
qed

text \<open>Boots one after another, each with its own faults; a failed one leaves what it did.\<close>

fun restarts :: "dialect \<Rightarrow> bool list list \<Rightarrow> schema_db \<Rightarrow> schema_db" where
  "restarts dia [] t = t"
| "restarts dia (fs # fss) t = restarts dia fss (tables (snd (boot dia \<lparr>tables = t, faults = fs\<rparr>)))"

lemma boot_keeps: "booted dia t0 {} t \<Longrightarrow> booted dia t0 {} (tables (snd (boot dia \<lparr>tables = t, faults = fs\<rparr>)))"
proof -
  assume t: "booted dia t0 {} t"
  obtain r d' where run: "boot dia \<lparr>tables = t, faults = fs\<rparr> = (r, d')" by fastforce
  let ?d = "\<lparr>tables = t, faults = fs\<rparr>"
  have "booted dia t0 {} (tables d')"
  proof (cases r)
    case (Inl e)
    with tripleX [OF triple_boot [of dia t0], of ?d e d'] run t show ?thesis by simp
  next
    case (Inr a)
    with tripleD [OF triple_boot [of dia t0], of ?d a d'] run t show ?thesis by (auto elim: booted_mono)
  qed
  with run show ?thesis by simp
qed

lemma restarts_keep: "booted dia t0 {} t \<Longrightarrow> booted dia t0 {} (restarts dia fss t)"
  by (induction fss arbitrary: t) (simp_all add: boot_keeps)


text \<open>To run it: the statement is computed once.\<close>

lemma attempt_code [code]:
  "attempt f d = (case faults d of True # fs \<Rightarrow> (Inl SchemaError, d\<lparr>faults := fs\<rparr>)
     | _ \<Rightarrow> (case f (tables d) of None \<Rightarrow> (Inl SchemaError, d\<lparr>faults := tl (faults d)\<rparr>)
         | Some (a, t) \<Rightarrow> (Inr a, d\<lparr>tables := t, faults := tl (faults d)\<rparr>)))"
  by (auto simp: attempt_def stmt_def proc_defs split: list.split bool.split option.split)

definition empty_db :: schema_db where
  "empty_db = \<lparr>sd_cat = \<lparr>ct_tables = [], ct_indexes = []\<rparr>, sd_versions = [], sd_snaps = [], sd_txs = []\<rparr>"

definition second_boot :: "(boot_error + unit) \<times> schema_db db" where
  "second_boot = boot Sqlite \<lparr>tables = restarts Sqlite [[False, False, False, True]] empty_db, faults = []\<rparr>"

lemma second_boot_runs:
  "case second_boot of (r, d) \<Rightarrow> r = Inr () \<and> table_items (sd_cat (tables d)) ''schema_migrations'' \<noteq> None \<and>
     ''idx_transactions_order_fund_unique'' \<in> set (ct_indexes (sd_cat (tables d)))"
  by code_simp


section \<open>At the target, a boot only records\<close>

definition same_schema :: "schema_db \<Rightarrow> schema_db \<Rightarrow> bool" where
  "same_schema t t' \<longleftrightarrow> sd_cat t' = sd_cat t \<and> sd_snaps t' = sd_snaps t \<and> sd_txs t' = sd_txs t"

definition at_target :: "dialect \<Rightarrow> schema_db \<Rightarrow> bool" where
  "at_target dia t \<longleftrightarrow> (\<forall>s \<in> set (baseline dia). made s (sd_cat t)) \<and> table_items (sd_cat t) ''schema_migrations'' \<noteq> None \<and>
     present ''daily_change_pct'' t \<and> present ''security_type'' t \<and>
     (''idx_transactions_order_fund_unique'' \<in> set (ct_indexes (sd_cat t)) \<or> duplicate_orders (sd_txs t)) \<and>
     (dia = Postgres \<longrightarrow>
        (\<exists>items. table_items (sd_cat t) ''portfolio_snapshot'' = Some items \<and> names_both (key_of items)) \<and>
        has_default (sd_cat t) ''transactions'' ''portfolio_id'' \<and> has_default (sd_cat t) ''transactions'' ''security_type'' \<and>
        (\<forall>x \<in> set (sd_txs t). tk_portfolio x \<noteq> None \<and> tk_type x \<noteq> None))"

definition still :: "'a boot \<Rightarrow> schema_db \<Rightarrow> bool" where
  "still m t0 \<longleftrightarrow> triple (same_schema t0) m (\<lambda>_. same_schema t0) (same_schema t0)"

lemma same_schema_refl: "same_schema t t"
  by (simp add: same_schema_def)

lemma still_attempt:
  assumes "\<And>t a t'. same_schema t0 t \<Longrightarrow> f t = Some (a, t') \<Longrightarrow> same_schema t0 t'"
  shows "still (attempt f) t0"
  unfolding still_def by (rule triple_boot_attempt) (use assms in auto)

lemma still_ret: "still (ret a) t0" and still_throw: "still (throw e) t0"
  by (simp_all add: still_def triple_ret triple_throw)

lemma still_andThen: "still m t0 \<Longrightarrow> (\<And>a. still (g a) t0) \<Longrightarrow> still (andThen m g) t0"
  unfolding still_def by (blast intro: triple_andThen)

lemma still_bestEffort: "still m t0 \<Longrightarrow> still (bestEffortApply m) t0"
  unfolding still_def by (blast intro: triple_bestEffort)

lemma still_read: "still (attempt (\<lambda>t. Some (f t, t))) t0"
  by (rule still_attempt) auto

lemma create_made: "made s c \<Longrightarrow> create s c = Some c"
  by (cases s) (auto simp: made_def create_def)

lemma still_exec: "made s (sd_cat t0) \<Longrightarrow> still (exec_ddl s) t0"
  unfolding exec_ddl_def by (rule still_attempt) (auto simp: same_schema_def create_made)

lemma still_statements: "\<forall>s \<in> set ss. made s (sd_cat t0) \<Longrightarrow> still (execStatements ss) t0"
  by (induction ss) (auto intro: still_ret still_andThen still_exec)

lemma still_nav:
  assumes "present ''daily_change_pct'' t0" "present ''security_type'' t0"
  shows "still (ensureNavHistoryColumns dia) t0"
proof -
  have there: "n \<in> {''daily_change_pct'', ''security_type''} \<Longrightarrow> same_schema t0 t \<Longrightarrow> present n t" for n t
    using assms by (auto simp: present_def columns_or_none_def same_schema_def)
  have add: "still (addNavHistoryColumn n i) t0" if "n \<in> {''daily_change_pct'', ''security_type''}" for n i
    unfolding addNavHistoryColumn_def
  proof (rule still_attempt)
    fix t a t' assume t: "same_schema t0 t" and f: "(case table_items (sd_cat t) ''nav_history'' of None \<Rightarrow> None
       | Some items \<Rightarrow> Some ((), if n \<in> set (map ToLower (columns_of items)) then t
           else t\<lparr>sd_cat := add_column ''nav_history'' i (sd_cat t)\<rparr>)) = Some (a, t')"
    from there [OF that t] obtain items where "table_items (sd_cat t) ''nav_history'' = Some items" "n \<in> set (map ToLower (columns_of items))"
      unfolding present_def columns_or_none_def by (cases "table_items (sd_cat t) ''nav_history''") auto
    with f t show "same_schema t0 t'" by (simp only: option.case prod.inject option.inject if_True)
  qed
  have missing: "still (add_missing cols defs failed) t0" if "fst ` set defs \<subseteq> {''daily_change_pct'', ''security_type''}" for cols defs failed
    using that
  proof (induction defs arbitrary: failed)
    case Nil
    show ?case by (auto intro: still_ret still_throw)
  next
    case (Cons d defs)
    obtain n i where d: "d = (n, i)" by (cases d)
    with Cons.prems have n: "n \<in> {''daily_change_pct'', ''security_type''}" and more: "fst ` set defs \<subseteq> {''daily_change_pct'', ''security_type''}"
      by auto
    note IH = Cons.IH [OF more, unfolded still_def] and one = add [OF n, unfolded still_def]
    show ?case unfolding d add_missing.simps still_def by (intro triple_if triple_try [OF one] IH)
  qed
  have names: "fst ` set (navHistoryColumnDefs dia) = {''daily_change_pct'', ''security_type''}"
    using arg_cong [OF defs_ok(2) [of dia], of set] by (simp only: list.set set_map)
  have ask: "triple (same_schema t0) (attempt (\<lambda>t. Some (columns_or_none ''nav_history'' t, t))) (\<lambda>_. same_schema t0) (same_schema t0)"
    by (rule triple_boot_attempt) simp_all
  have fail: "triple (same_schema t0) (attempt (\<lambda>_. None)) (\<lambda>_ :: string list. same_schema t0) (same_schema t0)"
    by (rule triple_boot_attempt) simp_all
  from triple_fallback [OF ask fail] triple_fallback [OF fail ask] have "still (navHistoryColumns dia) t0"
    by (cases dia) (simp_all add: still_def navHistoryColumns_def Let_def)
  then show ?thesis unfolding ensureNavHistoryColumns_def by (rule still_andThen) (simp add: missing names)
qed

lemma still_key:
  assumes "\<exists>items. table_items (sd_cat t0) ''portfolio_snapshot'' = Some items \<and> names_both (key_of items)"
  shows "still migratePortfolioSnapshotPK t0"
  unfolding migratePortfolioSnapshotPK_def still_def
proof (rule triple_bestEffort, rule triple_andThen [where Q' = "\<lambda>key t. same_schema t0 t \<and> (\<exists>ks. key = Some ks \<and> names_both ks)"])
  show "triple (same_schema t0) (attempt (\<lambda>t. Some (map_option key_of (table_items (sd_cat t) ''portfolio_snapshot''), t)))
      (\<lambda>key t. same_schema t0 t \<and> (\<exists>ks. key = Some ks \<and> names_both ks)) (same_schema t0)"
    by (rule triple_boot_attempt) (use assms in \<open>auto simp: same_schema_def\<close>)
qed (rule triple_pure, auto intro: triple_ret)

lemma still_defaults:
  assumes "has_default (sd_cat t0) ''transactions'' ''portfolio_id''" "has_default (sd_cat t0) ''transactions'' ''security_type''"
    "\<forall>x \<in> set (sd_txs t0). tk_portfolio x \<noteq> None \<and> tk_type x \<noteq> None"
  shows "still migrateTransactionsDefaults t0"
proof -
  have probe: "triple (same_schema t0) (attempt (\<lambda>t. Some ((has_default (sd_cat t) ''transactions'' ''portfolio_id'',
         has_default (sd_cat t) ''transactions'' ''security_type''), t)))
      (\<lambda>a t. same_schema t0 t \<and> a = (True, True)) (same_schema t0)"
    by (rule triple_boot_attempt) (use assms(1,2) in \<open>auto simp: same_schema_def\<close>)
  have "filter (\<lambda>x. tk_portfolio x = None \<or> tk_type x = None) (sd_txs t0) = []" using assms(3) by (auto simp: filter_empty_conv)
  then have count: "triple (same_schema t0) count_null_txs (\<lambda>n t. same_schema t0 t \<and> n = 0) (same_schema t0)"
    unfolding count_null_txs_def by (intro triple_boot_attempt) (auto simp: same_schema_def split: if_splits)
  show ?thesis unfolding migrateTransactionsDefaults_def still_def
  proof (rule triple_bestEffort, rule triple_andThen [OF probe], rule triple_pure)
    fix a :: "bool \<times> bool" assume a: "a = (True, True)"
    show "triple (same_schema t0) (case a of (p, s) \<Rightarrow> andThen count_null_txs (\<lambda>nulls.
        if p \<and> s \<and> nulls = 0 then ret ()
        else andThen (if nulls > 0 then backfill_txs else ret ()) (\<lambda>_.
          andThen (if p then ret () else set_column_default ''portfolio_id'' (DefaultInt 1)) (\<lambda>_.
            if s then ret () else set_column_default ''security_type'' (DefaultText ''fund'')))))
        (\<lambda>_. same_schema t0) (same_schema t0)"
      unfolding a prod.case by (rule triple_andThen [OF count], rule triple_pure) (simp add: triple_ret)
  qed
qed

lemma still_order_index:
  assumes "''idx_transactions_order_fund_unique'' \<in> set (ct_indexes (sd_cat t0)) \<or> duplicate_orders (sd_txs t0)"
  shows "still unique_order_index t0"
  unfolding unique_order_index_def Let_def
proof (rule still_attempt)
  fix t a t' assume t: "same_schema t0 t" and f: "(if ''idx_transactions_order_fund_unique'' \<in> set (ct_indexes (sd_cat t)) then Some ((), t)
     else if \<not> has_columns (sd_cat t) ''transactions'' [''order_id'', ''fund_code''] \<or> duplicate_orders (sd_txs t) then None
     else Some ((), t\<lparr>sd_cat := (sd_cat t)\<lparr>ct_indexes := ct_indexes (sd_cat t) @ [''idx_transactions_order_fund_unique'']\<rparr>\<rparr>)) = Some (a, t')"
  from t have "sd_cat t = sd_cat t0" "sd_txs t = sd_txs t0" by (simp_all add: same_schema_def)
  with assms f have "t' = t" by (metis option.distinct(1) option.inject prod.inject)
  with t show "same_schema t0 t'" by simp
qed

lemma still_run: "(\<And>m. m \<in> set ms \<Longrightarrow> still (mg_apply m) t0) \<Longrightarrow> still (run_migrations applied ms) t0"
proof (induction ms)
  case (Cons m ms)
  have "still (record_version m) t0"
    unfolding record_version_def by (rule still_attempt) (auto simp: same_schema_def split: if_splits)
  with Cons show ?case by (auto intro: still_andThen)
qed (simp add: still_ret)

lemma still_boot:
  assumes "at_target dia t0"
  shows "still (boot dia) t0"
proof -
  have "still (mg_apply m) t0" if m: "m \<in> set (migrations dia)" for m
  proof -
    have "mg_apply m \<in> {baselineApply (baseline dia), recordOnlyApply, ensureNavHistoryColumns dia, bestEffortApply unique_order_index} \<or>
        dia = Postgres \<and> mg_apply m \<in> {migrateTransactionsDefaults, migratePortfolioSnapshotPK}"
      using m by (cases dia) (auto simp: migrations_def sqliteMigrations_def pgMigrations_def baseline_def)
    moreover have "still (baselineApply (baseline dia)) t0" "still recordOnlyApply t0" "still (ensureNavHistoryColumns dia) t0"
      using assms unfolding at_target_def baselineApply_def recordOnlyApply_def by (blast intro: still_statements still_ret still_nav)+
    moreover have "still (bestEffortApply unique_order_index) t0"
      by (rule still_bestEffort, rule still_order_index) (use assms in \<open>simp add: at_target_def\<close>)
    moreover have "still migrateTransactionsDefaults t0" if "dia = Postgres"
      by (rule still_defaults) (use assms that in \<open>simp_all add: at_target_def\<close>)
    moreover have "still migratePortfolioSnapshotPK t0" if "dia = Postgres"
      by (rule still_key) (use assms that in \<open>simp add: at_target_def\<close>)
    ultimately show ?thesis by auto
  qed
  then have run: "still (run_migrations vs (migrations dia)) t0" for vs by (rule still_run)
  have "made s (sd_cat t0)" if "s \<in> {createSchemaMigrationsSQLite, createSchemaMigrationsPG}" for s
    using assms that by (auto simp: at_target_def made_def createSchemaMigrationsSQLite_def createSchemaMigrationsPG_def)
  then have "still (ensureSchema s (migrations dia)) t0" if "s \<in> {createSchemaMigrationsSQLite, createSchemaMigrationsPG}" for s
    unfolding ensureSchema_def loadAppliedVersions_def using that by (intro still_andThen still_exec still_read run) auto
  then show ?thesis
    by (cases dia) (simp_all add: boot_def EnsureSQLiteSchema_def EnsurePGSchema_def migrations_def)
qed

text \<open>
  On a database that has the schema already, recorded or not, a boot changes no table, no index and no
  row of the data, whether it succeeds or fails: it only records versions.
\<close>

theorem boot_at_target_records_only:
  assumes "at_target dia t"
  shows "same_schema t (tables (snd (boot dia \<lparr>tables = t, faults = fs\<rparr>)))"
proof -
  let ?d = "\<lparr>tables = t, faults = fs\<rparr>"
  note boot = still_boot [OF assms, unfolded still_def]
  obtain r d' where run: "boot dia ?d = (r, d')" by fastforce
  have "same_schema t (tables d')"
  proof (cases r)
    case (Inl e)
    with tripleX [OF boot, of ?d e d'] run show ?thesis by (simp add: same_schema_refl)
  next
    case (Inr a)
    with tripleD [OF boot, of ?d a d'] run show ?thesis by (simp add: same_schema_refl)
  qed
  with run show ?thesis by simp
qed

theorem boot_at_target_records_only_witness:
  "\<exists>t. at_target Sqlite t \<and> same_schema t (tables (snd (boot Sqlite \<lparr>tables = t, faults = [False, False, True]\<rparr>)))"
proof -
  obtain d where run: "boot Sqlite \<lparr>tables = restarts Sqlite [[False, False, False, True]] empty_db, faults = []\<rparr> = (Inr (), d)"
    "table_items (sd_cat (tables d)) ''schema_migrations'' \<noteq> None"
    "''idx_transactions_order_fund_unique'' \<in> set (ct_indexes (sd_cat (tables d)))"
    using second_boot_runs unfolding second_boot_def by (auto split: prod.splits)
  have "booted Sqlite empty_db {} empty_db" by (rule booted_refl) (simp add: boot_inv_def recorded_version_def empty_db_def)
  from restarts_keep [OF this, of "[[False, False, False, True]]"] have b: "booted Sqlite empty_db {1, 2, 3, 4, 5} (tables d)"
    using tripleD [OF triple_boot [of Sqlite empty_db] _ run(1)] by (simp only: db.select_convs)
  then have "effect Sqlite 1 (tables d)" "effect Sqlite 4 (tables d)" unfolding booted_def boot_inv_def by blast+
  with run(2,3) have "at_target Sqlite (tables d)" by (simp add: at_target_def effect_def)
  with boot_at_target_records_only [OF this] show ?thesis by blast
qed

section \<open>The repair of the key of portfolio_snapshot\<close>

lemma key_of_composite: "key_of (composite_key items) = portfolio_key"
proof -
  have "PrimaryKey \<notin> set (remove1 NotNull (replace_default (DefaultInt 1) as) @ [NotNull])" if "PrimaryKey \<notin> set as" for as
    using that by (auto simp: replace_default_def dest: notin_set_remove1 in_set_remove1 set_remove1_subset [THEN subsetD])
  then have "key_of (map (set_attrs ''portfolio_id'' (\<lambda>as. remove1 NotNull (replace_default (DefaultInt 1) as) @ [NotNull]))
     (map (\<lambda>i. case i of Col m ty as \<Rightarrow> Col m ty (filter (\<lambda>a. a \<noteq> PrimaryKey) as) | Key ks \<Rightarrow> i)
       (filter (\<lambda>i. case i of Key _ \<Rightarrow> False | Col _ _ _ \<Rightarrow> True) items))) = []"
    by (auto simp: key_of_def set_attrs_def split: item.splits)
  then show ?thesis unfolding composite_key_def by (simp add: key_of_def)
qed

text \<open>
  It never fails a boot; it fills in missing portfolios and nothing else, and it replaces the key only by the
  composite one and only where the rows satisfy it.
\<close>

lemma snapshot_key_repair:
  "triple (\<lambda>t. t = t0) migratePortfolioSnapshotPK
     (\<lambda>_ t. sd_snaps t \<in> {sd_snaps t0, fill_snaps (sd_snaps t0)} \<and> sd_txs t = sd_txs t0 \<and> (sd_cat t = sd_cat t0 \<or>
        sd_cat t = alter_table ''portfolio_snapshot'' composite_key (sd_cat t0) \<and> distinct (sd_snaps t) \<and> None \<notin> snd ` set (sd_snaps t)))
     (\<lambda>_. False)"
proof -
  let ?P = "\<lambda>t. sd_snaps t \<in> {sd_snaps t0, fill_snaps (sd_snaps t0)} \<and> sd_txs t = sd_txs t0 \<and> sd_cat t = sd_cat t0"
  let ?Q = "\<lambda>t. sd_snaps t \<in> {sd_snaps t0, fill_snaps (sd_snaps t0)} \<and> sd_txs t = sd_txs t0 \<and> (sd_cat t = sd_cat t0 \<or>
        sd_cat t = alter_table ''portfolio_snapshot'' composite_key (sd_cat t0) \<and> distinct (sd_snaps t) \<and> None \<notin> snd ` set (sd_snaps t))"
  have probe: "triple ?P (attempt (\<lambda>t. Some (f t, t))) (\<lambda>_. ?P) ?Q" for f :: "schema_db \<Rightarrow> string list option"
    by (rule triple_boot_attempt) auto
  have "fill_snaps (fill_snaps rows) = fill_snaps rows" for rows by (auto simp: fill_snaps_def)
  then have fill: "triple ?P fill_null_portfolios (\<lambda>_. ?P) ?Q"
    unfolding fill_null_portfolios_def by (intro triple_boot_attempt) (auto split: if_splits)
  have find: "triple ?P find_duplicate_snaps (\<lambda>_. ?P) ?Q"
    unfolding find_duplicate_snaps_def by (rule triple_boot_attempt) (auto split: if_splits)
  have replace: "triple ?P replace_key (\<lambda>_. ?Q) ?Q"
    unfolding replace_key_def by (rule triple_boot_attempt) (auto split: if_splits)
  show ?thesis unfolding migratePortfolioSnapshotPK_def
    by (rule triple_weaken [of ?P], rule triple_bestEffort, rule triple_andThen [OF probe], rule triple_if, rule triple_ret, simp,
        rule triple_andThen [OF fill], rule triple_andThen [OF find], rule triple_if, rule triple_ret, simp, rule replace) auto
qed

section \<open>The two dialects declare the same business tables\<close>

definition declared :: "ddl list \<Rightarrow> (string \<times> item list) list" where
  "declared ss = List.map_filter (\<lambda>s. case s of CreateTable n items \<Rightarrow> Some (n, items) | CreateIndex _ _ _ \<Rightarrow> None) ss"

text \<open>The tables of the authentication, OAuth and agent services, which create theirs on SQLite.\<close>

definition service_tables :: "string list" where
  "service_tables = [''agent_audit_events'', ''agent_confirmations'', ''auth_credentials'', ''auth_sessions'', ''oauth_clients'',
     ''oauth_refresh_tokens'', ''oauth_signing_key'', ''oauth_client_consents'', ''auth_events'']"

text \<open>
  SQLite and PostgreSQL declare the same business tables, with the same columns and the same primary keys
  up to their order, and every index SQLite declares is one of PostgreSQL's; what PostgreSQL declares beyond
  that are the tables of the services.
\<close>

theorem dialects_agree:
  "list_all (\<lambda>(n, items). case map_of (declared pgSchemaTables) n of None \<Rightarrow> False
      | Some items' \<Rightarrow> set (columns_of items) = set (columns_of items') \<and> set (key_of items) = set (key_of items')) (declared sqliteSchemaTables) \<and>
   list_all (\<lambda>(n, _). n \<in> set service_tables \<or> n \<in> set (map fst (declared sqliteSchemaTables))) (declared pgSchemaTables) \<and>
   list_all (\<lambda>i. i \<in> set pgSchemaIndexes) sqliteSchemaIndexes"
  by code_simp

end
