(* ===== verification/RateBuckets.thy ===== *)
theory RateBuckets
  imports HttpGuards Snapshot
begin

text \<open>
  The token buckets of \<open>src/internal/httpapi/ratelimit.go\<close>: one bucket per key, refilled by the time that
  passed, and a sweep every five minutes that forgets full buckets. Tokens are float64, over the record
  \<open>money\<close>; \<open>secs\<close> is \<open>Duration.Seconds\<close> and \<open>nanos\<close> the conversion back.
\<close>

record 'f bucket_arith =
  ba_money :: "'f money"
  ba_secs :: "int \<Rightarrow> 'f"
  ba_nanos :: "'f \<Rightarrow> int"

record 'f bucket =
  bt_tokens :: 'f
  bt_last :: time

text \<open>No sweep yet is the zero time.\<close>

record 'f RateLimiter =
  rl_rate :: 'f
  rl_burst :: 'f
  rl_buckets :: "string \<rightharpoonup> 'f bucket"
  rl_lastSweep :: "time option"

definition sweepInterval :: duration where "sweepInterval = 5 * Minute"

definition positive_or_one :: "'f money \<Rightarrow> 'f \<Rightarrow> 'f" where
  "positive_or_one M x = (if mo_le M x (zero M) then mo_int M 1 else x)"

definition NewRateLimiter :: "'f bucket_arith \<Rightarrow> 'f \<Rightarrow> 'f \<Rightarrow> 'f RateLimiter" where
  "NewRateLimiter A ratePerMinute burst = (let M = ba_money A in
     \<lparr>rl_rate = mo_div M (positive_or_one M ratePerMinute) (mo_int M 60), rl_burst = positive_or_one M burst,
      rl_buckets = (\<lambda>_. None), rl_lastSweep = None\<rparr>)"

definition fmin :: "'f money \<Rightarrow> 'f \<Rightarrow> 'f \<Rightarrow> 'f" where
  "fmin M a b = (if mo_le M a b then a else b)"

text \<open>The tokens of a bucket at \<open>now\<close>.\<close>

definition refilled :: "'f bucket_arith \<Rightarrow> 'f \<Rightarrow> 'f \<Rightarrow> 'f bucket \<Rightarrow> time \<Rightarrow> 'f" where
  "refilled A rate burst b now = (let M = ba_money A; d = ba_secs A (now - bt_last b) in
     if mo_less M (zero M) d then fmin M burst (mo_add M (bt_tokens b) (mo_mul M d rate)) else bt_tokens b)"

definition refill :: "'f bucket_arith \<Rightarrow> 'f \<Rightarrow> 'f \<Rightarrow> 'f bucket \<Rightarrow> time \<Rightarrow> 'f bucket" where
  "refill A rate burst b now =
    (if mo_less (ba_money A) (zero (ba_money A)) (ba_secs A (now - bt_last b))
     then \<lparr>bt_tokens = refilled A rate burst b now, bt_last = now\<rparr> else b)"

definition rl_sweep :: "'f bucket_arith \<Rightarrow> time \<Rightarrow> 'f RateLimiter \<Rightarrow> 'f RateLimiter" where
  "rl_sweep A now rl =
    (if (case rl_lastSweep rl of None \<Rightarrow> False | Some t \<Rightarrow> now - t < sweepInterval) then rl
     else rl\<lparr>rl_lastSweep := Some now, rl_buckets := (\<lambda>k. case rl_buckets rl k of None \<Rightarrow> None
       | Some b \<Rightarrow> if mo_le (ba_money A) (rl_burst rl) (refilled A (rl_rate rl) (rl_burst rl) b now) then None else Some b)\<rparr>)"

text \<open>One token of the bucket of \<open>key\<close>; without one, the time until there is one.\<close>

definition take_token :: "'f bucket_arith \<Rightarrow> time \<Rightarrow> string \<Rightarrow> 'f RateLimiter \<Rightarrow> (duration \<times> bool) \<times> 'f RateLimiter" where
  "take_token A now key rl =
    (let M = ba_money A; one = mo_int M 1;
         b = refill A (rl_rate rl) (rl_burst rl)
           (case rl_buckets rl key of None \<Rightarrow> \<lparr>bt_tokens = rl_burst rl, bt_last = now\<rparr> | Some b \<Rightarrow> b) now in
     if mo_le M one (bt_tokens b)
     then ((0, True), rl\<lparr>rl_buckets := (rl_buckets rl)(key \<mapsto> b\<lparr>bt_tokens := mo_sub M (bt_tokens b) one\<rparr>)\<rparr>)
     else ((ba_nanos A (mo_mul M (mo_div M (mo_sub M one (bt_tokens b)) (rl_rate rl)) (mo_int M Second)), False),
       rl\<lparr>rl_buckets := (rl_buckets rl)(key \<mapsto> b)\<rparr>))"

definition rl_Allow :: "'f bucket_arith \<Rightarrow> time \<Rightarrow> string \<Rightarrow> 'f RateLimiter \<Rightarrow> (duration \<times> bool) \<times> 'f RateLimiter" where
  "rl_Allow A now key rl = take_token A now key (rl_sweep A now rl)"

section \<open>The middleware\<close>

datatype limited = Passed | TooManyRequests int

definition RateLimit :: "'f bucket_arith \<Rightarrow> (http_request \<Rightarrow> string) \<Rightarrow> time \<Rightarrow> http_request \<Rightarrow> 'f RateLimiter \<Rightarrow> limited \<times> 'f RateLimiter" where
  "RateLimit A keyFn now r rl = (case rl_Allow A now (keyFn r) rl of
     ((retryAfter, ok), rl') \<Rightarrow> (if ok then Passed else TooManyRequests (retryAfter div Second + 1), rl'))"

definition expensiveAPIPaths :: "string list" where
  "expensiveAPIPaths = [''/api/transactions/import'', ''/api/reports'', ''/api/export/transactions-xlsx'', ''/api/dca/run'',
     ''/api/portfolio/adjust-position'']"

definition rateLimitExpensive :: "'f bucket_arith \<Rightarrow> string list \<Rightarrow> (http_request \<Rightarrow> string) \<Rightarrow> time \<Rightarrow> http_request
    \<Rightarrow> 'f RateLimiter \<Rightarrow> limited \<times> 'f RateLimiter" where
  "rateLimitExpensive A paths keyFn now r rl =
    (if hr_Path r \<in> set paths then RateLimit A keyFn now r rl else (Passed, rl))"

section \<open>Sweeping is not observable\<close>

text \<open>
  What the arithmetic has to satisfy at the limiter's rate and burst, as float64 does without \<open>NaN\<close>: a
  total order, positive durations have positive seconds, waiting longer does not leave fewer tokens, and
  taking one does not leave more.
\<close>

definition lawful :: "'f bucket_arith \<Rightarrow> 'f \<Rightarrow> 'f \<Rightarrow> bool" where
  "lawful A rate burst \<longleftrightarrow> (let M = ba_money A in
     (\<forall>x y. mo_le M x y \<or> mo_le M y x) \<and> (\<forall>x y. mo_le M x y \<longrightarrow> mo_le M y x \<longrightarrow> x = y) \<and>
     (\<forall>x y z. mo_le M x y \<longrightarrow> mo_le M y z \<longrightarrow> mo_le M x z) \<and>
     (\<forall>d. mo_less M (zero M) (ba_secs A d) \<longleftrightarrow> 0 < d) \<and>
     (\<forall>x d d'. 0 < d \<longrightarrow> d \<le> d' \<longrightarrow> mo_le M (mo_add M x (mo_mul M (ba_secs A d) rate)) (mo_add M x (mo_mul M (ba_secs A d') rate))) \<and>
     (\<forall>x d. 0 < d \<longrightarrow> mo_le M x (mo_add M x (mo_mul M (ba_secs A d) rate))) \<and>
     (\<forall>x. mo_le M x burst \<longrightarrow> mo_le M (mo_sub M x (mo_int M 1)) burst))"

lemma lawfulD:
  assumes "lawful A rate burst"
  shows "mo_le (ba_money A) x x" "mo_le (ba_money A) x y \<or> mo_le (ba_money A) y x"
    "mo_le (ba_money A) x y \<Longrightarrow> mo_le (ba_money A) y x \<Longrightarrow> x = y"
    "mo_le (ba_money A) x y \<Longrightarrow> mo_le (ba_money A) y z \<Longrightarrow> mo_le (ba_money A) x z"
    "mo_less (ba_money A) (zero (ba_money A)) (ba_secs A d) \<longleftrightarrow> 0 < d"
    "0 < d \<Longrightarrow> d \<le> d' \<Longrightarrow> mo_le (ba_money A) (mo_add (ba_money A) x (mo_mul (ba_money A) (ba_secs A d) rate))
       (mo_add (ba_money A) x (mo_mul (ba_money A) (ba_secs A d') rate))"
    "0 < d \<Longrightarrow> mo_le (ba_money A) x (mo_add (ba_money A) x (mo_mul (ba_money A) (ba_secs A d) rate))"
    "mo_le (ba_money A) x burst \<Longrightarrow> mo_le (ba_money A) (mo_sub (ba_money A) x (mo_int (ba_money A) 1)) burst"
  using assms unfolding lawful_def Let_def by blast+

definition full :: "'f bucket_arith \<Rightarrow> 'f \<Rightarrow> 'f \<Rightarrow> 'f bucket \<Rightarrow> time \<Rightarrow> bool" where
  "full A rate burst b now \<longleftrightarrow> mo_le (ba_money A) burst (refilled A rate burst b now)"

lemma full_later:
  assumes l: "lawful A rate burst" and "full A rate burst b s" "bt_last b \<le> s" "s \<le> t" "mo_le (ba_money A) (bt_tokens b) burst"
  shows "full A rate burst b t"
proof -
  let ?M = "ba_money A" let ?x = "\<lambda>d. mo_add ?M (bt_tokens b) (mo_mul ?M (ba_secs A d) rate)"
  note D = lawfulD [OF l]
  have min: "mo_le ?M burst (fmin ?M burst x) \<longleftrightarrow> mo_le ?M burst x" for x
    using D(1,2) by (auto simp: fmin_def)
  show ?thesis
  proof (cases "s = bt_last b")
    case True
    then have "mo_le ?M burst (bt_tokens b)" using assms(2) by (simp add: full_def refilled_def Let_def D(5))
    moreover have "mo_le ?M burst (?x (t - bt_last b))" if "t \<noteq> bt_last b"
      using D(4) [OF calculation D(7)] that True assms(4) by simp
    ultimately show ?thesis using True assms(4) by (auto simp: full_def refilled_def Let_def D(5) min)
  next
    case False
    with assms(2,3) have "mo_le ?M burst (?x (s - bt_last b))" by (simp add: full_def refilled_def Let_def D(5) min)
    moreover have "mo_le ?M (?x (s - bt_last b)) (?x (t - bt_last b))" using False assms(3,4) by (intro D(6)) auto
    ultimately have "mo_le ?M burst (?x (t - bt_last b))" by (rule D(4))
    with False assms(3,4) show ?thesis by (simp add: full_def refilled_def Let_def D(5) min)
  qed
qed

definition bucket_ok :: "'f bucket_arith \<Rightarrow> 'f \<Rightarrow> time \<Rightarrow> 'f bucket \<Rightarrow> bool" where
  "bucket_ok A burst now b \<longleftrightarrow> bt_last b \<le> now \<and> mo_le (ba_money A) (bt_tokens b) burst"

text \<open>The limiter that swept, and the one that never does, at \<open>now\<close>.\<close>

definition swept :: "'f bucket_arith \<Rightarrow> time \<Rightarrow> 'f RateLimiter \<Rightarrow> 'f RateLimiter \<Rightarrow> bool" where
  "swept A now s u \<longleftrightarrow> rl_rate s = rl_rate u \<and> rl_burst s = rl_burst u \<and>
     (\<forall>k b. rl_buckets u k = Some b \<longrightarrow> bucket_ok A (rl_burst u) now b) \<and>
     (\<forall>k. rl_buckets s k = rl_buckets u k \<or>
        rl_buckets s k = None \<and> (\<exists>b. rl_buckets u k = Some b \<and> full A (rl_rate u) (rl_burst u) b now))"

lemma swept_later:
  assumes "lawful A (rl_rate u) (rl_burst u)" "swept A s x u" "s \<le> t"
  shows "swept A t x u"
  using assms(2,3) full_later [OF assms(1)] unfolding swept_def bucket_ok_def by (meson order_trans)

lemma swept_sweep:
  assumes "swept A now s u"
  shows "swept A now (rl_sweep A now s) u"
proof -
  have p: "rl_rate s = rl_rate u" "rl_burst s = rl_burst u" using assms by (simp_all add: swept_def)
  let ?b = "\<lambda>k. case rl_buckets s k of None \<Rightarrow> None | Some b \<Rightarrow> if full A (rl_rate u) (rl_burst u) b now then None else Some b"
  have "?b k = rl_buckets u k \<or> ?b k = None \<and> (\<exists>b. rl_buckets u k = Some b \<and> full A (rl_rate u) (rl_burst u) b now)" for k
    using assms unfolding swept_def by (cases "rl_buckets s k"; cases "rl_buckets u k") (auto dest: spec [of _ k])
  with assms show ?thesis unfolding swept_def rl_sweep_def p full_def [symmetric] by (auto simp: p)
qed

text \<open>A full bucket, refilled, is a new one.\<close>

lemma refill_full:
  assumes l: "lawful A rate burst" and "full A rate burst b now" "bucket_ok A burst now b"
  shows "refill A rate burst b now = \<lparr>bt_tokens = burst, bt_last = now\<rparr>"
proof -
  let ?M = "ba_money A"
  note D = lawfulD [OF l]
  show ?thesis
  proof (cases "bt_last b = now")
    case True
    with assms(2,3) have "bt_tokens b = burst" by (simp add: full_def refilled_def Let_def D(5) bucket_ok_def) (blast intro: D(3))
    with True show ?thesis by (cases b) (simp add: refill_def D(5))
  next
    case False
    with assms(3) have pos: "0 < now - bt_last b" by (simp add: bucket_ok_def)
    with assms(2) have "mo_le ?M burst (fmin ?M burst (mo_add ?M (bt_tokens b) (mo_mul ?M (ba_secs A (now - bt_last b)) rate)))"
      by (simp add: full_def refilled_def Let_def D(5))
    then have "fmin ?M burst (mo_add ?M (bt_tokens b) (mo_mul ?M (ba_secs A (now - bt_last b)) rate)) = burst"
      by (auto simp: fmin_def split: if_splits)
    with pos show ?thesis by (simp add: refill_def refilled_def Let_def D(5))
  qed
qed

lemma refill_ok:
  assumes l: "lawful A rate burst" and "bucket_ok A burst now b"
  shows "bucket_ok A burst now (refill A rate burst b now)"
  using assms(2) lawfulD(1,2) [OF l] unfolding bucket_ok_def refill_def refilled_def fmin_def Let_def
  by (auto split: if_splits)

lemma swept_take:
  assumes l: "lawful A (rl_rate u) (rl_burst u)" and "swept A now s u"
  shows "fst (take_token A now key s) = fst (take_token A now key u)"
    "swept A now (snd (take_token A now key s)) (snd (take_token A now key u))"
proof -
  let ?new = "\<lparr>bt_tokens = rl_burst u, bt_last = now\<rparr>"
  let ?pick = "\<lambda>rl. refill A (rl_rate u) (rl_burst u) (case rl_buckets rl key of None \<Rightarrow> ?new | Some b \<Rightarrow> b) now"
  note D = lawfulD [OF l]
  have params: "rl_rate s = rl_rate u" "rl_burst s = rl_burst u" using assms(2) by (simp_all add: swept_def)
  have new: "bucket_ok A (rl_burst u) now ?new" by (simp add: bucket_ok_def D(1))
  then have again: "refill A (rl_rate u) (rl_burst u) ?new now = ?new" by (simp add: refill_def D(5))
  have pick: "?pick s = ?pick u"
  proof (cases "rl_buckets s key = rl_buckets u key")
    case False
    with assms(2) obtain b where "rl_buckets s key = None" "rl_buckets u key = Some b" "full A (rl_rate u) (rl_burst u) b now"
        "bucket_ok A (rl_burst u) now b"
      unfolding swept_def by blast
    with refill_full [OF l] again show ?thesis by simp
  qed simp
  have ok: "bucket_ok A (rl_burst u) now (?pick u)"
    using assms(2) by (intro refill_ok [OF l]) (auto simp: swept_def new split: option.split)
  then have less: "bucket_ok A (rl_burst u) now (?pick u\<lparr>bt_tokens := mo_sub (ba_money A) (bt_tokens (?pick u)) (mo_int (ba_money A) 1)\<rparr>)"
    by (simp add: bucket_ok_def D(8))
  show "fst (take_token A now key s) = fst (take_token A now key u)"
    unfolding take_token_def Let_def params pick by simp
  show "swept A now (snd (take_token A now key s)) (snd (take_token A now key u))"
    using assms(2) ok less unfolding take_token_def Let_def params pick by (auto simp: swept_def)
qed

fun rl_run :: "'f bucket_arith \<Rightarrow> (time \<times> string) list \<Rightarrow> 'f RateLimiter \<Rightarrow> (duration \<times> bool) list" where
  "rl_run A [] rl = []"
| "rl_run A ((now, key) # es) rl = fst (rl_Allow A now key rl) # rl_run A es (snd (rl_Allow A now key rl))"

text \<open>The same without the sweep.\<close>

fun rl_run_unswept :: "'f bucket_arith \<Rightarrow> (time \<times> string) list \<Rightarrow> 'f RateLimiter \<Rightarrow> (duration \<times> bool) list" where
  "rl_run_unswept A [] rl = []"
| "rl_run_unswept A ((now, key) # es) rl = fst (take_token A now key rl) # rl_run_unswept A es (snd (take_token A now key rl))"

lemma take_token_params [simp]: "rl_rate (snd (take_token A now key rl)) = rl_rate rl" "rl_burst (snd (take_token A now key rl)) = rl_burst rl"
  by (simp_all add: take_token_def Let_def)

lemma runs_agree:
  assumes "lawful A (rl_rate u) (rl_burst u)" "swept A now s u" "sorted (now # map fst es)"
  shows "rl_run A es s = rl_run_unswept A es u"
  using assms
proof (induction es arbitrary: now s u)
  case (Cons e es)
  obtain t key where e: "e = (t, key)" by (cases e)
  from Cons.prems have "swept A t s u" using swept_later [of A u now s t] e by simp
  from swept_sweep [OF this] have sw: "swept A t (rl_sweep A t s) u" .
  note take = swept_take [OF Cons.prems(1) sw, of key]
  have "rl_run A es (snd (rl_Allow A t key s)) = rl_run_unswept A es (snd (take_token A t key u))"
    by (rule Cons.IH [where now = t]) (use Cons.prems take e in \<open>simp_all add: rl_Allow_def\<close>)
  with take show ?case by (simp add: e rl_Allow_def)
qed simp

text \<open>
  C37. Forgetting full buckets is not observable: whatever keys ask at whatever times, in order, the limiter
  answers every request as one that never sweeps, wait included.
\<close>

theorem sweep_unobservable:
  assumes "lawful A (rl_rate (NewRateLimiter A rpm burst)) (rl_burst (NewRateLimiter A rpm burst))" "sorted (map fst es)"
  shows "rl_run A es (NewRateLimiter A rpm burst) = rl_run_unswept A es (NewRateLimiter A rpm burst)"
proof (cases es)
  case (Cons e es')
  have "swept A (fst e) (NewRateLimiter A rpm burst) (NewRateLimiter A rpm burst)" by (simp add: swept_def NewRateLimiter_def Let_def)
  from runs_agree [OF assms(1) this] assms(2) Cons show ?thesis by simp
qed simp

text \<open>Whole tokens and seconds: sixty a minute.\<close>

definition whole_arith :: "int bucket_arith" where
  "whole_arith = \<lparr>ba_money = \<lparr>mo_int = \<lambda>i. i, mo_le = (\<le>), mo_less = (<), mo_eq = (=), mo_add = (+), mo_sub = (-), mo_mul = (*), mo_div = (div),
     mo_neg = uminus, mo_abs = abs, mo_round = \<lambda>x. x, mo_finite = \<lambda>_. True, mo_sum = sum_list\<rparr>,
     ba_secs = \<lambda>d. if 0 < d then max 1 (d div Second) else 0, ba_nanos = \<lambda>x. x\<rparr>"

theorem sweep_unobservable_witness:
  "rl_run whole_arith [(0, ''a''), (Second, ''b''), (400 * Second, ''a'')] (NewRateLimiter whole_arith 60 2) =
   rl_run_unswept whole_arith [(0, ''a''), (Second, ''b''), (400 * Second, ''a'')] (NewRateLimiter whole_arith 60 2)"
proof (rule sweep_unobservable)
  have "max 1 (d div Second) \<le> max 1 (d' div Second)" if "d \<le> d'" for d d' :: int
    using zdiv_mono1 [OF that, of Second] by (simp add: Second_def max_def)
  then show "lawful whole_arith (rl_rate (NewRateLimiter whole_arith 60 2)) (rl_burst (NewRateLimiter whole_arith 60 2))"
    by (auto simp: lawful_def whole_arith_def NewRateLimiter_def positive_or_one_def zero_def Let_def)
qed (simp add: Second_def)

end
