(* ===== verification/Router.thy ===== *)
theory Router
  imports Config RateBuckets
begin

text \<open>
  The route table of \<open>src/internal/httpapi/router.go\<close> and of the \<open>register...Routes\<close> functions beside it: every
  method and pattern with the middlewares in front of its handler, and what a request has to carry to reach
  one. Matching a path with the patterns is chi's, an argument that answers with a route of the table.
\<close>

datatype guard = APILimit | ExpensiveLimit | OAuthLimit | MCPPreAuthLimit | MCPKeyLimit
  | SessionGuard | BrowserWriteGuard | AdminGuard | MCPGuard

record route =
  rt_method :: string
  rt_path :: string
  rt_guards :: "guard list"
  rt_handler :: string

definition on :: "string \<Rightarrow> string \<Rightarrow> string \<Rightarrow> route" where
  "on m p h = \<lparr>rt_method = m, rt_path = p, rt_guards = [], rt_handler = h\<rparr>"

text \<open>\<open>Use\<close> and \<open>With\<close>: guards in front of those that are there; \<open>Route\<close>: a prefix to the patterns.\<close>

definition behind :: "guard list \<Rightarrow> route list \<Rightarrow> route list" where
  "behind gs rs = map (\<lambda>r. r\<lparr>rt_guards := gs @ rt_guards r\<rparr>) rs"

definition below :: "string \<Rightarrow> route list \<Rightarrow> route list" where
  "below p rs = map (\<lambda>r. r\<lparr>rt_path := p @ rt_path r\<rparr>) rs"

section \<open>The registrations\<close>

definition registerAuthRoutes :: "route list" where
  "registerAuthRoutes = below ''/api/auth''
    ([on ''GET'' ''/status'' ''handleAuthStatus'', on ''POST'' ''/setup'' ''handleAuthSetup'', on ''POST'' ''/login'' ''handleAuthLogin''] @
     behind [SessionGuard]
      [on ''POST'' ''/logout'' ''handleAuthLogout'', on ''POST'' ''/password'' ''handleAuthPassword'', on ''GET'' ''/sessions'' ''handleAuthSessions'',
       on ''POST'' ''/sessions/{id}/revoke'' ''handleAuthSessionRevoke'', on ''GET'' ''/events'' ''handleAuthEvents''])"

definition agent_tool_routes :: "route list" where
  "agent_tool_routes =
    [on ''GET'' ''/api/agent/tools'' ''handleAgentTools'', on ''GET'' ''/api/agent/tools/summary'' ''handleAgentToolsSummary'',
     on ''GET'' ''/api/agent/tools/{tool}/authorize'' ''handleAgentToolAuthorize'']"

definition registerAgentConfirmationRoutes :: "route list" where
  "registerAgentConfirmationRoutes =
    [on ''POST'' ''/api/agent/confirmations/prepare'' ''handlePrepareAgentConfirmation'',
     on ''POST'' ''/api/agent/confirmations/{id}/consume'' ''handleConsumeAgentConfirmation'']"

definition registerExportRoutes :: "route list" where
  "registerExportRoutes = [on ''POST'' ''/api/export/transactions-xlsx'' ''handleExportTransactionsXLSX'']"

definition registerPortfolioRoutes :: "route list" where
  "registerPortfolioRoutes = below ''/api/portfolio''
    [on ''GET'' ''/'' ''handlePortfolioSummary'', on ''GET'' ''/portfolios'' ''handlePortfolioDefinitions'',
     on ''GET'' ''/penetration'' ''handlePortfolioPenetration'', on ''GET'' ''/timeline'' ''handlePortfolioTimeline'',
     on ''GET'' ''/xirr'' ''handlePortfolioXIRR'', on ''GET'' ''/allocation'' ''handlePortfolioAllocation'',
     on ''GET'' ''/agent-context'' ''handlePortfolioAgentContext'', on ''GET'' ''/harness'' ''handlePortfolioHarness'',
     on ''GET'' ''/source-brief'' ''handlePortfolioSourceBrief'', on ''GET'' ''/source-events'' ''handleGetSourceEvents'']"

definition registerPortfolioWriteRoutes :: "route list" where
  "registerPortfolioWriteRoutes =
    [on ''POST'' ''/api/portfolio/source-events'' ''handleCreateSourceEvent'', on ''PATCH'' ''/api/portfolio/source-events/{id}'' ''handleMarkSourceEvent'']"

definition registerFundRoutes :: "route list" where
  "registerFundRoutes = on ''GET'' ''/api/securities'' ''handleFundList'' # below ''/api/funds''
    [on ''GET'' ''/'' ''handleFundList'', on ''GET'' ''/{code}'' ''handleFundDetail'', on ''GET'' ''/{code}/nav'' ''handleFundNAV'',
     on ''GET'' ''/{code}/xirr'' ''handleFundXIRR'', on ''GET'' ''/{code}/drawdown'' ''handleFundDrawdown'', on ''GET'' ''/{code}/dca'' ''handleFundDCA'']"

definition registerMarketRoutes :: "route list" where
  "registerMarketRoutes =
    [on ''GET'' ''/api/market/exchange-rate'' ''handleExchangeRate'', on ''GET'' ''/api/market/indices'' ''handleMarketIndices'',
     on ''GET'' ''/api/market/stream'' ''handleMarketStream'', on ''GET'' ''/api/market/index/{code}'' ''handleIndexLive'',
     on ''GET'' ''/api/market/index/{code}/history'' ''handleIndexHistory'', on ''GET'' ''/api/stocks/{code}'' ''handleUSStock'']"

definition registerAnalysisRoutes :: "route list" where
  "registerAnalysisRoutes = [on ''GET'' ''/api/analysis/compare'' ''handleCompareFunds'']"

definition registerSPAReadExtensions :: "route list" where
  "registerSPAReadExtensions =
    [on ''GET'' ''/api/transactions'' ''handleListTransactions'', on ''GET'' ''/api/dca/plans'' ''handleListDCAPlans'',
     on ''GET'' ''/api/alerts'' ''handleCheckAlerts'', on ''GET'' ''/api/freshness'' ''handleFreshness'']"

definition registerSPAWriteExtensions :: "route list" where
  "registerSPAWriteExtensions =
    [on ''POST'' ''/api/dca/plans'' ''handleUpsertDCAPlan'', on ''POST'' ''/api/dca/plans/{id}/disable'' ''handleDisableDCAPlan'',
     on ''POST'' ''/api/dca/run'' ''handleRunDCA'', on ''POST'' ''/api/securities'' ''handleUpsertSecurity'',
     on ''DELETE'' ''/api/securities/{code}'' ''handleDeleteSecurity'', on ''POST'' ''/api/portfolio/adjust-position'' ''handleAdjustPosition'',
     on ''POST'' ''/api/reports'' ''handleGenerateReport'']"

definition registerSystemReadRoutes :: "route list" where
  "registerSystemReadRoutes =
    [on ''GET'' ''/api/system/status'' ''handleSystemStatus'', on ''GET'' ''/api/system/jobs'' ''handleSystemJobs'',
     on ''GET'' ''/api/system/integrity'' ''handleDBIntegrity'', on ''GET'' ''/api/system/audit'' ''handleSystemAudit'',
     on ''GET'' ''/api/system/agent'' ''handleSystemAgent'']"

definition registerSystemWriteRoutes :: "bool \<Rightarrow> bool \<Rightarrow> route list" where
  "registerSystemWriteRoutes nav holdings =
    (if nav then [on ''POST'' ''/api/system/crawl-nav'' ''navCrawlHandler''] else []) @
    (if holdings then [on ''POST'' ''/api/system/crawl-holdings'' ''holdingsCrawlHandler''] else []) @
    [on ''POST'' ''/api/system/verify'' ''handleDBIntegrity'']"

definition registerTransactionMutationRoutes :: "string \<Rightarrow> string \<Rightarrow> route list" where
  "registerTransactionMutationRoutes importPath seqPath =
    [on ''POST'' importPath ''ImportTransactions'', on ''PUT'' seqPath ''UpdateTransaction'', on ''DELETE'' seqPath ''DeleteTransaction'']"

definition registerSPATransactionRoutes :: "route list" where
  "registerSPATransactionRoutes = registerTransactionMutationRoutes ''/api/transactions/import'' ''/api/transactions/{seq}''"

definition registerAdminTransactionRoutes :: "route list" where
  "registerAdminTransactionRoutes = registerTransactionMutationRoutes ''/import-transactions'' ''/transactions/{seq}''"

definition registerOpsDashboardRoutes :: "route list" where
  "registerOpsDashboardRoutes = [on ''GET'' ''/api/ops/dashboard'' ''handleAdminDashboard'']"

definition registerAdminDashboardRoutes :: "route list" where
  "registerAdminDashboardRoutes = [on ''GET'' ''/dashboard'' ''handleAdminDashboard'']"

definition registerAdminFreshnessRoutes :: "route list" where
  "registerAdminFreshnessRoutes = [on ''GET'' ''/freshness'' ''GetFreshness'']"

definition registerAdminHoldingsCoverageRoutes :: "route list" where
  "registerAdminHoldingsCoverageRoutes = [on ''GET'' ''/holdings-coverage'' ''GetHoldingsCoverage'']"

definition registerAdminStatusRoutes :: "route list" where
  "registerAdminStatusRoutes = [on ''GET'' ''/status'' ''GetSystemStatus'', on ''GET'' ''/status/{code}'' ''GetStatusByCode'']"

definition registerAdminVerifyRoutes :: "route list" where
  "registerAdminVerifyRoutes = [on ''GET'' ''/verify'' ''VerifyData'']"

definition registerAdminIntegrityRoutes :: "route list" where
  "registerAdminIntegrityRoutes = [on ''GET'' ''/db-integrity'' ''handleDBIntegrity'']"

definition registerBackupStatusRoutes :: "route list" where
  "registerBackupStatusRoutes = [on ''GET'' ''/backup-status'' ''readBackupStatus'']"

definition registerMCPRoutes :: "route list" where
  "registerMCPRoutes = behind [MCPPreAuthLimit, MCPGuard, MCPKeyLimit] [on ''POST'' ''/mcp'' ''mcp'']"

definition registerOAuthRoutes :: "string \<Rightarrow> route list" where
  "registerOAuthRoutes resourcePath =
    map (\<lambda>p. on ''GET'' p ''handleProtectedResourceMetadata'') (WellKnownPathProtectedResource resourcePath) @
    map (\<lambda>p. on ''GET'' p ''handleAuthorizationServerMetadata'') (WellKnownPathAuthorizationServer resourcePath) @
    behind [OAuthLimit]
     [on ''GET'' ''/oauth/authorize'' ''handleOAuthAuthorize'', on ''POST'' ''/oauth/consent'' ''handleOAuthConsent'',
      on ''GET'' ''/oauth/assets/consent.css'' ''handleOAuthConsentCSS'', on ''POST'' ''/oauth/token'' ''handleOAuthToken'',
      on ''POST'' ''/oauth/register'' ''handleOAuthRegister'', on ''POST'' ''/oauth/revoke'' ''handleOAuthRevoke'',
      on ''GET'' ''/oauth/jwks'' ''handleOAuthJWKS'', on ''GET'' ''/oauth/about'' ''handleOAuthAbout'']"

section \<open>The router\<close>

text \<open>Which services are wired; \<open>rd_oauth\<close> carries the path of the protected resource.\<close>

record routerDeps =
  rd_portfolio :: bool
  rd_db :: bool
  rd_auth :: "Service option"
  rd_agentOps :: bool
  rd_oauth :: "string option"
  rd_navCrawler :: bool
  rd_holdings :: bool
  rd_snapshots :: bool

definition portfolio_routes :: "routerDeps \<Rightarrow> route list" where
  "portfolio_routes deps =
    (if \<not> rd_portfolio deps then [] else
       behind [SessionGuard] (registerExportRoutes @ registerPortfolioRoutes @ registerFundRoutes @ registerMarketRoutes @ registerAnalysisRoutes) @
       (if \<not> rd_db deps then [] else
          behind [SessionGuard] (registerSPAReadExtensions @ registerSystemReadRoutes) @
          behind [BrowserWriteGuard] (registerSPATransactionRoutes @ registerOpsDashboardRoutes @ registerPortfolioWriteRoutes @
            registerSPAWriteExtensions @ registerSystemWriteRoutes (rd_navCrawler deps) (rd_holdings deps))))"

definition admin_routes :: "routerDeps \<Rightarrow> route list" where
  "admin_routes deps = below ''/api/admin'' (behind [AdminGuard]
    (registerBackupStatusRoutes @
     (if rd_db deps then registerAdminDashboardRoutes @ registerAdminFreshnessRoutes @ registerAdminHoldingsCoverageRoutes @
        registerAdminStatusRoutes @ registerAdminTransactionRoutes @ registerAdminVerifyRoutes @ registerAdminIntegrityRoutes else []) @
     (if rd_navCrawler deps then [on ''POST'' ''/crawl-nav'' ''navCrawlHandler''] else []) @
     (if rd_holdings deps then [on ''POST'' ''/crawl-holdings'' ''holdingsCrawlHandler''] else []) @
     (if rd_snapshots deps then [on ''POST'' ''/recalculate-snapshot'' ''recalculateSnapshotHandler''] else [])))"

definition api_routes :: "routerDeps \<Rightarrow> route list" where
  "api_routes deps = behind [APILimit, ExpensiveLimit]
    ([on ''GET'' ''/api/health'' ''healthHandler''] @
     (if rd_auth deps \<noteq> None then registerAuthRoutes else []) @
     behind [AdminGuard] agent_tool_routes @
     (if rd_agentOps deps then behind [AdminGuard] registerAgentConfirmationRoutes else []) @
     portfolio_routes deps @ admin_routes deps)"

definition NewRouter :: "routerDeps \<Rightarrow> route list" where
  "NewRouter deps = api_routes deps @
    (case rd_oauth deps of None \<Rightarrow> [] | Some path \<Rightarrow> registerOAuthRoutes path) @
    (if rd_portfolio deps \<and> rd_db deps then registerMCPRoutes else [])"

section \<open>Serving a request\<close>

record router_env =
  re_H :: "string \<Rightarrow> string"
  re_parse :: "string \<Rightarrow> URL option"
  re_jwt :: jwt_lib
  re_cfg :: Config
  re_key :: "signingKey option"
  re_now :: time
  re_allowed :: "guard \<Rightarrow> bool"

definition run_guard :: "router_env \<Rightarrow> Service option \<Rightarrow> http_request \<Rightarrow> guard \<Rightarrow> auth_tables db \<Rightarrow> unit guarded \<times> auth_tables db" where
  "run_guard E svc r g d = (let cfg = re_cfg E in case g of
     SessionGuard \<Rightarrow> SessionAuth (re_H E) (re_parse E) svc (cf_AllowedOrigins cfg) (re_now E) r d
   | BrowserWriteGuard \<Rightarrow> BrowserWriteAuth (re_H E) (re_parse E) svc (cf_EdgeKey cfg) (cf_EdgeAuthEnabled cfg) (cf_AllowedOrigins cfg) (re_now E) r d
   | AdminGuard \<Rightarrow> (AdminAuth (cf_AdminKey cfg) r, d)
   | MCPGuard \<Rightarrow> (case mounted_mcp_auth (re_jwt E) cfg (re_key E) (re_now E) r of Admit _ \<Rightarrow> Admit () | Reject s c \<Rightarrow> Reject s c, d)
   | _ \<Rightarrow> (if re_allowed E g then Admit () else Reject 429 ''rate_limited'', d))"

fun run_guards :: "router_env \<Rightarrow> Service option \<Rightarrow> http_request \<Rightarrow> guard list \<Rightarrow> auth_tables db \<Rightarrow> unit guarded \<times> auth_tables db" where
  "run_guards E svc r [] d = (Admit (), d)"
| "run_guards E svc r (g # gs) d = (case run_guard E svc r g d of
     (Reject s c, d') \<Rightarrow> (Reject s c, d') | (Admit _, d') \<Rightarrow> run_guards E svc r gs d')"

datatype served = NotRouted | Rejected nat string | Reached route

definition serve :: "(route list \<Rightarrow> http_request \<Rightarrow> route option) \<Rightarrow> router_env \<Rightarrow> routerDeps \<Rightarrow> http_request \<Rightarrow> auth_tables db
    \<Rightarrow> served \<times> auth_tables db" where
  "serve chi E deps r d = (case chi (NewRouter deps) r of
     None \<Rightarrow> (NotRouted, d)
   | Some rt \<Rightarrow> (case run_guards E (rd_auth deps) r (rt_guards rt) d of
       (Reject s c, d') \<Rightarrow> (Rejected s c, d') | (Admit _, d') \<Rightarrow> (Reached rt, d')))"

section \<open>The paths outside the table\<close>

definition isAPIRoute :: "string \<Rightarrow> bool" where
  "isAPIRoute p \<longleftrightarrow> HasPrefix p ''/api/'' \<or> p = ''/api'' \<or> p = ''/mcp'' \<or> HasPrefix p ''/mcp/'' \<or> HasPrefix p ''/oauth'' \<or> HasPrefix p ''/.well-known''"

definition isProductionEnvironment :: "string \<Rightarrow> bool" where
  "isProductionEnvironment e \<longleftrightarrow> ToLower (TrimSpace e) \<in> {''production'', ''prod''}"

section \<open>What a request carries when it reaches a handler\<close>

lemma set_behind [simp]: "set (behind gs rs) = (\<lambda>r. r\<lparr>rt_guards := gs @ rt_guards r\<rparr>) ` set rs"
  by (simp add: behind_def)

lemma set_below [simp]: "set (below p rs) = (\<lambda>r. r\<lparr>rt_path := p @ rt_path r\<rparr>) ` set rs"
  by (simp add: below_def)

lemma on_sel [simp]: "rt_method (on m p h) = m" "rt_path (on m p h) = p" "rt_guards (on m p h) = []" "rt_handler (on m p h) = h"
  by (simp_all add: on_def)

definition public_handlers :: "string list" where
  "public_handlers = [''healthHandler'', ''handleAuthStatus'', ''handleAuthSetup'', ''handleAuthLogin'']"

definition unguarded :: "route list \<Rightarrow> bool" where
  "unguarded rs \<longleftrightarrow> (\<forall>r \<in> set rs. rt_guards r = [])"

lemma unguarded_append [simp]: "unguarded (rs @ rs') \<longleftrightarrow> unguarded rs \<and> unguarded rs'"
  by (auto simp: unguarded_def)

lemma unguarded_Cons [simp]: "unguarded (on m p h # rs) \<longleftrightarrow> unguarded rs" "unguarded []"
  by (auto simp: unguarded_def)

lemma unguarded_below [simp]: "unguarded (below p rs) \<longleftrightarrow> unguarded rs"
  by (simp add: unguarded_def)

lemma unguarded_registrations:
  "unguarded agent_tool_routes" "unguarded registerAgentConfirmationRoutes" "unguarded registerExportRoutes"
  "unguarded registerPortfolioRoutes" "unguarded registerPortfolioWriteRoutes" "unguarded registerFundRoutes"
  "unguarded registerMarketRoutes" "unguarded registerAnalysisRoutes" "unguarded registerSPAReadExtensions"
  "unguarded registerSPAWriteExtensions" "unguarded registerSystemReadRoutes" "unguarded (registerSystemWriteRoutes nav hold)"
  "unguarded registerSPATransactionRoutes" "unguarded registerAdminTransactionRoutes" "unguarded registerOpsDashboardRoutes"
  "unguarded registerAdminDashboardRoutes" "unguarded registerAdminFreshnessRoutes" "unguarded registerAdminHoldingsCoverageRoutes"
  "unguarded registerAdminStatusRoutes" "unguarded registerAdminVerifyRoutes" "unguarded registerAdminIntegrityRoutes"
  "unguarded registerBackupStatusRoutes"
  by (simp_all add: agent_tool_routes_def registerAgentConfirmationRoutes_def registerExportRoutes_def registerPortfolioRoutes_def
      registerPortfolioWriteRoutes_def registerFundRoutes_def registerMarketRoutes_def registerAnalysisRoutes_def
      registerSPAReadExtensions_def registerSPAWriteExtensions_def registerSystemReadRoutes_def registerSystemWriteRoutes_def
      registerSPATransactionRoutes_def registerAdminTransactionRoutes_def registerTransactionMutationRoutes_def
      registerOpsDashboardRoutes_def registerAdminDashboardRoutes_def registerAdminFreshnessRoutes_def
      registerAdminHoldingsCoverageRoutes_def registerAdminStatusRoutes_def registerAdminVerifyRoutes_def
      registerAdminIntegrityRoutes_def registerBackupStatusRoutes_def)

definition guarded_by :: "guard list set \<Rightarrow> route list \<Rightarrow> bool" where
  "guarded_by G rs \<longleftrightarrow> (\<forall>r \<in> set rs. rt_guards r \<in> G)"

lemma guarded_by_append [simp]: "guarded_by G (rs @ rs') \<longleftrightarrow> guarded_by G rs \<and> guarded_by G rs'"
  by (auto simp: guarded_by_def)

lemma guarded_by_Nil [simp]: "guarded_by G []"
  by (simp add: guarded_by_def)

lemma guarded_by_below [simp]: "guarded_by G (below p rs) \<longleftrightarrow> guarded_by G rs"
  by (simp add: guarded_by_def)

lemma guarded_by_behind: "unguarded rs \<Longrightarrow> gs \<in> G \<Longrightarrow> guarded_by G (behind gs rs)"
  by (auto simp: unguarded_def guarded_by_def)

lemma portfolio_routes_guarded: "guarded_by {[SessionGuard], [BrowserWriteGuard]} (portfolio_routes deps)"
  by (simp add: portfolio_routes_def guarded_by_behind unguarded_registrations)

lemma admin_routes_guarded: "guarded_by {[AdminGuard]} (admin_routes deps)"
  by (simp add: admin_routes_def guarded_by_behind unguarded_registrations)

lemma auth_routes_guarded:
  "rt \<in> set registerAuthRoutes \<Longrightarrow> rt_guards rt = [SessionGuard] \<or> rt_guards rt = [] \<and> rt_handler rt \<in> set public_handlers"
  by (auto simp: registerAuthRoutes_def public_handlers_def)

lemma behindE: "rt \<in> set (behind gs rs) \<Longrightarrow> (\<And>r. r \<in> set rs \<Longrightarrow> rt = r\<lparr>rt_guards := gs @ rt_guards r\<rparr> \<Longrightarrow> thesis) \<Longrightarrow> thesis"
  by auto

lemma api_route_guards:
  assumes "rt \<in> set (api_routes deps)"
  shows "\<exists>gs. rt_guards rt = [APILimit, ExpensiveLimit] @ gs \<and>
    (gs = [] \<and> rt_handler rt \<in> set public_handlers \<or> gs \<in> {[SessionGuard], [BrowserWriteGuard], [AdminGuard]})"
proof -
  from assms obtain r where r: "rt = r\<lparr>rt_guards := [APILimit, ExpensiveLimit] @ rt_guards r\<rparr>"
    and mem: "r \<in> set ([on ''GET'' ''/api/health'' ''healthHandler''] @ (if rd_auth deps \<noteq> None then registerAuthRoutes else []) @
      behind [AdminGuard] agent_tool_routes @ (if rd_agentOps deps then behind [AdminGuard] registerAgentConfirmationRoutes else []) @
      portfolio_routes deps @ admin_routes deps)"
    unfolding api_routes_def by (elim behindE) blast
  have agents: "guarded_by {[AdminGuard]} (behind [AdminGuard] agent_tool_routes)"
    "guarded_by {[AdminGuard]} (behind [AdminGuard] registerAgentConfirmationRoutes)"
    by (simp_all add: guarded_by_behind unguarded_registrations)
  consider "r = on ''GET'' ''/api/health'' ''healthHandler''" | "r \<in> set registerAuthRoutes" | "r \<in> set (behind [AdminGuard] agent_tool_routes)"
    | "r \<in> set (behind [AdminGuard] registerAgentConfirmationRoutes)" | "r \<in> set (portfolio_routes deps)" | "r \<in> set (admin_routes deps)"
    using mem unfolding set_append Un_iff by (auto simp del: set_behind split: if_splits)
  then have "rt_guards r = [] \<and> rt_handler r \<in> set public_handlers \<or> rt_guards r \<in> {[SessionGuard], [BrowserWriteGuard], [AdminGuard]}"
  proof cases
    case 1 then show ?thesis by (simp add: public_handlers_def)
  next
    case 2 then show ?thesis using auth_routes_guarded by blast
  next
    case 3 then show ?thesis using agents unfolding guarded_by_def by blast
  next
    case 4 then show ?thesis using agents unfolding guarded_by_def by blast
  next
    case 5 then show ?thesis using portfolio_routes_guarded unfolding guarded_by_def by blast
  next
    case 6 then show ?thesis using admin_routes_guarded unfolding guarded_by_def by blast
  qed
  then show ?thesis unfolding r by auto
qed

lemma outside_api:
  assumes "rt \<in> set (NewRouter deps)" "HasPrefix (rt_path rt) ''/api/''"
  shows "rt \<in> set (api_routes deps)"
  using assms
  by (auto simp: NewRouter_def registerMCPRoutes_def registerOAuthRoutes_def WellKnownPathProtectedResource_def
      WellKnownPathAuthorizationServer_def Let_def HasPrefix_def split: option.splits if_splits)

lemma run_guards_append: "run_guards E svc r (gs @ gs') d = (case run_guards E svc r gs d of
    (Reject s c, d') \<Rightarrow> (Reject s c, d') | (Admit _, d') \<Rightarrow> run_guards E svc r gs' d')"
  by (induction gs arbitrary: d) (auto split: prod.splits guarded.splits)

lemma limiter_guard: "g \<in> {APILimit, ExpensiveLimit, OAuthLimit, MCPPreAuthLimit, MCPKeyLimit} \<Longrightarrow>
    run_guard E svc r g d = (if re_allowed E g then Admit () else Reject 429 ''rate_limited'', d)"
  by (auto simp: run_guard_def)

text \<open>Only the operator's routes lie below \<open>/api/admin\<close>.\<close>

definition beside_admin :: "route list \<Rightarrow> bool" where
  "beside_admin rs \<longleftrightarrow> (\<forall>r \<in> set rs. \<not> HasPrefix (rt_path r) ''/api/admin'')"

lemma beside_admin_append [simp]: "beside_admin (rs @ rs') \<longleftrightarrow> beside_admin rs \<and> beside_admin rs'"
  by (auto simp: beside_admin_def)

lemma beside_admin_Cons [simp]:
  "beside_admin (on m p h # rs) \<longleftrightarrow> \<not> HasPrefix p ''/api/admin'' \<and> beside_admin rs" "beside_admin []"
  by (auto simp: beside_admin_def)

lemma beside_admin_behind [simp]: "beside_admin (behind gs rs) \<longleftrightarrow> beside_admin rs"
  by (simp add: beside_admin_def)

lemma beside_admin_below [simp]:
  "beside_admin (below p (on m q h # rs)) \<longleftrightarrow> \<not> HasPrefix (p @ q) ''/api/admin'' \<and> beside_admin (below p rs)"
  "beside_admin (below p (rs @ rs')) \<longleftrightarrow> beside_admin (below p rs) \<and> beside_admin (below p rs')"
  "beside_admin (below p (behind gs rs)) \<longleftrightarrow> beside_admin (below p rs)" "beside_admin (below p [])"
  by (auto simp: beside_admin_def)

lemma beside_admin_registrations:
  "beside_admin [on ''GET'' ''/api/health'' ''healthHandler'']" "beside_admin registerAuthRoutes"
  "beside_admin agent_tool_routes" "beside_admin registerAgentConfirmationRoutes" "beside_admin registerExportRoutes"
  "beside_admin registerPortfolioRoutes" "beside_admin registerPortfolioWriteRoutes" "beside_admin registerFundRoutes"
  "beside_admin registerMarketRoutes" "beside_admin registerAnalysisRoutes" "beside_admin registerSPAReadExtensions"
  "beside_admin registerSPAWriteExtensions" "beside_admin registerSystemReadRoutes" "beside_admin (registerSystemWriteRoutes nav hold)"
  "beside_admin registerSPATransactionRoutes" "beside_admin registerOpsDashboardRoutes"
  by (simp_all add: registerAuthRoutes_def agent_tool_routes_def registerAgentConfirmationRoutes_def registerExportRoutes_def
      registerPortfolioRoutes_def registerPortfolioWriteRoutes_def registerFundRoutes_def registerMarketRoutes_def
      registerAnalysisRoutes_def registerSPAReadExtensions_def registerSPAWriteExtensions_def registerSystemReadRoutes_def
      registerSystemWriteRoutes_def registerSPATransactionRoutes_def registerTransactionMutationRoutes_def
      registerOpsDashboardRoutes_def HasPrefix_def)

lemma portfolio_routes_beside_admin: "beside_admin (portfolio_routes deps)"
  by (simp add: portfolio_routes_def beside_admin_registrations)

lemma admin_route_guard:
  assumes "rt \<in> set (api_routes deps)" "HasPrefix (rt_path rt) ''/api/admin''"
  shows "AdminGuard \<in> set (rt_guards rt)"
proof -
  let ?rest = "[on ''GET'' ''/api/health'' ''healthHandler''] @ (if rd_auth deps \<noteq> None then registerAuthRoutes else []) @
      behind [AdminGuard] agent_tool_routes @ (if rd_agentOps deps then behind [AdminGuard] registerAgentConfirmationRoutes else []) @
      portfolio_routes deps"
  have "beside_admin ?rest"
    by (simp add: beside_admin_registrations portfolio_routes_beside_admin HasPrefix_def)
  moreover obtain r where r: "rt = r\<lparr>rt_guards := [APILimit, ExpensiveLimit] @ rt_guards r\<rparr>"
    "r \<in> set (?rest @ admin_routes deps)"
    using assms(1) unfolding api_routes_def append_assoc by (elim behindE) blast
  ultimately have "r \<in> set (admin_routes deps)" using assms(2) unfolding beside_admin_def by auto
  with admin_routes_guarded [of deps] show ?thesis unfolding guarded_by_def r by simp
qed

lemma behind_limits:
  assumes "run_guards E svc r ([APILimit, ExpensiveLimit] @ gs) d = (Admit (), d')"
  shows "re_allowed E APILimit" "re_allowed E ExpensiveLimit" "run_guards E svc r gs d = (Admit (), d')"
  using assms by (simp_all add: run_guard_def split: if_splits)

lemma single_guard: "run_guards E svc r [g] d = (Admit (), d') \<longleftrightarrow> run_guard E svc r g d = (Admit (), d')"
  by (simp split: prod.split guarded.split)

lemma AdminAuth_Admit: "AdminAuth k r = Admit () \<longleftrightarrow> TrimSpace k \<noteq> [] \<and> bearerToken (header r ''Authorization'') = TrimSpace k"
  by (auto simp: AdminAuth_def Let_def)

definition carries_edge_key :: "Config \<Rightarrow> http_request \<Rightarrow> bool" where
  "carries_edge_key cfg r \<longleftrightarrow> cf_EdgeAuthEnabled cfg \<and> TrimSpace (cf_EdgeKey cfg) \<noteq> [] \<and>
    TrimSpace (header r edgeKeyHeader) = TrimSpace (cf_EdgeKey cfg)"

lemma session_guard_Admit: "run_guard E svc r SessionGuard d = (Admit (), d') \<Longrightarrow>
    \<exists>sess. fst (sessionFromRequest (re_H E) r svc (re_now E) d) = Some sess"
  by (auto simp: run_guard_def SessionAuth_def split: prod.splits option.splits)

lemma browser_guard_Admit: "run_guard E svc r BrowserWriteGuard d = (Admit (), d') \<Longrightarrow>
    (\<exists>sess. fst (sessionFromRequest (re_H E) r svc (re_now E) d) = Some sess) \<or> carries_edge_key (re_cfg E) r"
  by (auto simp: run_guard_def BrowserWriteAuth_def carries_edge_key_def Let_def split: prod.splits option.splits if_splits)

lemma served_through_guards:
  assumes "\<And>rs rt. chi rs r = Some rt \<Longrightarrow> rt \<in> set rs" "serve chi E deps r d = (Reached rt, d')"
  shows "rt \<in> set (NewRouter deps)" "run_guards E (rd_auth deps) r (rt_guards rt) d = (Admit (), d')"
  using assms by (auto simp: serve_def split: option.splits prod.splits guarded.splits)

text \<open>
  C18. Whatever services are wired and however a path is matched with the table, a handler below /api runs only
  for a request the limiter lets by that has a live session, the operator's key as bearer token or, on the
  routes of the browser writes, the edge key where that is enabled; without any of them only health and the
  three public authentication handlers run. Below /api/admin nothing but the operator's key will do.
\<close>

theorem api_requires_credentials:
  assumes chi: "\<And>rs rt. chi rs r = Some rt \<Longrightarrow> rt \<in> set rs"
    and served: "serve chi E deps r d = (Reached rt, d')" and api: "HasPrefix (rt_path rt) ''/api/''"
  shows "re_allowed E APILimit \<and>
    (rt_handler rt \<in> set public_handlers \<or>
     (\<exists>sess. fst (sessionFromRequest (re_H E) r (rd_auth deps) (re_now E) d) = Some sess) \<or>
     AdminAuth (cf_AdminKey (re_cfg E)) r = Admit () \<or>
     BrowserWriteGuard \<in> set (rt_guards rt) \<and> carries_edge_key (re_cfg E) r) \<and>
    (HasPrefix (rt_path rt) ''/api/admin'' \<longrightarrow>
      TrimSpace (cf_AdminKey (re_cfg E)) \<noteq> [] \<and> bearerToken (header r ''Authorization'') = TrimSpace (cf_AdminKey (re_cfg E)))"
proof -
  have mem: "rt \<in> set (api_routes deps)"
    using outside_api [OF _ api] served_through_guards(1) [OF chi served] by blast
  then obtain gs where gs: "rt_guards rt = [APILimit, ExpensiveLimit] @ gs"
    and kind: "gs = [] \<and> rt_handler rt \<in> set public_handlers \<or> gs \<in> {[SessionGuard], [BrowserWriteGuard], [AdminGuard]}"
    using api_route_guards by blast
  note runs = behind_limits [OF served_through_guards(2) [OF chi served, unfolded gs]]
  have admin: "AdminGuard \<in> set gs \<Longrightarrow> AdminAuth (cf_AdminKey (re_cfg E)) r = Admit ()"
    using runs(3) kind by (auto simp: single_guard run_guard_def simp del: run_guards.simps)
  have "rt_handler rt \<in> set public_handlers \<or>
     (\<exists>sess. fst (sessionFromRequest (re_H E) r (rd_auth deps) (re_now E) d) = Some sess) \<or>
     AdminAuth (cf_AdminKey (re_cfg E)) r = Admit () \<or>
     BrowserWriteGuard \<in> set (rt_guards rt) \<and> carries_edge_key (re_cfg E) r"
    using kind runs(3) admin unfolding gs
    by (auto simp: single_guard simp del: run_guards.simps dest!: session_guard_Admit browser_guard_Admit)
  moreover have "HasPrefix (rt_path rt) ''/api/admin'' \<Longrightarrow> AdminAuth (cf_AdminKey (re_cfg E)) r = Admit ()"
    using admin_route_guard [OF mem] admin unfolding gs by auto
  ultimately show ?thesis using runs(1) by (auto simp: AdminAuth_Admit)
qed

definition exact_match :: "route list \<Rightarrow> http_request \<Rightarrow> route option" where
  "exact_match rs r = List.find (\<lambda>rt. rt_method rt = hr_Method r \<and> rt_path rt = hr_Path r) rs"

definition operator_request :: http_request where
  "operator_request = \<lparr>hr_Method = ''GET'', hr_Path = ''/api/admin/status'', hr_Headers = [(''Authorization'', ''Bearer 0123456789abcdef'')],
     hr_Cookies = [], hr_Host = [], hr_TLS = False, hr_RemoteAddr = []\<rparr>"

definition example_deps :: routerDeps where
  "example_deps = \<lparr>rd_portfolio = True, rd_db = True, rd_auth = None, rd_agentOps = False, rd_oauth = None, rd_navCrawler = False,
     rd_holdings = False, rd_snapshots = False\<rparr>"

definition status_route :: route where
  "status_route = \<lparr>rt_method = ''GET'', rt_path = ''/api/admin/status'', rt_guards = [APILimit, ExpensiveLimit, AdminGuard],
     rt_handler = ''GetSystemStatus''\<rparr>"

lemma example_routed: "exact_match (NewRouter example_deps) operator_request = Some status_route"
  by code_simp

theorem api_requires_credentials_witness:
  "\<forall>E d. let E = E\<lparr>re_cfg := (re_cfg E)\<lparr>cf_AdminKey := ''0123456789abcdef''\<rparr>, re_allowed := \<lambda>_. True\<rparr> in
     serve exact_match E example_deps operator_request d = (Reached status_route, d) \<and>
     bearerToken (header operator_request ''Authorization'') = TrimSpace (cf_AdminKey (re_cfg E))"
proof (intro allI)
  fix E :: router_env and d :: "auth_tables db"
  define E' where "E' = E\<lparr>re_cfg := (re_cfg E)\<lparr>cf_AdminKey := ''0123456789abcdef''\<rparr>, re_allowed := \<lambda>_. True\<rparr>"
  have "AdminAuth ''0123456789abcdef'' operator_request = Admit ()" by code_simp
  then have run: "serve exact_match E' example_deps operator_request d = (Reached status_route, d)"
    by (simp add: serve_def example_routed status_route_def run_guard_def E'_def)
  have "rt \<in> set rs" if "exact_match rs operator_request = Some rt" for rs rt
    using that by (auto simp: exact_match_def find_Some_iff)
  moreover have "HasPrefix (rt_path status_route) ''/api/''" "HasPrefix (rt_path status_route) ''/api/admin''"
    by (simp_all add: status_route_def HasPrefix_def)
  ultimately have "bearerToken (header operator_request ''Authorization'') = TrimSpace (cf_AdminKey (re_cfg E'))"
    using api_requires_credentials [OF _ run] by blast
  with run show "let E = E\<lparr>re_cfg := (re_cfg E)\<lparr>cf_AdminKey := ''0123456789abcdef''\<rparr>, re_allowed := \<lambda>_. True\<rparr> in
     serve exact_match E example_deps operator_request d = (Reached status_route, d) \<and>
     bearerToken (header operator_request ''Authorization'') = TrimSpace (cf_AdminKey (re_cfg E))"
    by (simp add: E'_def)
qed

end
