(* ===== verification/Securities.thy ===== *)
theory Securities
  imports Snapshot Schema
begin

text \<open>
  The master data of securities: \<open>src/internal/service/portfolio/securities_write.go\<close>. A security is
  created or partly updated by one statement; it is deleted with everything that belongs to its code in one
  database transaction. Of the tables of the cascade only the column with the code matters here, so a row of them
  is its code and a rest.
\<close>

record security =
  sc_code :: string
  sc_name :: "string option"
  sc_fund_type :: "string option"
  sc_security_type :: "string option"
  sc_market :: "string option"
  sc_currency :: "string option"
  sc_exchange :: "string option"
  sc_source :: "string option"

record ('f, 'r) master =
  ms_details :: "security list"
  ms_snaps :: "'f snap list"
  ms_other :: "string \<Rightarrow> (string option \<times> 'r) list option"

record 'f SecurityListItem =
  li_Code :: string
  li_Name :: string
  li_Type :: string
  li_SecurityType :: string
  li_Market :: string
  li_HeldShares :: 'f
  li_CurrentValue :: "'f option"
  li_UnrealizedPNL :: "'f option"
  li_PNLPct :: "'f option"
  li_LatestNAV :: "'f option"

record UpsertSecurityInput =
  us_Code :: string
  us_Name :: string
  us_FundType :: string
  us_SecurityType :: string
  us_Market :: string
  us_Currency :: string
  us_Exchange :: string
  us_Source :: string

datatype security_error = Invalid string | SqlError

type_synonym ('f, 'r, 'a) security_proc = "(('f, 'r) master db, security_error, 'a) proc"

definition sql :: "(('f, 'r) master \<Rightarrow> 'a \<times> ('f, 'r) master) \<Rightarrow> ('f, 'r, 'a) security_proc" where
  "sql f = wrap (\<lambda>_. SqlError) (stmt f)"

definition nullIfEmpty :: "string \<Rightarrow> string option" where
  "nullIfEmpty s = (if TrimSpace s = [] then None else Some s)"

text \<open>\<open>COALESCE(NULLIF(?, ''), column)\<close>.\<close>

definition keep_if_empty :: "string \<Rightarrow> string option \<Rightarrow> string option" where
  "keep_if_empty v col = (if v = [] then col else Some v)"

section \<open>Reading one\<close>

text \<open>
  The join with \<open>portfolio_snapshot\<close> gives a row for each portfolio; the first is read. No row is
  \<open>sql.ErrNoRows\<close>, reported like any other error.
\<close>

definition security_item :: "'f \<Rightarrow> string \<Rightarrow> ('f, 'r) master \<Rightarrow> 'f SecurityListItem option" where
  "security_item z code t = map_option (\<lambda>r.
     let s = select1 (\<lambda>s. sn_code s = code) (ms_snaps t); col = (\<lambda>f. case s of None \<Rightarrow> None | Some s \<Rightarrow> f s) in
     \<lparr>li_Code = sc_code r, li_Name = coalesce (sc_name r) [], li_Type = coalesce (sc_fund_type r) [],
      li_SecurityType = coalesce (sc_security_type r) ''fund'', li_Market = coalesce (sc_market r) [],
      li_HeldShares = coalesce (col sn_held) z, li_CurrentValue = col sn_value, li_UnrealizedPNL = col sn_pnl,
      li_PNLPct = col sn_pct, li_LatestNAV = col sn_nav\<rparr>) (select1 (\<lambda>r. sc_code r = code) (ms_details t))"

definition getSecurityItem :: "'f \<Rightarrow> string \<Rightarrow> ('f, 'r, 'f SecurityListItem) security_proc" where
  "getSecurityItem z code = andThen (sql (\<lambda>t. (security_item z code t, t)))
     (\<lambda>r. case r of None \<Rightarrow> throw SqlError | Some item \<Rightarrow> ret item)"

section \<open>Creating and updating\<close>

text \<open>The input trimmed, with its defaults, and refused where a column cannot hold it.\<close>

definition or_else :: "string \<Rightarrow> string \<Rightarrow> string" where
  "or_else s d = (let s = TrimSpace s in if s = [] then d else s)"

definition checked_input :: "UpsertSecurityInput \<Rightarrow> security_error + UpsertSecurityInput" where
  "checked_input i =
    (let code = TrimSpace (us_Code i); name = TrimSpace (us_Name i); kind = or_else (us_SecurityType i) ''fund'';
         market = or_else (us_Market i) (if kind = ''fund'' then ''CN'' else []);
         currency = or_else (us_Currency i) ''CNY''; exchange = TrimSpace (us_Exchange i);
         source = or_else (us_Source i) ''mcp''; fundType = TrimSpace (us_FundType i)
     in if code = [] then Inl (Invalid ''fund_code is required'')
        else if length code > 32 then Inl (Invalid ''fund_code max 32 chars'')
        else if length name > 200 then Inl (Invalid ''fund_name max 200 chars'')
        else if kind \<noteq> ''fund'' \<and> kind \<noteq> ''stock'' then Inl (Invalid ''security_type must be fund or stock'')
        else if market = [] then Inl (Invalid ''market is required for stock'')
        else if length market > 16 then Inl (Invalid ''market max 16 chars'')
        else if length currency > 16 then Inl (Invalid ''currency max 16 chars'')
        else if length exchange > 32 then Inl (Invalid ''exchange max 32 chars'')
        else if length source > 64 then Inl (Invalid ''source max 64 chars'')
        else if length fundType > 64 then Inl (Invalid ''fund_type max 64 chars'')
        else Inr \<lparr>us_Code = code, us_Name = name, us_FundType = fundType, us_SecurityType = kind, us_Market = market,
          us_Currency = currency, us_Exchange = exchange, us_Source = source\<rparr>)"

definition insert_security :: "UpsertSecurityInput \<Rightarrow> ('f, 'r) master \<Rightarrow> unit \<times> ('f, 'r) master" where
  "insert_security v t = ((), t\<lparr>ms_details := ms_details t @ [\<lparr>sc_code = us_Code v, sc_name = Some (us_Name v),
     sc_fund_type = nullIfEmpty (us_FundType v), sc_security_type = Some (us_SecurityType v), sc_market = Some (us_Market v),
     sc_currency = Some (us_Currency v), sc_exchange = nullIfEmpty (us_Exchange v), sc_source = Some (us_Source v)\<rparr>]\<rparr>)"

text \<open>Which fields a partial update leaves alone: \<open>i\<close> is the input as it came, \<open>v\<close> the checked one.\<close>

definition merged :: "UpsertSecurityInput \<Rightarrow> UpsertSecurityInput \<Rightarrow> 'f SecurityListItem \<Rightarrow> UpsertSecurityInput" where
  "merged i v cur = v\<lparr>us_Name := (if us_Name v = [] then li_Name cur else us_Name v),
     us_FundType := (if us_FundType v = [] then li_Type cur else us_FundType v),
     us_SecurityType := (if us_SecurityType i = [] then li_SecurityType cur else us_SecurityType v),
     us_Market := (if us_Market i = [] then li_Market cur else us_Market v)\<rparr>"

definition set_security :: "UpsertSecurityInput \<Rightarrow> security \<Rightarrow> security" where
  "set_security v r = r\<lparr>sc_name := Some (us_Name v), sc_fund_type := nullIfEmpty (us_FundType v),
     sc_security_type := Some (us_SecurityType v), sc_market := Some (us_Market v),
     sc_currency := keep_if_empty (us_Currency v) (sc_currency r), sc_exchange := keep_if_empty (us_Exchange v) (sc_exchange r),
     sc_source := keep_if_empty (us_Source v) (sc_source r)\<rparr>"

definition update_security :: "UpsertSecurityInput \<Rightarrow> ('f, 'r) master \<Rightarrow> unit \<times> ('f, 'r) master" where
  "update_security v t = ((), t\<lparr>ms_details := update_where (\<lambda>r. sc_code r = us_Code v) (set_security v) (ms_details t)\<rparr>)"

definition UpsertSecurity :: "'f \<Rightarrow> UpsertSecurityInput \<Rightarrow> ('f, 'r, bool \<times> 'f SecurityListItem) security_proc" where
  "UpsertSecurity z i =
    andThen (check (checked_input i)) (\<lambda>v.
    andThen (sql (\<lambda>t. (count_where (\<lambda>r. sc_code r = us_Code v) (ms_details t), t))) (\<lambda>n.
    let created = (n = 0) in
    if created \<and> us_Name v = [] then throw (Invalid ''fund_name is required when creating'')
    else andThen (if created then sql (insert_security v)
        else andThen (getSecurityItem z (us_Code v)) (\<lambda>cur. sql (update_security (merged i v cur)))) (\<lambda>_.
      andThen (getSecurityItem z (us_Code v)) (\<lambda>item. ret (created, item)))))"

section \<open>Deleting\<close>

definition cascade_tables :: "(string \<times> string) list" where
  "cascade_tables =
    [(''dca_plan_executions'', ''fund_code''), (''transactions'', ''fund_code''), (''nav_history'', ''fund_code''),
     (''portfolio_snapshot'', ''fund_code''), (''fund_holdings'', ''fund_code''), (''dca_plans'', ''fund_code''),
     (''fund_status'', ''fund_code''), (''summary_by_fund'', ''fund_code''), (''crawl_log'', ''fund_code''),
     (''ant_current_positions'', ''fund_code''), (''ant_summary_by_fund'', ''fund_code''),
     (''ant_transactions_normalized'', ''fund_code''), (''ant_transactions_raw'', ''fund_code_cell''),
     (''source_events'', ''related_security_code''), (''stock_realtime'', ''code''), (''stock_kline_cache'', ''code''),
     (''stock_profile'', ''code''), (''fund_details'', ''fund_code'')]"

text \<open>
  One statement of the transaction. Where the table is missing both engines report an error that the code
  passes over; PostgreSQL then refuses whatever follows in that transaction, its commit included.
\<close>

datatype deletion = Rows nat | MissingTable | Refused

definition delete_rows :: "bool \<Rightarrow> string \<Rightarrow> string \<Rightarrow> ('f, 'r) master \<Rightarrow> deletion \<times> ('f, 'r) master" where
  "delete_rows aborted tab code t =
    (if aborted then (Refused, t)
     else if tab = ''fund_details'' then
       (Rows (count_where (\<lambda>r. sc_code r = code) (ms_details t)), t\<lparr>ms_details := delete_where (\<lambda>r. sc_code r = code) (ms_details t)\<rparr>)
     else if tab = ''portfolio_snapshot'' then
       (Rows (count_where (\<lambda>s. sn_code s = code) (ms_snaps t)), t\<lparr>ms_snaps := delete_where (\<lambda>s. sn_code s = code) (ms_snaps t)\<rparr>)
     else case ms_other t tab of None \<Rightarrow> (MissingTable, t)
       | Some rows \<Rightarrow> (Rows (count_where (\<lambda>r. fst r = Some code) rows),
           t\<lparr>ms_other := (ms_other t)(tab := Some (delete_where (\<lambda>r. fst r = Some code) rows))\<rparr>))"

fun cascade :: "dialect \<Rightarrow> string \<Rightarrow> string list \<Rightarrow> bool \<Rightarrow> bool \<Rightarrow> ('f, 'r, bool \<times> bool) security_proc" where
  "cascade dl code [] aborted deleted = ret (aborted, deleted)"
| "cascade dl code (tab # tabs) aborted deleted = andThen (sql (delete_rows aborted tab code)) (\<lambda>r. case r of
     Refused \<Rightarrow> throw SqlError
   | MissingTable \<Rightarrow> cascade dl code tabs (dl = Postgres) deleted
   | Rows n \<Rightarrow> cascade dl code tabs aborted (if tab = ''fund_details'' then 0 < n else deleted))"

definition commit :: "bool \<times> bool \<Rightarrow> ('f, 'r, bool) security_proc" where
  "commit = (\<lambda>(aborted, deleted). andThen (sql (\<lambda>t. ((), t))) (\<lambda>_. if aborted then throw SqlError else ret deleted))"

text \<open>A transaction that does not commit leaves the tables as they were.\<close>

definition transact :: "('f, 'r, 'a) security_proc \<Rightarrow> ('f, 'r, 'a) security_proc" where
  "transact body = andThen (sql (\<lambda>t. ((), t))) (\<lambda>_ d. case body d of
     (Inr a, d') \<Rightarrow> (Inr a, d') | (Inl e, d') \<Rightarrow> (Inl e, d'\<lparr>tables := tables d\<rparr>))"

definition DeleteSecurity :: "dialect \<Rightarrow> string \<Rightarrow> ('f, 'r, bool) security_proc" where
  "DeleteSecurity dl code0 =
    (let code = TrimSpace code0 in
     if code = [] then throw (Invalid ''fund_code is required'')
     else if length code > 32 then throw (Invalid ''fund_code too long'')
     else transact (andThen (cascade dl code (map fst cascade_tables) False False) commit))"

end
