(* ===== verification/SecuritiesProps.thy ===== *)
theory SecuritiesProps
  imports Securities
begin

text \<open>
  What holds of the master data: its rows stay valid under every write, a deletion takes all that belongs to the
  code or nothing, its cascade covers the schema, and what a partial update does to the columns it does not name.
\<close>

lemma triple_sql: "(\<And>t. P t \<Longrightarrow> Q (fst (f t)) (snd (f t)) \<and> X t) \<Longrightarrow> triple P (sql f) Q X"
  by (simp add: sql_def triple_wrap triple_stmt)

section \<open>Valid rows\<close>

definition security_ok :: "security \<Rightarrow> bool" where
  "security_ok r \<longleftrightarrow> sc_code r \<noteq> [] \<and> length (sc_code r) \<le> 32 \<and> coalesce (sc_name r) [] \<noteq> [] \<and> length (coalesce (sc_name r) []) \<le> 200 \<and>
    coalesce (sc_security_type r) [] \<in> {''fund'', ''stock''} \<and> coalesce (sc_market r) [] \<noteq> [] \<and> length (coalesce (sc_market r) []) \<le> 16"

definition master_ok :: "('f, 'r) master \<Rightarrow> bool" where
  "master_ok t \<longleftrightarrow> distinct (map sc_code (ms_details t)) \<and> (\<forall>r \<in> set (ms_details t). security_ok r)"

definition fields_ok :: "UpsertSecurityInput \<Rightarrow> bool" where
  "fields_ok v \<longleftrightarrow> us_Code v \<noteq> [] \<and> length (us_Code v) \<le> 32 \<and> length (us_Name v) \<le> 200 \<and>
    us_SecurityType v \<in> {''fund'', ''stock''} \<and> us_Market v \<noteq> [] \<and> length (us_Market v) \<le> 16"

lemma checked_input_ok: "checked_input i = Inr v \<Longrightarrow> fields_ok v"
  by (simp add: checked_input_def fields_ok_def Let_def split: if_splits) auto

definition item_ok :: "'f SecurityListItem \<Rightarrow> bool" where
  "item_ok c \<longleftrightarrow> li_Name c \<noteq> [] \<and> length (li_Name c) \<le> 200 \<and> li_SecurityType c \<in> {''fund'', ''stock''} \<and>
    li_Market c \<noteq> [] \<and> length (li_Market c) \<le> 16"

lemma security_item_ok: "master_ok t \<Longrightarrow> security_item z code t = Some c \<Longrightarrow> item_ok c"
proof -
  assume t: "master_ok t" and item: "security_item z code t = Some c"
  then obtain r where r: "select1 (\<lambda>r. sc_code r = code) (ms_details t) = Some r" and c: "li_Name c = coalesce (sc_name r) []"
    "li_SecurityType c = coalesce (sc_security_type r) ''fund''" "li_Market c = coalesce (sc_market r) []"
    by (auto simp: security_item_def Let_def)
  have "security_ok r" using t select1_SomeD [OF r] by (simp add: master_ok_def)
  then show ?thesis unfolding item_ok_def c security_ok_def by (cases "sc_security_type r") (simp_all add: coalesce_def)
qed

lemma merged_ok: "fields_ok v \<Longrightarrow> item_ok cur \<Longrightarrow> fields_ok (merged i v cur) \<and> us_Name (merged i v cur) \<noteq> []"
  by (auto simp: fields_ok_def item_ok_def merged_def)

lemma getSecurityItem_ok: "triple master_ok (getSecurityItem z code) (\<lambda>c t. master_ok t \<and> item_ok c) master_ok"
  unfolding getSecurityItem_def
  by (rule triple_andThen [where Q' = "\<lambda>r t. master_ok t \<and> (\<forall>c. r = Some c \<longrightarrow> item_ok c)"])
     (auto intro!: triple_sql triple_ret triple_throw dest: security_item_ok split: option.split)

lemma insert_ok:
  assumes "master_ok t" "fields_ok v" "us_Name v \<noteq> []" "count_where (\<lambda>r. sc_code r = us_Code v) (ms_details t) = 0"
  shows "master_ok (snd (insert_security v t))"
  using assms by (auto simp: master_ok_def insert_security_def fields_ok_def security_ok_def coalesce_def count_where_0_iff)

lemma update_ok:
  assumes "master_ok t" "fields_ok v" "us_Name v \<noteq> []"
  shows "master_ok (snd (update_security v t))"
proof -
  have "map sc_code (ms_details (snd (update_security v t))) = map sc_code (ms_details t)"
    by (simp add: update_security_def set_security_def map_key_update_where)
  moreover have "security_ok r" if mem: "r \<in> set (ms_details (snd (update_security v t)))" for r
  proof -
    obtain q where q: "q \<in> set (ms_details t)" and r: "r = q \<or> sc_code q = us_Code v \<and> r = set_security v q"
      using mem unfolding update_security_def by (auto simp: set_update_where split: if_splits)
    have "security_ok q" using q assms(1) by (simp add: master_ok_def)
    with r assms(2,3) show ?thesis by (elim disjE conjE) (simp_all add: security_ok_def set_security_def fields_ok_def coalesce_def)
  qed
  ultimately show ?thesis using assms(1) by (simp add: master_ok_def)
qed

lemma UpsertSecurity_ok: "triple master_ok (UpsertSecurity z i) (\<lambda>_. master_ok) master_ok"
proof -
  have step: "triple (\<lambda>t. master_ok t \<and> n = count_where (\<lambda>r. sc_code r = us_Code v) (ms_details t))
      (if n = 0 then sql (insert_security v) else andThen (getSecurityItem z (us_Code v)) (\<lambda>cur. sql (update_security (merged i v cur))))
      (\<lambda>_. master_ok) master_ok"
    if "fields_ok v" "\<not> (n = 0 \<and> us_Name v = [])" for v :: UpsertSecurityInput and n
    using that
    by (auto intro!: triple_sql insert_ok update_ok triple_andThen [where Q' = "\<lambda>c t. master_ok t \<and> item_ok c"]
        triple_weaken [OF getSecurityItem_ok] simp: merged_ok)
  have rest: "triple (\<lambda>t. master_ok t \<and> n = count_where (\<lambda>r. sc_code r = us_Code v) (ms_details t))
      (let created = (n = 0) in if created \<and> us_Name v = [] then throw (Invalid ''fund_name is required when creating'')
       else andThen (if created then sql (insert_security v)
          else andThen (getSecurityItem z (us_Code v)) (\<lambda>cur. sql (update_security (merged i v cur)))) (\<lambda>_.
        andThen (getSecurityItem z (us_Code v)) (\<lambda>item. ret (created, item))))
      (\<lambda>_. master_ok) master_ok" if "fields_ok v" for v n
    unfolding Let_def
    by (intro triple_if triple_throw triple_andThen [OF step [OF that]]
        triple_andThen [OF getSecurityItem_ok] triple_ret) auto
  have "triple (\<lambda>t. master_ok t) (check (checked_input i)) (\<lambda>v t. master_ok t \<and> fields_ok v) master_ok"
    by (cases "checked_input i") (simp_all add: triple_def check_def checked_input_ok)
  then show ?thesis unfolding UpsertSecurity_def
    by (rule triple_andThen)
       (rule triple_pure, rule triple_andThen [OF _ rest], rule triple_sql, simp_all)
qed

section \<open>Deletion\<close>

lemma delete_rows_ok: "master_ok t \<Longrightarrow> master_ok (snd (delete_rows aborted tab code t))"
  by (auto simp: delete_rows_def master_ok_def distinct_key_delete_where split: option.split)

lemma cascade_ok: "triple master_ok (cascade dl code tabs aborted deleted) (\<lambda>_. master_ok) master_ok"
  by (induction tabs arbitrary: aborted deleted)
     (auto intro!: triple_ret triple_throw triple_andThen [where Q' = "\<lambda>_. master_ok"] triple_sql delete_rows_ok split: deletion.split)

text \<open>What is left of the table \<open>tab\<close> when the rows of a code are gone.\<close>

definition without :: "string \<Rightarrow> string set \<Rightarrow> ('f, 'r) master \<Rightarrow> ('f, 'r) master" where
  "without code tabs t =
    \<lparr>ms_details = (if ''fund_details'' \<in> tabs then delete_where (\<lambda>r. sc_code r = code) (ms_details t) else ms_details t),
     ms_snaps = (if ''portfolio_snapshot'' \<in> tabs then delete_where (\<lambda>s. sn_code s = code) (ms_snaps t) else ms_snaps t),
     ms_other = (\<lambda>tab. if tab \<in> tabs - {''fund_details'', ''portfolio_snapshot''}
        then map_option (delete_where (\<lambda>r. fst r = Some code)) (ms_other t tab) else ms_other t tab)\<rparr>"

lemma without_none [simp]: "without code {} t = t"
  by (simp add: without_def)

lemma delete_where_idem [simp]: "delete_where p (delete_where p rs) = delete_where p rs"
  by (simp add: delete_where_def)

lemma delete_rows_without:
  "fst (delete_rows aborted tab code t) \<noteq> Refused \<Longrightarrow> without code tabs (snd (delete_rows aborted tab code t)) = without code (insert tab tabs) t"
  by (cases "ms_other t tab") (auto simp: delete_rows_def without_def fun_eq_iff option.map_comp o_def split: if_splits)

lemma cascade_Cons_Inr:
  assumes "cascade dl code (tab # tabs) aborted deleted d = (Inr r, d')"
  obtains out d1 a1 e1 where "sql (delete_rows aborted tab code) d = (Inr out, d1)" "out \<noteq> Refused"
    "cascade dl code tabs a1 e1 d1 = (Inr r, d')" "tab \<noteq> ''fund_details'' \<Longrightarrow> e1 = deleted"
    "e1 = (case out of Rows n \<Rightarrow> if tab = ''fund_details'' then 0 < n else deleted | _ \<Rightarrow> deleted)"
proof -
  from assms obtain out d1 where "sql (delete_rows aborted tab code) d = (Inr out, d1)"
    and "(case out of Refused \<Rightarrow> throw SqlError | MissingTable \<Rightarrow> cascade dl code tabs (dl = Postgres) deleted
      | Rows n \<Rightarrow> cascade dl code tabs aborted (if tab = ''fund_details'' then 0 < n else deleted)) d1 = (Inr r, d')"
    by (auto simp: andThen_Inr_iff)
  then show thesis by (cases out) (auto intro: that)
qed

lemma cascade_without:
  "cascade dl code tabs aborted deleted d = (Inr (a, e), d') \<Longrightarrow> tables d' = without code (set tabs) (tables d)"
proof (induction tabs arbitrary: aborted deleted d)
  case (Cons tab tabs)
  from Cons.prems obtain r d1 a1 e1 where step: "sql (delete_rows aborted tab code) d = (Inr r, d1)" and r: "r \<noteq> Refused"
    and rest: "cascade dl code tabs a1 e1 d1 = (Inr (a, e), d')"
    by (rule cascade_Cons_Inr)
  have t: "r = fst (delete_rows aborted tab code (tables d))" "tables d1 = snd (delete_rows aborted tab code (tables d))"
    using step by (auto simp: sql_def dest: stmt_Inr_tables)
  show ?case using Cons.IH [OF rest] delete_rows_without [of aborted tab code "tables d" "set tabs"] r t by simp
qed simp

lemma cascade_append: "cascade dl code (tabs @ tabs') a e =
    andThen (cascade dl code tabs a e) (\<lambda>(a', e'). cascade dl code tabs' a' e')"
  by (induction tabs arbitrary: a e) (auto simp: andThen_assoc intro!: arg_cong2 [where f = andThen] split: deletion.split)

lemma cascade_deleted_kept: "''fund_details'' \<notin> set tabs \<Longrightarrow> cascade dl code tabs a e d = (Inr (a', e'), d') \<Longrightarrow>
    e' = e \<and> ms_details (tables d') = ms_details (tables d)"
proof (induction tabs arbitrary: a d)
  case (Cons tab tabs)
  obtain r d1 a1 e1 where step: "sql (delete_rows a tab code) d = (Inr r, d1)"
    and rest: "cascade dl code tabs a1 e1 d1 = (Inr (a', e'), d')" and e1: "e1 = e"
    by (rule cascade_Cons_Inr [OF Cons.prems(2)]) (use Cons.prems(1) in auto)
  have "ms_details (tables d1) = ms_details (tables d)"
    using step Cons.prems(1) by (auto simp: sql_def delete_rows_def dest!: stmt_Inr_tables split: option.split)
  then show ?case using Cons.IH [of a1 d1] rest e1 Cons.prems(1) by auto
qed simp

lemma cascade_split: "map fst cascade_tables = butlast (map fst cascade_tables) @ [''fund_details'']"
  "''fund_details'' \<notin> set (butlast (map fst cascade_tables))"
  by (simp_all add: cascade_tables_def)

lemma cascade_deleted:
  assumes "cascade dl code (map fst cascade_tables) False False d = (Inr (a, e), d')"
  shows "e = (\<exists>r \<in> set (ms_details (tables d)). sc_code r = code)"
proof -
  obtain a1 e1 d1 where init: "cascade dl code (butlast (map fst cascade_tables)) False False d = (Inr (a1, e1), d1)"
    and last: "cascade dl code [''fund_details''] a1 e1 d1 = (Inr (a, e), d')"
    using assms by (subst (asm) cascade_split(1)) (auto simp: cascade_append andThen_Inr_iff simp del: cascade.simps)
  have "ms_details (tables d1) = ms_details (tables d)" using cascade_deleted_kept [OF cascade_split(2) init] by blast
  moreover have "e = (0 < count_where (\<lambda>r. sc_code r = code) (ms_details (tables d1)))"
  proof (rule cascade_Cons_Inr [OF last])
    fix out d2 a2 e2
    assume "sql (delete_rows a1 ''fund_details'' code) d1 = (Inr out, d2)" "out \<noteq> Refused" "cascade dl code [] a2 e2 d2 = (Inr (a, e), d')"
      "e2 = (case out of Rows n \<Rightarrow> if ''fund_details'' = ''fund_details'' then 0 < n else e1 | _ \<Rightarrow> e1)"
    then show ?thesis by (auto simp: sql_def delete_rows_def dest!: stmt_Inr_tables split: if_splits)
  qed
  ultimately show ?thesis using count_where_0_iff [of "\<lambda>r. sc_code r = code" "ms_details (tables d)"] by auto
qed

lemma transact_cases:
  assumes "transact body d = (r, d')"
  obtains (not_begun) e where "r = Inl e" "tables d' = tables d"
    | (rolled_back) e where "r = Inl e" "tables d' = tables d"
    | (committed) a d1 where "r = Inr a" "tables d1 = tables d" "body d1 = (Inr a, d')"
proof -
  from assms show thesis unfolding transact_def
  proof (cases rule: andThenE)
    case (failed e)
    then show thesis by (auto simp: sql_def wrap_Inl_iff dest: stmt_Inl_tables intro: not_begun)
  next
    case (succeeded u d1)
    then have t: "tables d1 = tables d" by (auto simp: sql_def dest!: stmt_Inr_tables)
    from succeeded(2) t show thesis
      by (cases "body d1"; cases "fst (body d1)") (auto intro: rolled_back committed)
  qed
qed

lemma DeleteSecurity_cases:
  assumes "DeleteSecurity dl c d = (res, d')"
  shows "case res of Inl _ \<Rightarrow> tables d' = tables d
    | Inr existed \<Rightarrow> tables d' = without (TrimSpace c) (fst ` set cascade_tables) (tables d) \<and>
        existed = (\<exists>r \<in> set (ms_details (tables d)). sc_code r = TrimSpace c)"
proof (cases res)
  case (Inl e)
  then show ?thesis using assms by (auto simp: DeleteSecurity_def Let_def elim: transact_cases split: if_splits)
next
  case (Inr existed)
  let ?body = "andThen (cascade dl (TrimSpace c) (map fst cascade_tables) False False) commit"
  obtain d1 where d1: "tables d1 = tables d" "?body d1 = (Inr existed, d')"
    using assms Inr by (auto simp: DeleteSecurity_def Let_def elim!: transact_cases split: if_splits)
  obtain a e d2 where run: "cascade dl (TrimSpace c) (map fst cascade_tables) False False d1 = (Inr (a, e), d2)"
    "commit (a, e) d2 = (Inr existed, d')" using d1(2) by (auto simp: andThen_Inr_iff)
  have "existed = e \<and> tables d' = tables d2"
    using run(2) by (auto simp: commit_def andThen_Inr_iff sql_def dest!: stmt_Inr_tables split: if_splits)
  then show ?thesis using cascade_without [OF run(1)] cascade_deleted [OF run(1)] d1(1) Inr by simp
qed

section \<open>The properties\<close>

text \<open>
  C36. The master data stays valid: whatever is asked and whichever statements fail, codes stay unique and no
  longer than 32 bytes, and every security keeps a name, a kind that is fund or stock, and a market.
\<close>

theorem securities_stay_valid:
  assumes "master_ok (tables d)"
  shows "master_ok (tables (snd (UpsertSecurity z i d))) \<and> master_ok (tables (snd (DeleteSecurity dl c d)))"
proof
  obtain r d' where run: "UpsertSecurity z i d = (r, d')" by fastforce
  then show "master_ok (tables (snd (UpsertSecurity z i d)))"
    using tripleD [where d = d, OF UpsertSecurity_ok assms] tripleX [where d = d, OF UpsertSecurity_ok assms] by (cases r) auto
next
  obtain r d' where run: "DeleteSecurity dl c d = (r, d')" by fastforce
  with assms DeleteSecurity_cases [OF run] show "master_ok (tables (snd (DeleteSecurity dl c d)))"
    by (auto simp: without_def master_ok_def distinct_key_delete_where split: sum.splits)
qed

text \<open>
  C30. A deletion is all or nothing: when it answers, no row of that code is left in any table of the cascade
  that is there, every row of another code and every other table is as before, and the answer says whether the
  security was known; when it fails, nothing has changed.
\<close>

theorem delete_all_or_nothing:
  assumes "DeleteSecurity dl c d = (res, d')"
  shows "case res of
      Inl _ \<Rightarrow> tables d' = tables d
    | Inr existed \<Rightarrow> let code = TrimSpace c; t = tables d; t' = tables d' in
        existed = (\<exists>r \<in> set (ms_details t). sc_code r = code) \<and>
        ms_details t' = filter (\<lambda>r. sc_code r \<noteq> code) (ms_details t) \<and> ms_snaps t' = filter (\<lambda>s. sn_code s \<noteq> code) (ms_snaps t) \<and>
        (\<forall>tab. ms_other t' tab = (if tab \<in> fst ` set cascade_tables - {''fund_details'', ''portfolio_snapshot''}
           then map_option (filter (\<lambda>r. fst r \<noteq> Some code)) (ms_other t tab) else ms_other t tab))"
proof -
  have both: "''fund_details'' \<in> fst ` set cascade_tables" "''portfolio_snapshot'' \<in> fst ` set cascade_tables"
    by (simp_all add: cascade_tables_def)
  have filters: "delete_where p = filter (\<lambda>r. \<not> p r)" for p :: "'c \<Rightarrow> bool"
    by (rule ext) (simp add: delete_where_def)
  show ?thesis
    using DeleteSecurity_cases [OF assms] both
    by (cases res) (simp_all add: Let_def without_def filters)
qed

definition tables_of :: "ddl list \<Rightarrow> (string \<times> string list) list" where
  "tables_of ds = List.map_filter (\<lambda>d. case d of CreateTable n items \<Rightarrow> Some (n, columns_of items) | CreateIndex _ _ _ \<Rightarrow> None) ds"

definition cascade_covers :: "ddl list \<Rightarrow> bool" where
  "cascade_covers ds \<longleftrightarrow>
     list_all (\<lambda>(tab, cols). List.member cols ''fund_code'' \<longrightarrow> List.member cascade_tables (tab, ''fund_code'')) (tables_of ds) \<and>
     list_all (\<lambda>(tab, col). list_ex (\<lambda>(tab', cols). tab' = tab \<and> List.member cols col) (tables_of ds)) cascade_tables"

text \<open>
  The cascade covers the schema: on both engines every table that has a \<open>fund_code\<close> is in it, and every
  statement of it names a table and a column that exist.
\<close>

theorem cascade_covers_schema: "cascade_covers sqliteSchemaTables \<and> cascade_covers pgSchemaTables"
  by (rule conjI; code_simp)

section \<open>Missing tables\<close>

lemma sql_ok: "faults d = [] \<Longrightarrow> sql f d = (Inr (fst (f (tables d))), \<lparr>tables = snd (f (tables d)), faults = []\<rparr>)"
  by (cases d) (simp add: sql_def wrap_def stmt_def)

text \<open>SQLite passes over the tables that are missing.\<close>

lemma sqlite_cascade_ok: "faults d = [] \<Longrightarrow> \<exists>e' d'. cascade Sqlite code tabs False e d = (Inr (False, e'), d') \<and> faults d' = []"
proof (induction tabs arbitrary: e d)
  case (Cons tab tabs)
  have "fst (delete_rows False tab code (tables d)) \<noteq> Refused" by (simp add: delete_rows_def split: option.split)
  with Cons show ?case by (cases "fst (delete_rows False tab code (tables d))") (simp_all add: andThen_def sql_ok)
qed simp

lemma sqlite_deletes:
  assumes "faults d = []" "TrimSpace c \<noteq> []" "length (TrimSpace c) \<le> 32"
  shows "\<exists>existed d'. DeleteSecurity Sqlite c d = (Inr existed, d')"
proof -
  obtain e d' where "cascade Sqlite (TrimSpace c) (map fst cascade_tables) False False \<lparr>tables = tables d, faults = []\<rparr> = (Inr (False, e), d')"
    "faults d' = []" using sqlite_cascade_ok [of "\<lparr>tables = tables d, faults = []\<rparr>"] by fastforce
  with assms show ?thesis
    by (simp add: DeleteSecurity_def Let_def transact_def commit_def andThen_def ret_def sql_ok)
qed

text \<open>
  PostgreSQL aborts a transaction at its first error: where a table of the cascade is missing, the deletion
  that SQLite completes fails.
\<close>

lemma postgres_cascade_fails:
  "faults d = [] \<Longrightarrow> tab \<in> set tabs \<Longrightarrow> tab \<notin> {''fund_details'', ''portfolio_snapshot''} \<Longrightarrow> ms_other (tables d) tab = None \<Longrightarrow>
   \<exists>d'. cascade Postgres code (tabs @ [''fund_details'']) False e d = (Inl SqlError, d')"
proof (induction tabs arbitrary: e d)
  case (Cons t ts)
  have aborted: "\<exists>d'. cascade Postgres code (us @ [''fund_details'']) True e d1 = (Inl SqlError, d')" if "faults d1 = []" for us e d1
    using that by (cases us) (simp_all add: andThen_def sql_ok delete_rows_def)
  show ?case
  proof (cases "fst (delete_rows False t code (tables d))")
    case (Rows n)
    with Cons.prems(3,4) have "t \<noteq> tab \<and> ms_other (snd (delete_rows False t code (tables d))) tab = None"
      by (auto simp: delete_rows_def split: option.splits if_splits)
    with Cons Rows show ?thesis by (auto simp: andThen_def sql_ok)
  next
    case MissingTable
    with aborted [of "\<lparr>tables = snd (delete_rows False t code (tables d)), faults = []\<rparr>" ts e] Cons.prems(1)
    show ?thesis by (simp add: andThen_def sql_ok)
  qed (use Cons.prems(1) in \<open>simp add: andThen_def sql_ok\<close>)
qed simp

lemma missing_table_blocks_postgres:
  assumes "faults d = []" "(tab, col) \<in> set (butlast cascade_tables)" "tab \<noteq> ''portfolio_snapshot''" "ms_other (tables d) tab = None"
  shows "\<exists>e d'. DeleteSecurity Postgres c d = (Inl e, d')"
proof -
  let ?tabs = "butlast (map fst cascade_tables)"
  have tab: "tab \<in> set ?tabs" using assms(2) by (force simp: map_butlast [symmetric])
  with cascade_split(2) have "tab \<noteq> ''fund_details''" by auto
  with postgres_cascade_fails [of "\<lparr>tables = tables d, faults = []\<rparr>" tab ?tabs "TrimSpace c" False] tab assms(3,4)
  obtain d' where "cascade Postgres (TrimSpace c) (map fst cascade_tables) False False \<lparr>tables = tables d, faults = []\<rparr> = (Inl SqlError, d')"
    unfolding cascade_split(1) [symmetric] by auto
  with assms(1) show ?thesis by (simp add: DeleteSecurity_def Let_def transact_def andThen_def sql_ok)
qed

section \<open>Examples\<close>

definition example_security :: "string \<Rightarrow> security" where
  "example_security c = \<lparr>sc_code = c, sc_name = Some ''A'', sc_fund_type = None, sc_security_type = Some ''stock'', sc_market = Some ''US'',
     sc_currency = Some ''USD'', sc_exchange = None, sc_source = Some ''manual''\<rparr>"

definition example_master :: "(int, unit) master db" where
  "example_master = \<lparr>tables = \<lparr>ms_details = [example_security ''X'', example_security ''Y''], ms_snaps = [],
     ms_other = (\<lambda>_. None)(''transactions'' := Some [(Some ''X'', ()), (Some ''Y'', ())])\<rparr>, faults = []\<rparr>"

definition example_update :: UpsertSecurityInput where
  "example_update = \<lparr>us_Code = ''X'', us_Name = ''B'', us_FundType = [], us_SecurityType = ''stock'', us_Market = ''US'', us_Currency = [],
     us_Exchange = [], us_Source = []\<rparr>"

theorem securities_stay_valid_witness:
  "master_ok (tables (snd (UpsertSecurity 0 example_update example_master))) \<and>
   master_ok (tables (snd (DeleteSecurity Sqlite ''X'' example_master)))"
proof -
  have "master_ok (tables example_master)"
    by (simp add: master_ok_def security_ok_def example_master_def example_security_def coalesce_def)
  then show ?thesis by (rule securities_stay_valid)
qed

theorem delete_all_or_nothing_witness:
  "ms_details (tables (snd (DeleteSecurity Sqlite ''X'' example_master))) = [example_security ''Y''] \<and>
   ms_other (tables (snd (DeleteSecurity Sqlite ''X'' example_master))) ''transactions'' = Some [(Some ''Y'', ())]"
proof -
  obtain res d' where run: "DeleteSecurity Sqlite ''X'' example_master = (res, d')" by fastforce
  have X: "TrimSpace ''X'' = ''X''" by code_simp
  obtain existed where res: "res = Inr existed"
    using sqlite_deletes [of example_master "''X''"] run X by (auto simp: example_master_def)
  note X
  moreover have "''transactions'' \<in> fst ` set cascade_tables" by (simp add: cascade_tables_def)
  ultimately show ?thesis
    using delete_all_or_nothing [OF run] run res
    by (simp add: Let_def example_master_def example_security_def split: if_splits)
qed

text \<open>
  The defaults are filled in before the update looks for what was left out, so an update that names neither
  currency nor source sets both back.
\<close>

lemma partial_update_resets:
  assumes "checked_input i = Inr v" "TrimSpace (us_Currency i) = []" "TrimSpace (us_Source i) = []"
  shows "sc_currency (set_security (merged i v cur) r) = Some ''CNY''" "sc_source (set_security (merged i v cur) r) = Some ''mcp''"
  using assms by (auto simp: checked_input_def or_else_def set_security_def merged_def keep_if_empty_def Let_def split: if_splits)

end
