(* ===== verification/Integrity.thy ===== *)
theory Integrity
  imports TransactionsProps
begin

text \<open>
  The integrity report (\<open>src/internal/service/admin/integrity.go\<close>): what the engine says of its own file, a
  count for each table, and the reconciliation of the share ledger with the stored positions. The answers of the
  engine to its pragmas are arguments; the two sums of the reconciliation are statements on the books.
\<close>

section \<open>The report\<close>

datatype fk_rows = QueryError | IterateError | Unsound nat

record engine =
  en_integrity :: "string option"
  en_quick :: "string option"
  en_fk :: fk_rows
  en_freelist :: "nat option"
  en_tables :: "string list option"
  en_count :: "string \<Rightarrow> nat option"

record IntegrityReport =
  rp_Overall :: string
  rp_IntegrityCheck :: "bool \<times> string"
  rp_ForeignKeyCheck :: "bool \<times> nat \<times> string"
  rp_QuickCheck :: "bool \<times> string"
  rp_FreelistCount :: "bool \<times> nat \<times> string"
  rp_RowCounts :: "(string \<times> nat) list"
  rp_TableChecksums :: "(string \<times> string) list"
  rp_Recommendations :: "string list"

definition initial_report :: IntegrityReport where
  "initial_report = \<lparr>rp_Overall = ''ok'', rp_IntegrityCheck = (False, []), rp_ForeignKeyCheck = (False, 0, []), rp_QuickCheck = (False, []),
     rp_FreelistCount = (False, 0, []), rp_RowCounts = [], rp_TableChecksums = [], rp_Recommendations = []\<rparr>"

fun count_tables :: "(string \<Rightarrow> nat option) \<Rightarrow> string list \<Rightarrow> IntegrityReport \<Rightarrow> IntegrityReport" where
  "count_tables cnt [] rep = rep"
| "count_tables cnt (tab # tabs) rep = count_tables cnt tabs (case cnt tab of
     None \<Rightarrow> rep\<lparr>rp_Recommendations := rp_Recommendations rep @ [''table_unreadable:'' @ tab]\<rparr>
   | Some n \<Rightarrow> rep\<lparr>rp_RowCounts := rp_RowCounts rep @ [(tab, n)],
       rp_TableChecksums := rp_TableChecksums rep @ [(tab, ''rows='' @ itoa n)]\<rparr>)"

section \<open>Ledger and positions\<close>

definition maxShareDriftFindings :: nat where "maxShareDriftFindings = 20"

text \<open>\<open>SELECT fund_code, SUM(COALESCE(...)) ... GROUP BY fund_code\<close>, the empty code left out.\<close>

definition share_sums :: "'f money \<Rightarrow> (string option \<times> 'f option) list \<Rightarrow> (string \<times> 'f) list" where
  "share_sums M rows = (let codes = remdups (filter (\<lambda>c. c \<noteq> []) (List.map_filter fst rows)) in
     map (\<lambda>c. (c, mo_sum M (map (\<lambda>r. coalesce (snd r) (zero M)) (filter (\<lambda>r. fst r = Some c) rows)))) codes)"

definition sums_get :: "'f money \<Rightarrow> (string \<times> 'f) list \<Rightarrow> string \<Rightarrow> 'f" where
  "sums_get M s c = coalesce (map_of s c) (zero M)"

definition ledger_rows :: "'f books \<Rightarrow> (string option \<times> 'f option) list" where
  "ledger_rows t = map (\<lambda>r. (tn_code r, tn_change r)) (bk_tx t)"

definition snap_rows :: "'f books \<Rightarrow> (string option \<times> 'f option) list" where
  "snap_rows t = map (\<lambda>s. (Some (sn_code s), sn_held s)) (bk_snaps t)"

definition sortedFundCodes :: "(string \<times> 'f) list \<Rightarrow> (string \<times> 'f) list \<Rightarrow> string list" where
  "sortedFundCodes a b = sort_key (map (of_char :: char \<Rightarrow> nat)) (remdups (map fst a @ map fst b))"

text \<open>Both sides at the four decimals of the writer, and their difference.\<close>

definition drift_of :: "'f money \<Rightarrow> (string \<times> 'f) list \<Rightarrow> (string \<times> 'f) list \<Rightarrow> string \<Rightarrow> 'f \<times> 'f \<times> 'f" where
  "drift_of M ledger snaps c = (let l = RoundShares M (sums_get M ledger c); s = RoundShares M (sums_get M snaps c) in
     (l, s, mo_sub M l s))"

definition drift_text :: "('f \<Rightarrow> string) \<Rightarrow> string \<Rightarrow> 'f \<times> 'f \<times> 'f \<Rightarrow> string" where
  "drift_text fmt c = (\<lambda>(l, s, drift). ''share_drift:'' @ clampAdminText (Some c) 32 @ '' ledger_shares='' @ fmt l @
     '' snapshot_shares='' @ fmt s @ '' drift='' @ fmt drift)"

text \<open>The loop over the codes, with its two counters.\<close>

fun drift_loop :: "'f money \<Rightarrow> ('f \<Rightarrow> string) \<Rightarrow> (string \<Rightarrow> 'f \<times> 'f \<times> 'f) \<Rightarrow> string list \<Rightarrow> nat \<Rightarrow> nat \<Rightarrow> string list
    \<Rightarrow> string list \<times> nat \<times> nat" where
  "drift_loop M fmt drift [] appended seen recs = (recs, appended, seen)"
| "drift_loop M fmt drift (c # cs) appended seen recs =
    (if mo_le M (mo_abs M (snd (snd (drift c)))) (HeldSharesDust M) then drift_loop M fmt drift cs appended seen recs
     else if appended < maxShareDriftFindings
       then drift_loop M fmt drift cs (Suc appended) (Suc seen) (recs @ [drift_text fmt c (drift c)])
     else drift_loop M fmt drift cs appended (Suc seen) recs)"

definition drift_findings :: "'f money \<Rightarrow> ('f \<Rightarrow> string) \<Rightarrow> (string \<times> 'f) list \<Rightarrow> (string \<times> 'f) list \<Rightarrow> string list \<Rightarrow> string list" where
  "drift_findings M fmt ledger snaps recs0 =
    (let (recs, appended, seen) = drift_loop M fmt (drift_of M ledger snaps) (sortedFundCodes ledger snaps) 0 0 recs0
     in if appended < seen then recs @ [''share_drift_truncated:'' @ itoa (seen - appended) @ ''_more_funds_beyond_cap''] else recs)"

definition reconcileShareDrift :: "'f books_env \<Rightarrow> ('f \<Rightarrow> string) \<Rightarrow> IntegrityReport \<Rightarrow> 'f books db \<Rightarrow> IntegrityReport \<times> 'f books db" where
  "reconcileShareDrift E fmt rep d =
    (if map_of (rp_RowCounts rep) ''transactions'' = None \<or> map_of (rp_RowCounts rep) ''portfolio_snapshot'' = None then (rep, d)
     else case qry (\<lambda>t. (share_sums (be_money E) (ledger_rows t), t)) d of
       (Inl _, d) \<Rightarrow> (rep, d)
     | (Inr ledger, d) \<Rightarrow> (case qry (\<lambda>t. (share_sums (be_money E) (snap_rows t), t)) d of
         (Inl _, d) \<Rightarrow> (rep, d)
       | (Inr snaps, d) \<Rightarrow> (rep\<lparr>rp_Recommendations := drift_findings (be_money E) fmt ledger snaps (rp_Recommendations rep)\<rparr>, d)))"

section \<open>The two engines\<close>

definition freelist_check :: "nat \<Rightarrow> IntegrityReport \<Rightarrow> IntegrityReport" where
  "freelist_check n rep = (if n > 1000
     then rep\<lparr>rp_FreelistCount := (False, n, clampAdminText (Some (''High freelist count ('' @ itoa n @
         '' pages). Consider VACUUM during a maintenance window.'')) 200),
       rp_Recommendations := rp_Recommendations rep @ [''Schedule a reviewed VACUUM maintenance window to reclaim freelist pages.'']\<rparr>
     else rep\<lparr>rp_FreelistCount := (True, n, clampAdminText (Some (itoa n @ '' pages (normal)'')) 200)\<rparr>)"

definition sqlite_verdict :: "IntegrityReport \<Rightarrow> IntegrityReport" where
  "sqlite_verdict rep =
    (let file_ok = fst (rp_IntegrityCheck rep) \<and> fst (rp_QuickCheck rep);
         all_passed = file_ok \<and> fst (rp_ForeignKeyCheck rep) \<and> fst (rp_FreelistCount rep)
     in if \<not> file_ok then rep\<lparr>rp_Overall := ''corrupted'', rp_Recommendations := rp_Recommendations rep @
          [''Database corruption detected; stop writes and inspect the database file before any restore.'']\<rparr>
        else if \<not> all_passed \<or> rp_Recommendations rep \<noteq> [] then rep\<lparr>rp_Overall := ''degraded''\<rparr>
        else rep)"

definition getSQLiteIntegrity :: "'f books_env \<Rightarrow> ('f \<Rightarrow> string) \<Rightarrow> engine \<Rightarrow> 'f books db \<Rightarrow> (books_error + IntegrityReport) \<times> 'f books db" where
  "getSQLiteIntegrity E fmt en d =
    (case (en_integrity en, en_quick en, en_fk en, en_freelist en, en_tables en) of
       (Some integrity, Some quick, Unsound violations, Some freelist, Some tabs) \<Rightarrow>
         (let rep = initial_report\<lparr>rp_IntegrityCheck := (integrity = ''ok'', integrity), rp_QuickCheck := (quick = ''ok'', quick),
                rp_ForeignKeyCheck := (violations = 0, violations, [])\<rparr>;
              (rep, d) = reconcileShareDrift E fmt (count_tables (en_count en) tabs (freelist_check freelist rep)) d
          in (Inr (sqlite_verdict rep), d))
     | _ \<Rightarrow> (Inl DbError, d))"

text \<open>On PostgreSQL the verdict is \<open>ok\<close> whatever was found, as the code says of itself.\<close>

definition getPGIntegrity :: "'f books_env \<Rightarrow> ('f \<Rightarrow> string) \<Rightarrow> engine \<Rightarrow> 'f books db \<Rightarrow> (books_error + IntegrityReport) \<times> 'f books db" where
  "getPGIntegrity E fmt en d =
    (case en_tables en of None \<Rightarrow> (Inl DbError, d)
     | Some tabs \<Rightarrow>
        (let fk = (case en_fk en of QueryError \<Rightarrow> (False, 0, ''pg_constraint_query_error'')
                | IterateError \<Rightarrow> (False, 0, ''pg_constraint_iterate_error'') | Unsound n \<Rightarrow> (n = 0, n, []));
             rep = initial_report\<lparr>rp_IntegrityCheck := (True, ''pg: connected (no per-page integrity check; rely on pg_stat_database for corruption detection)''),
                rp_QuickCheck := (True, ''pg: n/a (SQLite-only quick_check; checksum verification handled by PG WAL)''), rp_ForeignKeyCheck := fk,
                rp_FreelistCount := (True, 0, ''pg: n/a (autovacuum manages free space; check pg_stat_user_tables.n_dead_tup for bloat)'')\<rparr>;
             (rep, d) = reconcileShareDrift E fmt (count_tables (en_count en) tabs rep) d
         in (Inr (rep\<lparr>rp_Overall := ''ok''\<rparr>), d)))"

definition GetDBIntegrity :: "'f books_env \<Rightarrow> ('f \<Rightarrow> string) \<Rightarrow> engine \<Rightarrow> 'f books db \<Rightarrow> (books_error + IntegrityReport) \<times> 'f books db" where
  "GetDBIntegrity E fmt en d = (if be_dialect E = Postgres then getPGIntegrity E fmt en d else getSQLiteIntegrity E fmt en d)"

section \<open>The loop reports the first twenty drifts and counts the rest\<close>

definition drifting :: "'f money \<Rightarrow> (string \<Rightarrow> 'f \<times> 'f \<times> 'f) \<Rightarrow> string \<Rightarrow> bool" where
  "drifting M drift c \<longleftrightarrow> \<not> mo_le M (mo_abs M (snd (snd (drift c)))) (HeldSharesDust M)"

lemma drift_loop_exact:
  "appended \<le> maxShareDriftFindings \<Longrightarrow>
   drift_loop M fmt drift cs appended seen recs =
    (let found = filter (drifting M drift) cs; shown = take (maxShareDriftFindings - appended) found in
     (recs @ map (\<lambda>c. drift_text fmt c (drift c)) shown, appended + length shown, seen + length found))"
proof (induction cs arbitrary: appended seen recs)
  case (Cons c cs)
  show ?case
  proof (cases "drifting M drift c \<and> appended < maxShareDriftFindings")
    case True
    then have "maxShareDriftFindings - appended = Suc (maxShareDriftFindings - Suc appended)" by (simp add: Suc_diff_Suc)
    with True Cons.IH [of "Suc appended"] show ?thesis by (simp add: drifting_def Let_def)
  next
    case False
    with Cons show ?thesis by (auto simp: drifting_def Let_def)
  qed
qed (simp add: Let_def)

lemma drift_findings_exact:
  "drift_findings M fmt ledger snaps recs =
    (let drift = drift_of M ledger snaps; found = filter (drifting M drift) (sortedFundCodes ledger snaps) in
     recs @ map (\<lambda>c. drift_text fmt c (drift c)) (take maxShareDriftFindings found) @
     (if maxShareDriftFindings < length found
      then [''share_drift_truncated:'' @ itoa (length found - maxShareDriftFindings) @ ''_more_funds_beyond_cap''] else []))"
  by (auto simp: drift_findings_def drift_loop_exact Let_def)

lemma set_sortedFundCodes: "set (sortedFundCodes a b) = fst ` set a \<union> fst ` set b"
  by (auto simp: sortedFundCodes_def)

end
