(* ===== verification/IntegrityProps.thy ===== *)
theory IntegrityProps
  imports Integrity
begin

text \<open>
  What the report makes of books that are settled: with one position for each fund it finds no drift, and with two
  portfolios that hold the same fund it does.
\<close>

section \<open>The two sums\<close>

lemma map_of_tabulate: "map_of (map (\<lambda>c. (c, f c)) cs) c = (if c \<in> set cs then Some (f c) else None)"
  by (induction cs) auto

lemma sums_get_share_sums:
  assumes "c \<noteq> []"
  shows "sums_get M (share_sums M rows) c =
    (let rs = filter (\<lambda>r. fst r = Some c) rows in if rs = [] then zero M else mo_sum M (map (\<lambda>r. coalesce (snd r) (zero M)) rs))"
proof -
  have "c \<in> set (List.map_filter fst rows) \<longleftrightarrow> filter (\<lambda>r. fst r = Some c) rows \<noteq> []"
    by (auto simp: List.map_filter_def filter_empty_conv image_iff) force+
  with assms show ?thesis by (simp add: sums_get_def share_sums_def Let_def map_of_tabulate coalesce_def)
qed

lemma sums_get_ledger: "c \<noteq> [] \<Longrightarrow> sums_get M (share_sums M (ledger_rows t)) c = coalesce (sum_of M tn_change (rows_of c t)) (zero M)"
  by (simp add: sums_get_share_sums ledger_rows_def filter_map o_def rows_of_def sum_of_def Let_def coalesce_def)

lemma one_row: "distinct (map k rows) \<Longrightarrow> r \<in> set rows \<Longrightarrow> filter (\<lambda>x. k x = k r) rows = [r]"
  by (induction rows) (auto simp: filter_empty_conv image_iff)

lemma sums_get_snaps:
  assumes "c \<noteq> []" "distinct (map sn_code (bk_snaps t))" "s \<in> set (bk_snaps t)" "sn_code s = c"
  shows "sums_get M (share_sums M (snap_rows t)) c = mo_sum M [coalesce (sn_held s) (zero M)]"
proof -
  have "filter (\<lambda>x. sn_code x = c) (bk_snaps t) = [s]" using one_row [OF assms(2,3)] assms(4) by simp
  then show ?thesis by (simp add: sums_get_share_sums [OF assms(1)] snap_rows_def filter_map o_def Let_def)
qed

lemma sums_get_no_snap: "c \<noteq> [] \<Longrightarrow> c \<notin> sn_code ` set (bk_snaps t) \<Longrightarrow> sums_get M (share_sums M (snap_rows t)) c = zero M"
  by (auto simp: sums_get_share_sums snap_rows_def filter_map o_def Let_def filter_empty_conv)

section \<open>No drift\<close>

text \<open>
  What is asked of the arithmetic: the sum of one amount is that amount, zero is round, a finite amount differs
  from itself by no more than dust, and so does dust from zero.
\<close>

definition fair :: "'f money \<Rightarrow> bool" where
  "fair M \<longleftrightarrow> (\<forall>x. mo_sum M [x] = x) \<and> RoundShares M (zero M) = zero M \<and> mo_finite M (zero M) \<and>
     (\<forall>x. mo_finite M x \<longrightarrow> mo_le M (mo_abs M (mo_sub M x x)) (HeldSharesDust M)) \<and>
     (\<forall>x. mo_less M (mo_neg M (HeldSharesDust M)) x \<longrightarrow> mo_less M x (HeldSharesDust M) \<longrightarrow>
        mo_le M (mo_abs M (mo_sub M x (zero M))) (HeldSharesDust M))"

text \<open>Four decimals of the sum are a finite number that rounding leaves alone.\<close>

definition steady :: "'f money \<Rightarrow> 'f \<Rightarrow> bool" where
  "steady M v \<longleftrightarrow> mo_finite M (RoundShares M v) \<and> RoundShares M (RoundShares M v) = RoundShares M v"

definition one_position_each :: "'f books_env \<Rightarrow> 'f books \<Rightarrow> bool" where
  "one_position_each E t \<longleftrightarrow> distinct (map sn_code (bk_snaps t)) \<and>
     (\<forall>s \<in> set (bk_snaps t). rows_of (sn_code s) t = [] \<longrightarrow> sn_held s = Some (zero (be_money E))) \<and>
     (\<forall>c. rows_of c t \<noteq> [] \<longrightarrow> steady (be_money E) (coalesce (sum_of (be_money E) tn_change (rows_of c t)) (zero (be_money E))))"

lemma settled_no_drift:
  assumes fair: "fair M" and v: "\<And>x. v = Some x \<Longrightarrow> steady M x"
  shows "\<not> drifting M (\<lambda>_. let l = RoundShares M (coalesce v (zero M)); s = RoundShares M (settle_shares M v) in (l, s, mo_sub M l s)) c"
proof (cases v)
  case None
  with fair show ?thesis by (simp add: drifting_def settle_shares_def coalesce_def fair_def Let_def)
next
  case (Some x)
  with v have "steady M x" by simp
  with fair Some show ?thesis by (auto simp: drifting_def settle_shares_def coalesce_def fair_def steady_def Let_def)
qed

lemma no_drift:
  assumes fair: "fair (be_money E)" and ok: "books_ok E t" and one: "one_position_each E t" and c: "c \<noteq> []"
  shows "\<not> drifting (be_money E) (drift_of (be_money E) (share_sums (be_money E) (ledger_rows t)) (share_sums (be_money E) (snap_rows t))) c"
proof -
  let ?M = "be_money E" and ?v = "sum_of (be_money E) tn_change (rows_of c t)"
  have distinct: "distinct (map sn_code (bk_snaps t))" using one by (simp add: one_position_each_def)
  have zero: "RoundShares ?M (zero ?M) = zero ?M" and single: "mo_sum ?M [x] = x" for x using fair by (simp_all add: fair_def)
  have snaps: "RoundShares ?M (sums_get ?M (share_sums ?M (snap_rows t)) c) = RoundShares ?M (settle_shares ?M ?v)"
  proof (cases "rows_of c t = []")
    case False
    then obtain r where "r \<in> set (bk_tx t)" "tn_code r = Some c" by (meson in_rows_of last_in_set)
    with ok c have "settled E c t" by (auto simp: books_ok_def)
    then obtain s where "s \<in> set (bk_snaps t)" "sn_code s = c" "sn_held s = Some (settle_shares ?M ?v)"
      by (auto simp: settled_def ledger_held_def)
    then show ?thesis using sums_get_snaps [OF c distinct, of s ?M] by (simp add: single coalesce_def)
  next
    case True
    then have v: "settle_shares ?M ?v = zero ?M" by (simp add: sum_of_def settle_shares_def)
    have "sums_get ?M (share_sums ?M (snap_rows t)) c = zero ?M"
    proof (cases "c \<in> sn_code ` set (bk_snaps t)")
      case True
      then obtain s where s: "s \<in> set (bk_snaps t)" "sn_code s = c" by blast
      with \<open>rows_of c t = []\<close> one have "sn_held s = Some (zero ?M)" by (auto simp: one_position_each_def)
      with sums_get_snaps [OF c distinct s, of ?M] show ?thesis by (simp add: single coalesce_def)
    qed (rule sums_get_no_snap [OF c])
    with v show ?thesis by simp
  qed
  have "steady ?M x" if "?v = Some x" for x
    using one that by (auto simp: one_position_each_def sum_of_def coalesce_def split: if_splits)
  from settled_no_drift [OF fair this, of _ c] show ?thesis
    unfolding drifting_def drift_of_def Let_def snaps sums_get_ledger [OF c] by simp
qed

lemma codes_nonempty: "c \<in> set (sortedFundCodes (share_sums M rs) (share_sums M rs')) \<Longrightarrow> c \<noteq> []"
  by (auto simp: set_sortedFundCodes share_sums_def Let_def)

lemma qry_reads: "qry (\<lambda>t. (f t, t)) d = (r, d1) \<Longrightarrow> tables d1 = tables d \<and> (\<forall>a. r = Inr a \<longrightarrow> a = f (tables d))"
  by (cases r) (auto simp: qry_def wrap_Inl_iff dest!: stmt_Inl_tables stmt_Inr_tables)

lemma reconcile_quiet:
  assumes "fair (be_money E)" "books_ok E (tables d)" "one_position_each E (tables d)" "reconcileShareDrift E fmt rep d = (rep', d')"
  shows "rep' = rep \<and> tables d' = tables d"
proof -
  let ?M = "be_money E" and ?t = "tables d"
  have none: "filter (drifting ?M (drift_of ?M (share_sums ?M (ledger_rows ?t)) (share_sums ?M (snap_rows ?t))))
      (sortedFundCodes (share_sums ?M (ledger_rows ?t)) (share_sums ?M (snap_rows ?t))) = []"
    unfolding filter_empty_conv by (rule ballI, rule no_drift [OF assms(1-3)], erule codes_nonempty)
  have same: "drift_findings ?M fmt (share_sums ?M (ledger_rows ?t)) (share_sums ?M (snap_rows ?t)) recs = recs" for recs
    by (simp add: drift_findings_exact none)
  obtain r1 d1 where q1: "qry (\<lambda>t. (share_sums ?M (ledger_rows t), t)) d = (r1, d1)" by fastforce
  obtain r2 d2 where q2: "qry (\<lambda>t. (share_sums ?M (snap_rows t), t)) d1 = (r2, d2)" by fastforce
  note t1 = qry_reads [OF q1] and t2 = qry_reads [OF q2]
  from assms(4) t1 t2 same show ?thesis
    by (cases r1; cases r2) (auto simp: reconcileShareDrift_def q1 q2 split: if_splits)
qed

section \<open>The verdict\<close>

definition engine_fine :: "engine \<Rightarrow> bool" where
  "engine_fine en \<longleftrightarrow> en_integrity en = Some ''ok'' \<and> en_quick en = Some ''ok'' \<and> en_fk en = Unsound 0 \<and>
     (case en_freelist en of None \<Rightarrow> False | Some n \<Rightarrow> n \<le> 1000) \<and>
     (case en_tables en of None \<Rightarrow> False | Some tabs \<Rightarrow> list_all (\<lambda>tab. en_count en tab \<noteq> None) tabs)"

lemma count_tables_fine: "list_all (\<lambda>tab. cnt tab \<noteq> None) tabs \<Longrightarrow>
    rp_Recommendations (count_tables cnt tabs rep) = rp_Recommendations rep \<and> rp_Overall (count_tables cnt tabs rep) = rp_Overall rep \<and>
    rp_IntegrityCheck (count_tables cnt tabs rep) = rp_IntegrityCheck rep \<and> rp_QuickCheck (count_tables cnt tabs rep) = rp_QuickCheck rep \<and>
    rp_ForeignKeyCheck (count_tables cnt tabs rep) = rp_ForeignKeyCheck rep \<and> rp_FreelistCount (count_tables cnt tabs rep) = rp_FreelistCount rep"
  by (induction tabs arbitrary: rep) auto

text \<open>
  C33. While the books are settled, as every write to them leaves them, and each fund has one position, the
  reconciliation agrees with the writer: on either engine the report of a sound database says ok without a
  recommendation, and making it writes nothing.
\<close>

theorem settled_books_report_ok:
  assumes "fair (be_money E)" "books_ok E (tables d)" "one_position_each E (tables d)" "engine_fine en"
  shows "\<exists>rep d'. GetDBIntegrity E fmt en d = (Inr rep, d') \<and> rp_Overall rep = ''ok'' \<and> rp_Recommendations rep = [] \<and>
    tables d' = tables d"
proof -
  obtain n tabs where en: "en_integrity en = Some ''ok''" "en_quick en = Some ''ok''" "en_fk en = Unsound 0" "en_freelist en = Some n" "n \<le> 1000"
    "en_tables en = Some tabs" "list_all (\<lambda>tab. en_count en tab \<noteq> None) tabs"
    using assms(4) by (auto simp: engine_fine_def split: option.splits)
  note quiet = reconcile_quiet [OF assms(1-3)] and counted = count_tables_fine [OF en(7)]
  show ?thesis
  proof (cases "be_dialect E")
    case Sqlite
    define rep0 where "rep0 = count_tables (en_count en) tabs (freelist_check n (initial_report\<lparr>rp_IntegrityCheck := (True, ''ok''),
      rp_QuickCheck := (True, ''ok''), rp_ForeignKeyCheck := (True, 0, [])\<rparr>))"
    obtain rep' d' where run: "reconcileShareDrift E fmt rep0 d = (rep', d')" by (cases "reconcileShareDrift E fmt rep0 d")
    have "sqlite_verdict rep0 = rep0" "rp_Overall rep0 = ''ok''" "rp_Recommendations rep0 = []"
      using en(5) counted by (simp_all add: sqlite_verdict_def rep0_def freelist_check_def initial_report_def)
    with run quiet [OF run] show ?thesis
      by (simp add: GetDBIntegrity_def Sqlite getSQLiteIntegrity_def en rep0_def)
  next
    case Postgres
    define rep0 where "rep0 = count_tables (en_count en) tabs (initial_report\<lparr>
      rp_IntegrityCheck := (True, ''pg: connected (no per-page integrity check; rely on pg_stat_database for corruption detection)''),
      rp_QuickCheck := (True, ''pg: n/a (SQLite-only quick_check; checksum verification handled by PG WAL)''), rp_ForeignKeyCheck := (True, 0, []),
      rp_FreelistCount := (True, 0, ''pg: n/a (autovacuum manages free space; check pg_stat_user_tables.n_dead_tup for bloat)'')\<rparr>)"
    obtain rep' d' where run: "reconcileShareDrift E fmt rep0 d = (rep', d')" by (cases "reconcileShareDrift E fmt rep0 d")
    have "rp_Recommendations rep0 = []" using counted by (simp add: rep0_def initial_report_def)
    with run quiet [OF run] show ?thesis
      by (simp add: GetDBIntegrity_def Postgres getPGIntegrity_def en rep0_def)
  qed
qed

section \<open>One fund in two portfolios\<close>

lemma whole_fair: "fair whole"
  by (simp add: fair_def whole_def RoundShares_def settled_zero_def zero_def HeldSharesDust_def)

lemma whole_steady: "steady whole v"
  by (simp add: steady_def whole_def RoundShares_def settled_zero_def zero_def)

definition fine_engine :: engine where
  "fine_engine = \<lparr>en_integrity = Some ''ok'', en_quick = Some ''ok'', en_fk = Unsound 0, en_freelist = Some 3,
     en_tables = Some [''portfolio_snapshot'', ''transactions''], en_count = \<lambda>_. Some 1\<rparr>"

theorem settled_books_report_ok_witness:
  "\<exists>rep. fst (GetDBIntegrity example_env (\<lambda>_. ''x'') fine_engine \<lparr>tables = example_books, faults = []\<rparr>) = Inr rep \<and>
     rp_Overall rep = ''ok'' \<and> rp_Recommendations rep = []"
proof -
  have "fair (be_money example_env)" by (simp add: example_env_def whole_fair)
  moreover have "one_position_each example_env example_books"
    by (simp add: one_position_each_def example_env_def example_books_def example_txn_def rows_of_def whole_steady)
  moreover have "engine_fine fine_engine" by (simp add: engine_fine_def fine_engine_def)
  ultimately show ?thesis
    using settled_books_report_ok [of example_env "\<lparr>tables = example_books, faults = []\<rparr>" fine_engine "\<lambda>_. ''x''"] example_ok
    by fastforce
qed

text \<open>
  A position of a second portfolio carries the sum of the whole fund too, so the sum over the portfolios counts it
  twice and the report is degraded, though a recalculation wrote every row.
\<close>

definition second_portfolio :: "int books db" where
  "second_portfolio = snd (RecalcForPortfolio example_env ''000001'' 2 ModeLight \<lparr>tables = example_books, faults = []\<rparr>)"

lemma two_portfolios_drift:
  "map sn_held (bk_snaps (tables second_portfolio)) = [Some 5, Some 5]"
  "map_sum id rp_Overall (fst (GetDBIntegrity example_env (\<lambda>_. ''x'') fine_engine second_portfolio)) = Inr ''degraded''"
  by code_simp+

end
