(* ===== verification/SourceEvents.thy ===== *)
theory SourceEvents
  imports AuthStore
begin

text \<open>
  Source events (\<open>src/internal/service/portfolio/source_events.go\<close>): what an agent found about a security, kept
  for reading. The clock and the engine's default for \<open>created_at\<close> are arguments, as texts.
\<close>

record SourceEvent =
  se_ID :: int
  se_Title :: string
  se_URL :: "string option"
  se_Source :: string
  se_Snippet :: "string option"
  se_Query :: "string option"
  se_Code :: "string option"
  se_Name :: "string option"
  se_IsRead :: int
  se_IsUseful :: int
  se_FetchedAt :: string
  se_CreatedAt :: string

record event_table =
  et_rows :: "SourceEvent list"
  et_next :: int

record CreateSourceEventInput =
  ce_Title :: string
  ce_URL :: "string option"
  ce_Source :: "string option"
  ce_Snippet :: "string option"
  ce_Query :: "string option"
  ce_Code :: "string option"
  ce_Name :: "string option"

record GetSourceEventsOptions =
  go_Limit :: int
  go_Offset :: int
  go_Code :: string
  go_Source :: string
  go_IsRead :: "int option"
  go_ShowRead :: bool

record MarkSourceEventInput =
  me_IsRead :: "bool option"
  me_IsUseful :: "bool option"

datatype event_error = Refused string | EventDbError

type_synonym 'a event_proc = "(event_table db, event_error, 'a) proc"

definition esql :: "(event_table \<Rightarrow> 'a \<times> event_table) \<Rightarrow> 'a event_proc" where
  "esql f = wrap (\<lambda>_. EventDbError) (stmt f)"

section \<open>Creating\<close>

definition longer :: "string option \<Rightarrow> nat \<Rightarrow> bool" where
  "longer s n = (case s of None \<Rightarrow> False | Some v \<Rightarrow> length v > n)"

definition trimmed_or_none :: "string option \<Rightarrow> string option" where
  "trimmed_or_none s = (case s of None \<Rightarrow> None | Some v \<Rightarrow> if TrimSpace v = [] then None else Some (TrimSpace v))"

text \<open>The input as it is stored; the source is given last, as the answer of the default.\<close>

definition checked_event :: "CreateSourceEventInput \<Rightarrow> event_error + CreateSourceEventInput" where
  "checked_event i =
    (let title = TrimSpace (ce_Title i); code = map_option TrimSpace (ce_Code i); name = map_option TrimSpace (ce_Name i);
         source = (case ce_Source i of None \<Rightarrow> ''websearch'' | Some s \<Rightarrow> if s = [] then ''websearch'' else TrimSpace s)
     in if title = [] then Inl (Refused ''title is required'')
        else if length title > 500 then Inl (Refused ''title max 500 chars'')
        else if longer (ce_URL i) 2000 then Inl (Refused ''url max 2000 chars'')
        else if longer (ce_Snippet i) 4000 then Inl (Refused ''snippet max 4000 chars'')
        else if longer (ce_Query i) 500 then Inl (Refused ''query max 500 chars'')
        else if longer code 32 then Inl (Refused ''related_security_code max 32 chars'')
        else if longer name 200 then Inl (Refused ''related_security_name max 200 chars'')
        else if length source > 100 then Inl (Refused ''source max 100 chars'')
        else Inr (i\<lparr>ce_Title := title, ce_Source := Some source, ce_Code := trimmed_or_none (ce_Code i), ce_Name := trimmed_or_none (ce_Name i)\<rparr>))"

definition event_row :: "int \<Rightarrow> string \<Rightarrow> string \<Rightarrow> CreateSourceEventInput \<Rightarrow> SourceEvent" where
  "event_row n fetched created v = \<lparr>se_ID = n, se_Title = ce_Title v, se_URL = ce_URL v,
     se_Source = (case ce_Source v of None \<Rightarrow> [] | Some s \<Rightarrow> s), se_Snippet = ce_Snippet v, se_Query = ce_Query v,
     se_Code = ce_Code v, se_Name = ce_Name v, se_IsRead = 0, se_IsUseful = 0, se_FetchedAt = fetched, se_CreatedAt = created\<rparr>"

definition insert_event :: "string \<Rightarrow> string \<Rightarrow> CreateSourceEventInput \<Rightarrow> event_table \<Rightarrow> int \<times> event_table" where
  "insert_event fetched created v t =
    (et_next t, t\<lparr>et_rows := et_rows t @ [event_row (et_next t) fetched created v], et_next := et_next t + 1\<rparr>)"

definition getSourceEventByID :: "int \<Rightarrow> SourceEvent option event_proc" where
  "getSourceEventByID n = esql (\<lambda>t. (select1 (\<lambda>e. se_ID e = n) (et_rows t), t))"

definition CreateSourceEvent :: "string \<Rightarrow> string \<Rightarrow> CreateSourceEventInput \<Rightarrow> SourceEvent option event_proc" where
  "CreateSourceEvent fetched created i =
    andThen (check (checked_event i)) (\<lambda>v. andThen (esql (insert_event fetched created v)) getSourceEventByID)"

section \<open>Reading\<close>

definition clampSourceEventsLimit :: "int \<Rightarrow> int" where
  "clampSourceEventsLimit n = (if n \<le> 0 then 30 else if n > 100 then 100 else n)"

text \<open>A filter that is blank after trimming is none; a long one is cut.\<close>

definition text_filter :: "string \<Rightarrow> nat \<Rightarrow> string option" where
  "text_filter s n = (let v = take n (TrimSpace s) in if s = [] \<or> v = [] then None else Some v)"

definition read_filter :: "GetSourceEventsOptions \<Rightarrow> int option" where
  "read_filter o' = (if go_ShowRead o' then go_IsRead o' else Some (case go_IsRead o' of None \<Rightarrow> 0 | Some r \<Rightarrow> r))"

definition wanted :: "GetSourceEventsOptions \<Rightarrow> SourceEvent \<Rightarrow> bool" where
  "wanted o' e \<longleftrightarrow> (case text_filter (go_Code o') 32 of None \<Rightarrow> True | Some c \<Rightarrow> se_Code e = Some c) \<and>
     (case text_filter (go_Source o') 100 of None \<Rightarrow> True | Some s \<Rightarrow> se_Source e = s) \<and>
     (case read_filter o' of None \<Rightarrow> True | Some r \<Rightarrow> se_IsRead e = r)"

definition text_key :: "string \<Rightarrow> nat list" where "text_key = map of_char"

text \<open>\<open>ORDER BY fetched_at DESC, id DESC\<close>.\<close>

definition newest_first :: "SourceEvent list \<Rightarrow> SourceEvent list" where
  "newest_first rows = rev (sort_key (\<lambda>e. text_key (se_FetchedAt e)) (sort_key se_ID rows))"

definition page_offset :: "int \<Rightarrow> nat" where
  "page_offset n = (if n < 0 then 0 else if n > 100000 then 100000 else nat n)"

definition page :: "GetSourceEventsOptions \<Rightarrow> SourceEvent list \<Rightarrow> SourceEvent list" where
  "page o' rows = take (nat (clampSourceEventsLimit (go_Limit o'))) (drop (page_offset (go_Offset o')) (newest_first (filter (wanted o') rows)))"

definition GetSourceEvents :: "GetSourceEventsOptions \<Rightarrow> SourceEvent list event_proc" where
  "GetSourceEvents o' = esql (\<lambda>t. (page o' (et_rows t), t))"

section \<open>Marking\<close>

definition boolToInt :: "bool \<Rightarrow> int" where "boolToInt b = (if b then 1 else 0)"

definition set_marks :: "MarkSourceEventInput \<Rightarrow> SourceEvent \<Rightarrow> SourceEvent" where
  "set_marks m e = e\<lparr>se_IsRead := (case me_IsRead m of None \<Rightarrow> se_IsRead e | Some b \<Rightarrow> boolToInt b),
     se_IsUseful := (case me_IsUseful m of None \<Rightarrow> se_IsUseful e | Some b \<Rightarrow> boolToInt b)\<rparr>"

definition MarkSourceEventRead :: "int \<Rightarrow> MarkSourceEventInput \<Rightarrow> bool event_proc" where
  "MarkSourceEventRead n m =
    (if n \<le> 0 then throw (Refused ''id is required'')
     else if me_IsRead m = None \<and> me_IsUseful m = None then ret False
     else andThen (esql (\<lambda>t. (count_where (\<lambda>e. se_ID e = n) (et_rows t),
         t\<lparr>et_rows := update_where (\<lambda>e. se_ID e = n) (set_marks m) (et_rows t)\<rparr>))) (\<lambda>k. ret (0 < k)))"

section \<open>What was found is listed until it is marked read\<close>

definition events_ok :: "event_table \<Rightarrow> bool" where
  "events_ok t \<longleftrightarrow> distinct (map se_ID (et_rows t)) \<and> (\<forall>e \<in> set (et_rows t). 0 < se_ID e \<and> se_ID e < et_next t) \<and> 0 < et_next t"

lemma set_newest_first [simp]: "set (newest_first rows) = set rows"
  by (simp add: newest_first_def)

lemma sort_key_append_max: "(\<And>x. x \<in> set xs \<Longrightarrow> k x \<le> k y) \<Longrightarrow> sort_key k (xs @ [y]) = sort_key k xs @ [y]"
proof (induction xs)
  case (Cons x xs)
  have "insort_key k x (zs @ [y]) = insort_key k x zs @ [y]" if "k x \<le> k y" for zs :: "'a list"
    using that by (induction zs) auto
  with Cons show ?case by simp
qed simp

lemma newest_on_top:
  assumes "\<And>e. e \<in> set rows \<Longrightarrow> se_ID e \<le> se_ID n \<and> text_key (se_FetchedAt e) \<le> text_key (se_FetchedAt n)"
  shows "newest_first (rows @ [n]) = n # newest_first rows"
proof -
  have "sort_key se_ID (rows @ [n]) = sort_key se_ID rows @ [n]" using assms by (intro sort_key_append_max) auto
  moreover have "sort_key (\<lambda>e. text_key (se_FetchedAt e)) (sort_key se_ID rows @ [n]) =
      sort_key (\<lambda>e. text_key (se_FetchedAt e)) (sort_key se_ID rows) @ [n]"
    using assms by (intro sort_key_append_max) auto
  ultimately show ?thesis by (simp add: newest_first_def)
qed

lemma page_limit: "length (page o' rows) \<le> 100"
  by (simp add: page_def clampSourceEventsLimit_def) linarith

lemma find_snoc: "\<not> (\<exists>x \<in> set xs. p x) \<Longrightarrow> List.find p (xs @ [y]) = (if p y then Some y else None)"
  by (induction xs) auto

lemma CreateSourceEvent_Inr:
  assumes ok: "events_ok (tables d)" and run: "CreateSourceEvent fetched created i d = (Inr e, d')"
  shows "\<exists>v. checked_event i = Inr v \<and> e = Some (event_row (et_next (tables d)) fetched created v) \<and>
    tables d' = snd (insert_event fetched created v (tables d)) \<and> events_ok (tables d')"
proof -
  obtain v where v: "checked_event i = Inr v" using run by (auto simp: CreateSourceEvent_def andThen_Inr_iff)
  let ?t = "snd (insert_event fetched created v (tables d))"
  have sel: "e = select1 (\<lambda>x. se_ID x = et_next (tables d)) (et_rows ?t)" "tables d' = ?t"
    using run v by (auto simp: CreateSourceEvent_def andThen_Inr_iff getSourceEventByID_def esql_def insert_event_def dest!: stmt_Inr_tables)
  have "\<not> (\<exists>x \<in> set (et_rows (tables d)). se_ID x = et_next (tables d))" using ok by (auto simp: events_ok_def)
  then have "e = Some (event_row (et_next (tables d)) fetched created v)"
    using sel(1) by (auto simp: select1_def insert_event_def event_row_def find_snoc)
  moreover have "events_ok ?t" using ok by (auto simp: events_ok_def insert_event_def event_row_def)
  ultimately show ?thesis using v sel(2) by simp
qed

lemma mark_frame:
  assumes "events_ok (tables d)" "MarkSourceEventRead n m d = (r, d')"
  shows "events_ok (tables d') \<and> filter (\<lambda>e. se_ID e \<noteq> n) (et_rows (tables d')) = filter (\<lambda>e. se_ID e \<noteq> n) (et_rows (tables d))"
proof -
  let ?t = "(tables d)\<lparr>et_rows := update_where (\<lambda>e. se_ID e = n) (set_marks m) (et_rows (tables d))\<rparr>"
  have frame: "filter (\<lambda>e. se_ID e \<noteq> n) (update_where (\<lambda>e. se_ID e = n) (set_marks m) rows) = filter (\<lambda>e. se_ID e \<noteq> n) rows" for rows
    by (induction rows) (auto simp: update_where_def set_marks_def)
  have "map se_ID (update_where (\<lambda>e. se_ID e = n) (set_marks m) rows) = map se_ID rows" for rows
    by (rule map_key_update_where) (simp add: set_marks_def)
  with assms(1) have "events_ok ?t"
    by (auto simp: events_ok_def set_update_where set_marks_def)
  moreover have "tables d' = tables d \<or> tables d' = ?t"
    using assms(2)
    by (auto simp: MarkSourceEventRead_def esql_def wrap_Inl_iff elim!: andThenE dest!: stmt_Inr_tables stmt_Inl_tables split: if_splits)
  ultimately show ?thesis using assms(1) frame by auto
qed


definition example_event :: CreateSourceEventInput where
  "example_event = \<lparr>ce_Title = '' rate cut '', ce_URL = None, ce_Source = None, ce_Snippet = None, ce_Query = None, ce_Code = Some ''000001'',
     ce_Name = None\<rparr>"

definition unread_page :: GetSourceEventsOptions where
  "unread_page = \<lparr>go_Limit = 0, go_Offset = 0, go_Code = ''000001'', go_Source = [], go_IsRead = None, go_ShowRead = False\<rparr>"

definition no_events :: "event_table db" where
  "no_events = \<lparr>tables = \<lparr>et_rows = [], et_next = 1\<rparr>, faults = []\<rparr>"


end
