(* ===== verification/Xirr.thy ===== *)
theory Xirr
  imports Complex_Main Transactions DcaPlans
begin

text \<open>
  The annualised return of a fund and of a portfolio: \<open>src/internal/service/portfolio/xirr.go\<close> and
  \<open>xirr_calc.go\<close>. The solver tries Newton's iteration from seven guesses, then bisects; both loops have a bound, so
  it always ends. \<open>math.Pow\<close>, \<open>math.Max\<close>, \<open>math.Min\<close>, the infinity and \<open>time.Parse\<close> are arguments, as is the
  arithmetic of float64.
\<close>

record 'f solver =
  xi_money :: "'f money"
  xi_pow :: "'f \<Rightarrow> 'f \<Rightarrow> 'f"
  xi_max :: "'f \<Rightarrow> 'f \<Rightarrow> 'f"
  xi_min :: "'f \<Rightarrow> 'f \<Rightarrow> 'f"
  xi_inf :: 'f
  xi_parse :: "string \<Rightarrow> string \<Rightarrow> time option"

record 'f xirrCashflow =
  cf_Amount :: 'f
  cf_Years :: 'f

record 'f xirrTransaction =
  xt_Amount :: 'f
  xt_Direction :: string
  xt_TradeTime :: time
  xt_Fee :: 'f

text \<open>The literals of the source: a quotient of two integers is correctly rounded.\<close>

definition lit :: "'f money \<Rightarrow> int \<Rightarrow> int \<Rightarrow> 'f" where
  "lit M n d = mo_div M (mo_int M n) (mo_int M d)"

definition root_tolerance :: "'f money \<Rightarrow> 'f" where "root_tolerance M = lit M 1 1000"
definition probe_step :: "'f money \<Rightarrow> 'f" where "probe_step M = lit M 1 1000000"
definition flat_slope :: "'f money \<Rightarrow> 'f" where "flat_slope M = lit M 1 100000000000000"
definition same_rate :: "'f money \<Rightarrow> 'f" where "same_rate M = lit M 1 1000000000"
definition lowest_rate :: "'f money \<Rightarrow> 'f" where "lowest_rate M = lit M (- 999) 1000"

section \<open>Cash flows\<close>

text \<open>\<open>Duration.Hours\<close>: whole hours and the rest, with the division that truncates.\<close>

definition hours :: "'f money \<Rightarrow> duration \<Rightarrow> 'f" where
  "hours M d = (let h = sgn d * (\<bar>d\<bar> div Hour) in
     mo_add M (mo_int M h) (mo_div M (mo_int M (d - h * Hour)) (mo_int M Hour)))"

definition flow_amount :: "'f money \<Rightarrow> 'f xirrTransaction \<Rightarrow> 'f" where
  "flow_amount M x =
    (if xt_Direction x = ''buy'' then mo_neg M (mo_add M (xt_Amount x) (xt_Fee x))
     else if xt_Direction x = ''sell'' then mo_sub M (xt_Amount x) (xt_Fee x)
     else if xt_Direction x = ''dividend'' then xt_Amount x
     else zero M)"

definition buildXIRRCashflows :: "'f money \<Rightarrow> 'f xirrTransaction list \<Rightarrow> 'f \<Rightarrow> 'f xirrCashflow list" where
  "buildXIRRCashflows M txs current =
    (if txs = [] then []
     else map (\<lambda>x. \<lparr>cf_Amount = flow_amount M x,
         cf_Years = mo_div M (mo_div M (hours M (xt_TradeTime (last txs) - xt_TradeTime x)) (mo_int M 24)) (mo_int M 365)\<rparr>) txs @
       (if mo_less M (zero M) current then [\<lparr>cf_Amount = current, cf_Years = zero M\<rparr>] else []))"

section \<open>The solver\<close>

definition npv :: "'f solver \<Rightarrow> 'f xirrCashflow list \<Rightarrow> 'f \<Rightarrow> 'f" where
  "npv S cfs rate = (let M = xi_money S in
     foldl (\<lambda>total c. mo_add M total (mo_mul M (cf_Amount c)
       (xi_pow S (mo_add M (mo_int M 1) rate) (xi_max S (cf_Years c) (lit M 1 10000000000))))) (zero M) cfs)"

definition near_zero :: "'f solver \<Rightarrow> ('f \<Rightarrow> 'f) \<Rightarrow> 'f \<Rightarrow> bool" where
  "near_zero S f rate = (let M = xi_money S in mo_less M (mo_abs M (f rate)) (root_tolerance M))"

definition slope :: "'f solver \<Rightarrow> ('f \<Rightarrow> 'f) \<Rightarrow> 'f \<Rightarrow> 'f" where
  "slope S f rate = (let M = xi_money S in mo_div M (mo_sub M (f (mo_add M rate (probe_step M))) (f rate)) (probe_step M))"

definition newton_step :: "'f solver \<Rightarrow> ('f \<Rightarrow> 'f) \<Rightarrow> 'f \<Rightarrow> 'f" where
  "newton_step S f rate = (let M = xi_money S in mo_sub M rate (mo_div M (f rate) (slope S f rate)))"

definition clamp_rate :: "'f solver \<Rightarrow> 'f \<Rightarrow> 'f" where
  "clamp_rate S r = (let M = xi_money S in xi_max S (lowest_rate M) (xi_min S r (mo_int M 1000000)))"

text \<open>\<open>previous\<close> is the rate of the turn before, infinity at first.\<close>

fun newton :: "'f solver \<Rightarrow> ('f \<Rightarrow> 'f) \<Rightarrow> nat \<Rightarrow> 'f \<Rightarrow> 'f \<Rightarrow> 'f option" where
  "newton S f 0 rate previous = None"
| "newton S f (Suc n) rate previous =
    (let M = xi_money S in
     if near_zero S f rate then Some rate
     else if mo_less M (mo_abs M (slope S f rate)) (flat_slope M) then None
     else let nxt = newton_step S f rate in
       if mo_less M (mo_abs M (mo_sub M nxt previous)) (same_rate M) then Some nxt
       else newton S f n (clamp_rate S nxt) rate)"

fun first_found :: "('a \<Rightarrow> 'b option) \<Rightarrow> 'a list \<Rightarrow> 'b option" where
  "first_found g [] = None"
| "first_found g (x # xs) = (case g x of Some y \<Rightarrow> Some y | None \<Rightarrow> first_found g xs)"

fun bisect :: "'f solver \<Rightarrow> ('f \<Rightarrow> 'f) \<Rightarrow> nat \<Rightarrow> 'f \<Rightarrow> 'f \<Rightarrow> 'f option" where
  "bisect S f 0 low high = None"
| "bisect S f (Suc n) low high =
    (let M = xi_money S; mid = mo_div M (mo_add M low high) (mo_int M 2) in
     if near_zero S f mid then Some mid
     else if mo_less M (mo_mul M (f low) (f mid)) (zero M) then bisect S f n low mid
     else bisect S f n mid high)"

definition bisectXIRR :: "'f solver \<Rightarrow> ('f \<Rightarrow> 'f) \<Rightarrow> 'f \<Rightarrow> 'f option" where
  "bisectXIRR S f high = bisect S f 200 (lowest_rate (xi_money S)) high"

definition guesses :: "'f money \<Rightarrow> 'f list" where
  "guesses M = map (\<lambda>n. lit M n 10) [1, 3, 5, 7, 9, - 3, - 5]"

definition calcXIRR :: "'f solver \<Rightarrow> 'f xirrCashflow list \<Rightarrow> 'f option" where
  "calcXIRR S cfs =
    (let M = xi_money S; z = zero M; f = npv S cfs in
     if length cfs < 2 then None
     else if \<not> list_ex (\<lambda>c. mo_less M z (cf_Amount c)) cfs \<or> \<not> list_ex (\<lambda>c. mo_less M (cf_Amount c) z) cfs then None
     else case first_found (\<lambda>g. newton S f 80 g (xi_inf S)) (guesses M) of Some r \<Rightarrow> Some r
       | None \<Rightarrow> first_found (\<lambda>high. bisectXIRR S f (mo_int M high)) [10, 1000])"

section \<open>The reports\<close>

record 'f XIRRReport =
  xr_Code :: string
  xr_SecurityType :: string
  xr_Market :: string
  xr_XIRRPct :: "'f option"
  xr_Message :: "string option"

record 'f PortfolioXIRRReport =
  px_PortfolioID :: int
  px_XIRRPct :: "'f option"
  px_Value :: 'f
  px_Message :: "string option"

definition round2 :: "'f money \<Rightarrow> 'f \<Rightarrow> 'f" where
  "round2 M v = mo_div M (mo_round M (mo_mul M v (mo_int M 100))) (mo_int M 100)"

definition xirr_layouts :: "string list" where
  "xirr_layouts = [''2006-01-02T15:04:05Z07:00'', ''2006-01-02 15:04:05'', ''2006-01-02 15:04'', ''2006-01-02'']"

definition parseXIRRTime :: "'f solver \<Rightarrow> string \<Rightarrow> time option" where
  "parseXIRRTime S v = first_found (\<lambda>layout. xi_parse S layout v) xirr_layouts"

text \<open>A missing trade time cannot be scanned into a string.\<close>

definition xirr_transaction :: "'f solver \<Rightarrow> 'f txn \<Rightarrow> 'f xirrTransaction option" where
  "xirr_transaction S r = (let z = zero (xi_money S) in
     case tn_time r of None \<Rightarrow> None
     | Some s \<Rightarrow> map_option (\<lambda>t. \<lparr>xt_Amount = coalesce (tn_amount r) z, xt_Direction = coalesce (tn_direction r) [],
         xt_TradeTime = t, xt_Fee = coalesce (tn_fee r) z\<rparr>) (parseXIRRTime S s))"

fun scanXIRRTransactions :: "'f solver \<Rightarrow> 'f txn list \<Rightarrow> 'f xirrTransaction list option" where
  "scanXIRRTransactions S [] = Some []"
| "scanXIRRTransactions S (r # rs) = (case xirr_transaction S r of None \<Rightarrow> None
     | Some x \<Rightarrow> map_option ((#) x) (scanXIRRTransactions S rs))"

definition by_trade_time :: "'f txn list \<Rightarrow> 'f txn list" where
  "by_trade_time = sort_key (\<lambda>r. map (of_char :: char \<Rightarrow> nat) (coalesce (tn_time r) []))"

definition flow_row :: "'f txn \<Rightarrow> bool" where
  "flow_row r \<longleftrightarrow> tn_direction r \<in> {Some ''buy'', Some ''sell'', Some ''dividend''}"

definition queryXIRRTransactions :: "'f solver \<Rightarrow> string \<Rightarrow> ('f, 'f xirrTransaction list) books_proc" where
  "queryXIRRTransactions S code = andThen (qry (\<lambda>t. (take 20000 (by_trade_time (filter flow_row (rows_of code t))), t)))
     (\<lambda>rs. case scanXIRRTransactions S rs of None \<Rightarrow> throw DbError | Some txs \<Rightarrow> ret txs)"

text \<open>The join repeats a transaction for every row of its fund in the portfolio.\<close>

definition in_portfolio :: "int \<Rightarrow> 'f snap \<Rightarrow> bool" where
  "in_portfolio pid s \<longleftrightarrow> coalesce (sn_pid s) 1 = pid"

definition portfolio_txs :: "int \<Rightarrow> 'f books \<Rightarrow> 'f txn list" where
  "portfolio_txs pid t = concat (map (\<lambda>r. map (\<lambda>_. r) (filter (\<lambda>s. in_portfolio pid s \<and> tn_code r = Some (sn_code s)) (bk_snaps t))) (bk_tx t))"

definition queryPortfolioXIRRTransactions :: "'f solver \<Rightarrow> int \<Rightarrow> ('f, 'f xirrTransaction list) books_proc" where
  "queryPortfolioXIRRTransactions S pid = andThen (qry (\<lambda>t. (take 50000 (by_trade_time (filter flow_row (portfolio_txs pid t))), t)))
     (\<lambda>rs. case scanXIRRTransactions S rs of None \<Rightarrow> throw DbError | Some txs \<Rightarrow> ret txs)"

text \<open>\<open>SUM\<close> passes over \<open>NULL\<close>; without any value it is \<open>NULL\<close>.\<close>

definition sum_known :: "'f money \<Rightarrow> 'f option list \<Rightarrow> 'f option" where
  "sum_known M vs = (let known = List.map_filter id vs in if known = [] then None else Some (mo_sum M known))"

definition latest_price :: "'f money \<Rightarrow> string \<Rightarrow> 'f books \<Rightarrow> 'f option option" where
  "latest_price M code t =
    (case sort_key (\<lambda>(_, date, _). map (of_char :: char \<Rightarrow> nat) date) (filter (\<lambda>(c, _). c = code) (bk_navs t)) of
       [] \<Rightarrow> None | rows \<Rightarrow> Some (snd (snd (last rows))))"

text \<open>Without a usable row of the portfolio: the shares of the ledger at the latest price; the warnings are left out.\<close>

definition ledger_market_value :: "'f money \<Rightarrow> string \<Rightarrow> ('f, 'f) books_proc" where
  "ledger_market_value M code =
    andThen (qry (\<lambda>t. (sum_known M (map tn_change (rows_of code t)), t))) (\<lambda>shares.
    case shares of None \<Rightarrow> ret (zero M)
    | Some n \<Rightarrow> if mo_le M n (HeldSharesDust M) then ret (zero M)
        else andThen (qry (\<lambda>t. (latest_price M code t, t))) (\<lambda>price.
          case price of None \<Rightarrow> ret (zero M) | Some p \<Rightarrow> ret (mo_mul M n (coalesce p (zero M)))))"

definition queryCurrentMarketValue :: "'f money \<Rightarrow> string \<Rightarrow> int \<Rightarrow> ('f, 'f) books_proc" where
  "queryCurrentMarketValue M code pid0 =
    (let pid = clampPortfolioID pid0 in
     andThen (qry (\<lambda>t. (select1 (snap_hit code pid) (bk_snaps t), t))) (\<lambda>row.
     case row of None \<Rightarrow> ledger_market_value M code
     | Some s \<Rightarrow> (case (sn_held s, sn_nav s) of
         (Some held, Some nav) \<Rightarrow> if mo_less M (HeldSharesDust M) held then ret (mo_mul M held nav) else ledger_market_value M code
       | _ \<Rightarrow> ledger_market_value M code)))"

definition queryPortfolioMarketValue :: "'f money \<Rightarrow> int \<Rightarrow> ('f, 'f) books_proc" where
  "queryPortfolioMarketValue M pid =
    andThen (qry (\<lambda>t. (sum_known M (map (\<lambda>s. case (sn_held s, sn_nav s) of (Some h, Some n) \<Rightarrow> Some (mo_mul M h n) | _ \<Rightarrow> None)
       (filter (\<lambda>s. (case sn_held s of None \<Rightarrow> False | Some h \<Rightarrow> mo_less M (HeldSharesDust M) h) \<and> in_portfolio pid s) (bk_snaps t))), t)))
     (\<lambda>total. ret (coalesce total (zero M)))"

definition too_few :: string where "too_few = ''not enough cashflows (need >=2 buy/sell/dividend records)''"
definition one_sided :: string where "one_sided = ''not enough cashflows (need both inflow and outflow)''"

text \<open>The answer of the solver as the percentage and the message of a report.\<close>

definition xirr_fields :: "'f solver \<Rightarrow> 'f xirrTransaction list \<Rightarrow> 'f \<Rightarrow> 'f option \<times> string option" where
  "xirr_fields S txs current = (case calcXIRR S (buildXIRRCashflows (xi_money S) txs current) of
     None \<Rightarrow> (None, Some one_sided)
   | Some r \<Rightarrow> (Some (round2 (xi_money S) (mo_mul (xi_money S) r (mo_int (xi_money S) 100))), None))"

text \<open>\<open>identity\<close> reads the kind and the market of a code from \<open>fund_details\<close>.\<close>

definition GetFundXIRR :: "'f solver \<Rightarrow> (string \<Rightarrow> 'f books \<Rightarrow> (string \<times> string) option) \<Rightarrow> string \<Rightarrow> int \<Rightarrow> ('f, 'f XIRRReport) books_proc" where
  "GetFundXIRR S identity code pid0 =
    (let pid = clampPortfolioID pid0 in
     andThen (qry (\<lambda>t. (identity code t, t))) (\<lambda>ident.
     let (kind, market) = (case ident of None \<Rightarrow> (''fund'', []) | Some x \<Rightarrow> x);
         report = (\<lambda>(pct, msg). \<lparr>xr_Code = code, xr_SecurityType = kind, xr_Market = market, xr_XIRRPct = pct, xr_Message = msg\<rparr>) in
     andThen (queryXIRRTransactions S code) (\<lambda>txs.
     if length txs < 2 then ret (report (None, Some too_few))
     else andThen (queryCurrentMarketValue (xi_money S) code pid) (\<lambda>current. ret (report (xirr_fields S txs current))))))"

definition GetPortfolioXIRR :: "'f solver \<Rightarrow> int \<Rightarrow> ('f, 'f PortfolioXIRRReport) books_proc" where
  "GetPortfolioXIRR S pid0 =
    (let pid = clampPortfolioID pid0 in
     andThen (queryPortfolioXIRRTransactions S pid) (\<lambda>txs.
     andThen (queryPortfolioMarketValue (xi_money S) pid) (\<lambda>current.
     let (pct, msg) = (if length txs < 2 then (None, Some too_few) else xirr_fields S txs current)
     in ret \<lparr>px_PortfolioID = pid, px_XIRRPct = pct, px_Value = round2 (xi_money S) current, px_Message = msg\<rparr>)))"

section \<open>What the solver answers\<close>

lemma first_found_Some: "first_found g xs = Some y \<Longrightarrow> \<exists>x \<in> set xs. g x = Some y"
  by (induction xs) (auto split: option.splits)

lemma newton_Some: "newton S f n rate previous = Some r \<Longrightarrow>
    near_zero S f r \<or> (\<exists>rate previous. r = newton_step S f rate \<and>
      mo_less (xi_money S) (mo_abs (xi_money S) (mo_sub (xi_money S) r previous)) (same_rate (xi_money S)))"
  by (induction S f n rate previous rule: newton.induct) (auto simp: Let_def split: if_splits)

lemma bisect_Some: "bisect S f n low high = Some r \<Longrightarrow> near_zero S f r"
  by (induction S f n low high rule: bisect.induct) (auto simp: Let_def split: if_splits)

definition flows_both_ways :: "'f money \<Rightarrow> 'f xirrCashflow list \<Rightarrow> bool" where
  "flows_both_ways M cfs \<longleftrightarrow> (\<exists>c \<in> set cfs. mo_less M (zero M) (cf_Amount c)) \<and> (\<exists>c \<in> set cfs. mo_less M (cf_Amount c) (zero M))"

lemma calcXIRR_Some:
  assumes "calcXIRR S cfs = Some r"
  shows "2 \<le> length cfs \<and> flows_both_ways (xi_money S) cfs \<and>
    (near_zero S (npv S cfs) r \<or> (\<exists>rate previous. r = newton_step S (npv S cfs) rate \<and>
      mo_less (xi_money S) (mo_abs (xi_money S) (mo_sub (xi_money S) r previous)) (same_rate (xi_money S))))"
  using assms
  by (auto simp: calcXIRR_def Let_def flows_both_ways_def list_ex_iff bisectXIRR_def
      dest!: first_found_Some newton_Some bisect_Some split: if_splits option.splits)

section \<open>The properties\<close>

text \<open>
  A rate that is answered belongs to at least two cash flows, some in and some out, and is, within the
  tolerance of the code, a root of their net value or a step of Newton's iteration that came back to an earlier rate.
\<close>

theorem xirr_answer:
  assumes "calcXIRR S cfs = Some r"
  shows "2 \<le> length cfs \<and> flows_both_ways (xi_money S) cfs \<and>
    (near_zero S (npv S cfs) r \<or> (\<exists>rate previous. r = newton_step S (npv S cfs) rate \<and>
      mo_less (xi_money S) (mo_abs (xi_money S) (mo_sub (xi_money S) r previous)) (same_rate (xi_money S))))"
  using assms by (rule calcXIRR_Some)

section \<open>Exact arithmetic\<close>

definition exact :: "rat money" where
  "exact = \<lparr>mo_int = of_int, mo_le = (\<le>), mo_less = (<), mo_eq = (=), mo_add = (+), mo_sub = (-), mo_mul = (*), mo_div = (/),
     mo_neg = uminus, mo_abs = abs, mo_round = \<lambda>x. of_int \<lfloor>x + 1/2\<rfloor>, mo_finite = \<lambda>_. True, mo_sum = sum_list\<rparr>"

definition exact_solver :: "rat solver" where
  "exact_solver = \<lparr>xi_money = exact, xi_pow = \<lambda>x y. x ^ nat \<lfloor>y\<rfloor>, xi_max = max, xi_min = min, xi_inf = 1000000000,
     xi_parse = \<lambda>_ _. None\<rparr>"

lemmas exact_simps = exact_def exact_solver_def npv_def near_zero_def slope_def newton_step_def clamp_rate_def lit_def zero_def
  root_tolerance_def probe_step_def flat_slope_def same_rate_def lowest_rate_def guesses_def Let_def

text \<open>Lent for a year and paid back with a tenth on top.\<close>

definition year_loan :: "rat xirrCashflow list" where
  "year_loan = [\<lparr>cf_Amount = - 100, cf_Years = 1\<rparr>, \<lparr>cf_Amount = 110, cf_Years = 0\<rparr>]"

theorem xirr_answer_witness: "flows_both_ways exact year_loan \<and> calcXIRR exact_solver year_loan = Some (1 / 10)"
proof -
  have run: "calcXIRR exact_solver year_loan = Some (1 / 10)"
    by (simp add: calcXIRR_def year_loan_def exact_simps eval_nat_numeral)
  from xirr_answer [OF run] run show ?thesis by (simp add: exact_solver_def)
qed

text \<open>
  The loop compares its next rate with the one before the current rate, not with the current one, so an iteration
  that swings between two rates counts as settled: here the answer is a tenth, where the net value is 100.
\<close>

definition swinging :: "rat xirrCashflow list" where
  "swinging = [\<lparr>cf_Amount = 449999875000000 / 159999999999, cf_Years = 3\<rparr>, \<lparr>cf_Amount = - (581666729166625 / 53333333333), cf_Years = 2\<rparr>,
     \<lparr>cf_Amount = 2165501126250125 / 159999999999, cf_Years = 1\<rparr>, \<lparr>cf_Amount = - (162581113452455 / 30476190476), cf_Years = 0\<rparr>]"

lemma swinging_steps:
  "npv exact_solver swinging (1 / 10) = 100" "npv exact_solver swinging (1 / 2) = - 80"
  "newton_step exact_solver (npv exact_solver swinging) (1 / 10) = 1 / 2"
  "newton_step exact_solver (npv exact_solver swinging) (1 / 2) = 1 / 10"
  by (simp_all add: swinging_def exact_simps power3_eq_cube power2_eq_square)

lemma swinging_slopes:
  "slope exact_solver (npv exact_solver swinging) (1 / 10) = - 250" "slope exact_solver (npv exact_solver swinging) (1 / 2) = - 200"
  by (simp_all add: swinging_def exact_simps power3_eq_cube power2_eq_square)

lemma swinging_no_root:
  "\<not> near_zero exact_solver (npv exact_solver swinging) (1 / 10)" "\<not> near_zero exact_solver (npv exact_solver swinging) (1 / 2)"
  unfolding near_zero_def swinging_steps by (simp_all add: exact_def exact_solver_def root_tolerance_def lit_def)

lemma exact_select:
  "xi_money exact_solver = exact" "mo_less exact = (<)" "mo_abs exact = abs" "mo_sub exact = (-)" "mo_neg exact = uminus"
  "flat_slope exact = 1 / 100000000000000" "same_rate exact = 1 / 1000000000" "zero exact = 0"
  "clamp_rate exact_solver (1 / 2) = 1 / 2" "lit exact 1 10 = 1 / 10"
  by (simp_all add: exact_simps)

lemma newton_swings: "newton exact_solver (npv exact_solver swinging) 80 (1 / 10) (xi_inf exact_solver) = Some (1 / 10)"
proof -
  have eighty: "(80::nat) = Suc (Suc 78)" by simp
  show ?thesis unfolding eighty newton.simps Let_def
    by (simp add: swinging_slopes swinging_no_root swinging_steps exact_select) (simp add: exact_solver_def)
qed

lemma settled_away_from_root: "calcXIRR exact_solver swinging = Some (1 / 10)" "npv exact_solver swinging (1 / 10) = 100"
proof -
  have "list_ex (\<lambda>c. 0 < cf_Amount c) swinging" "list_ex (\<lambda>c. cf_Amount c < 0) swinging" "\<not> length swinging < 2"
    by (simp_all add: swinging_def)
  then show "calcXIRR exact_solver swinging = Some (1 / 10)"
    by (simp add: calcXIRR_def Let_def exact_select guesses_def newton_swings)
qed (rule swinging_steps)

end
