(* ===== verification/Spec2Isabelle.thy ===== *)
theory Spec2Isabelle
  imports HttpAuth Config OAuthExamples Rebind SchedulerProps TransactionsProps MigrateProps RateBuckets Router SecuritiesProps IntegrityProps SourceEvents Xirr
begin

text \<open>
  \<^bold>\<open>A verification development for fund-dashboard\<close>

  The program is a self-hosted dashboard for a fund portfolio: a Go server
  (\<open>src/cmd\<close>, \<open>src/internal\<close>) over SQLite or PostgreSQL, with a web client. What has to be
  right about it is who may do what, and what its books say. The owner logs in with one password, agents
  come in over \<open>/mcp\<close> with a key or an OAuth token, and a write by an agent needs a confirmation that the
  owner prepared. The books are transactions, from which positions are recalculated; investment plans add
  orders to them on the days a scheduler decides. The development models these parts from the tables up to the
  endpoints.

  \<^bold>\<open>Reading the model.\<close> A Go struct is a record, an enumeration or a set of sentinel errors a
  datatype, a fallible function returns a sum or an option, a database a record of tables behind
  \<open>Prelude.stmt\<close>: each statement consumes one entry of a schedule of faults, so every theorem about
  a run holds for every pattern of failing statements. Strings are lists of bytes. Times are
  nanoseconds since 1970 as integers; each reading of the clock and each draw of random bytes is an
  argument. Code outside the repository - SHA-256, Argon2id, ECDSA, \<open>json.Unmarshal\<close>, \<open>url.Parse\<close>,
  \<open>net.ParseIP\<close> - is an argument too, and a theorem says what it needs of it.

  \<^bold>\<open>Theories.\<close>
  \<^item> \<open>Prelude\<close>, \<open>GoText\<close>, \<open>Encoding\<close>, \<open>Json\<close>, \<open>Calendar\<close>, \<open>UrlQuery\<close>: the effect of a procedure on a
    database, and what the source uses of Go's \<open>strings\<close>, \<open>strconv\<close>, \<open>hex\<close>, \<open>base64\<close>, \<open>json\<close>, \<open>time\<close>
    and \<open>url\<close>.
  \<^item> \<open>SingleUse\<close>: the interface of a ticket that is used at most once, as locales; confirmations,
    authorization codes and refresh tokens are its interpretations.
  \<^item> \<open>Limiter\<close> (\<open>internal/auth/limiter.go\<close>), \<open>Password\<close> (\<open>password.go\<close>), \<open>AuthStore\<close> (\<open>store.go\<close>),
    \<open>AuthService\<close> (\<open>service.go\<close>): the owner's login, on the level of the service.
  \<^item> \<open>Registry\<close> (\<open>internal/agenttools\<close>), \<open>AuditTrail\<close> (\<open>internal/audit\<close>), \<open>Confirmations\<close>
    (\<open>internal/confirmations\<close>, \<open>internal/repository/agentstate\<close>), \<open>AgentOps\<close> (\<open>internal/agentops\<close>),
    \<open>McpServer\<close> (\<open>internal/mcp/server.go\<close> and its helpers): what an agent may do. The handlers of the
    tools are an argument of the server, as the claims are about what stands in front of them.
  \<^item> \<open>OAuthMetadata\<close>, \<open>OAuthCodes\<close>, \<open>OAuthStore\<close>, \<open>Jwt\<close>, \<open>OAuthClients\<close>, \<open>OAuthFlow\<close> (\<open>internal/oauth\<close>): the
    authorization server. \<open>OAuthRuns\<close> has its runs, \<open>OAuthProps\<close>, \<open>OAuthTokens\<close>, \<open>OAuthUse\<close>,
    \<open>OAuthGuarantees\<close> the invariant of a run and what follows from it, \<open>OAuthExamples\<close> a deployment.
  \<^item> \<open>HttpGuards\<close>, \<open>HttpAuth\<close>, \<open>HttpMcp\<close> (\<open>internal/httpapi\<close>): the guards in front of the handlers, the
    handlers of \<open>/api/auth\<close>, and \<open>/mcp\<close>.
  \<^item> \<open>Config\<close> (\<open>internal/config\<close>, the options of \<open>internal/app\<close>): the configuration, and what an accepted one
    means for \<open>/mcp\<close> on an open server. \<open>RateBuckets\<close> (\<open>ratelimit.go\<close>): the token buckets. \<open>Router\<close>
    (\<open>router.go\<close> and the \<open>register...Routes\<close> functions): the whole route table with its guards, run in
    order on a request, and what a request has to carry below \<open>/api\<close>.
  \<^item> \<open>Rebind\<close> (\<open>internal/repository/db/open.go\<close>): the rewriting of placeholders for PostgreSQL. \<open>Schema\<close>
    (\<open>schema_sqlite.go\<close>, \<open>schema_pg.go\<close>): every table and index of both engines as data. \<open>Migrate\<close> (\<open>migrate.go\<close>):
    a boot, statement by statement over a catalog; \<open>MigrateProps\<close>: what a boot that succeeds has done.
  \<^item> \<open>Triples\<close>, \<open>Runes\<close>, \<open>Dates\<close>: triples for procedures on a database, UTF-8 with the clamping and the
    folding of texts, calendar days and their texts.
  \<^item> \<open>DcaPlans\<close>, \<open>DcaRun\<close> (\<open>internal/service/portfolio/dca.go\<close>, \<open>dca_run.go\<close>): investment plans and a run of them;
    \<open>DcaProps\<close>: orders are appended, once per plan and day. \<open>Schedule\<close>, \<open>Scheduler\<close>
    (\<open>internal/jobs/scheduler.go\<close>): windows, their durable claims, and the jobs of a tick as steps between
    which nothing interleaves; \<open>SchedulerProps\<close> has reachability over starts, ticks and stops.
  \<^item> \<open>Snapshot\<close> (\<open>internal/snapshot\<close>), \<open>Transactions\<close> (\<open>internal/service/admin/transactions*.go\<close>,
    \<open>adjust_position.go\<close>): the ledger and the positions. \<open>RecalcProps\<close> bounds a recalculation,
    \<open>TransactionsProps\<close> shows that every write leaves the positions settled with the ledger, \<open>Integrity\<close> and
    \<open>IntegrityProps\<close> (\<open>integrity.go\<close>) that the report of such books finds nothing.
  \<^item> \<open>Securities\<close>, \<open>SecuritiesProps\<close> (\<open>securities_write.go\<close>): the master data, and the deletion of a security
    with all that is its own. \<open>SourceEvents\<close> (\<open>source_events.go\<close>). \<open>Xirr\<close> (\<open>xirr.go\<close>, \<open>xirr_calc.go\<close>): the
    annualised return, with flows on which the solver stops away from a root.

  \<^bold>\<open>State and its correspondence.\<close> \<open>auth_tables\<close> are the tables of the authentication, \<open>oauth_tables\<close> of the
  authorization server, \<open>ledger\<close> what investment plans see, \<open>books\<close> the ledger with its positions, \<open>master\<close> the
  master data with the tables of its cascade, \<open>catalog\<close> the schema itself. An operation of the source is the
  definition of its name, its receiver left out; a helper definition stands for the lines that the manifest
  names. Amounts are float64: a type variable with a record of its operations (\<open>floats\<close>, \<open>money\<close>), of which only
  the named conditions \<open>lawful\<close>, \<open>fair\<close> and \<open>steady\<close> are assumed, where they are.

  \<^bold>\<open>Recursion and bounds.\<close> Every loop of the source that is modelled is a structural recursion or has a
  measure. Where the source counts, the count is the recursion: seven days of looking back for a price, three
  attempts to write a position (fourteen statements in a recalculation), eighty turns of Newton's iteration for
  each of seven guesses and two bisections of two hundred. The lockout of the limiter is modelled on 64-bit words
  as well as on integers, with a theorem that the two agree; the remaining integers are small.

  \<^bold>\<open>Not modelled.\<close> The web client; the crawlers and the price sources, which are the network; the reports
  that only read (summary, allocation, timeline, penetration, backtests, freshness, status), which are SQL
  aggregates turned into texts; the parsing of arguments and the bodies of responses around the services; the
  handlers of single tools, which are an argument of the MCP server; opening a database, the command-line
  programs, and logging.
\<close>

end
